(* ===== verification/Go_Prelude.thy ===== *)
theory Go_Prelude
  imports Main "HOL-Library.Word" "HOL-Library.Signed_Division"
begin

text \<open>
  Shared ground of the development: Go's machine integers and the parts of the
  standard library (\<^verbatim>\<open>math/bits\<close>, slices) the modelled code uses, the error values of
  its fallible functions, and the generic lemmas on words, masks and residues that carry
  the component proofs.

  \<^item> \<^verbatim>\<open>uint64\<close>, \<^verbatim>\<open>uint32\<close>, \<^verbatim>\<open>uint16\<close> and \<^verbatim>\<open>byte\<close> are words of that width.
  \<^item> \<^verbatim>\<open>int32\<close>, \<^verbatim>\<open>int64\<close> and \<^verbatim>\<open>int\<close> (64 bits wide) are \<^typ>\<open>int\<close> values; \<open>i32\<close> and
    \<open>i64\<close> write out the wrap-around of an arithmetic operation at that width.
  \<^item> Go's shifts by 64 or more give 0, as \<^const>\<open>push_bit\<close> and \<^const>\<open>drop_bit\<close> do.
\<close>

unbundle bit_operations_syntax

type_synonym u64 = "64 word"
type_synonym u32 = "32 word"
type_synonym u16 = "16 word"
type_synonym u8 = "8 word"

named_theorems go_int \<open>reading Go's integer operations as arithmetic\<close>
named_theorems residue \<open>reading masked word arithmetic as residues\<close>

section \<open>Machine integers\<close>

definition i32 :: "int \<Rightarrow> int" where
  "i32 x = signed_take_bit 31 x"

definition i64 :: "int \<Rightarrow> int" where
  "i64 x = signed_take_bit 63 x"

text \<open>The conversion \<^verbatim>\<open>uint64(x)\<close> of a signed value, and \<^verbatim>\<open>int64(x)\<close> of an unsigned one.\<close>

definition u64_of :: "int \<Rightarrow> u64" where
  "u64_of x = word_of_int x"

definition i64_of :: "u64 \<Rightarrow> int" where
  "i64_of x = sint x"

text \<open>\<^verbatim>\<open>x << n\<close> and \<^verbatim>\<open>x >> n\<close> on \<^verbatim>\<open>uint64\<close> with an unsigned count.\<close>

definition shl :: "u64 \<Rightarrow> u64 \<Rightarrow> u64" where
  "shl x n = push_bit (unat n) x"

definition shr :: "u64 \<Rightarrow> u64 \<Rightarrow> u64" where
  "shr x n = drop_bit (unat n) x"

text \<open>\<^verbatim>\<open>x >> n\<close> on \<^verbatim>\<open>int64\<close>: the arithmetic shift.\<close>

definition sar :: "int \<Rightarrow> u64 \<Rightarrow> int" where
  "sar x n = drop_bit (unat n) x"

text \<open>Go's signed division and remainder truncate towards zero and wrap at the width.\<close>

definition quo64 :: "int \<Rightarrow> int \<Rightarrow> int" where
  "quo64 a b = i64 (a sdiv b)"

definition rem64 :: "int \<Rightarrow> int \<Rightarrow> int" where
  "rem64 a b = i64 (a smod b)"

definition fits32 :: "int \<Rightarrow> bool" where
  "fits32 x \<longleftrightarrow> - (2 ^ 31) \<le> x \<and> x < 2 ^ 31"

definition fits64 :: "int \<Rightarrow> bool" where
  "fits64 x \<longleftrightarrow> - (2 ^ 63) \<le> x \<and> x < 2 ^ 63"

lemma i32_id [go_int]: "- (2 ^ 31) \<le> x \<Longrightarrow> x < 2 ^ 31 \<Longrightarrow> i32 x = x"
  unfolding i32_def by (rule signed_take_bit_int_eq_self) auto

lemma i64_id [go_int]: "- (2 ^ 63) \<le> x \<Longrightarrow> x < 2 ^ 63 \<Longrightarrow> i64 x = x"
  unfolding i64_def by (rule signed_take_bit_int_eq_self) auto

lemma i32_fits: "fits32 (i32 x)"
proof -
  have "- (2 ^ 31) \<le> signed_take_bit 31 x" and "signed_take_bit 31 x < 2 ^ 31"
    by (rule signed_take_bit_int_greater_eq_minus_exp, rule signed_take_bit_int_less_exp)
  then show ?thesis by (simp add: i32_def fits32_def)
qed

lemma i64_of_u64_of [simp]: "i64_of (u64_of x) = i64 x"
  unfolding i64_of_def u64_of_def i64_def by transfer simp

section \<open>The bit-counting functions of math/bits\<close>

definition OnesCount64 :: "u64 \<Rightarrow> nat" where
  "OnesCount64 x = length (filter (bit x) [0..<64])"

definition TrailingZeros64 :: "u64 \<Rightarrow> nat" where
  "TrailingZeros64 x = length (takeWhile (\<lambda>i. \<not> bit x i) [0..<64])"

definition LeadingZeros64 :: "u64 \<Rightarrow> nat" where
  "LeadingZeros64 x = length (takeWhile (\<lambda>i. \<not> bit x i) (rev [0..<64]))"

definition Len64 :: "u64 \<Rightarrow> nat" where
  "Len64 x = 64 - LeadingZeros64 x"

definition boolToUint64 :: "bool \<Rightarrow> u64" where
  "boolToUint64 b = (if b then 1 else 0)"

section \<open>Fallible steps\<close>

text \<open>\<^verbatim>\<open>v, err := f(); if err != nil { return err }\<close>: an error ends the computation.\<close>

definition then_step :: "'e + 'a \<Rightarrow> ('a \<Rightarrow> 'e + 'b) \<Rightarrow> 'e + 'b" where
  "then_step r f = (case r of Inl e \<Rightarrow> Inl e | Inr x \<Rightarrow> f x)"

lemma then_step_simps [simp]: "then_step (Inl e) f = Inl e" "then_step (Inr x) f = f x"
  by (simp_all add: then_step_def)

lemma then_step_Inr: "then_step r f = Inr y \<longleftrightarrow> (\<exists>x. r = Inr x \<and> f x = Inr y)"
  by (cases r) auto

lemma then_step_Inl: "then_step r f = Inl e \<longleftrightarrow> r = Inl e \<or> (\<exists>x. r = Inr x \<and> f x = Inl e)"
  by (cases r) auto

text \<open>
  Loops over a slice: a state threaded through the iterations, and the special case of a loop
  that appends one result per element. Both end with the first error.
\<close>

primrec loop_step :: "('s \<Rightarrow> 'a \<Rightarrow> 'e + 's) \<Rightarrow> 's \<Rightarrow> 'a list \<Rightarrow> 'e + 's" where
  "loop_step f s [] = Inr s"
| "loop_step f s (x # xs) = then_step (f s x) (\<lambda>s. loop_step f s xs)"

primrec append_step :: "('a \<Rightarrow> 'e + 'b) \<Rightarrow> 'a list \<Rightarrow> 'e + 'b list" where
  "append_step f [] = Inr []"
| "append_step f (x # xs) = then_step (f x) (\<lambda>y. then_step (append_step f xs) (\<lambda>ys. Inr (y # ys)))"

lemma append_step_cong [fundef_cong]:
  "xs = ys \<Longrightarrow> (\<And>x. x \<in> set ys \<Longrightarrow> f x = g x) \<Longrightarrow> append_step f xs = append_step g ys"
  by (induction xs arbitrary: ys) auto

lemma loop_step_cong [fundef_cong]:
  "xs = ys \<Longrightarrow> s = t \<Longrightarrow> (\<And>s x. x \<in> set ys \<Longrightarrow> f s x = g s x) \<Longrightarrow> loop_step f s xs = loop_step g t ys"
proof (induction xs arbitrary: s t ys)
  case (Cons x xs)
  then show ?case by (cases "g t x") auto
qed simp

lemma append_step_Inr: "append_step f xs = Inr ys \<longleftrightarrow> list_all2 (\<lambda>x y. f x = Inr y) xs ys"
  by (induction xs arbitrary: ys) (auto simp: then_step_Inr list_all2_Cons1)

lemma append_step_set: "append_step f xs = Inr ys \<Longrightarrow> y \<in> set ys \<Longrightarrow> \<exists>x\<in>set xs. f x = Inr y"
  by (induction xs arbitrary: ys) (auto simp: then_step_Inr)

lemma append_step_Inl: "append_step f xs = Inl e \<Longrightarrow> \<exists>x\<in>set xs. f x = Inl e"
  by (induction xs) (auto simp: then_step_Inl)

text \<open>What every iteration keeps holds at the end.\<close>

lemma loop_step_invariant:
  "\<lbrakk>loop_step f s xs = Inr t; P s; \<And>s x s'. x \<in> set xs \<Longrightarrow> P s \<Longrightarrow> f s x = Inr s' \<Longrightarrow> P s'\<rbrakk> \<Longrightarrow> P t"
proof (induction xs arbitrary: s)
  case (Cons x xs)
  then obtain s' where "f s x = Inr s'" "loop_step f s' xs = Inr t" by (auto simp: then_step_Inr)
  then show ?case using Cons.IH [of s'] Cons.prems by (metis list.set_intros)
qed simp

text \<open>
  A call that changes a state and may fail: an error ends the computation and keeps the state
  reached so far, as a Go method with a pointer receiver does.
\<close>

definition then_st :: "('e + 'a) \<times> 's \<Rightarrow> ('a \<Rightarrow> 's \<Rightarrow> ('e + 'b) \<times> 's) \<Rightarrow> ('e + 'b) \<times> 's" where
  "then_st r f = (case r of (Inl e, s) \<Rightarrow> (Inl e, s) | (Inr x, s) \<Rightarrow> f x s)"

lemma then_st_simps [simp]: "then_st (Inl e, s) f = (Inl e, s)" "then_st (Inr x, s) f = f x s"
  by (simp_all add: then_st_def)

lemma then_st_Inr: "then_st r f = (Inr y, t) \<longleftrightarrow> (\<exists>x s. r = (Inr x, s) \<and> f x s = (Inr y, t))"
  by (cases r; cases "fst r") auto

lemma then_st_cong [fundef_cong]:
  "r = r' \<Longrightarrow> (\<And>x s. r' = (Inr x, s) \<Longrightarrow> f x s = g x s) \<Longrightarrow> then_st r f = then_st r' g"
  by (cases r'; cases "fst r'") auto

primrec loop_st :: "('a \<Rightarrow> 's \<Rightarrow> ('e + unit) \<times> 's) \<Rightarrow> 'a list \<Rightarrow> 's \<Rightarrow> ('e + unit) \<times> 's" where
  "loop_st f [] s = (Inr (), s)"
| "loop_st f (x # xs) s = then_st (f x s) (\<lambda>_ s. loop_st f xs s)"

lemma loop_st_cong [fundef_cong]:
  "xs = ys \<Longrightarrow> s = t \<Longrightarrow> (\<And>x s. x \<in> set ys \<Longrightarrow> f x s = g x s) \<Longrightarrow> loop_st f xs s = loop_st g ys t"
proof (induction xs arbitrary: s t ys)
  case (Cons x xs)
  then show ?case by (cases "g x t"; cases "fst (g x t)") auto
qed simp

lemma loop_st_append: "loop_st f (xs @ ys) s = then_st (loop_st f xs s) (\<lambda>_ s. loop_st f ys s)"
proof (induction xs arbitrary: s)
  case (Cons x xs)
  then show ?case by (cases "f x s"; cases "fst (f x s)") auto
qed simp

text \<open>A computation ends well: its error is not one of the bad ones, and its result satisfies a predicate.\<close>

definition settles :: "('e \<Rightarrow> bool) \<Rightarrow> ('a \<Rightarrow> 's \<Rightarrow> bool) \<Rightarrow> ('e + 'a) \<times> 's \<Rightarrow> bool" where
  "settles bad P r = (case r of (Inl e, _) \<Rightarrow> \<not> bad e | (Inr x, st) \<Rightarrow> P x st)"

lemma settles_simps [simp]: "settles bad P (Inl e, st) = (\<not> bad e)" "settles bad P (Inr x, st) = P x st"
  by (simp_all add: settles_def)

lemma settles_then_st:
  "settles bad P r \<Longrightarrow> (\<And>x st. P x st \<Longrightarrow> settles bad Q (f x st)) \<Longrightarrow> settles bad Q (then_st r f)"
  by (cases r; cases "fst r") auto

lemma settles_mono: "settles bad P r \<Longrightarrow> (\<And>x st. P x st \<Longrightarrow> Q x st) \<Longrightarrow> settles bad Q r"
  by (auto simp: settles_def split: prod.split sum.split)

lemma settles_loop_st:
  assumes "\<And>x st. x \<in> set xs \<Longrightarrow> P st \<Longrightarrow> settles bad (\<lambda>_. P) (f x st)"
  shows "P st \<Longrightarrow> settles bad (\<lambda>_. P) (loop_st f xs st)"
  using assms
proof (induction xs arbitrary: st)
  case (Cons x xs)
  then have "settles bad (\<lambda>_. P) (f x st)" by simp
  then show ?case unfolding loop_st.simps by (rule settles_then_st) (use Cons in simp)
qed simp

section \<open>Masked word arithmetic is arithmetic modulo a power of two\<close>

lemma and_mask_take_bit: "(w :: u64) AND mask n = take_bit n w"
  by (simp add: take_bit_eq_mask)

lemma uint_and_mask [residue]: "uint ((w :: u64) AND mask n) = uint w mod 2 ^ n"
  unfolding and_mask_take_bit unsigned_take_bit_eq by (rule take_bit_eq_mod)

lemma mod_pow_64:
  assumes "n \<le> 64"
  shows "x mod 2 ^ 64 mod 2 ^ n = x mod (2 ^ n :: int)"
  using le_imp_power_dvd [OF assms] by (rule mod_mod_cancel)

lemma uint_plus_mod: "uint (a + b :: u64) = (uint a + uint b) mod 2 ^ 64"
  by (simp add: uint_word_ariths)

lemma uint_minus_mod: "uint (a - b :: u64) = (uint a - uint b) mod 2 ^ 64"
  by (simp add: uint_word_ariths)

lemma uint_mult_mod: "uint (a * b :: u64) = (uint a * uint b) mod 2 ^ 64"
  by (simp add: uint_word_ariths)

lemma uint_not_mod: "uint (NOT a :: u64) = (- uint a - 1) mod 2 ^ 64"
proof -
  have "NOT a = - a - 1" by (simp add: not_eq_complement)
  then show ?thesis by (simp add: uint_word_ariths mod_simps)
qed

lemma mask_plus [residue]:
  assumes "n \<le> 64"
  shows "uint ((a + b) AND mask n :: u64) = (uint a + uint b) mod 2 ^ n"
  by (simp only: uint_and_mask uint_plus_mod mod_pow_64 [OF assms])

lemma mask_minus [residue]:
  assumes "n \<le> 64"
  shows "uint ((a - b) AND mask n :: u64) = (uint a - uint b) mod 2 ^ n"
  by (simp only: uint_and_mask uint_minus_mod mod_pow_64 [OF assms])

lemma uint_mask: "n \<le> 64 \<Longrightarrow> uint (mask n :: u64) = 2 ^ n - 1"
proof -
  assume "n \<le> 64"
  have "uint (mask n :: u64) = (- 1) mod 2 ^ n"
    using uint_and_mask [of "- 1" n] mod_pow_64 [OF \<open>n \<le> 64\<close>, of "- 1"]
    by (simp add: unsigned_minus_1_eq_mask mask_eq_exp_minus_1)
  also have "\<dots> = 2 ^ n - 1"
    by (simp add: zmod_minus1)
  finally show ?thesis .
qed

lemma le_mask_iff: "n \<le> 64 \<Longrightarrow> (w :: u64) \<le> mask n \<longleftrightarrow> uint w < 2 ^ n"
  by (simp add: word_le_def uint_mask)

lemma and_mask_id: "n \<le> 64 \<Longrightarrow> (w :: u64) \<le> mask n \<Longrightarrow> w AND mask n = w"
  by (simp add: le_mask_iff uint_and_mask word_uint_eq_iff)

lemma and_mask_le: "(w :: u64) AND mask n \<le> mask n"
  by (rule word_and_le1)

lemma u64_of_uint [residue]: "0 \<le> x \<Longrightarrow> x < 2 ^ 64 \<Longrightarrow> uint (u64_of x) = x"
  by (simp add: u64_of_def uint_word_of_int)

text \<open>Integer quotients in inequalities.\<close>

lemma int_le_div_iff: "0 < q \<Longrightarrow> b \<le> a div q \<longleftrightarrow> b * q \<le> (a :: int)"
proof
  assume q: "0 < q" and "b \<le> a div q"
  then have "b * q \<le> a div q * q" by simp
  also have "\<dots> \<le> a" using q by (metis div_mult_mod_eq le_add_same_cancel1 pos_mod_sign)
  finally show "b * q \<le> a" .
next
  assume q: "0 < q" and "b * q \<le> a"
  then have "b * q div q \<le> a div q" by (intro zdiv_mono1)
  with q show "b \<le> a div q" by simp
qed

lemma int_div_less_iff: "0 < q \<Longrightarrow> a div q < b \<longleftrightarrow> a < b * (q :: int)"
  using int_le_div_iff [of q b a] by linarith

text \<open>A difference on a ring of size \<open>N\<close>, case by case.\<close>

lemma mod_diff_ring:
  assumes "0 \<le> a" "a < N" "0 \<le> b" "b < (N :: int)"
  shows "(a - b) mod N = (if b \<le> a then a - b else a - b + N)"
proof (cases "b \<le> a")
  case True
  with assms show ?thesis by (simp add: mod_pos_pos_trivial)
next
  case False
  with assms have "(a - b + N) mod N = a - b + N" by (intro mod_pos_pos_trivial) auto
  with False show ?thesis by simp
qed

lemma mod_add_ring:
  assumes "0 \<le> a" "a < N" "0 \<le> b" "b < (N :: int)"
  shows "(a + b) mod N = (if a + b < N then a + b else a + b - N)"
proof (cases "a + b < N")
  case True
  with assms show ?thesis by (simp add: mod_pos_pos_trivial)
next
  case False
  with assms have "(a + b - N) mod N = a + b - N" by (intro mod_pos_pos_trivial) auto
  with False show ?thesis by simp
qed

lemma dvd_mod_ring:
  fixes s N x :: int
  assumes "s dvd N"
  shows "s dvd x mod N \<longleftrightarrow> s dvd x"
  using assms by (simp add: dvd_mod_iff)

lemma mod_eq_iff_dvd: "(a :: int) mod s = b mod s \<longleftrightarrow> s dvd a - b"
  by (simp add: mod_eq_dvd_iff)

lemma u64_mod_mod [simp]: "(a mod b) mod b = (a mod b :: u64)"
  by (simp add: word_uint_eq_iff uint_mod)

lemma u64_mod_le: "(a mod b :: u64) \<le> a"
  by (simp add: word_le_def uint_mod zmod_le_nonneg_dividend)

lemma mod_diff_nonzero:
  assumes "0 \<le> a" "a < N" "0 \<le> b" "b < (N :: int)" "a \<noteq> b"
  shows "0 < (a - b) mod N"
  unfolding mod_diff_ring [OF assms(1-4)] using assms by auto

lemma uint_of_nat_mult: "uint (of_nat i * w :: u64) = (int i * uint w) mod 2 ^ 64"
proof -
  have "of_nat i * w = word_of_int (int i * uint w)"
    by (simp flip: wi_hom_mult)
  then show ?thesis by (simp only: uint_word_of_int) simp
qed

end
