(* ===== verification/Float_Format.thy ===== *)
theory Float_Format
  imports Go_Prelude
begin

text \<open>
  \<^verbatim>\<open>pkg/pcode/floatformat.go\<close>: the target floating-point encodings and the float p-code
  operations. The bit-level part (field extraction and packing, rounding, conversion
  between formats) is computed here; the double arithmetic of the Go runtime, reached
  through the operators of \<^verbatim>\<open>float64\<close> and package \<^verbatim>\<open>math\<close>, is the record \<open>hostfloat\<close>
  over an abstract type of doubles, an argument of the operations that use it.
\<close>

section \<open>Helpers shared by the evaluators\<close>

text \<open>\<^verbatim>\<open>maskForSize\<close> (\<^verbatim>\<open>rules_arith.go\<close>): the all-ones mask of \<^verbatim>\<open>size\<close> bytes.\<close>

definition maskForSize :: "int \<Rightarrow> u64" where
  "maskForSize sz =
     (if sz \<le> 0 then 0
      else if sz \<ge> 8 then NOT 0
      else shl 1 (u64_of sz * 8) - 1)"

definition signbitNegative :: "u64 \<Rightarrow> int \<Rightarrow> bool" where
  "signbitNegative val sz =
     (if sz \<le> 0 \<or> sz > 8 then False
      else (let m = shl 1 (u64_of sz * 8 - 1) in val AND m \<noteq> 0))"

definition signedVal :: "u64 \<Rightarrow> int \<Rightarrow> int" where
  "signedVal val inSize =
     (if inSize \<le> 0 \<or> inSize \<ge> 8 then i64_of val
      else (let nb = u64_of inSize * 8
            in sar (i64_of (shl val (64 - nb))) (64 - nb)))"

section \<open>Formats\<close>

datatype floatClass = floatNormalized | floatInfinity | floatZero | floatNaN | floatDenormalized

record FloatFormat =
  ff_size :: int
  signbitPos :: int
  fracPos :: int
  fracSize :: int
  expPos :: int
  expSize :: int
  bias :: int
  maxexponent :: int
  jbitimplied :: bool

definition newFloatFormat :: "int \<Rightarrow> FloatFormat" where
  "newFloatFormat sz =
     (let f = \<lparr>ff_size = sz, signbitPos = 0, fracPos = 0, fracSize = 0, expPos = 0,
               expSize = 0, bias = 0, maxexponent = 0, jbitimplied = False\<rparr>;
          f = (if sz = 4 then f\<lparr>signbitPos := 31, expPos := 23, expSize := 8, fracPos := 0,
                                fracSize := 23, bias := 127, jbitimplied := True\<rparr>
               else if sz = 8 then f\<lparr>signbitPos := 63, expPos := 52, expSize := 11, fracPos := 0,
                                fracSize := 52, bias := 1023, jbitimplied := True\<rparr>
               else f)
      in f\<lparr>maxexponent := i32 (push_bit (nat (expSize f)) 1 - 1)\<rparr>)"

definition defaultFloatFormats :: "FloatFormat list" where
  "defaultFloatFormats = [newFloatFormat 4, newFloatFormat 8]"

definition getFloatFormat :: "int \<Rightarrow> FloatFormat option" where
  "getFloatFormat sz = find (\<lambda>f. ff_size f = sz) defaultFloatFormats"

section \<open>Fields of an encoding\<close>

definition extractFractionalCode :: "FloatFormat \<Rightarrow> u64 \<Rightarrow> u64" where
  "extractFractionalCode f x =
     (let x = shr x (u64_of (fracPos f)) in shl x (u64_of (i32 (64 - fracSize f))))"

definition extractSign :: "FloatFormat \<Rightarrow> u64 \<Rightarrow> bool" where
  "extractSign f x = (shr x (u64_of (signbitPos f)) AND 1 \<noteq> 0)"

definition extractExponentCode :: "FloatFormat \<Rightarrow> u64 \<Rightarrow> int" where
  "extractExponentCode f x =
     (let x = shr x (u64_of (expPos f))
      in i32 (uint (x AND (shl 1 (u64_of (expSize f)) - 1))))"

definition setFractionalCode :: "FloatFormat \<Rightarrow> u64 \<Rightarrow> u64 \<Rightarrow> u64" where
  "setFractionalCode f x code =
     (let code = shr code (u64_of (i32 (64 - fracSize f)));
          code = shl code (u64_of (fracPos f))
      in x OR code)"

definition setSign :: "FloatFormat \<Rightarrow> u64 \<Rightarrow> bool \<Rightarrow> u64" where
  "setSign f x sign = (if \<not> sign then x else x OR shl 1 (u64_of (signbitPos f)))"

definition setExponentCode :: "FloatFormat \<Rightarrow> u64 \<Rightarrow> u64 \<Rightarrow> u64" where
  "setExponentCode f x code = x OR shl code (u64_of (expPos f))"

definition getZeroEncoding :: "FloatFormat \<Rightarrow> bool \<Rightarrow> u64" where
  "getZeroEncoding f sign = setSign f (setExponentCode f (setFractionalCode f 0 0) 0) sign"

definition getInfinityEncoding :: "FloatFormat \<Rightarrow> bool \<Rightarrow> u64" where
  "getInfinityEncoding f sign =
     setSign f (setExponentCode f (setFractionalCode f 0 0) (u64_of (maxexponent f))) sign"

definition getNaNEncoding :: "FloatFormat \<Rightarrow> bool \<Rightarrow> u64" where
  "getNaNEncoding f sign =
     (let res = setFractionalCode f 0 (shl 1 63)
      in setSign f (setExponentCode f res (u64_of (maxexponent f))) sign)"

text \<open>The rounding returns whether it rounded up, with the new significand.\<close>

definition floatRoundToNearestEven :: "u64 \<Rightarrow> int \<Rightarrow> bool \<times> u64" where
  "floatRoundToNearestEven signif lowbitpos =
     (let lowbitmask = (if lowbitpos < 64 then shl 1 (u64_of lowbitpos) else 0);
          midbitmask = shl 1 (u64_of (i32 (lowbitpos - 1)));
          epsmask = midbitmask - 1;
          isodd = (signif AND lowbitmask \<noteq> 0)
      in if signif AND midbitmask \<noteq> 0 \<and> (signif AND epsmask \<noteq> 0 \<or> isodd)
         then (True, signif + midbitmask) else (False, signif))"

definition encodeParts :: "FloatFormat \<Rightarrow> bool \<Rightarrow> u64 \<Rightarrow> int \<Rightarrow> u64" where
  "encodeParts f sign signif exp =
     (let exp = i32 (exp + bias f) in
      if exp < - fracSize f then getZeroEncoding f sign
      else if exp < 1 then
        (let (up, signif) = floatRoundToNearestEven signif (i32 (i32 (64 - fracSize f) - exp));
             (signif, exp) = (if up \<and> shr signif 63 = 0 then (shl 1 63, i32 (exp + 1))
                              else (signif, exp))
         in setFractionalCode f (getZeroEncoding f sign) (shr signif (u64_of (i32 (- exp)))))
      else
        (let (up, signif) = floatRoundToNearestEven signif (i32 (i32 (64 - fracSize f) - 1));
             (signif, exp) = (if up \<and> shr signif 63 = 0 then (shl 1 63, i32 (exp + 1))
                              else (signif, exp))
         in if exp \<ge> maxexponent f then getInfinityEncoding f sign
            else (let signif = (if jbitimplied f \<and> exp \<noteq> 0 then shl signif 1 else signif);
                      res = setFractionalCode f 0 signif;
                      res = setExponentCode f res (u64_of exp)
                  in setSign f res sign)))"

text \<open>\<^verbatim>\<open>f.convertEncoding(encoding, formin)\<close>: re-encode a value of format \<^verbatim>\<open>formin\<close>.\<close>

definition convertEncoding :: "FloatFormat \<Rightarrow> u64 \<Rightarrow> FloatFormat \<Rightarrow> u64" where
  "convertEncoding f encoding formin =
     (let sign = extractSign formin encoding;
          signif = extractFractionalCode formin encoding;
          exp = extractExponentCode formin encoding
      in if exp = maxexponent formin then
           (if signif \<noteq> 0 then getNaNEncoding f sign else getInfinityEncoding f sign)
         else if exp = 0 then
           (if signif = 0 then getZeroEncoding f sign
            else (let lz = int (LeadingZeros64 signif);
                      signif = shl signif (u64_of lz);
                      exp = i32 (i32 (- bias formin) - lz)
                  in encodeParts f sign signif exp))
         else
           (let exp = i32 (exp - bias formin);
                signif = (if jbitimplied f then shl 1 63 OR shr signif 1 else signif)
            in encodeParts f sign signif exp))"

section \<open>The host doubles\<close>

text \<open>What the code uses of \<^verbatim>\<open>float64\<close> and of package \<^verbatim>\<open>math\<close>.\<close>

record 'f hostfloat =
  h_of_int :: "int \<Rightarrow> 'f"            \<comment> \<open>a conversion or an exactly representable literal\<close>
  h_trunc :: "'f \<Rightarrow> int"             \<comment> \<open>conversion to an integer type, in range\<close>
  h_ldexp :: "'f \<Rightarrow> int \<Rightarrow> 'f"
  h_frexp :: "'f \<Rightarrow> 'f \<times> int"
  h_signbit :: "'f \<Rightarrow> bool"
  h_isinf :: "'f \<Rightarrow> bool"
  h_isnan :: "'f \<Rightarrow> bool"
  h_inf :: "int \<Rightarrow> 'f"
  h_nan :: "'f"
  h_copysign :: "'f \<Rightarrow> 'f \<Rightarrow> 'f"
  h_eq :: "'f \<Rightarrow> 'f \<Rightarrow> bool"
  h_less :: "'f \<Rightarrow> 'f \<Rightarrow> bool"
  h_leq :: "'f \<Rightarrow> 'f \<Rightarrow> bool"
  h_add :: "'f \<Rightarrow> 'f \<Rightarrow> 'f"
  h_sub :: "'f \<Rightarrow> 'f \<Rightarrow> 'f"
  h_mul :: "'f \<Rightarrow> 'f \<Rightarrow> 'f"
  h_div :: "'f \<Rightarrow> 'f \<Rightarrow> 'f"
  h_neg :: "'f \<Rightarrow> 'f"
  h_abs :: "'f \<Rightarrow> 'f"
  h_sqrt :: "'f \<Rightarrow> 'f"
  h_ceil :: "'f \<Rightarrow> 'f"
  h_floor :: "'f \<Rightarrow> 'f"
  h_round :: "'f \<Rightarrow> 'f"

definition floatCreate :: "'f hostfloat \<Rightarrow> bool \<Rightarrow> u64 \<Rightarrow> int \<Rightarrow> 'f" where
  "floatCreate h sign signif exp =
     (let signif = shr signif 1;
          res = h_ldexp h (h_of_int h (uint signif)) (i32 (i32 (exp - 63) + 1))
      in if sign then h_mul h res (h_of_int h (- 1)) else res)"

definition floatExtractExpSig :: "'f hostfloat \<Rightarrow> 'f \<Rightarrow> floatClass \<times> bool \<times> u64 \<times> int" where
  "floatExtractExpSig h x =
     (let sign = h_signbit h x in
      if h_eq h x (h_of_int h 0) then (floatZero, sign, 0, 0)
      else if h_isinf h x then (floatInfinity, sign, 0, 0)
      else if h_isnan h x then (floatNaN, sign, 0, 0)
      else
        (let x = (if sign then h_neg h x else x);
             (norm, e) = h_frexp h x;
             norm = h_ldexp h norm 63;
             signif = shl (u64_of (h_trunc h norm)) 1
         in (floatNormalized, sign, signif, i32 (i64 (e - 1)))))"

definition getHostFloat :: "'f hostfloat \<Rightarrow> FloatFormat \<Rightarrow> u64 \<Rightarrow> 'f \<times> floatClass" where
  "getHostFloat h f encoding =
     (let sign = extractSign f encoding;
          frac = extractFractionalCode f encoding;
          exp = extractExponentCode f encoding
      in if exp = 0 \<and> frac = 0 then
           (if sign then (h_copysign h (h_of_int h 0) (h_of_int h (- 1)), floatZero)
            else (h_of_int h 0, floatZero))
         else if exp \<noteq> 0 \<and> exp = maxexponent f then
           (if frac = 0 then
              (if sign then (h_inf h (- 1), floatInfinity) else (h_inf h 1, floatInfinity))
            else (if sign then h_copysign h (h_nan h) (h_of_int h (- 1)) else h_nan h, floatNaN))
         else
           (let normal = (exp \<noteq> 0);
                cls = (if normal then floatNormalized else floatDenormalized);
                exp = i32 (exp - bias f);
                frac = (if normal \<and> jbitimplied f then shr frac 1 OR shl 1 63 else frac)
            in (floatCreate h sign frac exp, cls)))"

definition getEncoding :: "'f hostfloat \<Rightarrow> FloatFormat \<Rightarrow> 'f \<Rightarrow> u64" where
  "getEncoding h f x =
     (case floatExtractExpSig h x of (cls, sign, signif, exp) \<Rightarrow>
        if cls = floatZero then getZeroEncoding f sign
        else if cls = floatInfinity then getInfinityEncoding f sign
        else if cls = floatNaN then getNaNEncoding f sign
        else encodeParts f sign signif exp)"

definition host :: "'f hostfloat \<Rightarrow> FloatFormat \<Rightarrow> u64 \<Rightarrow> 'f" where
  "host h f a = fst (getHostFloat h f a)"

section \<open>The float p-code operations\<close>

definition opEqual :: "'f hostfloat \<Rightarrow> FloatFormat \<Rightarrow> u64 \<Rightarrow> u64 \<Rightarrow> u64" where
  "opEqual h f a b = boolToUint64 (h_eq h (host h f a) (host h f b))"

definition opNotEqual :: "'f hostfloat \<Rightarrow> FloatFormat \<Rightarrow> u64 \<Rightarrow> u64 \<Rightarrow> u64" where
  "opNotEqual h f a b = boolToUint64 (\<not> h_eq h (host h f a) (host h f b))"

definition opLess :: "'f hostfloat \<Rightarrow> FloatFormat \<Rightarrow> u64 \<Rightarrow> u64 \<Rightarrow> u64" where
  "opLess h f a b = boolToUint64 (h_less h (host h f a) (host h f b))"

definition opLessEqual :: "'f hostfloat \<Rightarrow> FloatFormat \<Rightarrow> u64 \<Rightarrow> u64 \<Rightarrow> u64" where
  "opLessEqual h f a b = boolToUint64 (h_leq h (host h f a) (host h f b))"

definition opNan :: "'f hostfloat \<Rightarrow> FloatFormat \<Rightarrow> u64 \<Rightarrow> u64" where
  "opNan h f a = boolToUint64 (snd (getHostFloat h f a) = floatNaN)"

definition opAdd :: "'f hostfloat \<Rightarrow> FloatFormat \<Rightarrow> u64 \<Rightarrow> u64 \<Rightarrow> u64" where
  "opAdd h f a b = getEncoding h f (h_add h (host h f a) (host h f b))"

definition opDiv :: "'f hostfloat \<Rightarrow> FloatFormat \<Rightarrow> u64 \<Rightarrow> u64 \<Rightarrow> u64" where
  "opDiv h f a b = getEncoding h f (h_div h (host h f a) (host h f b))"

definition opMult :: "'f hostfloat \<Rightarrow> FloatFormat \<Rightarrow> u64 \<Rightarrow> u64 \<Rightarrow> u64" where
  "opMult h f a b = getEncoding h f (h_mul h (host h f a) (host h f b))"

definition opSub :: "'f hostfloat \<Rightarrow> FloatFormat \<Rightarrow> u64 \<Rightarrow> u64 \<Rightarrow> u64" where
  "opSub h f a b = getEncoding h f (h_sub h (host h f a) (host h f b))"

definition opNeg :: "'f hostfloat \<Rightarrow> FloatFormat \<Rightarrow> u64 \<Rightarrow> u64" where
  "opNeg h f a = getEncoding h f (h_neg h (host h f a))"

definition opAbs :: "'f hostfloat \<Rightarrow> FloatFormat \<Rightarrow> u64 \<Rightarrow> u64" where
  "opAbs h f a = getEncoding h f (h_abs h (host h f a))"

definition opSqrt :: "'f hostfloat \<Rightarrow> FloatFormat \<Rightarrow> u64 \<Rightarrow> u64" where
  "opSqrt h f a = getEncoding h f (h_sqrt h (host h f a))"

definition opCeil :: "'f hostfloat \<Rightarrow> FloatFormat \<Rightarrow> u64 \<Rightarrow> u64" where
  "opCeil h f a = getEncoding h f (h_ceil h (host h f a))"

definition opFloor :: "'f hostfloat \<Rightarrow> FloatFormat \<Rightarrow> u64 \<Rightarrow> u64" where
  "opFloor h f a = getEncoding h f (h_floor h (host h f a))"

definition opRound :: "'f hostfloat \<Rightarrow> FloatFormat \<Rightarrow> u64 \<Rightarrow> u64" where
  "opRound h f a = getEncoding h f (h_round h (host h f a))"

definition opInt2Float :: "'f hostfloat \<Rightarrow> FloatFormat \<Rightarrow> u64 \<Rightarrow> int \<Rightarrow> u64" where
  "opInt2Float h f a sizein = getEncoding h f (h_of_int h (signedVal a sizein))"

definition opFloat2Float :: "FloatFormat \<Rightarrow> u64 \<Rightarrow> FloatFormat \<Rightarrow> u64" where
  "opFloat2Float f a outformat = convertEncoding outformat a f"

definition floatToIntb :: "'f hostfloat \<Rightarrow> 'f \<Rightarrow> int" where
  "floatToIntb h v =
     (if h_isnan h v \<or> h_leq h (h_of_int h (2 ^ 63)) v \<or> h_less h v (h_of_int h (- (2 ^ 63)))
      then - (2 ^ 63) else h_trunc h v)"

definition opTrunc :: "'f hostfloat \<Rightarrow> FloatFormat \<Rightarrow> u64 \<Rightarrow> int \<Rightarrow> u64" where
  "opTrunc h f a sizeout = u64_of (floatToIntb h (host h f a)) AND maskForSize sizeout"

end
