(* ===== verification/Pcode_Ops.thy ===== *)
theory Pcode_Ops
  imports Float_Format
begin

text \<open>
  \<^verbatim>\<open>pkg/pcode/opcode.go\<close> and \<^verbatim>\<open>pkg/pcode/opbehavior.go\<close>: the p-code opcodes and the
  evaluation of an operation on constant inputs. \<open>evaluateUnary\<close> and \<open>evaluateBinary\<close> are
  the reference semantics against which the range analysis of \<open>Circle_Range\<close> is proved.
\<close>

section \<open>Opcodes\<close>

datatype (plugins only: size code) OpCode =
    CPUI_COPY | CPUI_LOAD | CPUI_STORE | CPUI_BRANCH | CPUI_CBRANCH | CPUI_BRANCHIND | CPUI_CALL
  | CPUI_CALLIND | CPUI_CALLOTHER | CPUI_RETURN | CPUI_INT_EQUAL | CPUI_INT_NOTEQUAL
  | CPUI_INT_SLESS | CPUI_INT_SLESSEQUAL | CPUI_INT_LESS | CPUI_INT_LESSEQUAL | CPUI_INT_ZEXT
  | CPUI_INT_SEXT | CPUI_INT_ADD | CPUI_INT_SUB | CPUI_INT_CARRY | CPUI_INT_SCARRY
  | CPUI_INT_SBORROW | CPUI_INT_2COMP | CPUI_INT_NEGATE | CPUI_INT_XOR | CPUI_INT_AND
  | CPUI_INT_OR | CPUI_INT_LEFT | CPUI_INT_RIGHT | CPUI_INT_SRIGHT | CPUI_INT_MULT
  | CPUI_INT_DIV | CPUI_INT_SDIV | CPUI_INT_REM | CPUI_INT_SREM | CPUI_BOOL_NEGATE
  | CPUI_BOOL_XOR | CPUI_BOOL_AND | CPUI_BOOL_OR | CPUI_FLOAT_EQUAL | CPUI_FLOAT_NOTEQUAL
  | CPUI_FLOAT_LESS | CPUI_FLOAT_LESSEQUAL | CPUI_FLOAT_NAN | CPUI_FLOAT_ADD | CPUI_FLOAT_DIV
  | CPUI_FLOAT_MULT | CPUI_FLOAT_SUB | CPUI_FLOAT_NEG | CPUI_FLOAT_ABS | CPUI_FLOAT_SQRT
  | CPUI_FLOAT_INT2FLOAT | CPUI_FLOAT_FLOAT2FLOAT | CPUI_FLOAT_TRUNC | CPUI_FLOAT_CEIL
  | CPUI_FLOAT_FLOOR | CPUI_FLOAT_ROUND | CPUI_MULTIEQUAL | CPUI_INDIRECT | CPUI_PIECE
  | CPUI_SUBPIECE | CPUI_CAST | CPUI_PTRADD | CPUI_PTRSUB | CPUI_SEGMENTOP | CPUI_CPOOLREF
  | CPUI_NEW | CPUI_INSERT | CPUI_ZPULL | CPUI_POPCOUNT | CPUI_LZCOUNT | CPUI_SPULL | CPUI_MAX

text \<open>The numeric identifiers; number 45 is the blank identifier of the Go constant block.\<close>

primrec opcode_num :: "OpCode \<Rightarrow> nat" where
  "opcode_num CPUI_COPY = 1"
| "opcode_num CPUI_LOAD = 2"
| "opcode_num CPUI_STORE = 3"
| "opcode_num CPUI_BRANCH = 4"
| "opcode_num CPUI_CBRANCH = 5"
| "opcode_num CPUI_BRANCHIND = 6"
| "opcode_num CPUI_CALL = 7"
| "opcode_num CPUI_CALLIND = 8"
| "opcode_num CPUI_CALLOTHER = 9"
| "opcode_num CPUI_RETURN = 10"
| "opcode_num CPUI_INT_EQUAL = 11"
| "opcode_num CPUI_INT_NOTEQUAL = 12"
| "opcode_num CPUI_INT_SLESS = 13"
| "opcode_num CPUI_INT_SLESSEQUAL = 14"
| "opcode_num CPUI_INT_LESS = 15"
| "opcode_num CPUI_INT_LESSEQUAL = 16"
| "opcode_num CPUI_INT_ZEXT = 17"
| "opcode_num CPUI_INT_SEXT = 18"
| "opcode_num CPUI_INT_ADD = 19"
| "opcode_num CPUI_INT_SUB = 20"
| "opcode_num CPUI_INT_CARRY = 21"
| "opcode_num CPUI_INT_SCARRY = 22"
| "opcode_num CPUI_INT_SBORROW = 23"
| "opcode_num CPUI_INT_2COMP = 24"
| "opcode_num CPUI_INT_NEGATE = 25"
| "opcode_num CPUI_INT_XOR = 26"
| "opcode_num CPUI_INT_AND = 27"
| "opcode_num CPUI_INT_OR = 28"
| "opcode_num CPUI_INT_LEFT = 29"
| "opcode_num CPUI_INT_RIGHT = 30"
| "opcode_num CPUI_INT_SRIGHT = 31"
| "opcode_num CPUI_INT_MULT = 32"
| "opcode_num CPUI_INT_DIV = 33"
| "opcode_num CPUI_INT_SDIV = 34"
| "opcode_num CPUI_INT_REM = 35"
| "opcode_num CPUI_INT_SREM = 36"
| "opcode_num CPUI_BOOL_NEGATE = 37"
| "opcode_num CPUI_BOOL_XOR = 38"
| "opcode_num CPUI_BOOL_AND = 39"
| "opcode_num CPUI_BOOL_OR = 40"
| "opcode_num CPUI_FLOAT_EQUAL = 41"
| "opcode_num CPUI_FLOAT_NOTEQUAL = 42"
| "opcode_num CPUI_FLOAT_LESS = 43"
| "opcode_num CPUI_FLOAT_LESSEQUAL = 44"
| "opcode_num CPUI_FLOAT_NAN = 46"
| "opcode_num CPUI_FLOAT_ADD = 47"
| "opcode_num CPUI_FLOAT_DIV = 48"
| "opcode_num CPUI_FLOAT_MULT = 49"
| "opcode_num CPUI_FLOAT_SUB = 50"
| "opcode_num CPUI_FLOAT_NEG = 51"
| "opcode_num CPUI_FLOAT_ABS = 52"
| "opcode_num CPUI_FLOAT_SQRT = 53"
| "opcode_num CPUI_FLOAT_INT2FLOAT = 54"
| "opcode_num CPUI_FLOAT_FLOAT2FLOAT = 55"
| "opcode_num CPUI_FLOAT_TRUNC = 56"
| "opcode_num CPUI_FLOAT_CEIL = 57"
| "opcode_num CPUI_FLOAT_FLOOR = 58"
| "opcode_num CPUI_FLOAT_ROUND = 59"
| "opcode_num CPUI_MULTIEQUAL = 60"
| "opcode_num CPUI_INDIRECT = 61"
| "opcode_num CPUI_PIECE = 62"
| "opcode_num CPUI_SUBPIECE = 63"
| "opcode_num CPUI_CAST = 64"
| "opcode_num CPUI_PTRADD = 65"
| "opcode_num CPUI_PTRSUB = 66"
| "opcode_num CPUI_SEGMENTOP = 67"
| "opcode_num CPUI_CPOOLREF = 68"
| "opcode_num CPUI_NEW = 69"
| "opcode_num CPUI_INSERT = 70"
| "opcode_num CPUI_ZPULL = 71"
| "opcode_num CPUI_POPCOUNT = 72"
| "opcode_num CPUI_LZCOUNT = 73"
| "opcode_num CPUI_SPULL = 74"
| "opcode_num CPUI_MAX = 75"

primrec opcodeNames :: "OpCode \<Rightarrow> string" where
  "opcodeNames CPUI_COPY = ''COPY''"
| "opcodeNames CPUI_LOAD = ''LOAD''"
| "opcodeNames CPUI_STORE = ''STORE''"
| "opcodeNames CPUI_BRANCH = ''BRANCH''"
| "opcodeNames CPUI_CBRANCH = ''CBRANCH''"
| "opcodeNames CPUI_BRANCHIND = ''BRANCHIND''"
| "opcodeNames CPUI_CALL = ''CALL''"
| "opcodeNames CPUI_CALLIND = ''CALLIND''"
| "opcodeNames CPUI_CALLOTHER = ''CALLOTHER''"
| "opcodeNames CPUI_RETURN = ''RETURN''"
| "opcodeNames CPUI_INT_EQUAL = ''INT_EQUAL''"
| "opcodeNames CPUI_INT_NOTEQUAL = ''INT_NOTEQUAL''"
| "opcodeNames CPUI_INT_SLESS = ''INT_SLESS''"
| "opcodeNames CPUI_INT_SLESSEQUAL = ''INT_SLESSEQUAL''"
| "opcodeNames CPUI_INT_LESS = ''INT_LESS''"
| "opcodeNames CPUI_INT_LESSEQUAL = ''INT_LESSEQUAL''"
| "opcodeNames CPUI_INT_ZEXT = ''INT_ZEXT''"
| "opcodeNames CPUI_INT_SEXT = ''INT_SEXT''"
| "opcodeNames CPUI_INT_ADD = ''INT_ADD''"
| "opcodeNames CPUI_INT_SUB = ''INT_SUB''"
| "opcodeNames CPUI_INT_CARRY = ''INT_CARRY''"
| "opcodeNames CPUI_INT_SCARRY = ''INT_SCARRY''"
| "opcodeNames CPUI_INT_SBORROW = ''INT_SBORROW''"
| "opcodeNames CPUI_INT_2COMP = ''INT_2COMP''"
| "opcodeNames CPUI_INT_NEGATE = ''INT_NEGATE''"
| "opcodeNames CPUI_INT_XOR = ''INT_XOR''"
| "opcodeNames CPUI_INT_AND = ''INT_AND''"
| "opcodeNames CPUI_INT_OR = ''INT_OR''"
| "opcodeNames CPUI_INT_LEFT = ''INT_LEFT''"
| "opcodeNames CPUI_INT_RIGHT = ''INT_RIGHT''"
| "opcodeNames CPUI_INT_SRIGHT = ''INT_SRIGHT''"
| "opcodeNames CPUI_INT_MULT = ''INT_MULT''"
| "opcodeNames CPUI_INT_DIV = ''INT_DIV''"
| "opcodeNames CPUI_INT_SDIV = ''INT_SDIV''"
| "opcodeNames CPUI_INT_REM = ''INT_REM''"
| "opcodeNames CPUI_INT_SREM = ''INT_SREM''"
| "opcodeNames CPUI_BOOL_NEGATE = ''BOOL_NEGATE''"
| "opcodeNames CPUI_BOOL_XOR = ''BOOL_XOR''"
| "opcodeNames CPUI_BOOL_AND = ''BOOL_AND''"
| "opcodeNames CPUI_BOOL_OR = ''BOOL_OR''"
| "opcodeNames CPUI_FLOAT_EQUAL = ''FLOAT_EQUAL''"
| "opcodeNames CPUI_FLOAT_NOTEQUAL = ''FLOAT_NOTEQUAL''"
| "opcodeNames CPUI_FLOAT_LESS = ''FLOAT_LESS''"
| "opcodeNames CPUI_FLOAT_LESSEQUAL = ''FLOAT_LESSEQUAL''"
| "opcodeNames CPUI_FLOAT_NAN = ''FLOAT_NAN''"
| "opcodeNames CPUI_FLOAT_ADD = ''FLOAT_ADD''"
| "opcodeNames CPUI_FLOAT_DIV = ''FLOAT_DIV''"
| "opcodeNames CPUI_FLOAT_MULT = ''FLOAT_MULT''"
| "opcodeNames CPUI_FLOAT_SUB = ''FLOAT_SUB''"
| "opcodeNames CPUI_FLOAT_NEG = ''FLOAT_NEG''"
| "opcodeNames CPUI_FLOAT_ABS = ''FLOAT_ABS''"
| "opcodeNames CPUI_FLOAT_SQRT = ''FLOAT_SQRT''"
| "opcodeNames CPUI_FLOAT_INT2FLOAT = ''FLOAT_INT2FLOAT''"
| "opcodeNames CPUI_FLOAT_FLOAT2FLOAT = ''FLOAT_FLOAT2FLOAT''"
| "opcodeNames CPUI_FLOAT_TRUNC = ''FLOAT_TRUNC''"
| "opcodeNames CPUI_FLOAT_CEIL = ''FLOAT_CEIL''"
| "opcodeNames CPUI_FLOAT_FLOOR = ''FLOAT_FLOOR''"
| "opcodeNames CPUI_FLOAT_ROUND = ''FLOAT_ROUND''"
| "opcodeNames CPUI_MULTIEQUAL = ''MULTIEQUAL''"
| "opcodeNames CPUI_INDIRECT = ''INDIRECT''"
| "opcodeNames CPUI_PIECE = ''PIECE''"
| "opcodeNames CPUI_SUBPIECE = ''SUBPIECE''"
| "opcodeNames CPUI_CAST = ''CAST''"
| "opcodeNames CPUI_PTRADD = ''PTRADD''"
| "opcodeNames CPUI_PTRSUB = ''PTRSUB''"
| "opcodeNames CPUI_SEGMENTOP = ''SEGMENTOP''"
| "opcodeNames CPUI_CPOOLREF = ''CPOOLREF''"
| "opcodeNames CPUI_NEW = ''NEW''"
| "opcodeNames CPUI_INSERT = ''INSERT''"
| "opcodeNames CPUI_ZPULL = ''ZPULL''"
| "opcodeNames CPUI_POPCOUNT = ''POPCOUNT''"
| "opcodeNames CPUI_LZCOUNT = ''LZCOUNT''"
| "opcodeNames CPUI_SPULL = ''SPULL''"
| "opcodeNames CPUI_MAX = ''MAX''"

section \<open>Evaluation of an operation on constants\<close>

text \<open>
  \<open>ErrEvaluation\<close> is the code's error value; \<open>PanicDivide\<close> is the run-time panic of a Go
  integer division by zero, reachable where the code divides sign-extended values after
  testing only the raw divisor.
\<close>

datatype eval_error = ErrEvaluation | PanicDivide

definition signExtendSize :: "u64 \<Rightarrow> int \<Rightarrow> int \<Rightarrow> u64" where
  "signExtendSize inp sizein sizeout =
     (let inp = inp AND maskForSize sizein in
      if sizein \<ge> sizeout then inp
      else if shr inp (u64_of (i32 (i32 (sizein * 8) - 1))) \<noteq> 0
        then inp OR (NOT (maskForSize sizein) AND maskForSize sizeout)
        else inp)"

definition with_format :: "FloatFormat option \<Rightarrow> (FloatFormat \<Rightarrow> u64) \<Rightarrow> eval_error + u64" where
  "with_format ff op = (case ff of None \<Rightarrow> Inl ErrEvaluation | Some f \<Rightarrow> Inr (op f))"

definition evaluateUnary :: "'f hostfloat \<Rightarrow> OpCode \<Rightarrow> int \<Rightarrow> int \<Rightarrow> u64 \<Rightarrow> eval_error + u64" where
  "evaluateUnary h code sizeout sizein in1 =
     (case code of
        CPUI_COPY \<Rightarrow> Inr in1
      | CPUI_INT_ZEXT \<Rightarrow> Inr in1
      | CPUI_INT_SEXT \<Rightarrow> Inr (signExtendSize in1 sizein sizeout)
      | CPUI_INT_2COMP \<Rightarrow> Inr (NOT (in1 - 1) AND maskForSize sizein)
      | CPUI_INT_NEGATE \<Rightarrow> Inr (NOT in1 AND maskForSize sizein)
      | CPUI_BOOL_NEGATE \<Rightarrow> Inr (in1 XOR 1)
      | CPUI_POPCOUNT \<Rightarrow> Inr (of_nat (OnesCount64 in1))
      | CPUI_LZCOUNT \<Rightarrow> Inr (u64_of (i64 (int (LeadingZeros64 in1) - i64 (8 * i64 (8 - sizein)))))
      | CPUI_FLOAT_INT2FLOAT \<Rightarrow>
          with_format (getFloatFormat sizeout) (\<lambda>f. opInt2Float h f in1 sizein)
      | CPUI_FLOAT_FLOAT2FLOAT \<Rightarrow>
          (case getFloatFormat sizeout of
             None \<Rightarrow> Inl ErrEvaluation
           | Some fout \<Rightarrow> with_format (getFloatFormat sizein) (\<lambda>fin. opFloat2Float fin in1 fout))
      | CPUI_FLOAT_NAN \<Rightarrow> with_format (getFloatFormat sizein) (\<lambda>f. opNan h f in1)
      | CPUI_FLOAT_NEG \<Rightarrow> with_format (getFloatFormat sizein) (\<lambda>f. opNeg h f in1)
      | CPUI_FLOAT_ABS \<Rightarrow> with_format (getFloatFormat sizein) (\<lambda>f. opAbs h f in1)
      | CPUI_FLOAT_SQRT \<Rightarrow> with_format (getFloatFormat sizein) (\<lambda>f. opSqrt h f in1)
      | CPUI_FLOAT_TRUNC \<Rightarrow> with_format (getFloatFormat sizein) (\<lambda>f. opTrunc h f in1 sizeout)
      | CPUI_FLOAT_CEIL \<Rightarrow> with_format (getFloatFormat sizein) (\<lambda>f. opCeil h f in1)
      | CPUI_FLOAT_FLOOR \<Rightarrow> with_format (getFloatFormat sizein) (\<lambda>f. opFloor h f in1)
      | CPUI_FLOAT_ROUND \<Rightarrow> with_format (getFloatFormat sizein) (\<lambda>f. opRound h f in1)
      | _ \<Rightarrow> Inl ErrEvaluation)"

text \<open>The comparison, carry and division branches of \<^verbatim>\<open>evaluateBinary\<close>.\<close>

definition eval_signed_less :: "bool \<Rightarrow> int \<Rightarrow> u64 \<Rightarrow> u64 \<Rightarrow> u64" where
  "eval_signed_less strict sizein in1 in2 =
     (if sizein \<le> 0 then 0
      else (let m = shl 0x80 (u64_of (i32 (8 * i32 (sizein - 1))));
                bit1 = in1 AND m; bit2 = in2 AND m
            in if bit1 \<noteq> bit2 then boolToUint64 (bit1 \<noteq> 0)
               else if strict then boolToUint64 (in1 < in2)
               else boolToUint64 (in1 \<le> in2)))"

definition eval_scarry :: "int \<Rightarrow> u64 \<Rightarrow> u64 \<Rightarrow> u64" where
  "eval_scarry sizein in1 in2 =
     (let res = in1 + in2;
          sb = u64_of (i32 (i32 (sizein * 8) - 1));
          a = shr in1 sb AND 1; b = shr in2 sb AND 1; r = shr res sb AND 1;
          r = r XOR a;
          a = a XOR b;
          a = a XOR 1
      in r AND a)"

definition eval_sborrow :: "int \<Rightarrow> u64 \<Rightarrow> u64 \<Rightarrow> u64" where
  "eval_sborrow sizein in1 in2 =
     (let res = in1 - in2;
          sb = u64_of (i32 (i32 (sizein * 8) - 1));
          a = shr in1 sb AND 1; b = shr in2 sb AND 1; r = shr res sb AND 1;
          a = a XOR r;
          r = r XOR b;
          r = r XOR 1
      in a AND r)"

definition eval_sright :: "int \<Rightarrow> int \<Rightarrow> u64 \<Rightarrow> u64 \<Rightarrow> u64" where
  "eval_sright sizeout sizein in1 in2 =
     (if in2 \<ge> 8 * u64_of sizeout then
        (if signbitNegative in1 sizein then maskForSize sizeout else 0)
      else
        (let res = shr in1 in2 in
         if signbitNegative in1 sizein
           then (let m = maskForSize sizein in res OR (shr m in2 XOR m))
           else res))"

definition eval_sdivrem :: "(int \<Rightarrow> int \<Rightarrow> int) \<Rightarrow> int \<Rightarrow> int \<Rightarrow> u64 \<Rightarrow> u64 \<Rightarrow> eval_error + u64" where
  "eval_sdivrem op sizeout sizein in1 in2 =
     (if in2 = 0 then Inl ErrEvaluation
      else if signedVal in2 sizein = 0 then Inl PanicDivide
      else Inr (u64_of (op (signedVal in1 sizein) (signedVal in2 sizein)) AND maskForSize sizeout))"

definition evaluateBinary ::
    "'f hostfloat \<Rightarrow> OpCode \<Rightarrow> int \<Rightarrow> int \<Rightarrow> u64 \<Rightarrow> u64 \<Rightarrow> eval_error + u64" where
  "evaluateBinary h code sizeout sizein in1 in2 =
     (case code of
        CPUI_INT_EQUAL \<Rightarrow> Inr (boolToUint64 (in1 = in2))
      | CPUI_INT_NOTEQUAL \<Rightarrow> Inr (boolToUint64 (in1 \<noteq> in2))
      | CPUI_INT_SLESS \<Rightarrow> Inr (eval_signed_less True sizein in1 in2)
      | CPUI_INT_SLESSEQUAL \<Rightarrow> Inr (eval_signed_less False sizein in1 in2)
      | CPUI_INT_LESS \<Rightarrow> Inr (boolToUint64 (in1 < in2))
      | CPUI_INT_LESSEQUAL \<Rightarrow> Inr (boolToUint64 (in1 \<le> in2))
      | CPUI_INT_ADD \<Rightarrow> Inr ((in1 + in2) AND maskForSize sizeout)
      | CPUI_PTRSUB \<Rightarrow> Inr ((in1 + in2) AND maskForSize sizeout)
      | CPUI_INT_SUB \<Rightarrow> Inr ((in1 - in2) AND maskForSize sizeout)
      | CPUI_INT_CARRY \<Rightarrow> Inr (boolToUint64 (in1 > (in1 + in2) AND maskForSize sizein))
      | CPUI_INT_SCARRY \<Rightarrow> Inr (eval_scarry sizein in1 in2)
      | CPUI_INT_SBORROW \<Rightarrow> Inr (eval_sborrow sizein in1 in2)
      | CPUI_INT_XOR \<Rightarrow> Inr (in1 XOR in2)
      | CPUI_BOOL_XOR \<Rightarrow> Inr (in1 XOR in2)
      | CPUI_INT_AND \<Rightarrow> Inr (in1 AND in2)
      | CPUI_BOOL_AND \<Rightarrow> Inr (in1 AND in2)
      | CPUI_INT_OR \<Rightarrow> Inr (in1 OR in2)
      | CPUI_BOOL_OR \<Rightarrow> Inr (in1 OR in2)
      | CPUI_INT_LEFT \<Rightarrow>
          (if in2 \<ge> u64_of sizeout * 8 then Inr 0
           else Inr (shl in1 in2 AND maskForSize sizeout))
      | CPUI_INT_RIGHT \<Rightarrow>
          (if in2 \<ge> u64_of sizeout * 8 then Inr 0
           else Inr (shr (in1 AND maskForSize sizeout) in2))
      | CPUI_INT_SRIGHT \<Rightarrow> Inr (eval_sright sizeout sizein in1 in2)
      | CPUI_INT_MULT \<Rightarrow> Inr ((in1 * in2) AND maskForSize sizeout)
      | CPUI_INT_DIV \<Rightarrow> (if in2 = 0 then Inl ErrEvaluation else Inr (in1 div in2))
      | CPUI_INT_SDIV \<Rightarrow> eval_sdivrem quo64 sizeout sizein in1 in2
      | CPUI_INT_REM \<Rightarrow> (if in2 = 0 then Inl ErrEvaluation else Inr (in1 mod in2))
      | CPUI_INT_SREM \<Rightarrow> eval_sdivrem rem64 sizeout sizein in1 in2
      | CPUI_PIECE \<Rightarrow> Inr (shl in1 (u64_of (i32 (i32 (sizeout - sizein) * 8))) OR in2)
      | CPUI_SUBPIECE \<Rightarrow>
          (if in2 \<ge> 8 then Inr 0 else Inr (shr in1 (in2 * 8) AND maskForSize sizeout))
      | CPUI_FLOAT_EQUAL \<Rightarrow> with_format (getFloatFormat sizein) (\<lambda>f. opEqual h f in1 in2)
      | CPUI_FLOAT_NOTEQUAL \<Rightarrow> with_format (getFloatFormat sizein) (\<lambda>f. opNotEqual h f in1 in2)
      | CPUI_FLOAT_LESS \<Rightarrow> with_format (getFloatFormat sizein) (\<lambda>f. opLess h f in1 in2)
      | CPUI_FLOAT_LESSEQUAL \<Rightarrow> with_format (getFloatFormat sizein) (\<lambda>f. opLessEqual h f in1 in2)
      | CPUI_FLOAT_ADD \<Rightarrow> with_format (getFloatFormat sizein) (\<lambda>f. opAdd h f in1 in2)
      | CPUI_FLOAT_DIV \<Rightarrow> with_format (getFloatFormat sizein) (\<lambda>f. opDiv h f in1 in2)
      | CPUI_FLOAT_MULT \<Rightarrow> with_format (getFloatFormat sizein) (\<lambda>f. opMult h f in1 in2)
      | CPUI_FLOAT_SUB \<Rightarrow> with_format (getFloatFormat sizein) (\<lambda>f. opSub h f in1 in2)
      | _ \<Rightarrow> Inl ErrEvaluation)"

end
