(* ===== verification/Circle_Range.thy ===== *)
theory Circle_Range
  imports Pcode_Ops
begin

text \<open>
  \<^verbatim>\<open>pkg/pcode/circlerange.go\<close>: a set of integers as a half-open interval
  \<^verbatim>\<open>[left,right)\<close> with a stride on the ring of residues modulo \<^verbatim>\<open>mask+1\<close>; \<^verbatim>\<open>left == right\<close>
  is the whole ring. A method that mutates its receiver returns the new record, with the
  Go result first when it has one. The Go code divides by \<^verbatim>\<open>uint64(step)\<close>; a step of 0
  occurs only in the default empty range, and the operations test \<^verbatim>\<open>isempty\<close> first.
\<close>

section \<open>The data type and its elementary operations\<close>

record circleRange =
  cr_left :: u64
  cr_right :: u64
  cr_mask :: u64
  cr_isempty :: bool
  cr_step :: int

definition circleArrange :: string where
  "circleArrange = ''gcgbegdagggggggeggggcgbggggggggcdfgggggggegdggggbgggfggggcgbegda''"

definition newCircleRangeBoolean :: "bool \<Rightarrow> circleRange" where
  "newCircleRangeBoolean val =
     (let r = \<lparr>cr_left = 0, cr_right = 0, cr_mask = 0xff, cr_isempty = False, cr_step = 1\<rparr>
      in if val then r\<lparr>cr_left := 1, cr_right := 2\<rparr> else r\<lparr>cr_left := 0, cr_right := 1\<rparr>)"

definition circleSignExtend :: "u64 \<Rightarrow> int \<Rightarrow> int \<Rightarrow> u64" where
  "circleSignExtend inp sizein sizeout =
     (let res = inp AND maskForSize sizein;
          signbit = shl 1 (u64_of sizein * 8 - 1)
      in if res AND signbit \<noteq> 0
         then res OR (maskForSize sizeout AND NOT (maskForSize sizein)) else res)"

definition normalize :: "circleRange \<Rightarrow> circleRange" where
  "normalize r =
     (if cr_left r = cr_right r then
        (let l = (if cr_step r \<noteq> 1 then cr_left r mod u64_of (cr_step r) else 0)
         in r\<lparr>cr_left := l, cr_right := l\<rparr>)
      else r)"

definition complement :: "circleRange \<Rightarrow> circleRange" where
  "complement r =
     (if cr_isempty r then r\<lparr>cr_left := 0, cr_right := 0, cr_isempty := False\<rparr>
      else if cr_left r = cr_right r then r\<lparr>cr_isempty := True\<rparr>
      else r\<lparr>cr_left := cr_right r, cr_right := cr_left r\<rparr>)"

definition contains :: "circleRange \<Rightarrow> u64 \<Rightarrow> bool" where
  "contains r val =
     (if cr_isempty r then False
      else if cr_step r \<noteq> 1 \<and> cr_left r mod u64_of (cr_step r) \<noteq> val mod u64_of (cr_step r)
        then False
      else if cr_left r < cr_right r then
        (if val < cr_left r then False else if cr_right r \<le> val then False else True)
      else if cr_right r < cr_left r then
        (if val < cr_right r then True else if val \<ge> cr_left r then True else False)
      else True)"

definition convertToBoolean :: "circleRange \<Rightarrow> bool \<times> circleRange" where
  "convertToBoolean r =
     (if cr_isempty r then (False, r)
      else (let containsZero = contains r 0;
                containsOne = contains r 1;
                r = r\<lparr>cr_mask := 0xff, cr_step := 1\<rparr>
            in if containsZero \<and> containsOne
                 then (True, r\<lparr>cr_left := 0, cr_right := 2, cr_isempty := False\<rparr>)
               else if containsZero
                 then (False, r\<lparr>cr_left := 0, cr_right := 1, cr_isempty := False\<rparr>)
               else if containsOne
                 then (False, r\<lparr>cr_left := 1, cr_right := 2, cr_isempty := False\<rparr>)
               else (False, r\<lparr>cr_isempty := True\<rparr>)))"

definition isSingle :: "circleRange \<Rightarrow> bool" where
  "isSingle r \<longleftrightarrow> \<not> cr_isempty r \<and> cr_right r = (cr_left r + u64_of (cr_step r)) AND cr_mask r"

definition circleEncodeRangeOverlaps :: "u64 \<Rightarrow> u64 \<Rightarrow> u64 \<Rightarrow> u64 \<Rightarrow> char" where
  "circleEncodeRangeOverlaps op1left op1right op2left op2right =
     (let val = (if op1left \<le> op1right then 0x20 else 0)
              + (if op1left \<le> op2left then 0x10 else 0)
              + (if op1left \<le> op2right then 0x8 else 0)
              + (if op1right \<le> op2left then 0x4 else 0)
              + (if op1right \<le> op2right then 0x2 else 0)
              + (if op2left \<le> op2right then 0x1 else 0 :: nat)
      in circleArrange ! val)"

text \<open>Both helpers return whether the result is empty, with the new bounds.\<close>

definition circleNewStride ::
    "u64 \<Rightarrow> int \<Rightarrow> int \<Rightarrow> u64 \<Rightarrow> u64 \<Rightarrow> u64 \<Rightarrow> bool \<times> u64 \<times> u64" where
  "circleNewStride msk step oldStep rem myleft myright =
     (if oldStep \<noteq> 1 \<and> myleft mod u64_of oldStep \<noteq> rem mod u64_of oldStep
        then (True, myleft, myright)
      else
        (let origOrder = (myleft < myright);
             leftRem = myleft mod u64_of step;
             rightRem = myright mod u64_of step;
             myleft = (if leftRem > rem then myleft + (rem + u64_of step - leftRem)
                       else myleft + (rem - leftRem));
             myright = (if rightRem > rem then myright + (rem + u64_of step - rightRem)
                        else myright + (rem - rightRem));
             myleft = myleft AND msk;
             myright = myright AND msk;
             newOrder = (myleft < myright)
         in (origOrder \<noteq> newOrder, myleft, myright)))"

definition circleNewDomain :: "u64 \<Rightarrow> int \<Rightarrow> u64 \<Rightarrow> u64 \<Rightarrow> bool \<times> u64 \<times> u64" where
  "circleNewDomain newMask newStep myleft myright =
     (let rem = (if newStep \<noteq> 1 then myleft mod u64_of newStep else 0) in
      if myleft > newMask \<and> myright > newMask then
        (if myleft < myright then (True, myleft, myright) else (False, rem, rem))
      else
        (let myleft = (if myleft > newMask then rem else myleft);
             myright = (if myright > newMask then rem else myright)
         in if myleft = myright then (False, rem, rem) else (False, myleft, myright)))"

section \<open>Union and intersection\<close>

text \<open>The overlap switch of \<^verbatim>\<open>circleUnion\<close>, after the strides have been aligned.\<close>

definition union_overlap ::
    "circleRange \<Rightarrow> u64 \<Rightarrow> u64 \<Rightarrow> u64 \<Rightarrow> u64 \<Rightarrow> int \<Rightarrow> int \<times> circleRange" where
  "union_overlap r aRight op2left bRight rem newStep =
     (let c = circleEncodeRangeOverlaps (cr_left r) aRight op2left bRight;
          set_to = (\<lambda>l t. r\<lparr>cr_left := l, cr_right := t, cr_step := newStep\<rparr>)
      in if c = CHR ''a'' \<or> c = CHR ''f'' then
           (if aRight = op2left then (0, set_to (cr_left r) bRight)
            else if cr_left r = bRight then (0, set_to op2left aRight)
            else (2, r))
         else if c = CHR ''b'' then (0, set_to (cr_left r) bRight)
         else if c = CHR ''c'' then (0, set_to (cr_left r) aRight)
         else if c = CHR ''d'' then (0, set_to op2left bRight)
         else if c = CHR ''e'' then (0, set_to op2left aRight)
         else if c = CHR ''g'' then (0, set_to rem rem)
         else (- 1, r))"

definition circleUnion :: "circleRange \<Rightarrow> circleRange \<Rightarrow> int \<times> circleRange" where
  "circleUnion r op2 =
     (if cr_isempty op2 then (0, r)
      else if cr_isempty r then (0, op2)
      else if cr_mask r \<noteq> cr_mask op2 then (2, r)
      else if cr_step r < cr_step op2 \<and> \<not> isSingle r then (2, r)
      else if cr_step op2 < cr_step r \<and> \<not> isSingle op2 then (2, r)
      else
        (let newStep = (if cr_step r < cr_step op2 then cr_step op2 else cr_step r);
             aRight = (if cr_step r < cr_step op2
                       then (cr_left r + u64_of newStep) AND cr_mask r else cr_right r);
             bRight = (if cr_step op2 < cr_step r
                       then (cr_left op2 + u64_of newStep) AND cr_mask r else cr_right op2);
             rem = (if newStep \<noteq> 1 then cr_left r mod u64_of newStep else 0)
         in if newStep \<noteq> 1 \<and> rem \<noteq> cr_left op2 mod u64_of newStep then (2, r)
            else if cr_left r = aRight \<or> cr_left op2 = bRight
              then (0, r\<lparr>cr_left := rem, cr_right := rem, cr_step := newStep\<rparr>)
            else union_overlap r aRight (cr_left op2) bRight rem newStep))"

text \<open>The overlap switch of \<^verbatim>\<open>intersect\<close>, after strides and domains have been aligned.\<close>

definition intersect_overlap :: "circleRange \<Rightarrow> u64 \<Rightarrow> u64 \<Rightarrow> u64 \<Rightarrow> u64 \<Rightarrow> int \<times> circleRange" where
  "intersect_overlap r myleft myright op2left op2right =
     (let c = circleEncodeRangeOverlaps myleft myright op2left op2right;
          set_to = (\<lambda>l t. r\<lparr>cr_left := l, cr_right := t, cr_isempty := (l = t)\<rparr>)
      in if c = CHR ''a'' \<or> c = CHR ''f'' then (0, r\<lparr>cr_isempty := True\<rparr>)
         else if c = CHR ''b'' then (0, set_to op2left myright)
         else if c = CHR ''c'' then (0, r\<lparr>cr_left := op2left, cr_right := op2right\<rparr>)
         else if c = CHR ''d'' then (0, r\<lparr>cr_left := myleft, cr_right := myright\<rparr>)
         else if c = CHR ''e'' then (0, set_to myleft op2right)
         else if c = CHR ''g'' then
           (if myleft = op2right then (0, set_to op2left myright)
            else if op2left = myright then (0, set_to myleft op2right)
            else (2, r))
         else (2, r))"

definition intersect :: "circleRange \<Rightarrow> circleRange \<Rightarrow> int \<times> circleRange" where
  "intersect r op2 =
     (if cr_isempty r then (0, r)
      else if cr_isempty op2 then (0, r\<lparr>cr_isempty := True\<rparr>)
      else
        (let newStep = (if cr_step r < cr_step op2 then cr_step op2 else cr_step r);
             (empty1, myleft, myright) =
               (if cr_step r < cr_step op2
                then circleNewStride (cr_mask r) newStep (cr_step r)
                       (cr_left op2 mod u64_of newStep) (cr_left r) (cr_right r)
                else (False, cr_left r, cr_right r));
             (empty2, op2left, op2right) =
               (if cr_step op2 < cr_step r
                then circleNewStride (cr_mask op2) newStep (cr_step op2)
                       (myleft mod u64_of newStep) (cr_left op2) (cr_right op2)
                else (False, cr_left op2, cr_right op2))
         in if empty1 \<or> empty2 then (0, r\<lparr>cr_isempty := True\<rparr>)
            else
              (let newMask = cr_mask r AND cr_mask op2;
                   (empty3, myleft, myright) =
                     (if cr_mask r \<noteq> newMask then circleNewDomain newMask newStep myleft myright
                      else (False, myleft, myright));
                   (empty4, op2left, op2right) =
                     (if cr_mask r = newMask \<and> cr_mask op2 \<noteq> newMask
                      then circleNewDomain newMask newStep op2left op2right
                      else (False, op2left, op2right))
               in if empty3 \<or> empty4 then (0, r\<lparr>cr_isempty := True\<rparr>)
                  else
                    (let (retval, r) =
                       (if myleft = myright
                          then (0, r\<lparr>cr_left := op2left, cr_right := op2right\<rparr>)
                        else if op2left = op2right
                          then (0, r\<lparr>cr_left := myleft, cr_right := myright\<rparr>)
                        else intersect_overlap r myleft myright op2left op2right)
                     in if retval \<noteq> 0 then (retval, r)
                        else (0, r\<lparr>cr_mask := newMask, cr_step := newStep\<rparr>)))))"

section \<open>Pulling a range back through an operation\<close>

definition pullBackUnary :: "circleRange \<Rightarrow> OpCode \<Rightarrow> int \<Rightarrow> int \<Rightarrow> bool \<times> circleRange" where
  "pullBackUnary r opc inSize outSize =
     (if cr_isempty r then (True, r)
      else (case opc of
        CPUI_BOOL_NEGATE \<Rightarrow>
          (let (both, r) = convertToBoolean r in
           if both then (True, r)
           else (True, r\<lparr>cr_left := cr_left r XOR 1, cr_right := (cr_left r XOR 1) + 1\<rparr>))
      | CPUI_COPY \<Rightarrow> (True, r)
      | CPUI_INT_2COMP \<Rightarrow>
          (let val = (NOT (cr_left r) + 1 + u64_of (cr_step r)) AND cr_mask r;
               l = (NOT (cr_right r) + 1 + u64_of (cr_step r)) AND cr_mask r
           in (True, r\<lparr>cr_left := l, cr_right := val\<rparr>))
      | CPUI_INT_NEGATE \<Rightarrow>
          (let val = (NOT (cr_left r) + u64_of (cr_step r)) AND cr_mask r;
               l = (NOT (cr_right r) + u64_of (cr_step r)) AND cr_mask r
           in (True, r\<lparr>cr_left := l, cr_right := val\<rparr>))
      | CPUI_INT_ZEXT \<Rightarrow>
          (let val = maskForSize inSize;
               rem = cr_left r mod u64_of (cr_step r);
               zextrange = \<lparr>cr_left = rem, cr_right = val + 1 + rem, cr_mask = cr_mask r,
                            cr_isempty = False, cr_step = cr_step r\<rparr>;
               (ret, r) = intersect r zextrange
           in if ret \<noteq> 0 then (False, r)
              else (True, r\<lparr>cr_left := cr_left r AND val, cr_right := cr_right r AND val,
                            cr_mask := cr_mask r AND val\<rparr>))
      | CPUI_INT_SEXT \<Rightarrow>
          (let val = maskForSize inSize;
               rem = cr_left r AND u64_of (cr_step r);
               l = (val XOR shr val 1) + rem;
               sextrange = \<lparr>cr_left = l, cr_right = circleSignExtend l inSize outSize,
                            cr_mask = cr_mask r, cr_isempty = False, cr_step = cr_step r\<rparr>;
               (ret, sextrange) = intersect sextrange r
           in if ret \<noteq> 0 then (False, r)
              else if \<not> cr_isempty sextrange then (False, r)
              else (True, r\<lparr>cr_left := cr_left r AND val, cr_right := cr_right r AND val,
                            cr_mask := cr_mask r AND val\<rparr>))
      | _ \<Rightarrow> (False, r)))"

text \<open>
  The seven comparison branches of \<^verbatim>\<open>pullBackBinary\<close> share their frame: restrict the
  output range to booleans, take the input mask, stop when both truth values are possible,
  otherwise set the range where the comparison holds and complement it if the output was
  false. \<open>body\<close> sets the range of the one comparison.
\<close>

definition pullBackCompare :: "(circleRange \<Rightarrow> circleRange) \<Rightarrow> circleRange \<Rightarrow> int \<Rightarrow> circleRange" where
  "pullBackCompare body r inSize =
     (let (bothTrueFalse, r) = convertToBoolean r;
          r = r\<lparr>cr_mask := maskForSize inSize\<rparr>
      in if bothTrueFalse then r
         else (let yescomplement = (cr_left r = 0);
                   r = body r
               in if yescomplement then complement r else r))"

definition pullBackLess :: "u64 \<Rightarrow> int \<Rightarrow> circleRange \<Rightarrow> circleRange" where
  "pullBackLess val slot r =
     (if slot = 0 then
        (if val = 0 then r\<lparr>cr_isempty := True\<rparr> else r\<lparr>cr_left := 0, cr_right := val\<rparr>)
      else
        (if val = cr_mask r then r\<lparr>cr_isempty := True\<rparr>
         else r\<lparr>cr_left := (val + 1) AND cr_mask r, cr_right := 0\<rparr>))"

definition pullBackSless :: "u64 \<Rightarrow> int \<Rightarrow> circleRange \<Rightarrow> circleRange" where
  "pullBackSless val slot r =
     (if slot = 0 then
        (if val = shr (cr_mask r) 1 + 1 then r\<lparr>cr_isempty := True\<rparr>
         else r\<lparr>cr_left := shr (cr_mask r) 1 + 1, cr_right := val\<rparr>)
      else
        (if val = shr (cr_mask r) 1 then r\<lparr>cr_isempty := True\<rparr>
         else r\<lparr>cr_left := (val + 1) AND cr_mask r, cr_right := shr (cr_mask r) 1 + 1\<rparr>))"

definition pullBackRight :: "u64 \<Rightarrow> int \<Rightarrow> circleRange \<Rightarrow> circleRange" where
  "pullBackRight val inSize r =
     (let rightBound = shr (maskForSize inSize) val + 1;
          l = cr_left r; t = cr_right r
      in if (l \<ge> rightBound \<and> t \<ge> rightBound \<and> l \<ge> t) \<or> (l = 0 \<and> t \<ge> rightBound) \<or> l = t
         then r\<lparr>cr_left := 0, cr_right := 0\<rparr>
         else (let l = (if l > rightBound then rightBound else l);
                   t = (if t > rightBound then 0 else t);
                   l = shl l val AND cr_mask r;
                   t = shl t val AND cr_mask r;
                   r = r\<lparr>cr_left := l, cr_right := t\<rparr>
               in if l = t then r\<lparr>cr_isempty := True\<rparr> else r))"

definition pullBackSright :: "u64 \<Rightarrow> int \<Rightarrow> circleRange \<Rightarrow> circleRange" where
  "pullBackSright val inSize r =
     (let rightb = maskForSize inSize;
          leftb = shr rightb (val + 1);
          rightb = leftb XOR rightb;
          leftb = leftb + 1;
          l = cr_left r; t = cr_right r
      in if (l \<ge> leftb \<and> l \<le> rightb \<and> t \<ge> leftb \<and> t \<le> rightb \<and> l \<ge> t) \<or> l = t
         then r\<lparr>cr_left := 0, cr_right := 0\<rparr>
         else (let l = (if l > leftb \<and> l < rightb then leftb else l);
                   t = (if t > leftb \<and> t < rightb then rightb else t);
                   l = shl l val AND cr_mask r;
                   t = shl t val AND cr_mask r;
                   r = r\<lparr>cr_left := l, cr_right := t\<rparr>
               in if l = t then r\<lparr>cr_isempty := True\<rparr> else r))"

definition pullBackBinary ::
    "circleRange \<Rightarrow> OpCode \<Rightarrow> u64 \<Rightarrow> int \<Rightarrow> int \<Rightarrow> int \<Rightarrow> bool \<times> circleRange" where
  "pullBackBinary r opc val slot inSize outSize =
     (if cr_isempty r then (True, r)
      else (case opc of
        CPUI_INT_EQUAL \<Rightarrow>
          (True, pullBackCompare
             (\<lambda>r. r\<lparr>cr_left := val, cr_right := (val + 1) AND cr_mask r\<rparr>) r inSize)
      | CPUI_INT_NOTEQUAL \<Rightarrow>
          (True, pullBackCompare
             (\<lambda>r. r\<lparr>cr_left := (val + 1) AND cr_mask r, cr_right := val\<rparr>) r inSize)
      | CPUI_INT_LESS \<Rightarrow> (True, pullBackCompare (pullBackLess val slot) r inSize)
      | CPUI_INT_LESSEQUAL \<Rightarrow>
          (True, pullBackCompare
             (\<lambda>r. if slot = 0 then r\<lparr>cr_left := 0, cr_right := (val + 1) AND cr_mask r\<rparr>
                   else r\<lparr>cr_left := val, cr_right := 0\<rparr>) r inSize)
      | CPUI_INT_SLESS \<Rightarrow> (True, pullBackCompare (pullBackSless val slot) r inSize)
      | CPUI_INT_SLESSEQUAL \<Rightarrow>
          (True, pullBackCompare
             (\<lambda>r. if slot = 0
                   then r\<lparr>cr_left := shr (cr_mask r) 1 + 1, cr_right := (val + 1) AND cr_mask r\<rparr>
                   else r\<lparr>cr_left := val, cr_right := shr (cr_mask r) 1 + 1\<rparr>) r inSize)
      | CPUI_INT_CARRY \<Rightarrow>
          (True, pullBackCompare
             (\<lambda>r. if val = 0 then r\<lparr>cr_isempty := True\<rparr>
                   else r\<lparr>cr_left := ((cr_mask r - val) + 1) AND cr_mask r, cr_right := 0\<rparr>)
             r inSize)
      | CPUI_INT_ADD \<Rightarrow>
          (True, r\<lparr>cr_left := (cr_left r - val) AND cr_mask r,
                   cr_right := (cr_right r - val) AND cr_mask r\<rparr>)
      | CPUI_INT_SUB \<Rightarrow>
          (if slot = 0
           then (True, r\<lparr>cr_left := (cr_left r + val) AND cr_mask r,
                         cr_right := (cr_right r + val) AND cr_mask r\<rparr>)
           else (True, r\<lparr>cr_left := (val - cr_left r) AND cr_mask r,
                         cr_right := (val - cr_right r) AND cr_mask r\<rparr>))
      | CPUI_INT_RIGHT \<Rightarrow>
          (if cr_step r = 1 then (True, pullBackRight val inSize r) else (False, r))
      | CPUI_INT_SRIGHT \<Rightarrow>
          (if cr_step r = 1 then (True, pullBackSright val inSize r) else (False, r))
      | _ \<Rightarrow> (False, r)))"

text \<open>
  What \<^verbatim>\<open>pullBack\<close> reads of a p-code op: its opcode, for each input whether it is constant,
  its offset and its size, and the size of its output. The Varnode the method returns is
  given by its input slot.
\<close>

record varnode_view =
  vn_isconst :: bool
  vn_offset :: u64
  vn_size :: int

record pcodeop_view =
  op_code :: OpCode
  op_inputs :: "varnode_view list"
  op_outsize :: int

definition pullBack :: "circleRange \<Rightarrow> pcodeop_view \<Rightarrow> nat option \<times> circleRange" where
  "pullBack r op =
     (case op_inputs op of
        [v] \<Rightarrow>
          (if vn_isconst v then (None, r)
           else (case pullBackUnary r (op_code op) (vn_size v) (op_outsize op) of
                   (ok, r) \<Rightarrow> if ok then (Some 0, r) else (None, r)))
      | [v0, v1] \<Rightarrow>
          (if vn_isconst v0 \<and> vn_isconst v1 then (None, r)
           else if \<not> vn_isconst v0 \<and> \<not> vn_isconst v1 then (None, r)
           else (let slot = (if vn_isconst v0 then 1 else 0 :: nat);
                     res = (if vn_isconst v0 then v1 else v0);
                     constvn = (if vn_isconst v0 then v0 else v1)
                 in case pullBackBinary r (op_code op) (vn_offset constvn) (int slot)
                           (vn_size res) (op_outsize op) of
                      (ok, r) \<Rightarrow> if ok then (Some slot, r) else (None, r)))
      | _ \<Rightarrow> (None, r))"

section \<open>Recovering a comparison\<close>

text \<open>The result: opcode, constant, slot of the constant, and the result type.\<close>

definition translate2Op :: "circleRange \<Rightarrow> OpCode \<times> u64 \<times> int \<times> int" where
  "translate2Op r =
     (let l = cr_left r; t = cr_right r; m = cr_mask r in
      if cr_isempty r then (CPUI_MAX, 0, 0, 3)
      else if cr_step r \<noteq> 1 then (CPUI_MAX, 0, 0, 2)
      else if t = (l + 1) AND m then (CPUI_INT_EQUAL, l, 0, 0)
      else if l = (t + 1) AND m then (CPUI_INT_NOTEQUAL, t, 0, 0)
      else if l = t then (CPUI_MAX, 0, 0, 1)
      else if l = 0 then (CPUI_INT_LESS, t, 1, 0)
      else if t = 0 then (CPUI_INT_LESS, (l - 1) AND m, 0, 0)
      else if l = shr m 1 + 1 then (CPUI_INT_SLESS, t, 1, 0)
      else if t = shr m 1 + 1 then (CPUI_INT_SLESS, (l - 1) AND m, 0, 0)
      else (CPUI_MAX, 0, 0, 2))"

section \<open>Constructors and enumeration\<close>

definition newCircleRangeBounds :: "u64 \<Rightarrow> u64 \<Rightarrow> int \<Rightarrow> int \<Rightarrow> circleRange" where
  "newCircleRangeBounds lft rgt sz stp =
     \<lparr>cr_left = lft, cr_right = rgt, cr_mask = maskForSize sz, cr_isempty = False, cr_step = stp\<rparr>"

definition newCircleRangeSingle :: "u64 \<Rightarrow> int \<Rightarrow> circleRange" where
  "newCircleRangeSingle val sz =
     (let m = maskForSize sz
      in \<lparr>cr_left = val, cr_right = (val + 1) AND m, cr_mask = m, cr_isempty = False, cr_step = 1\<rparr>)"

definition setRange :: "circleRange \<Rightarrow> u64 \<Rightarrow> u64 \<Rightarrow> int \<Rightarrow> int \<Rightarrow> circleRange" where
  "setRange r lft rgt sz stp =
     r\<lparr>cr_mask := maskForSize sz, cr_left := lft, cr_right := rgt, cr_step := stp,
       cr_isempty := False\<rparr>"

definition getMin :: "circleRange \<Rightarrow> u64" where
  "getMin r = cr_left r"

definition getMax :: "circleRange \<Rightarrow> u64" where
  "getMax r = (cr_right r - u64_of (cr_step r)) AND cr_mask r"

definition getEnd :: "circleRange \<Rightarrow> u64" where
  "getEnd r = cr_right r"

definition getSize :: "circleRange \<Rightarrow> u64" where
  "getSize r =
     (if cr_isempty r \<or> cr_step r = 0 then 0
      else if cr_left r < cr_right r then (cr_right r - cr_left r) div u64_of (cr_step r)
      else
        (let val = (cr_mask r - (cr_left r - cr_right r) + u64_of (cr_step r)) div u64_of (cr_step r)
         in if val = 0
            then (if cr_step r > 1 then cr_mask r div u64_of (cr_step r) + 1 else cr_mask r)
            else val))"

definition getNext :: "circleRange \<Rightarrow> u64 \<Rightarrow> u64 \<times> bool" where
  "getNext r val =
     (let nxt = (val + u64_of (cr_step r)) AND cr_mask r in (nxt, nxt \<noteq> cr_right r))"

end
