(* ===== verification/Circle_Sets.thy ===== *)
theory Circle_Sets
  imports Circle_Range
begin

text \<open>
  The sets that circle ranges denote. \<open>cr_ok n r\<close> is the representation invariant over an
  \<open>n\<close>-bit ring; membership is read as circular order (\<open>arc\<close>) or as circular distance, and
  complement, union and intersection are shown to compute the set operations.
\<close>

section \<open>Membership\<close>

definition arc :: "u64 \<Rightarrow> u64 \<Rightarrow> u64 \<Rightarrow> bool" where
  "arc l t v \<longleftrightarrow> (if l < t then l \<le> v \<and> v < t else if t < l then v < t \<or> l \<le> v else True)"

definition in_phase :: "int \<Rightarrow> u64 \<Rightarrow> u64 \<Rightarrow> bool" where
  "in_phase s a b \<longleftrightarrow> s = 1 \<or> a mod u64_of s = b mod u64_of s"

lemma contains_arc:
  "contains r v \<longleftrightarrow>
     \<not> cr_isempty r \<and> in_phase (cr_step r) (cr_left r) v \<and> arc (cr_left r) (cr_right r) v"
  by (auto simp: contains_def arc_def in_phase_def)

lemma in_phase_refl [simp]: "in_phase s a a"
  and in_phase_sym: "in_phase s a b \<Longrightarrow> in_phase s b a"
  and in_phase_trans: "in_phase s a b \<Longrightarrow> in_phase s b c \<Longrightarrow> in_phase s a c"
  and in_phase_one [simp]: "in_phase 1 a b"
  by (auto simp: in_phase_def)

text \<open>The invariant: a ring of \<open>2 ^ n\<close> values, a step dividing it, bounds inside it and in phase.\<close>

definition cr_dom :: "nat \<Rightarrow> circleRange \<Rightarrow> bool" where
  "cr_dom n r \<longleftrightarrow> 0 < n \<and> n \<le> 64 \<and> cr_mask r = mask n \<and>
     0 < cr_step r \<and> cr_step r < 2 ^ 63 \<and> cr_step r dvd 2 ^ n"

definition cr_ok :: "nat \<Rightarrow> circleRange \<Rightarrow> bool" where
  "cr_ok n r \<longleftrightarrow> cr_dom n r \<and>
     (\<not> cr_isempty r \<longrightarrow> cr_left r \<le> mask n \<and> cr_right r \<le> mask n \<and>
        in_phase (cr_step r) (cr_left r) (cr_right r))"

definition cr_set :: "circleRange \<Rightarrow> u64 set" where
  "cr_set r = {v. v \<le> cr_mask r \<and> contains r v}"

section \<open>The overlap code\<close>

text \<open>What each letter of the \<open>circleArrange\<close> table says of the four bounds.\<close>

lemma overlap_code:
  fixes l t l2 t2 :: u64
  assumes "l \<noteq> t" "l2 \<noteq> t2" and c: "c = circleEncodeRangeOverlaps l t l2 t2"
  shows "(c = CHR ''a'' \<and>
       ((t \<le> l2 \<and> l2 < t2 \<and> t2 < l) \<or> (l < t \<and> t \<le> l2 \<and> l2 < t2))) \<or>
     (c = CHR ''b'' \<and>
       ((l2 < t \<and> t \<le> t2 \<and> t2 < l) \<or> (t \<le> t2 \<and> t2 < l \<and> l \<le> l2) \<or>
        (t2 < l \<and> l \<le> l2 \<and> l2 < t) \<or> (l \<le> l2 \<and> l2 < t \<and> t \<le> t2))) \<or>
     (c = CHR ''c'' \<and>
       ((l2 < t2 \<and> t2 < t \<and> t < l) \<or> (t2 < t \<and> t < l \<and> l \<le> l2) \<or>
        (t < l \<and> l \<le> l2 \<and> l2 < t2) \<or> (l \<le> l2 \<and> l2 < t2 \<and> t2 < t))) \<or>
     (c = CHR ''d'' \<and>
       ((t \<le> t2 \<and> t2 < l2 \<and> l2 < l) \<or> (t2 < l2 \<and> l2 < l \<and> l < t) \<or>
        (l2 < l \<and> l < t \<and> t \<le> t2) \<or> (l < t \<and> t \<le> t2 \<and> t2 < l2))) \<or>
     (c = CHR ''e'' \<and>
       ((t2 < t \<and> t \<le> l2 \<and> l2 < l) \<or> (t \<le> l2 \<and> l2 < l \<and> l \<le> t2) \<or>
        (l2 < l \<and> l \<le> t2 \<and> t2 < t) \<or> (l \<le> t2 \<and> t2 < t \<and> t \<le> l2))) \<or>
     (c = CHR ''f'' \<and>
       ((l2 < t2 \<and> t2 < l \<and> l < t) \<or> (t2 < l \<and> l < t \<and> t \<le> l2))) \<or>
     (c = CHR ''g'' \<and>
       ((t2 < l2 \<and> l2 < t \<and> t < l) \<or> (l2 < t \<and> t < l \<and> l \<le> t2) \<or>
        (t < l \<and> l \<le> t2 \<and> t2 < l2) \<or> (l \<le> t2 \<and> t2 < l2 \<and> l2 < t)))"
  unfolding c circleEncodeRangeOverlaps_def circleArrange_def Let_def
  using assms(1,2)
  by (cases "l \<le> t"; cases "l \<le> l2"; cases "l \<le> t2"; cases "t \<le> l2"; cases "t \<le> t2"; cases "l2 \<le> t2";
      simp; (simp add: word_le_def word_less_def word_uint_eq_iff)?; linarith?)

lemmas overlap_order = word_le_def word_less_def word_uint_eq_iff

lemma overlap_inter:
  fixes l t l2 t2 :: u64
  assumes "l \<noteq> t" "l2 \<noteq> t2" and c: "c = circleEncodeRangeOverlaps l t l2 t2"
  shows "c = CHR ''a'' \<or> c = CHR ''f'' \<Longrightarrow> \<not> (arc l t v \<and> arc l2 t2 v)"
    and "c = CHR ''b'' \<Longrightarrow> arc l t v \<and> arc l2 t2 v \<longleftrightarrow> l2 \<noteq> t \<and> arc l2 t v"
    and "c = CHR ''c'' \<Longrightarrow> arc l t v \<and> arc l2 t2 v \<longleftrightarrow> arc l2 t2 v"
    and "c = CHR ''d'' \<Longrightarrow> arc l t v \<and> arc l2 t2 v \<longleftrightarrow> arc l t v"
    and "c = CHR ''e'' \<Longrightarrow> arc l t v \<and> arc l2 t2 v \<longleftrightarrow> l \<noteq> t2 \<and> arc l t2 v"
    and "c = CHR ''g'' \<Longrightarrow> l = t2 \<Longrightarrow> arc l t v \<and> arc l2 t2 v \<longleftrightarrow> l2 \<noteq> t \<and> arc l2 t v"
    and "c = CHR ''g'' \<Longrightarrow> l2 = t \<Longrightarrow> arc l t v \<and> arc l2 t2 v \<longleftrightarrow> l \<noteq> t2 \<and> arc l t2 v"
  using overlap_code [OF assms] unfolding arc_def overlap_order by auto

lemma overlap_union:
  fixes l t l2 t2 :: u64
  assumes "l \<noteq> t" "l2 \<noteq> t2" and c: "c = circleEncodeRangeOverlaps l t l2 t2"
  shows "c = CHR ''a'' \<or> c = CHR ''f'' \<Longrightarrow> t = l2 \<Longrightarrow> arc l t v \<or> arc l2 t2 v \<longleftrightarrow> arc l t2 v"
    and "c = CHR ''a'' \<or> c = CHR ''f'' \<Longrightarrow> l = t2 \<Longrightarrow> arc l t v \<or> arc l2 t2 v \<longleftrightarrow> arc l2 t v"
    and "c = CHR ''b'' \<Longrightarrow> arc l t v \<or> arc l2 t2 v \<longleftrightarrow> arc l t2 v"
    and "c = CHR ''c'' \<Longrightarrow> arc l t v \<or> arc l2 t2 v \<longleftrightarrow> arc l t v"
    and "c = CHR ''d'' \<Longrightarrow> arc l t v \<or> arc l2 t2 v \<longleftrightarrow> arc l2 t2 v"
    and "c = CHR ''e'' \<Longrightarrow> arc l t v \<or> arc l2 t2 v \<longleftrightarrow> arc l2 t v"
    and "c = CHR ''g'' \<Longrightarrow> arc l t v \<or> arc l2 t2 v"
  using overlap_code [OF assms] unfolding arc_def overlap_order by auto

section \<open>Intersection of aligned ranges\<close>


lemma arc_full [simp]: "arc l l v"
  by (simp add: arc_def)

lemma intersect_overlap_frame:
  assumes "intersect_overlap r l t l2 t2 = (k, r')"
  shows "cr_mask r' = cr_mask r" and "cr_step r' = cr_step r" and "k \<noteq> 0 \<Longrightarrow> k = 2 \<and> r' = r"
  using assms unfolding intersect_overlap_def Let_def by (auto split: if_splits)

lemma intersect_overlap_spec:
  assumes "l \<noteq> t" "l2 \<noteq> t2" "\<not> cr_isempty r"
    and "intersect_overlap r l t l2 t2 = (0, r')"
  shows "\<not> cr_isempty r' \<and> arc (cr_left r') (cr_right r') v \<longleftrightarrow> arc l t v \<and> arc l2 t2 v"
proof -
  define c where "c = circleEncodeRangeOverlaps l t l2 t2"
  note inter = overlap_inter [OF assms(1,2) c_def, of v]
  note spec = assms(4) [unfolded intersect_overlap_def Let_def c_def [symmetric]]
  consider "c = CHR ''a'' \<or> c = CHR ''f''" | "c = CHR ''b''" | "c = CHR ''c''" | "c = CHR ''d''"
    | "c = CHR ''e''" | "c = CHR ''g''" "l = t2" | "c = CHR ''g''" "l2 = t" "l \<noteq> t2"
    using spec by (auto split: if_splits)
  then show ?thesis
  proof cases
    case 1
    with spec have "r' = r\<lparr>cr_isempty := True\<rparr>" by simp
    with inter(1) [OF 1] show ?thesis by simp
  next
    case 2
    with spec have "r' = r\<lparr>cr_left := l2, cr_right := t, cr_isempty := (l2 = t)\<rparr>" by simp
    with inter(2) [OF 2] show ?thesis by simp
  next
    case 3
    with spec have "r' = r\<lparr>cr_left := l2, cr_right := t2\<rparr>" by simp
    with inter(3) [OF 3] assms(3) show ?thesis by simp
  next
    case 4
    with spec have "r' = r\<lparr>cr_left := l, cr_right := t\<rparr>" by simp
    with inter(4) [OF 4] assms(3) show ?thesis by simp
  next
    case 5
    with spec have "r' = r\<lparr>cr_left := l, cr_right := t2, cr_isempty := (l = t2)\<rparr>" by simp
    with inter(5) [OF 5] show ?thesis by simp
  next
    case 6
    with spec have "r' = r\<lparr>cr_left := l2, cr_right := t, cr_isempty := (l2 = t)\<rparr>" by simp
    with inter(6) [OF 6] show ?thesis by simp
  next
    case 7
    with spec have "r' = r\<lparr>cr_left := l, cr_right := t2, cr_isempty := (l = t2)\<rparr>" by simp
    with inter(7) [OF 7(1,2)] show ?thesis by simp
  qed
qed

lemma intersect_overlap_bounds:
  assumes "intersect_overlap r l t l2 t2 = (0, r')"
  shows "\<not> cr_isempty r' \<Longrightarrow> cr_left r' \<in> {l, l2} \<and> cr_right r' \<in> {t, t2}"
  using assms unfolding intersect_overlap_def Let_def by (auto split: if_splits)

text \<open>Two ranges the simple branch of \<^verbatim>\<open>intersect\<close> and \<^verbatim>\<open>circleUnion\<close> can combine.\<close>

definition cr_aligned :: "circleRange \<Rightarrow> circleRange \<Rightarrow> bool" where
  "cr_aligned r op2 \<longleftrightarrow> cr_isempty r \<or> cr_isempty op2 \<or>
     (cr_step r = cr_step op2 \<and> in_phase (cr_step r) (cr_left r) (cr_left op2))"

lemma intersect_aligned:
  assumes ne: "\<not> cr_isempty r" "\<not> cr_isempty op2"
    and st: "cr_step r = cr_step op2" and m: "cr_mask r = cr_mask op2"
  shows "intersect r op2 =
    (if cr_left r = cr_right r then (0, r\<lparr>cr_left := cr_left op2, cr_right := cr_right op2\<rparr>)
     else if cr_left op2 = cr_right op2 then (0, r)
     else intersect_overlap r (cr_left r) (cr_right r) (cr_left op2) (cr_right op2))"
proof (cases "intersect_overlap r (cr_left r) (cr_right r) (cr_left op2) (cr_right op2)")
  case (Pair k r')
  with intersect_overlap_frame [OF Pair] assms show ?thesis
    unfolding intersect_def by (auto simp: Let_def)
qed

text \<open>Everything a successful intersection of aligned ranges guarantees.\<close>

lemma intersect_cases:
  assumes ne: "\<not> cr_isempty r" "\<not> cr_isempty op2"
    and st: "cr_step r = cr_step op2" and m: "cr_mask r = cr_mask op2"
    and ret: "intersect r op2 = (0, r')"
  shows "\<not> cr_isempty r' \<and> arc (cr_left r') (cr_right r') v \<longleftrightarrow>
      arc (cr_left r) (cr_right r) v \<and> arc (cr_left op2) (cr_right op2) v" (is ?A)
    and "\<not> cr_isempty r' \<Longrightarrow>
      cr_left r' \<in> {cr_left r, cr_left op2} \<and> cr_right r' \<in> {cr_right r, cr_right op2}" (is "_ \<Longrightarrow> ?B")
    and "cr_mask r' = cr_mask r" and "cr_step r' = cr_step r"
proof -
  note eq = ret [unfolded intersect_aligned [OF ne st m]]
  consider "cr_left r = cr_right r" "r' = r\<lparr>cr_left := cr_left op2, cr_right := cr_right op2\<rparr>"
    | "cr_left op2 = cr_right op2" "r' = r"
    | "cr_left r \<noteq> cr_right r" "cr_left op2 \<noteq> cr_right op2"
      "intersect_overlap r (cr_left r) (cr_right r) (cr_left op2) (cr_right op2) = (0, r')"
    using eq by (cases "cr_left r = cr_right r"; cases "cr_left op2 = cr_right op2") auto
  then have "?A \<and> (\<not> cr_isempty r' \<longrightarrow> ?B) \<and> cr_mask r' = cr_mask r \<and> cr_step r' = cr_step r"
  proof cases
    case 1
    then show ?thesis using ne by simp
  next
    case 2
    then show ?thesis using ne by simp
  next
    case 3
    then show ?thesis
      using intersect_overlap_spec [OF 3(1,2) ne(1) 3(3), of v] intersect_overlap_bounds [OF 3(3)]
        intersect_overlap_frame [OF 3(3)] by blast
  qed
  then show ?A and "\<not> cr_isempty r' \<Longrightarrow> ?B" and "cr_mask r' = cr_mask r" and "cr_step r' = cr_step r"
    by blast+
qed
section \<open>Membership as circular distance\<close>

lemma uint_mod_u64_of:
  assumes "0 < s" "s < 2 ^ 64"
  shows "uint (a mod u64_of s) = uint a mod s"
  using assms by (simp add: uint_mod u64_of_uint)

lemma in_phase_dvd:
  assumes "0 < s" "s < 2 ^ 63"
  shows "in_phase s a b \<longleftrightarrow> s dvd uint b - uint a"
proof -
  have "in_phase s a b \<longleftrightarrow> s = 1 \<or> uint a mod s = uint b mod s"
    using assms by (simp add: in_phase_def word_uint_eq_iff uint_mod_u64_of)
  also have "\<dots> \<longleftrightarrow> s dvd uint b - uint a"
    by (metis mod_eq_iff_dvd one_dvd)
  finally show ?thesis .
qed

lemma arc_ring:
  fixes l t v N :: int
  assumes "0 \<le> l" "l < N" "0 \<le> t" "t < N" "0 \<le> v" "v < N"
  shows "(if l < t then l \<le> v \<and> v < t else if t < l then v < t \<or> l \<le> v else True) \<longleftrightarrow>
     l = t \<or> (v - l) mod N < (t - l) mod N"
  unfolding mod_diff_ring [OF assms(5,6) assms(1,2)] mod_diff_ring [OF assms(3,4) assms(1,2)]
  using assms by auto

lemma arc_dist:
  assumes "n \<le> 64" "l \<le> mask n" "t \<le> mask n" "v \<le> mask n"
  shows "arc l t v \<longleftrightarrow> l = t \<or> (uint v - uint l) mod 2 ^ n < (uint t - uint l) mod 2 ^ n"
proof -
  have "uint l < 2 ^ n" "uint t < 2 ^ n" "uint v < 2 ^ n"
    using assms by (simp_all add: le_mask_iff)
  then show ?thesis
    unfolding arc_def overlap_order by (intro arc_ring) simp_all
qed

lemma cr_ok_facts:
  assumes "cr_ok n r"
  shows "0 < n" "n \<le> 64" "cr_mask r = mask n" "0 < cr_step r" "cr_step r < 2 ^ 63" "cr_step r dvd 2 ^ n"
    "\<not> cr_isempty r \<Longrightarrow> cr_left r \<le> mask n" "\<not> cr_isempty r \<Longrightarrow> cr_right r \<le> mask n"
    "\<not> cr_isempty r \<Longrightarrow> in_phase (cr_step r) (cr_left r) (cr_right r)"
  using assms by (simp_all add: cr_ok_def cr_dom_def)

lemma contains_dist:
  assumes "cr_ok n r" "\<not> cr_isempty r" "v \<le> mask n"
  shows "contains r v \<longleftrightarrow> cr_step r dvd uint v - uint (cr_left r) \<and>
     (cr_left r = cr_right r \<or>
      (uint v - uint (cr_left r)) mod 2 ^ n < (uint (cr_right r) - uint (cr_left r)) mod 2 ^ n)"
  using assms cr_ok_facts [OF assms(1)] by (simp add: contains_arc in_phase_dvd arc_dist)

lemma dvd_small_zero: "(s::int) dvd d \<Longrightarrow> 0 \<le> d \<Longrightarrow> d < s \<Longrightarrow> d = 0"
  using zdvd_not_zless by (metis order_le_less)

lemma u64_of_step:
  assumes "cr_ok n r" shows "uint (u64_of (cr_step r)) = cr_step r"
  using cr_ok_facts [OF assms] by (simp add: u64_of_uint)

lemma isSingle_dist:
  assumes "cr_ok n r" "isSingle r"
  shows "uint (cr_right r) = (uint (cr_left r) + cr_step r) mod 2 ^ n"
  using assms cr_ok_facts [OF assms(1)] by (simp add: isSingle_def mask_plus u64_of_step)

lemma single_ring:
  fixes s N l v :: int
  assumes s: "0 < s" "s dvd N" and b: "0 \<le> l" "l < N" "0 \<le> v" "v < N"
  shows "s dvd v - l \<and> (l = (l + s) mod N \<or> (v - l) mod N < ((l + s) mod N - l) mod N) \<longleftrightarrow> v = l"
proof
  assume "v = l"
  have "0 < N" using b by linarith
  have "((l + s) mod N - l) mod N = s mod N" by (simp add: mod_simps)
  moreover have "l = (l + s) mod N \<or> 0 < s mod N"
  proof (cases "s mod N = 0")
    case True
    then have "(l + s) mod N = l mod N" by (metis add.right_neutral mod_add_right_eq)
    with b show ?thesis by simp
  next
    case False
    then show ?thesis using \<open>0 < N\<close> by (metis le_less pos_mod_sign)
  qed
  ultimately show "s dvd v - l \<and> (l = (l + s) mod N \<or> (v - l) mod N < ((l + s) mod N - l) mod N)"
    using \<open>v = l\<close> by simp
next
  assume a: "s dvd v - l \<and> (l = (l + s) mod N \<or> (v - l) mod N < ((l + s) mod N - l) mod N)"
  have "0 < N" using b by linarith
  have le: "s \<le> N" using s \<open>0 < N\<close> by (simp add: zdvd_imp_le)
  have "((l + s) mod N - l) mod N = s mod N" by (simp add: mod_simps)
  have d: "s dvd (v - l) mod N" using a s by (simp add: dvd_mod_ring)
  have "(v - l) mod N < s"
  proof (cases "s = N")
    case True then show ?thesis using \<open>0 < N\<close> by simp
  next
    case False
    with le s have "s mod N = s" by simp
    have "l \<noteq> (l + s) mod N"
    proof
      assume "l = (l + s) mod N"
      then have "s mod N = 0" using b by (metis \<open>((l + s) mod N - l) mod N = s mod N\<close> cancel_comm_monoid_add_class.diff_cancel mod_0)
      then show False using \<open>s mod N = s\<close> s by simp
    qed
    with a \<open>((l + s) mod N - l) mod N = s mod N\<close> \<open>s mod N = s\<close> show ?thesis by simp
  qed
  with d have "(v - l) mod N = 0" using \<open>0 < N\<close> by (intro dvd_small_zero) auto
  then show "v = l" using b mod_diff_ring [of v N l] by (auto split: if_splits)
qed

lemma isSingle_contains:
  assumes "cr_ok n r" "isSingle r" "v \<le> mask n"
  shows "contains r v \<longleftrightarrow> v = cr_left r"
proof -
  have ne: "\<not> cr_isempty r" using assms(2) by (simp add: isSingle_def)
  note f = cr_ok_facts [OF assms(1)]
  have b: "0 \<le> uint (cr_left r)" "uint (cr_left r) < 2 ^ n" "0 \<le> uint v" "uint v < 2 ^ n"
    using f ne assms(3) by (simp_all add: le_mask_iff)
  show ?thesis
    using single_ring [OF f(4,6) b] contains_dist [OF assms(1) ne assms(3)] isSingle_dist [OF assms(1,2)]
    by (simp add: word_uint_eq_iff)
qed
section \<open>Union of aligned ranges\<close>


lemma in_phase_cong: "in_phase s a b \<Longrightarrow> in_phase s a x \<longleftrightarrow> in_phase s b x"
  by (auto simp: in_phase_def)

lemma union_overlap_spec:
  assumes "cr_left r \<noteq> t" "l2 \<noteq> t2"
    and "union_overlap r t l2 t2 q s = (0, r')"
  shows "arc (cr_left r') (cr_right r') v \<longleftrightarrow> arc (cr_left r) t v \<or> arc l2 t2 v"
    and "cr_left r' \<in> {cr_left r, l2} \<and> cr_right r' \<in> {t, t2} \<or> cr_left r' = q \<and> cr_right r' = q"
    and "cr_mask r' = cr_mask r" "cr_step r' = s" "cr_isempty r' = cr_isempty r"
proof -
  define c where "c = circleEncodeRangeOverlaps (cr_left r) t l2 t2"
  note union = overlap_union [OF assms(1,2) c_def, of v]
  note spec = assms(3) [unfolded union_overlap_def Let_def c_def [symmetric]]
  show "cr_left r' \<in> {cr_left r, l2} \<and> cr_right r' \<in> {t, t2} \<or> cr_left r' = q \<and> cr_right r' = q"
    and "cr_mask r' = cr_mask r" "cr_step r' = s" "cr_isempty r' = cr_isempty r"
    using spec by (auto split: if_splits)
  consider "c = CHR ''a'' \<or> c = CHR ''f''" "t = l2" | "c = CHR ''a'' \<or> c = CHR ''f''" "cr_left r = t2" "t \<noteq> l2"
    | "c = CHR ''b''" | "c = CHR ''c''" | "c = CHR ''d''" | "c = CHR ''e''" | "c = CHR ''g''"
    using spec by (auto split: if_splits)
  then show "arc (cr_left r') (cr_right r') v \<longleftrightarrow> arc (cr_left r) t v \<or> arc l2 t2 v"
  proof cases
    case 1
    with spec have "r' = r\<lparr>cr_left := cr_left r, cr_right := t2, cr_step := s\<rparr>" by simp
    with union(1) [OF 1] show ?thesis by simp
  next
    case 2
    with spec have "r' = r\<lparr>cr_left := l2, cr_right := t, cr_step := s\<rparr>" by simp
    with union(2) [OF 2(1,2)] show ?thesis by simp
  next
    case 3
    with spec have "r' = r\<lparr>cr_left := cr_left r, cr_right := t2, cr_step := s\<rparr>" by simp
    with union(3) [OF 3] show ?thesis by simp
  next
    case 4
    with spec have "r' = r\<lparr>cr_left := cr_left r, cr_right := t, cr_step := s\<rparr>" by simp
    with union(4) [OF 4] show ?thesis by simp
  next
    case 5
    with spec have "r' = r\<lparr>cr_left := l2, cr_right := t2, cr_step := s\<rparr>" by simp
    with union(5) [OF 5] show ?thesis by simp
  next
    case 6
    with spec have "r' = r\<lparr>cr_left := l2, cr_right := t, cr_step := s\<rparr>" by simp
    with union(6) [OF 6] show ?thesis by simp
  next
    case 7
    with spec have "r' = r\<lparr>cr_left := q, cr_right := q, cr_step := s\<rparr>" by simp
    with union(7) [OF 7] show ?thesis by simp
  qed
qed

text \<open>Giving a one-element range a coarser stride does not change its set.\<close>

definition restride :: "circleRange \<Rightarrow> int \<Rightarrow> circleRange" where
  "restride r s = r\<lparr>cr_right := (cr_left r + u64_of s) AND cr_mask r, cr_step := s\<rparr>"

lemma restride_ok:
  assumes "cr_ok n r" "isSingle r" "0 < s" "s < 2 ^ 63" "s dvd 2 ^ n"
  shows "cr_ok n (restride r s)" and "isSingle (restride r s)"
proof -
  note f = cr_ok_facts [OF assms(1)]
  have ne: "\<not> cr_isempty r" using assms(2) by (simp add: isSingle_def)
  have u: "uint (u64_of s) = s" using assms by (simp add: u64_of_uint)
  have "s dvd (uint (cr_left r) + s) mod 2 ^ n - uint (cr_left r)"
    using assms(5) by (metis add_diff_cancel_left' dvd_mod_ring dvd_refl dvd_trans mod_diff_left_eq)
  then show "cr_ok n (restride r s)"
    using f ne assms u
    by (simp add: cr_ok_def cr_dom_def restride_def in_phase_dvd mask_plus and_mask_le)
  show "isSingle (restride r s)" using ne by (simp add: isSingle_def restride_def)
qed

lemma restride_contains:
  assumes "cr_ok n r" "isSingle r" "0 < s" "s < 2 ^ 63" "s dvd 2 ^ n" "v \<le> mask n"
  shows "contains (restride r s) v \<longleftrightarrow> contains r v"
proof -
  have "contains (restride r s) v \<longleftrightarrow> v = cr_left (restride r s)"
    using restride_ok [OF assms(1-5)] assms(6) by (rule isSingle_contains)
  with isSingle_contains [OF assms(1,2,6)] show ?thesis by (simp add: restride_def)
qed

lemma in_phase_rem:
  assumes "0 < s" "s < 2 ^ 63"
  shows "in_phase s (if s \<noteq> 1 then l mod u64_of s else 0) v \<longleftrightarrow> in_phase s l v"
  by (simp add: in_phase_def)

text \<open>The union of two ranges with one stride and one phase.\<close>

lemma union_aligned:
  assumes ok: "cr_ok n r1" "cr_ok n r2" and ne: "\<not> cr_isempty r1" "\<not> cr_isempty r2"
    and st: "cr_step r1 = s" "cr_step r2 = s" and ph: "in_phase s (cr_left r1) (cr_left r2)"
    and q: "q = (if s \<noteq> 1 then cr_left r1 mod u64_of s else 0)"
    and r': "r' = r\<lparr>cr_left := q, cr_right := q, cr_step := s\<rparr>
          \<and> (cr_left r1 = cr_right r1 \<or> cr_left r2 = cr_right r2)
        \<or> cr_left r1 \<noteq> cr_right r1 \<and> cr_left r2 \<noteq> cr_right r2 \<and>
          union_overlap r (cr_right r1) (cr_left r2) (cr_right r2) q s = (0, r')"
    and r: "cr_left r = cr_left r1" "cr_mask r = mask n" "\<not> cr_isempty r"
  shows "contains r' v \<longleftrightarrow> contains r1 v \<or> contains r2 v" and "cr_ok n r'"
proof -
  note f1 = cr_ok_facts [OF ok(1)] and f2 = cr_ok_facts [OF ok(2)]
  have s: "0 < s" "s < 2 ^ 63" using f1 st by auto
  have qph: "in_phase s (cr_left r1) q"
    using in_phase_rem [OF s, of "cr_left r1" "cr_left r1"] q by (metis in_phase_refl in_phase_sym)
  have "q \<le> mask n"
    using f1(7) ne q by (auto intro: order_trans [OF u64_mod_le])
  have phs: "x \<le> mask n \<and> in_phase s (cr_left r1) x"
    if "x \<in> {cr_left r1, cr_right r1, cr_left r2, cr_right r2, q}" for x
  proof -
    have "in_phase s (cr_left r1) (cr_right r2)" using f2 ne st ph by (metis in_phase_trans)
    with f1 f2 ne st ph qph \<open>q \<le> mask n\<close> that show ?thesis by auto
  qed
  have main: "(arc (cr_left r') (cr_right r') v \<longleftrightarrow>
      arc (cr_left r1) (cr_right r1) v \<or> arc (cr_left r2) (cr_right r2) v) \<and>
    cr_left r' \<in> {cr_left r1, cr_left r2, q} \<and> cr_right r' \<in> {cr_right r1, cr_right r2, q} \<and>
    cr_mask r' = mask n \<and> cr_step r' = s \<and> \<not> cr_isempty r'"
    using r'
  proof
    assume "r' = r\<lparr>cr_left := q, cr_right := q, cr_step := s\<rparr> \<and>
      (cr_left r1 = cr_right r1 \<or> cr_left r2 = cr_right r2)"
    then show ?thesis using r by auto
  next
    assume a: "cr_left r1 \<noteq> cr_right r1 \<and> cr_left r2 \<noteq> cr_right r2 \<and>
      union_overlap r (cr_right r1) (cr_left r2) (cr_right r2) q s = (0, r')"
    then have "cr_left r \<noteq> cr_right r1" "cr_left r2 \<noteq> cr_right r2"
      "union_overlap r (cr_right r1) (cr_left r2) (cr_right r2) q s = (0, r')" using r by auto
    from union_overlap_spec(1) [OF this, of v] union_overlap_spec(2-) [OF this] r
    show ?thesis by auto
  qed
  have "cr_left r' \<in> {cr_left r1, cr_right r1, cr_left r2, cr_right r2, q}"
    and "cr_right r' \<in> {cr_left r1, cr_right r1, cr_left r2, cr_right r2, q}"
    using main by blast+
  note lb = phs [OF this(1)] and rb = phs [OF this(2)]
  have cong: "in_phase s (cr_left r1) x \<longleftrightarrow> in_phase s (cr_left r') x" for x
    using lb in_phase_cong by blast
  show "contains r' v \<longleftrightarrow> contains r1 v \<or> contains r2 v"
    unfolding contains_arc st using main ne cong [of v] in_phase_cong [OF ph, of v] by auto
  show "cr_ok n r'"
    using main f1 st lb rb cong [of "cr_right r'"] by (simp add: cr_ok_def cr_dom_def)
qed
end
