(* ===== verification/Circle_Laws.thy ===== *)
theory Circle_Laws
  imports Circle_Sets
begin

text \<open>
  The set operations of \<^verbatim>\<open>circlerange.go\<close>: complement, intersection and union compute the
  operations on the denoted sets and keep the representation invariant.
\<close>

section \<open>Complement, intersection, union\<close>

lemma in_cr_set: "cr_ok n r \<Longrightarrow> v \<in> cr_set r \<longleftrightarrow> v \<le> mask n \<and> contains r v"
  by (simp add: cr_set_def cr_ok_def cr_dom_def)

lemma complement_contains:
  assumes "cr_step r = 1"
  shows "contains (complement r) v \<longleftrightarrow> \<not> contains r v"
  using assms by (auto simp: complement_def contains_arc arc_def)

lemma complement_ok: "cr_ok n r \<Longrightarrow> cr_step r = 1 \<Longrightarrow> cr_ok n (complement r)"
  by (auto simp: complement_def cr_ok_def cr_dom_def)

text \<open>C10: on a range of step 1 \<^verbatim>\<open>complement\<close> gives exactly the other values of the domain.\<close>

theorem complement_exact:
  assumes "cr_ok n r" and "cr_step r = 1"
  shows "cr_set (complement r) = {v. v \<le> mask n} - cr_set r \<and> cr_ok n (complement r)"
  using assms complement_ok [OF assms]
  by (auto simp: in_cr_set complement_contains)

theorem complement_exact_witness:
  "cr_set (complement \<lparr>cr_left = 250, cr_right = 3, cr_mask = 255, cr_isempty = False, cr_step = 1\<rparr>)
     = {v. v \<le> mask 8} -
       cr_set \<lparr>cr_left = 250, cr_right = 3, cr_mask = 255, cr_isempty = False, cr_step = 1\<rparr>"
proof -
  have "cr_ok 8 \<lparr>cr_left = 250, cr_right = 3, cr_mask = 255, cr_isempty = False, cr_step = 1\<rparr>"
    by (simp add: cr_ok_def cr_dom_def mask_eq_exp_minus_1)
  from complement_exact [OF this] show ?thesis by simp
qed

lemma intersect_contains:
  assumes "cr_ok n r" "cr_ok n op2" "cr_aligned r op2" "intersect r op2 = (0, r')"
  shows "contains r' v \<longleftrightarrow> contains r v \<and> contains op2 v" and "cr_ok n r'"
proof -
  have "(contains r' v \<longleftrightarrow> contains r v \<and> contains op2 v) \<and> cr_ok n r'"
  proof (cases "cr_isempty r \<or> cr_isempty op2")
    case True
    with assms show ?thesis
      by (auto simp: intersect_def contains_arc cr_ok_def cr_dom_def split: if_splits)
  next
    case False
    then have ne: "\<not> cr_isempty r" "\<not> cr_isempty op2" by auto
    with assms(3) have st: "cr_step r = cr_step op2"
      and ph: "in_phase (cr_step r) (cr_left r) (cr_left op2)" by (auto simp: cr_aligned_def)
    note f1 = cr_ok_facts [OF assms(1)] and f2 = cr_ok_facts [OF assms(2)]
    have m: "cr_mask r = cr_mask op2" using f1 f2 by simp
    note cases = intersect_cases(1) [OF ne st m assms(4), of v] intersect_cases(2-) [OF ne st m assms(4)]
    have bound: "x \<le> mask n \<and> in_phase (cr_step r) (cr_left r) x"
      if "x \<in> {cr_left r, cr_right r, cr_left op2, cr_right op2}" for x
    proof -
      have "in_phase (cr_step r) (cr_left r) (cr_right op2)"
        using f2(9) ne st ph in_phase_trans by metis
      with f1 f2 ne ph that show ?thesis by auto
    qed
    have lb: "cr_left r' \<le> mask n" "in_phase (cr_step r) (cr_left r) (cr_left r')"
      and rb: "cr_right r' \<le> mask n" "in_phase (cr_step r) (cr_left r) (cr_right r')"
      if "\<not> cr_isempty r'"
      using cases(2) [OF that] bound by blast+
    have "contains r' v \<longleftrightarrow> contains r v \<and> contains op2 v"
    proof (cases "cr_isempty r'")
      case True
      with cases(1) show ?thesis unfolding contains_arc by blast
    next
      case False
      show ?thesis
        using cases False ne in_phase_cong [OF lb(2) [OF False], of v] in_phase_cong [OF ph, of v]
        unfolding contains_arc st [symmetric] by auto
    qed
    moreover have "cr_ok n r'"
      using f1 cases(3,4) lb rb in_phase_cong [OF lb(2), of "cr_right r'"]
      by (simp add: cr_ok_def cr_dom_def)
    ultimately show ?thesis by blast
  qed
  then show "contains r' v \<longleftrightarrow> contains r v \<and> contains op2 v" and "cr_ok n r'" by blast+
qed

text \<open>
  C9: when \<^verbatim>\<open>intersect\<close> of two ranges over one domain, with one stride and one phase, reports
  success, the receiver denotes exactly the intersection and is a valid range again.
\<close>

theorem intersect_exact:
  assumes "cr_ok n r" "cr_ok n op2" "cr_aligned r op2" "intersect r op2 = (0, r')"
  shows "cr_set r' = cr_set r \<inter> cr_set op2 \<and> cr_ok n r'"
  using assms intersect_contains [OF assms] by (auto simp: in_cr_set)

theorem intersect_exact_witness:
  "cr_set \<lparr>cr_left = 250, cr_right = 3, cr_mask = 255, cr_isempty = False, cr_step = 1\<rparr>
     = cr_set \<lparr>cr_left = 250, cr_right = 7, cr_mask = 255, cr_isempty = False, cr_step = 1\<rparr> \<inter>
       cr_set \<lparr>cr_left = 200, cr_right = 3, cr_mask = 255, cr_isempty = False, cr_step = 1\<rparr>"
proof -
  let ?r = "\<lparr>cr_left = 250, cr_right = 7, cr_mask = 255, cr_isempty = False, cr_step = 1\<rparr>"
  let ?s = "\<lparr>cr_left = 200, cr_right = 3, cr_mask = 255, cr_isempty = False, cr_step = 1\<rparr>"
  have "cr_ok 8 ?r" "cr_ok 8 ?s" "cr_aligned ?r ?s"
    by (simp_all add: cr_ok_def cr_dom_def cr_aligned_def mask_eq_exp_minus_1)
  moreover have "intersect ?r ?s =
      (0, \<lparr>cr_left = 250, cr_right = 3, cr_mask = 255, cr_isempty = False, cr_step = 1\<rparr>)"
    by (simp add: intersect_def intersect_overlap_def circleEncodeRangeOverlaps_def circleArrange_def
        Let_def)
  ultimately show ?thesis using intersect_exact by blast
qed


lemma union_contains:
  assumes ok: "cr_ok n r" "cr_ok n op2" and ret: "circleUnion r op2 = (0, r')"
  shows "v \<le> mask n \<Longrightarrow> contains r' v \<longleftrightarrow> contains r v \<or> contains op2 v" and "cr_ok n r'"
proof -
  have "(v \<le> mask n \<longrightarrow> (contains r' v \<longleftrightarrow> contains r v \<or> contains op2 v)) \<and> cr_ok n r'"
  proof (cases "cr_isempty r \<or> cr_isempty op2")
    case True
    then show ?thesis using ok ret by (auto simp: circleUnion_def contains_arc split: if_splits)
  next
    case False
    then have ne: "\<not> cr_isempty r" "\<not> cr_isempty op2" by auto
    note f1 = cr_ok_facts [OF ok(1)] and f2 = cr_ok_facts [OF ok(2)]
    define s where "s = (if cr_step r < cr_step op2 then cr_step op2 else cr_step r)"
    define r1 where "r1 = (if cr_step r < cr_step op2 then restride r s else r)"
    define r2 where "r2 = (if cr_step op2 < cr_step r then restride op2 s else op2)"
    define q where "q = (if s \<noteq> 1 then cr_left r1 mod u64_of s else 0)"
    have s: "0 < s" "s < 2 ^ 63" "s dvd 2 ^ n" using f1 f2 by (simp_all add: s_def)
    have single: "cr_step r < cr_step op2 \<Longrightarrow> isSingle r" "cr_step op2 < cr_step r \<Longrightarrow> isSingle op2"
      using ret ne by (auto simp: circleUnion_def split: if_splits)
    have ok1: "cr_ok n r1" "v \<le> mask n \<Longrightarrow> contains r1 v \<longleftrightarrow> contains r v"
      using restride_ok(1) [OF ok(1) single(1) s] restride_contains [OF ok(1) single(1) s] ok
      by (auto simp: r1_def)
    have ok2: "cr_ok n r2" "v \<le> mask n \<Longrightarrow> contains r2 v \<longleftrightarrow> contains op2 v"
      using restride_ok(1) [OF ok(2) single(2) s] restride_contains [OF ok(2) single(2) s] ok
      by (auto simp: r2_def)
    have fields: "cr_left r1 = cr_left r" "cr_left r2 = cr_left op2" "cr_step r1 = s" "cr_step r2 = s"
      "\<not> cr_isempty r1" "\<not> cr_isempty r2"
      using ne by (auto simp: r1_def r2_def restride_def s_def)
    have m: "cr_mask r = mask n" "cr_mask op2 = mask n" using f1 f2 by simp_all
    have a: "cr_right r1 = (if cr_step r < cr_step op2 then (cr_left r + u64_of s) AND mask n else cr_right r)"
      "cr_right r2 = (if cr_step op2 < cr_step r then (cr_left op2 + u64_of s) AND mask n else cr_right op2)"
      using m by (simp_all add: r1_def r2_def restride_def)
    have "circleUnion r op2 = (if s \<noteq> 1 \<and> q \<noteq> cr_left op2 mod u64_of s then (2, r)
        else if cr_left r = cr_right r1 \<or> cr_left op2 = cr_right r2
          then (0, r\<lparr>cr_left := q, cr_right := q, cr_step := s\<rparr>)
        else union_overlap r (cr_right r1) (cr_left op2) (cr_right r2) q s)"
      using ne single unfolding circleUnion_def Let_def s_def [symmetric] q_def a fields m by simp
    note body = this [unfolded ret, symmetric]
    have ph: "in_phase s (cr_left r1) (cr_left r2)"
      using body by (auto simp: in_phase_def q_def fields split: if_splits)
    have r': "r' = r\<lparr>cr_left := q, cr_right := q, cr_step := s\<rparr>
          \<and> (cr_left r1 = cr_right r1 \<or> cr_left r2 = cr_right r2)
        \<or> cr_left r1 \<noteq> cr_right r1 \<and> cr_left r2 \<noteq> cr_right r2 \<and>
          union_overlap r (cr_right r1) (cr_left r2) (cr_right r2) q s = (0, r')"
      using body unfolding fields by (auto split: if_splits)
    note un = union_aligned [OF ok1(1) ok2(1) fields(5,6,3,4) ph q_def r' fields(1) [symmetric] m(1) ne(1)]
    show ?thesis using un(1) [of v] un(2) ok1(2) ok2(2) by blast
  qed
  then show "v \<le> mask n \<Longrightarrow> contains r' v \<longleftrightarrow> contains r v \<or> contains op2 v" and "cr_ok n r'" by blast+
qed

text \<open>
  C8: whenever \<^verbatim>\<open>circleUnion\<close> of two valid ranges over one domain reports success, whatever
  their strides, the receiver denotes exactly the union and is a valid range again.
\<close>

theorem circleUnion_exact:
  assumes "cr_ok n r" "cr_ok n op2" "circleUnion r op2 = (0, r')"
  shows "cr_set r' = cr_set r \<union> cr_set op2 \<and> cr_ok n r'"
  using assms union_contains [OF assms] by (auto simp: in_cr_set)

theorem circleUnion_exact_witness:
  "cr_set \<lparr>cr_left = 248, cr_right = 8, cr_mask = 255, cr_isempty = False, cr_step = 4\<rparr>
     = cr_set \<lparr>cr_left = 248, cr_right = 249, cr_mask = 255, cr_isempty = False, cr_step = 1\<rparr> \<union>
       cr_set \<lparr>cr_left = 252, cr_right = 8, cr_mask = 255, cr_isempty = False, cr_step = 4\<rparr>"
proof -
  let ?r = "\<lparr>cr_left = 248, cr_right = 249, cr_mask = 255, cr_isempty = False, cr_step = 1\<rparr>"
  let ?s = "\<lparr>cr_left = 252, cr_right = 8, cr_mask = 255, cr_isempty = False, cr_step = 4\<rparr>"
  have "cr_ok 8 ?r" "cr_ok 8 ?s"
    by (simp_all add: cr_ok_def cr_dom_def in_phase_def u64_of_def mask_eq_exp_minus_1)
  moreover have "circleUnion ?r ?s =
      (0, \<lparr>cr_left = 248, cr_right = 8, cr_mask = 255, cr_isempty = False, cr_step = 4\<rparr>)"
    by (simp add: circleUnion_def union_overlap_def circleEncodeRangeOverlaps_def circleArrange_def
        isSingle_def u64_of_def Let_def)
  ultimately show ?thesis using circleUnion_exact by blast
qed

section \<open>Where the set operations are not exact\<close>

text \<open>
  \<^verbatim>\<open>intersect\<close> outside the hypotheses of \<open>intersect_exact\<close>: two ranges of step two with
  different phase are reported to meet; re-striding a wrapped range can lose its members or
  gain all of them; and a wider range that starts above the narrower domain and ends at zero
  is taken for the full domain.
\<close>

lemma intersect_phase_unsound:
  "intersect (newCircleRangeBounds 0 2 1 2) (newCircleRangeBounds 1 3 1 2) = (0, newCircleRangeBounds 1 2 1 2)"
  "contains (newCircleRangeBounds 1 2 1 2) 1" "\<not> contains (newCircleRangeBounds 0 2 1 2) 1"
  by code_simp+

lemma intersect_stride_unsound:
  "cr_isempty (snd (intersect (newCircleRangeBounds 0xfe 5 1 1) (newCircleRangeBounds 1 1 1 4)))"
  "contains (newCircleRangeBounds 0xfe 5 1 1) 1" "contains (newCircleRangeBounds 1 1 1 4) 1"
  by code_simp+

lemma intersect_domain_unsound:
  "intersect (newCircleRangeBounds 0 0 1 1) (newCircleRangeBounds 0x100 0 2 1) = (0, newCircleRangeBounds 0 0 1 1)"
  "\<not> contains (newCircleRangeBounds 0x100 0 2 1) 5"
  by code_simp+

end
