(* ===== verification/Circle_Enum.thy ===== *)
theory Circle_Enum
  imports Circle_Laws
begin

text \<open>
  Counting and enumerating a circle range: \<^verbatim>\<open>getSize\<close> is the number of elements, and the
  do/while idiom around \<^verbatim>\<open>getNext\<close> visits every element exactly once.
\<close>

section \<open>Counting and enumerating\<close>

text \<open>The number of elements, and the element reached after \<open>i\<close> steps from the left bound.\<close>

definition cr_count :: "nat \<Rightarrow> circleRange \<Rightarrow> nat" where
  "cr_count n r =
     (if cr_isempty r then 0
      else if cr_left r = cr_right r then nat (2 ^ n div cr_step r)
      else nat ((uint (cr_right r) - uint (cr_left r)) mod 2 ^ n div cr_step r))"

definition cr_elem :: "circleRange \<Rightarrow> nat \<Rightarrow> u64" where
  "cr_elem r i = (cr_left r + of_nat i * u64_of (cr_step r)) AND cr_mask r"

definition cr_span :: "nat \<Rightarrow> circleRange \<Rightarrow> int" where
  "cr_span n r = (if cr_left r = cr_right r then 2 ^ n
     else (uint (cr_right r) - uint (cr_left r)) mod 2 ^ n)"

lemma cr_count_span: "\<not> cr_isempty r \<Longrightarrow> cr_count n r = nat (cr_span n r div cr_step r)"
  by (simp add: cr_count_def cr_span_def)

lemma cr_span_facts:
  assumes "cr_ok n r" "\<not> cr_isempty r"
  shows "0 < cr_span n r" "cr_span n r \<le> 2 ^ n" "cr_step r dvd cr_span n r"
    "(uint (cr_left r) + cr_span n r) mod 2 ^ n = uint (cr_right r)"
proof -
  note f = cr_ok_facts [OF assms(1)]
  have b: "uint (cr_left r) < 2 ^ n" "uint (cr_right r) < 2 ^ n"
    using f assms(2) by (simp_all add: le_mask_iff)
  have "cr_step r dvd uint (cr_right r) - uint (cr_left r)"
    using f assms(2) by (simp add: in_phase_dvd)
  then show "cr_step r dvd cr_span n r" using f by (simp add: cr_span_def dvd_mod_ring)
  show "cr_span n r \<le> 2 ^ n" by (simp add: cr_span_def less_imp_le)
  show "0 < cr_span n r"
  proof (cases "cr_left r = cr_right r")
    case False
    then have "uint (cr_left r) \<noteq> uint (cr_right r)" by (simp add: word_uint_eq_iff)
    with b have "0 < (uint (cr_right r) - uint (cr_left r)) mod 2 ^ n"
      by (intro mod_diff_nonzero) simp_all
    with False show ?thesis by (simp add: cr_span_def)
  qed (simp add: cr_span_def)
  show "(uint (cr_left r) + cr_span n r) mod 2 ^ n = uint (cr_right r)"
    using b by (simp add: cr_span_def mod_simps)
qed

lemma contains_span:
  assumes "cr_ok n r" "\<not> cr_isempty r" "v \<le> mask n"
  shows "contains r v \<longleftrightarrow> cr_step r dvd uint v - uint (cr_left r) \<and>
     (uint v - uint (cr_left r)) mod 2 ^ n < cr_span n r"
  using contains_dist [OF assms] by (auto simp: cr_span_def)

lemma uint_cr_elem:
  assumes "cr_ok n r"
  shows "uint (cr_elem r i) = (uint (cr_left r) + int i * cr_step r) mod 2 ^ n"
proof -
  note f = cr_ok_facts [OF assms]
  have "uint (of_nat i * u64_of (cr_step r)) mod 2 ^ n = (int i * cr_step r) mod 2 ^ n"
    by (simp only: uint_of_nat_mult mod_pow_64 [OF f(2)] u64_of_step [OF assms])
  then show ?thesis
    using f by (simp add: cr_elem_def mask_plus) (metis mod_add_right_eq)
qed

lemma cr_elem_le: "cr_ok n r \<Longrightarrow> cr_elem r i \<le> mask n"
  by (simp add: cr_elem_def cr_ok_facts and_mask_le)

lemma cr_elem_off:
  assumes "cr_ok n r" "\<not> cr_isempty r" "i < cr_count n r"
  shows "(uint (cr_elem r i) - uint (cr_left r)) mod 2 ^ n = int i * cr_step r"
    and "int i * cr_step r < cr_span n r"
proof -
  note f = cr_ok_facts [OF assms(1)] and sp = cr_span_facts [OF assms(1,2)]
  have "int i < cr_span n r div cr_step r" using assms(2,3) by (simp add: cr_count_span)
  then show lt: "int i * cr_step r < cr_span n r"
    using f(4) sp(3) by (metis dvd_mult_div_cancel mult.commute mult_less_cancel_left_pos)
  show "(uint (cr_elem r i) - uint (cr_left r)) mod 2 ^ n = int i * cr_step r"
    using lt f(4) sp(2) by (simp add: uint_cr_elem [OF assms(1)] mod_simps)
qed

lemma cr_elem_inj:
  assumes "cr_ok n r" "\<not> cr_isempty r"
  shows "inj_on (cr_elem r) {..<cr_count n r}"
proof (rule inj_onI)
  fix i j assume "i \<in> {..<cr_count n r}" "j \<in> {..<cr_count n r}" "cr_elem r i = cr_elem r j"
  then have "int i * cr_step r = int j * cr_step r"
    using cr_elem_off(1) [OF assms] by (metis lessThan_iff)
  then show "i = j" using cr_ok_facts(4) [OF assms(1)] by simp
qed

lemma cr_set_elems:
  assumes "cr_ok n r" "\<not> cr_isempty r"
  shows "cr_set r = cr_elem r ` {..<cr_count n r}"
proof (intro set_eqI iffI)
  note f = cr_ok_facts [OF assms(1)] and sp = cr_span_facts [OF assms]
  fix v assume "v \<in> cr_elem r ` {..<cr_count n r}"
  then obtain i where i: "i < cr_count n r" "v = cr_elem r i" by auto
  note off = cr_elem_off [OF assms i(1)]
  have "cr_step r dvd uint v - uint (cr_left r)"
    using off(1) f(6) i(2) by (metis dvd_mod_ring dvd_triv_right)
  with off i show "v \<in> cr_set r"
    by (simp add: in_cr_set [OF assms(1)] cr_elem_le [OF assms(1)]
        contains_span [OF assms cr_elem_le [OF assms(1)]])
next
  note f = cr_ok_facts [OF assms(1)] and sp = cr_span_facts [OF assms]
  fix v assume "v \<in> cr_set r"
  then have v: "v \<le> mask n" and d: "cr_step r dvd uint v - uint (cr_left r)"
    and lt: "(uint v - uint (cr_left r)) mod 2 ^ n < cr_span n r"
    using contains_span [OF assms] by (auto simp: in_cr_set [OF assms(1)])
  define i where "i = nat ((uint v - uint (cr_left r)) mod 2 ^ n div cr_step r)"
  have dv: "cr_step r dvd (uint v - uint (cr_left r)) mod 2 ^ n" using d f(6) by (simp add: dvd_mod_ring)
  then have i: "int i * cr_step r = (uint v - uint (cr_left r)) mod 2 ^ n"
    using f(4) by (simp add: i_def pos_imp_zdiv_nonneg_iff)
  then have "int i * cr_step r < (cr_span n r div cr_step r) * cr_step r" using lt sp(3) by simp
  then have "i < cr_count n r" using f(4) assms(2) by (simp add: cr_count_span)
  moreover have "cr_elem r i = v"
    using i v f(2) by (simp add: word_uint_eq_iff uint_cr_elem [OF assms(1)] mod_simps le_mask_iff)
  ultimately show "v \<in> cr_elem r ` {..<cr_count n r}" by blast
qed

lemma card_cr_set:
  assumes "cr_ok n r" shows "card (cr_set r) = cr_count n r"
proof (cases "cr_isempty r")
  case True
  then show ?thesis by (simp add: cr_set_def contains_def cr_count_def)
next
  case False
  then show ?thesis using cr_set_elems [OF assms False] cr_elem_inj [OF assms False]
    by (simp add: card_image)
qed

section \<open>getNext and getSize\<close>

lemma getNext_elem:
  assumes "cr_ok n r" "\<not> cr_isempty r" "i < cr_count n r"
  shows "getNext r (cr_elem r i) = (cr_elem r (Suc i), Suc i < cr_count n r)"
proof -
  note f = cr_ok_facts [OF assms(1)] and sp = cr_span_facts [OF assms(1,2)]
  have "uint ((cr_elem r i + u64_of (cr_step r)) AND cr_mask r) = uint (cr_elem r (Suc i))"
    using f by (simp add: mask_plus u64_of_step [OF assms(1)] uint_cr_elem [OF assms(1)] mod_simps
        algebra_simps)
  then have nxt: "(cr_elem r i + u64_of (cr_step r)) AND cr_mask r = cr_elem r (Suc i)"
    by (simp add: word_uint_eq_iff)
  have span: "cr_span n r = int (cr_count n r) * cr_step r"
    using sp(1,3) f(4) assms(2) by (simp add: cr_count_span pos_imp_zdiv_nonneg_iff)
  have "cr_elem r (Suc i) = cr_right r \<longleftrightarrow> Suc i = cr_count n r"
  proof
    assume "Suc i = cr_count n r"
    then show "cr_elem r (Suc i) = cr_right r"
      using sp(4) span by (simp add: word_uint_eq_iff uint_cr_elem [OF assms(1)])
  next
    assume "cr_elem r (Suc i) = cr_right r"
    then have "(uint (cr_left r) + int (Suc i) * cr_step r) mod 2 ^ n
        = (uint (cr_left r) + cr_span n r) mod 2 ^ n"
      using sp(4) uint_cr_elem [OF assms(1), of "Suc i"] by simp
    then have dvd: "2 ^ n dvd cr_span n r - int (Suc i) * cr_step r"
      by (metis add_diff_cancel_left mod_eq_dvd_iff)
    have le: "int (Suc i) * cr_step r \<le> cr_span n r"
      using assms(3) f(4) unfolding span by (intro mult_right_mono) auto
    have "0 < int (Suc i) * cr_step r" using f(4) by simp
    then have "cr_span n r - int (Suc i) * cr_step r = 0"
      using dvd le sp(2) by (intro dvd_small_zero [OF dvd]) linarith+
    then show "Suc i = cr_count n r" using span f(4) by simp
  qed
  then show ?thesis using nxt assms(3) by (auto simp: getNext_def Let_def)
qed

text \<open>The do/while loop over a range, with fuel: \<^verbatim>\<open>v := getMin(); do { ... } while (getNext)\<close>.\<close>

fun cr_walk :: "nat \<Rightarrow> circleRange \<Rightarrow> u64 \<Rightarrow> u64 list" where
  "cr_walk 0 r v = []"
| "cr_walk (Suc k) r v =
     v # (case getNext r v of (nxt, again) \<Rightarrow> if again then cr_walk k r nxt else [])"

lemma cr_walk_elems:
  assumes "cr_ok n r" "\<not> cr_isempty r" "i < cr_count n r" "cr_count n r - i \<le> k"
  shows "cr_walk k r (cr_elem r i) = map (cr_elem r) [i..<cr_count n r]"
  using assms(3,4)
proof (induction k arbitrary: i)
  case 0
  then show ?case by simp
next
  case (Suc k)
  have step: "[i..<cr_count n r] = i # [Suc i..<cr_count n r]"
    using Suc.prems(1) by (simp add: upt_conv_Cons)
  show ?case
  proof (cases "Suc i < cr_count n r")
    case True
    then have "cr_walk k r (cr_elem r (Suc i)) = map (cr_elem r) [Suc i..<cr_count n r]"
      using Suc.prems(2) by (intro Suc.IH) auto
    with True step show ?thesis by (simp add: getNext_elem [OF assms(1,2) Suc.prems(1)])
  next
    case False
    with step show ?thesis by (simp add: getNext_elem [OF assms(1,2) Suc.prems(1)])
  qed
qed

lemma cr_elem_0:
  assumes "cr_ok n r" "\<not> cr_isempty r" shows "cr_elem r 0 = cr_left r"
  using cr_ok_facts [OF assms(1)] assms(2) by (simp add: cr_elem_def and_mask_id)

lemma cr_count_pos:
  assumes "cr_ok n r" "\<not> cr_isempty r" shows "0 < cr_count n r"
proof -
  note f = cr_ok_facts [OF assms(1)] and sp = cr_span_facts [OF assms]
  have "cr_step r \<le> cr_span n r" using sp(1,3) by (simp add: zdvd_imp_le)
  then show ?thesis using f(4) assms(2) by (simp add: cr_count_span pos_imp_zdiv_pos_iff)
qed

text \<open>
  C11: the do/while enumeration from \<^verbatim>\<open>getMin\<close> with \<^verbatim>\<open>getNext\<close> ends after exactly as many rounds
  as the range has elements (any larger fuel gives the same list) and visits each element of
  the range once.
\<close>

theorem enumeration_complete:
  assumes "cr_ok n r" "\<not> cr_isempty r" "card (cr_set r) \<le> k"
  shows "set (cr_walk k r (getMin r)) = cr_set r \<and> distinct (cr_walk k r (getMin r))
     \<and> length (cr_walk k r (getMin r)) = card (cr_set r)"
proof -
  have "cr_walk k r (getMin r) = map (cr_elem r) [0..<cr_count n r]"
    using cr_walk_elems [OF assms(1,2) cr_count_pos [OF assms(1,2)], of k] assms(3)
    by (simp add: getMin_def cr_elem_0 [OF assms(1,2)] card_cr_set [OF assms(1)])
  then show ?thesis
    using cr_elem_inj [OF assms(1,2)] cr_set_elems [OF assms(1,2)] card_cr_set [OF assms(1)]
    by (simp add: distinct_map lessThan_atLeast0)
qed

theorem enumeration_complete_witness:
  "set (cr_walk 6 \<lparr>cr_left = 12, cr_right = 4, cr_mask = mask 4, cr_isempty = False, cr_step = 2\<rparr> 12)
     = cr_set \<lparr>cr_left = 12, cr_right = 4, cr_mask = mask 4, cr_isempty = False, cr_step = 2\<rparr>"
proof -
  let ?r = "\<lparr>cr_left = 12, cr_right = 4, cr_mask = mask 4, cr_isempty = False, cr_step = 2\<rparr> :: circleRange"
  have ok: "cr_ok 4 ?r" by code_simp
  have "card (cr_set ?r) \<le> 6" unfolding card_cr_set [OF ok] by code_simp
  then have "set (cr_walk 6 ?r (getMin ?r)) = cr_set ?r"
    using enumeration_complete [OF ok, of 6] by simp
  then show ?thesis by (simp add: getMin_def)
qed

text \<open>The two branches of \<^verbatim>\<open>getSize\<close>, as integers.\<close>

lemma getSize_up:
  assumes "cr_ok n r" "\<not> cr_isempty r" "cr_left r < cr_right r"
  shows "uint (getSize r) = cr_span n r div cr_step r"
proof -
  note f = cr_ok_facts [OF assms(1)]
  have b: "uint (cr_right r) < 2 ^ n" using f assms(2) by (simp add: le_mask_iff)
  have lt: "uint (cr_left r) < uint (cr_right r)" using assms(3) by (simp add: word_less_def)
  have pos: "0 \<le> uint (cr_left r)" by simp
  have "uint (cr_right r - cr_left r) = uint (cr_right r) - uint (cr_left r)"
    using lt by (simp add: uint_minus_simple_alt [THEN iffD1] word_le_def less_imp_le)
  moreover have "cr_span n r = uint (cr_right r) - uint (cr_left r)"
    using lt b mod_diff_ring [of "uint (cr_right r)" "2 ^ n" "uint (cr_left r)"]
    by (auto simp: cr_span_def)
  ultimately show ?thesis
    using assms f(4) by (simp add: getSize_def uint_div u64_of_step [OF assms(1)])
qed

lemma getSize_wrap_span:
  assumes "cr_ok n r" "\<not> cr_isempty r" "\<not> cr_left r < cr_right r"
  shows "uint (cr_mask r - (cr_left r - cr_right r) + u64_of (cr_step r))
      = (cr_span n r - 1 + cr_step r) mod 2 ^ 64"
proof -
  note f = cr_ok_facts [OF assms(1)]
  have b: "uint (cr_left r) < 2 ^ n" "uint (cr_right r) < 2 ^ n"
    using f assms(2) by (simp_all add: le_mask_iff)
  have le: "uint (cr_right r) \<le> uint (cr_left r)" using assms(3) by (simp add: word_less_def)
  have "cr_span n r = 2 ^ n - (uint (cr_left r) - uint (cr_right r))"
    using b le by (auto simp: cr_span_def mod_diff_ring word_uint_eq_iff)
  moreover have "uint (cr_mask r) = 2 ^ n - 1" using f by (simp add: uint_mask)
  ultimately have "cr_span n r - 1 + cr_step r
      = uint (cr_mask r) - (uint (cr_left r) - uint (cr_right r)) + cr_step r" by simp
  then show ?thesis
    by (simp add: uint_plus_mod uint_minus_mod u64_of_step [OF assms(1)] mod_simps)
qed

lemma getSize_wrap:
  assumes "cr_ok n r" "\<not> cr_isempty r" "\<not> cr_left r < cr_right r"
    "cr_span n r < 2 ^ 64 \<or> 1 < cr_step r"
  shows "uint (getSize r) = cr_span n r div cr_step r"
proof -
  note f = cr_ok_facts [OF assms(1)] and sp = cr_span_facts [OF assms(1,2)]
  let ?val = "(cr_mask r - (cr_left r - cr_right r) + u64_of (cr_step r)) div u64_of (cr_step r)"
  have sz: "getSize r = (if ?val = 0 then (if cr_step r > 1 then cr_mask r div u64_of (cr_step r) + 1
      else cr_mask r) else ?val)"
    using assms(2,3) f(4) by (simp add: getSize_def Let_def)
  have val: "uint ?val = (cr_span n r - 1 + cr_step r) mod 2 ^ 64 div cr_step r"
    using getSize_wrap_span [OF assms(1-3)] by (simp add: uint_div u64_of_step [OF assms(1)])
  obtain q where q: "cr_span n r = cr_step r * q" using sp(3) by blast
  have qpos: "0 < q" using sp(1) f(4) q by (simp add: zero_less_mult_iff)
  have n64: "(2::int) ^ n \<le> 2 ^ 64" using f(2) by (rule power_increasing) simp
  show ?thesis
  proof (cases "cr_span n r < 2 ^ 64")
    case True
    have "cr_step r dvd (2::int) ^ 64" using f(2,6) by (meson dvd_trans le_imp_power_dvd)
    then have "cr_step r dvd 2 ^ 64 - cr_span n r" using sp(3) by simp
    then have "cr_span n r + cr_step r \<le> 2 ^ 64" using True by (auto dest: zdvd_imp_le)
    then have "(cr_span n r - 1 + cr_step r) mod 2 ^ 64 = cr_step r - 1 + cr_step r * q"
      using sp(1) f(4) by (simp add: mod_pos_pos_trivial q)
    then have v: "uint ?val = q" using val f(4) by (simp add: div_mult_self2)
    then have "?val \<noteq> 0" using qpos by (metis less_irrefl unsigned_0)
    then have "getSize r = ?val" by (simp add: sz)
    with v q f(4) show ?thesis by simp
  next
    case False
    then have full: "cr_span n r = 2 ^ 64" "(2::int) ^ n = 2 ^ 64" and s1: "1 < cr_step r"
      using sp(2) n64 assms(4) by auto
    have "uint ?val = (cr_step r - 1) mod 2 ^ 64 div cr_step r"
      unfolding val full(1) by (metis add.commute add_diff_eq mod_add_self2)
    also have "(cr_step r - 1) mod 2 ^ 64 = cr_step r - 1"
      using s1 f(6) full(2) by (intro mod_pos_pos_trivial) (auto dest: zdvd_imp_le)
    finally have "?val = 0" using s1 by (simp add: word_uint_eq_iff)
    then have g: "getSize r = cr_mask r div u64_of (cr_step r) + 1" using s1 by (simp add: sz)
    have m: "uint (cr_mask r div u64_of (cr_step r)) = (cr_step r * q - 1) div cr_step r"
      using full q f(2,3) by (simp add: uint_div u64_of_step [OF assms(1)] uint_mask)
    have "(cr_step r * q - 1) div cr_step r = (cr_step r - 1 + cr_step r * (q - 1)) div cr_step r"
      by (simp add: algebra_simps)
    also have "\<dots> = q - 1" using s1 by (simp add: div_mult_self2)
    finally have "uint (getSize r) = q mod 2 ^ 64" unfolding g uint_plus_mod m by simp
    moreover have "q < 2 ^ 64" using full(1) q s1 qpos
      by (metis less_1_mult mult.commute mult_less_cancel_right1 nle_le not_less)
    ultimately show ?thesis using q qpos f(4) by (simp add: mod_pos_pos_trivial)
  qed
qed

text \<open>
  C12: \<^verbatim>\<open>getSize\<close> returns the number of elements of the range. The one exception is the range of
  all 64-bit values with step one, whose size does not fit a \<^verbatim>\<open>uint64\<close>.
\<close>

theorem getSize_card:
  assumes "cr_ok n r" "card (cr_set r) < 2 ^ 64"
  shows "unat (getSize r) = card (cr_set r)"
proof (cases "cr_isempty r")
  case True
  then show ?thesis by (simp add: card_cr_set [OF assms(1)] cr_count_def getSize_def)
next
  case False
  note f = cr_ok_facts [OF assms(1)] and sp = cr_span_facts [OF assms(1) False]
  have c: "card (cr_set r) = nat (cr_span n r div cr_step r)"
    using False by (simp add: card_cr_set [OF assms(1)] cr_count_span)
  have "cr_span n r < 2 ^ 64 \<or> 1 < cr_step r"
    using assms(2) f(4) unfolding c by (cases "cr_step r = 1") (auto simp: nat_less_iff)
  then have "uint (getSize r) = cr_span n r div cr_step r"
    using getSize_up [OF assms(1) False] getSize_wrap [OF assms(1) False] by blast
  then show ?thesis by (simp add: c unat_eq_nat_uint)
qed

theorem getSize_card_witness:
  "unat (getSize \<lparr>cr_left = 12, cr_right = 4, cr_mask = mask 4, cr_isempty = False, cr_step = 2\<rparr>)
     = card (cr_set \<lparr>cr_left = 12, cr_right = 4, cr_mask = mask 4, cr_isempty = False, cr_step = 2\<rparr>)"
proof -
  let ?r = "\<lparr>cr_left = 12, cr_right = 4, cr_mask = mask 4, cr_isempty = False, cr_step = 2\<rparr> :: circleRange"
  have ok: "cr_ok 4 ?r" by code_simp
  have "card (cr_set ?r) < 2 ^ 64" unfolding card_cr_set [OF ok] by (simp add: cr_count_def)
  from getSize_card [OF ok this] show ?thesis .
qed

end
