(* ===== verification/Pcode_Laws.thy ===== *)
theory Pcode_Laws
  imports Pcode_Ops
begin

text \<open>
  What the p-code evaluators of \<^verbatim>\<open>opbehavior.go\<close> compute, read over the integers: every
  operand of \<open>s\<close> bytes stands for its unsigned value \<open>uint\<close> and its two's complement value
  \<open>sval s\<close>, and each branch is shown to be the arithmetic it names.
\<close>

section \<open>Sizes, masks and sign bits\<close>

definition bits_of :: "int \<Rightarrow> nat" where
  "bits_of s = 8 * nat s"

definition size_ok :: "int \<Rightarrow> bool" where
  "size_ok s \<longleftrightarrow> 1 \<le> s \<and> s \<le> 8"

definition sval :: "int \<Rightarrow> u64 \<Rightarrow> int" where
  "sval s v = (if uint v < 2 ^ (bits_of s - 1) then uint v else uint v - 2 ^ bits_of s)"

lemma size_cases:
  assumes "size_ok s"
  shows "s = 1 \<or> s = 2 \<or> s = 3 \<or> s = 4 \<or> s = 5 \<or> s = 6 \<or> s = 7 \<or> s = 8"
  using assms by (auto simp: size_ok_def)

lemma size_bits:
  assumes "size_ok s" shows "0 < bits_of s" "bits_of s \<le> 64" "8 \<le> bits_of s"
  using assms by (auto simp: size_ok_def bits_of_def)

lemma pow_bits: "size_ok s \<Longrightarrow> (2::int) ^ bits_of s = 2 * 2 ^ (bits_of s - 1)"
  using size_bits(1) by (metis Suc_pred' power_Suc)

lemma maskForSize_mask:
  assumes "size_ok s" shows "maskForSize s = mask (bits_of s)"
  using size_cases [OF assms]
  by (elim disjE) (simp_all add: maskForSize_def bits_of_def u64_of_def shl_def
      mask_eq_exp_minus_1 push_bit_eq_mult)

lemma and_bit_nonzero: "(x :: u64) AND push_bit k 1 \<noteq> 0 \<longleftrightarrow> bit x k"
proof -
  have "x AND push_bit k 1 = (if bit x k then push_bit k 1 else 0)"
    by (rule bit_eqI) (auto simp: bit_simps)
  moreover have "push_bit k (1 :: u64) \<noteq> 0" if "bit x k"
    using bit_imp_le_length [OF that] by (simp add: push_bit_of_1)
  ultimately show ?thesis by auto
qed

lemma sign_bit_ge:
  assumes "0 < n" "n \<le> 64" "x \<le> mask n"
  shows "bit (x :: u64) (n - 1) \<longleftrightarrow> 2 ^ (n - 1) \<le> uint x"
proof -
  let ?q = "uint x div 2 ^ (n - 1)"
  have "uint x < 2 * 2 ^ (n - 1)"
    using assms by (metis Suc_pred' le_mask_iff power_Suc)
  then have "?q < 2" by (simp add: int_div_less_iff)
  moreover have "0 \<le> ?q" by (simp add: pos_imp_zdiv_nonneg_iff)
  ultimately have "odd ?q \<longleftrightarrow> 1 \<le> ?q" by (auto simp: odd_iff_mod_2_eq_one)
  also have "\<dots> \<longleftrightarrow> 2 ^ (n - 1) \<le> uint x" by (simp add: int_le_div_iff)
  also have "odd ?q \<longleftrightarrow> bit (uint x) (n - 1)" by (simp add: bit_iff_odd)
  finally show ?thesis using assms(1,2) by (auto simp: bit_uint_iff)
qed

text \<open>A value that fits \<open>s\<close> bytes.\<close>

definition fits :: "int \<Rightarrow> u64 \<Rightarrow> bool" where
  "fits s v \<longleftrightarrow> v \<le> maskForSize s"

lemma fits_less: "size_ok s \<Longrightarrow> fits s v \<longleftrightarrow> uint v < 2 ^ bits_of s"
  using size_bits [of s] by (simp add: fits_def maskForSize_mask le_mask_iff)

lemma sign_bit_sval:
  assumes "size_ok s" "fits s v"
  shows "bit v (bits_of s - 1) \<longleftrightarrow> sval s v < 0"
proof -
  have "bit v (bits_of s - 1) \<longleftrightarrow> 2 ^ (bits_of s - 1) \<le> uint v"
    using assms size_bits [OF assms(1)] by (intro sign_bit_ge) (simp_all add: fits_def maskForSize_mask)
  then show ?thesis using assms by (auto simp: sval_def fits_less not_le)
qed

lemma sval_range:
  assumes "size_ok s" "fits s v"
  shows "- (2 ^ (bits_of s - 1)) \<le> sval s v" "sval s v < 2 ^ (bits_of s - 1)"
  using assms pow_bits [OF assms(1)]
  by (auto simp: sval_def fits_less intro: order_trans [of _ 0])

lemma sval_mod:
  assumes "size_ok s" "fits s v" shows "sval s v mod 2 ^ bits_of s = uint v"
  using assms by (auto simp: sval_def fits_less)

lemma uint_masked: "size_ok s \<Longrightarrow> uint (w AND maskForSize s) = uint w mod 2 ^ bits_of s"
  by (simp add: maskForSize_mask uint_and_mask)

lemma fits_masked: "fits s (w AND maskForSize s)"
  by (simp add: fits_def word_and_le1)

lemma signed_mask_bit:
  assumes "size_ok s"
  shows "shl 0x80 (u64_of (i32 (8 * i32 (s - 1)))) = push_bit (bits_of s - 1) 1"
    "shl 1 (u64_of s * 8 - 1) = push_bit (bits_of s - 1) 1"
    "u64_of (i32 (i32 (s * 8) - 1)) = of_nat (bits_of s - 1)"
    "unat (u64_of (i32 (i32 (s * 8) - 1))) = bits_of s - 1"
    "unat (u64_of s * 8) = bits_of s"
  using size_cases [OF assms]
  by (elim disjE; simp add: i32_id bits_of_def u64_of_def shl_def push_bit_eq_mult)+

section \<open>Comparisons, carries and borrows\<close>

lemma eval_signed_less_sval:
  assumes "size_ok s" "fits s a" "fits s b"
  shows "eval_signed_less strict s a b
     = boolToUint64 (if strict then sval s a < sval s b else sval s a \<le> sval s b)"
proof -
  let ?m = "push_bit (bits_of s - 1) (1 :: u64)"
  have eq: "x AND ?m = (if sval s x < 0 then ?m else 0)" if "fits s x" for x
  proof -
    have "x AND ?m = (if bit x (bits_of s - 1) then ?m else 0)"
      by (rule bit_eqI) (auto simp: bit_simps)
    with sign_bit_sval [OF assms(1) that] show ?thesis by simp
  qed
  have nz: "?m \<noteq> 0" using size_bits [OF assms(1)] by (simp add: push_bit_of_1)
  have "uint a < uint b \<longleftrightarrow> sval s a < sval s b" "uint a \<le> uint b \<longleftrightarrow> sval s a \<le> sval s b"
    if "(sval s a < 0) = (sval s b < 0)"
    using that assms by (auto simp: sval_def fits_less)
  moreover have "s > 0" using assms by (simp add: size_ok_def)
  ultimately show ?thesis
    using nz eq [OF assms(2)] eq [OF assms(3)]
    by (auto simp: eval_signed_less_def Let_def signed_mask_bit [OF assms(1)] boolToUint64_def
        word_less_def word_le_def)
qed

lemma eval_carry_overflow:
  assumes "size_ok s" "fits s a" "fits s b"
  shows "a > (a + b) AND maskForSize s \<longleftrightarrow> 2 ^ bits_of s \<le> uint a + uint b"
proof -
  have "uint ((a + b) AND maskForSize s) = (uint a + uint b) mod 2 ^ bits_of s"
    using size_bits [OF assms(1)] by (simp add: maskForSize_mask [OF assms(1)] mask_plus)
  then show ?thesis
    using assms mod_add_ring [of "uint a" "2 ^ bits_of s" "uint b"]
    by (auto simp: word_less_def fits_less)
qed

lemma shr_bit: "shr w k AND 1 = (if bit w (unat k) then 1 else 0)"
  by (rule bit_eqI) (auto simp: shr_def bit_simps bit_1_iff intro: gr0I)

lemma masked_bit:
  assumes "size_ok s" shows "bit (w AND maskForSize s) (bits_of s - 1) \<longleftrightarrow> bit w (bits_of s - 1)"
  using size_bits [OF assms] by (auto simp: maskForSize_mask [OF assms] bit_simps)

text \<open>Where a signed sum or difference leaves the range, the sign of the result is wrong.\<close>

lemma signed_sum_ring:
  fixes x y z H :: int
  assumes "- H \<le> x" "x < H" "- H \<le> y" "y < H" "- H \<le> z" "z < H" "(z - (x + y)) mod (2 * H) = 0"
  shows "(x < 0) = (y < 0) \<and> (z < 0) \<noteq> (x < 0) \<longleftrightarrow> \<not> (- H \<le> x + y \<and> x + y < H)"
proof -
  obtain k where k: "z - (x + y) = 2 * H * k" using assms(7) by auto
  have H: "0 < H" using assms(1,2) by linarith
  have "2 * H * k < 2 * H * 2" "2 * H * (- 2) < 2 * H * k" using k assms by linarith+
  then have "k < 2" "- 2 < k" using H by (simp_all only: mult_less_cancel_left_pos)
  then consider "k = - 1" | "k = 0" | "k = 1" by linarith
  then show ?thesis using k assms H by cases auto
qed

lemma signed_diff_ring:
  fixes x y z H :: int
  assumes "- H \<le> x" "x < H" "- H \<le> y" "y < H" "- H \<le> z" "z < H" "(z - (x - y)) mod (2 * H) = 0"
  shows "(x < 0) \<noteq> (y < 0) \<and> (z < 0) \<noteq> (x < 0) \<longleftrightarrow> \<not> (- H \<le> x - y \<and> x - y < H)"
proof -
  obtain k where k: "z - (x - y) = 2 * H * k" using assms(7) by auto
  have H: "0 < H" using assms(1,2) by linarith
  have "2 * H * k < 2 * H * 2" "2 * H * (- 2) < 2 * H * k" using k assms by linarith+
  then have "k < 2" "- 2 < k" using H by (simp_all only: mult_less_cancel_left_pos)
  then consider "k = - 1" | "k = 0" | "k = 1" by linarith
  then show ?thesis using k assms H by cases auto
qed

lemma sval_ring_eq:
  assumes "size_ok s" "fits s v" "(uint v - x) mod 2 ^ bits_of s = 0"
  shows "(sval s v - x) mod (2 * 2 ^ (bits_of s - 1)) = 0"
  using assms pow_bits [OF assms(1)] sval_mod [OF assms(1,2)]
  by (metis mod_diff_left_eq)

lemma sval_of_sum:
  assumes "size_ok s" "fits s a" "fits s b"
  shows "(sval s ((a + b) AND maskForSize s) - (sval s a + sval s b)) mod (2 * 2 ^ (bits_of s - 1)) = 0"
    and "(sval s ((a - b) AND maskForSize s) - (sval s a - sval s b)) mod (2 * 2 ^ (bits_of s - 1)) = 0"
proof -
  have n: "bits_of s \<le> 64" using size_bits [OF assms(1)] by simp
  have "(uint a + uint b - (sval s a + sval s b)) mod 2 ^ bits_of s = 0"
    and "(uint a - uint b - (sval s a - sval s b)) mod 2 ^ bits_of s = 0"
    by (auto simp: sval_def)
  then show "(sval s ((a + b) AND maskForSize s) - (sval s a + sval s b)) mod (2 * 2 ^ (bits_of s - 1)) = 0"
    and "(sval s ((a - b) AND maskForSize s) - (sval s a - sval s b)) mod (2 * 2 ^ (bits_of s - 1)) = 0"
    using n by (intro sval_ring_eq [OF assms(1) fits_masked],
        simp add: maskForSize_mask [OF assms(1)] mask_plus mask_minus mod_simps)+
qed

lemma eval_scarry_overflow:
  assumes "size_ok s" "fits s a" "fits s b"
  shows "eval_scarry s a b = boolToUint64 (\<not> (- (2 ^ (bits_of s - 1)) \<le> sval s a + sval s b
      \<and> sval s a + sval s b < 2 ^ (bits_of s - 1)))"
proof -
  let ?z = "(a + b) AND maskForSize s"
  have bits: "bit a (bits_of s - 1) = (sval s a < 0)" "bit b (bits_of s - 1) = (sval s b < 0)"
    "bit (a + b) (bits_of s - 1) = (sval s ?z < 0)"
    using sign_bit_sval [OF assms(1)] assms fits_masked masked_bit [OF assms(1)] by metis+
  show ?thesis
    using signed_sum_ring [OF sval_range [OF assms(1,2)] sval_range [OF assms(1,3)]
        sval_range [OF assms(1) fits_masked] sval_of_sum(1) [OF assms]]
    unfolding eval_scarry_def Let_def shr_bit signed_mask_bit(4) [OF assms(1)] bits
    by (auto simp: boolToUint64_def)
qed

lemma eval_sborrow_overflow:
  assumes "size_ok s" "fits s a" "fits s b"
  shows "eval_sborrow s a b = boolToUint64 (\<not> (- (2 ^ (bits_of s - 1)) \<le> sval s a - sval s b
      \<and> sval s a - sval s b < 2 ^ (bits_of s - 1)))"
proof -
  let ?z = "(a - b) AND maskForSize s"
  have bits: "bit a (bits_of s - 1) = (sval s a < 0)" "bit b (bits_of s - 1) = (sval s b < 0)"
    "bit (a - b) (bits_of s - 1) = (sval s ?z < 0)"
    using sign_bit_sval [OF assms(1)] assms fits_masked masked_bit [OF assms(1)] by metis+
  show ?thesis
    using signed_diff_ring [OF sval_range [OF assms(1,2)] sval_range [OF assms(1,3)]
        sval_range [OF assms(1) fits_masked] sval_of_sum(2) [OF assms]]
    unfolding eval_sborrow_def Let_def shr_bit signed_mask_bit(4) [OF assms(1)] bits
    by (auto simp: boolToUint64_def)
qed

section \<open>Shifts, extensions and divisions\<close>

lemma sval_signed_take_bit:
  assumes "size_ok s" "fits s v"
  shows "sval s v = signed_take_bit (bits_of s - 1) (uint v)"
proof -
  have n: "Suc (bits_of s - 1) = bits_of s" using size_bits [OF assms(1)] by simp
  have "take_bit (bits_of s) (uint v) = uint v"
    using assms by (simp add: take_bit_eq_mod fits_less)
  moreover have "bit (uint v) (bits_of s - 1) \<longleftrightarrow> sval s v < 0"
    using sign_bit_sval [OF assms] size_bits [OF assms(1)] by (auto simp: bit_uint_iff)
  ultimately show ?thesis
    using assms unfolding signed_take_bit_eq_take_bit_minus n
    by (auto simp: sval_def fits_less)
qed

lemma uint_shr: "uint (shr w k) = uint w div 2 ^ unat k"
proof -
  have "uint (shr w k) = drop_bit (unat k) (uint w)"
    unfolding shr_def by (rule bit_eqI) (auto simp: bit_uint_iff bit_simps dest: bit_imp_le_length)
  then show ?thesis by (simp add: drop_bit_eq_div)
qed

lemma uint_shl: "uint (shl w k) = uint w * 2 ^ unat k mod 2 ^ 64"
  unfolding shl_def unsigned_push_bit_eq by (simp add: take_bit_eq_mod push_bit_eq_mult)

lemma uint_shl_masked:
  assumes "size_ok s" shows "uint (shl w k AND maskForSize s) = uint w * 2 ^ unat k mod 2 ^ bits_of s"
  using assms size_bits [OF assms] by (simp add: uint_masked uint_shl mod_pow_64 del: power_numeral)

lemma div_pow_small: "0 \<le> x \<Longrightarrow> x < (2::int) ^ n \<Longrightarrow> n \<le> k \<Longrightarrow> x div 2 ^ k = 0"
  using power_increasing [of n k "2 :: int"]
  by (intro div_pos_pos_trivial) (auto elim: order.strict_trans2)

lemma ge_bits:
  assumes "size_ok s" shows "k \<ge> u64_of s * 8 \<longleftrightarrow> bits_of s \<le> unat k"
  by (simp add: word_le_nat_alt signed_mask_bit(5) [OF assms])

lemma ge_bits':
  assumes "size_ok s" shows "k \<ge> 8 * u64_of s \<longleftrightarrow> bits_of s \<le> unat k"
  using ge_bits [OF assms] by (simp add: mult.commute)

lemma eval_sright_sval:
  assumes "size_ok s" "fits s v"
  shows "uint (eval_sright s s v k) = (sval s v div 2 ^ unat k) mod 2 ^ bits_of s"
proof -
  let ?n = "bits_of s"
  note n = size_bits [OF assms(1)]
  have neg: "signbitNegative v s \<longleftrightarrow> sval s v < 0"
    using assms sign_bit_sval [OF assms] and_bit_nonzero [of v "bits_of s - 1"]
    unfolding signbitNegative_def Let_def signed_mask_bit(2) [OF assms(1)]
    by (simp add: size_ok_def)
  have small: "\<not> bit v i" if "?n \<le> i" for i
  proof -
    have "v = take_bit ?n v"
      using assms n by (simp add: fits_def maskForSize_mask take_bit_eq_mask and_mask_id)
    then show ?thesis using that by (metis bit_take_bit_iff leD)
  qed
  have res: "uint (eval_sright s s v k) =
      take_bit ?n (drop_bit (unat k) (signed_take_bit (?n - 1) (uint v)))"
  proof (rule bit_eqI)
    fix i
    have *: "bit v (?n - 1) \<longleftrightarrow> sval s v < 0" by (rule sign_bit_sval [OF assms])
    have m: "maskForSize s = mask ?n" by (rule maskForSize_mask [OF assms(1)])
    show "bit (uint (eval_sright s s v k)) i \<longleftrightarrow>
        bit (take_bit ?n (drop_bit (unat k) (signed_take_bit (?n - 1) (uint v)))) i"
    proof (cases "?n - 1 < unat k + i")
      case True
      with n small [of "unat k + i"] * show ?thesis
        by (auto simp: eval_sright_def Let_def ge_bits' [OF assms(1)] neg m shr_def bit_simps
            bit_uint_iff min_def not_le)
    next
      case False
      then have "unat k < ?n" "i < ?n" using n by auto
      with n False * show ?thesis
        by (auto simp: eval_sright_def Let_def ge_bits' [OF assms(1)] neg m shr_def bit_simps
            bit_uint_iff min_def not_le)
    qed
  qed
  then show ?thesis
    by (simp add: sval_signed_take_bit [OF assms] take_bit_eq_mod drop_bit_eq_div)
qed

lemma fits_bit: "size_ok s \<Longrightarrow> fits s v \<Longrightarrow> bit v i \<Longrightarrow> i < bits_of s"
  by (metis and_mask_id and_mask_take_bit bit_take_bit_iff fits_def maskForSize_mask size_bits(2))

lemma signExtendSize_sval:
  assumes "size_ok s" "size_ok t" "s < t" "fits s v"
  shows "uint (signExtendSize v s t) = sval s v mod 2 ^ bits_of t"
proof -
  let ?n = "bits_of s"
  note n = size_bits [OF assms(1)] and m = size_bits [OF assms(2)]
  have lt: "?n < bits_of t" using assms by (auto simp: bits_of_def size_ok_def)
  have masks: "maskForSize s = mask ?n" "maskForSize t = mask (bits_of t)"
    using assms by (simp_all add: maskForSize_mask)
  have id: "v AND mask ?n = v" using assms n by (simp add: fits_def masks and_mask_id)
  have neg: "shr v (u64_of (i32 (i32 (s * 8) - 1))) \<noteq> 0 \<longleftrightarrow> bit v (?n - 1)"
  proof -
    have "uint v < 2 ^ ?n" using assms by (simp add: fits_less)
    have "uint (shr v (u64_of (i32 (i32 (s * 8) - 1)))) = uint v div 2 ^ (?n - 1)"
      by (simp add: uint_shr signed_mask_bit(4) [OF assms(1)])
    also have "\<dots> \<noteq> 0 \<longleftrightarrow> 2 ^ (?n - 1) \<le> uint v"
      using int_le_div_iff [of "2 ^ (?n - 1)" 1 "uint v"] pos_imp_zdiv_nonneg_iff [of "2 ^ (?n - 1)" "uint v"]
      by auto
    also have "\<dots> \<longleftrightarrow> bit v (?n - 1)"
      using sign_bit_ge [of ?n v] n assms by (simp add: fits_def masks)
    finally show ?thesis by (metis uint_0_iff)
  qed
  have "uint (signExtendSize v s t) = take_bit (bits_of t) (signed_take_bit (?n - 1) (uint v))"
  proof (rule bit_eqI)
    fix i
    show "bit (uint (signExtendSize v s t)) i =
        bit (take_bit (bits_of t) (signed_take_bit (?n - 1) (uint v))) i"
      using fits_bit [OF assms(1,4), of i] assms(3) n m lt
      by (cases "?n - 1 < i")
        (auto simp: signExtendSize_def Let_def masks id neg bit_simps bit_uint_iff min_def not_le)
  qed
  then show ?thesis by (simp add: sval_signed_take_bit [OF assms(1,4)] take_bit_eq_mod)
qed

lemma signedVal_sval:
  assumes "size_ok s" "fits s v" shows "signedVal v s = sval s v"
proof (cases "s = 8")
  case True
  then show ?thesis
    using sval_signed_take_bit [OF assms]
    by (simp add: signedVal_def i64_of_def bits_of_def sint_uint)
next
  case False
  let ?n = "bits_of s" and ?k = "64 - bits_of s"
  note n = size_bits [OF assms(1)]
  have k: "unat (64 - u64_of s * 8) = ?k"
    using size_cases [OF assms(1)] by (elim disjE) (simp_all add: bits_of_def u64_of_def)
  have "signedVal v s = drop_bit ?k (sint (push_bit ?k v))"
    using assms False by (simp add: signedVal_def size_ok_def Let_def sar_def i64_of_def shl_def k)
  also have "\<dots> = signed_take_bit (?n - 1) (uint v)"
  proof (rule bit_eqI)
    fix i
    show "bit (drop_bit ?k (sint (push_bit ?k v))) i = bit (signed_take_bit (?n - 1) (uint v)) i"
      using n by (auto simp: bit_simps bit_uint_iff min_def not_le)
  qed
  finally show ?thesis by (simp add: sval_signed_take_bit [OF assms])
qed

lemma eval_sdivrem_sval:
  assumes "size_ok s" "fits s a" "fits s b" "b \<noteq> 0"
  shows "eval_sdivrem (\<lambda>x y. i64 (f x y)) s s a b =
     Inr (u64_of (f (sval s a) (sval s b)) AND maskForSize s)"
proof -
  have "sval s b \<noteq> 0"
    using assms sval_mod [OF assms(1,3)] by (metis mod_0 uint_0_iff)
  moreover have "u64_of (i64 x) = u64_of x" for x
    unfolding u64_of_def i64_def by transfer (simp add: take_bit_signed_take_bit)
  ultimately show ?thesis using assms by (simp add: eval_sdivrem_def signedVal_sval)
qed

section \<open>The arithmetic specification of the evaluators\<close>

text \<open>
  The integer meaning of the two-operand operators on \<open>s\<close>-byte operands: the mathematical
  result, reduced to the width; \<open>None\<close> where the operator has no result.
\<close>

definition binary_spec :: "OpCode \<Rightarrow> int \<Rightarrow> u64 \<Rightarrow> u64 \<Rightarrow> int option" where
  "binary_spec opc s a b =
     (let N = 2 ^ bits_of s; H = 2 ^ (bits_of s - 1);
          x = uint a; y = uint b; p = sval s a; q = sval s b; k = unat b
      in case opc of
        CPUI_INT_EQUAL \<Rightarrow> Some (of_bool (x = y))
      | CPUI_INT_NOTEQUAL \<Rightarrow> Some (of_bool (x \<noteq> y))
      | CPUI_INT_LESS \<Rightarrow> Some (of_bool (x < y))
      | CPUI_INT_LESSEQUAL \<Rightarrow> Some (of_bool (x \<le> y))
      | CPUI_INT_SLESS \<Rightarrow> Some (of_bool (p < q))
      | CPUI_INT_SLESSEQUAL \<Rightarrow> Some (of_bool (p \<le> q))
      | CPUI_INT_ADD \<Rightarrow> Some ((x + y) mod N)
      | CPUI_INT_SUB \<Rightarrow> Some ((x - y) mod N)
      | CPUI_INT_MULT \<Rightarrow> Some (x * y mod N)
      | CPUI_INT_CARRY \<Rightarrow> Some (of_bool (N \<le> x + y))
      | CPUI_INT_SCARRY \<Rightarrow> Some (of_bool (\<not> (- H \<le> p + q \<and> p + q < H)))
      | CPUI_INT_SBORROW \<Rightarrow> Some (of_bool (\<not> (- H \<le> p - q \<and> p - q < H)))
      | CPUI_INT_XOR \<Rightarrow> Some (x XOR y)
      | CPUI_INT_AND \<Rightarrow> Some (x AND y)
      | CPUI_INT_OR \<Rightarrow> Some (x OR y)
      | CPUI_INT_LEFT \<Rightarrow> Some (x * 2 ^ k mod N)
      | CPUI_INT_RIGHT \<Rightarrow> Some (x div 2 ^ k)
      | CPUI_INT_SRIGHT \<Rightarrow> Some (p div 2 ^ k mod N)
      | CPUI_INT_DIV \<Rightarrow> (if y = 0 then None else Some (x div y))
      | CPUI_INT_REM \<Rightarrow> (if y = 0 then None else Some (x mod y))
      | CPUI_INT_SDIV \<Rightarrow> (if y = 0 then None else Some (p sdiv q mod N))
      | CPUI_INT_SREM \<Rightarrow> (if y = 0 then None else Some (p smod q mod N))
      | _ \<Rightarrow> None)"

definition result_value :: "eval_error + u64 \<Rightarrow> int option" where
  "result_value r = (case r of Inl _ \<Rightarrow> None | Inr w \<Rightarrow> Some (uint w))"

definition int_binary_ops :: "OpCode list" where
  "int_binary_ops =
     [CPUI_INT_EQUAL, CPUI_INT_NOTEQUAL, CPUI_INT_LESS, CPUI_INT_LESSEQUAL, CPUI_INT_SLESS,
      CPUI_INT_SLESSEQUAL, CPUI_INT_ADD, CPUI_INT_SUB, CPUI_INT_MULT, CPUI_INT_CARRY,
      CPUI_INT_SCARRY, CPUI_INT_SBORROW, CPUI_INT_XOR, CPUI_INT_AND, CPUI_INT_OR, CPUI_INT_LEFT,
      CPUI_INT_RIGHT, CPUI_INT_SRIGHT, CPUI_INT_DIV, CPUI_INT_REM, CPUI_INT_SDIV, CPUI_INT_SREM]"

lemma if_Inr: "(if c then Inr x else Inr y) = Inr (if c then x else y)"
  by simp

lemma uint_boolToUint64: "uint (boolToUint64 b) = of_bool b"
  by (simp add: boolToUint64_def)

lemma uint_u64_of_masked:
  assumes "size_ok s" shows "uint (u64_of x AND maskForSize s) = x mod 2 ^ bits_of s"
  using size_bits [OF assms]
  by (simp add: uint_masked [OF assms] u64_of_def uint_word_of_int mod_pow_64 del: power_numeral)

lemma uint_mult_masked:
  assumes "size_ok s" shows "uint ((a * b) AND maskForSize s) = uint a * uint b mod 2 ^ bits_of s"
  using size_bits [OF assms] by (simp add: uint_masked [OF assms] uint_mult_mod mod_pow_64 del: power_numeral)

lemma left_value:
  assumes "size_ok s"
  shows "uint (if k \<ge> u64_of s * 8 then 0 else shl v k AND maskForSize s)
     = uint v * 2 ^ unat k mod 2 ^ bits_of s"
proof (cases "bits_of s \<le> unat k")
  case True
  then have "(2::int) ^ bits_of s dvd uint v * 2 ^ unat k" by (simp add: le_imp_power_dvd)
  with True show ?thesis by (simp add: ge_bits [OF assms])
next
  case False
  then show ?thesis by (simp add: ge_bits [OF assms] uint_shl_masked [OF assms])
qed

lemma right_value:
  assumes "size_ok s" "fits s v"
  shows "uint (if k \<ge> u64_of s * 8 then 0 else shr (v AND maskForSize s) k) = uint v div 2 ^ unat k"
  using assms div_pow_small [of "uint v" "bits_of s" "unat k"]
  by (simp add: ge_bits [OF assms(1)] uint_shr uint_masked fits_less)



text \<open>Counting bits.\<close>

lemma leading_clear:
  "length (takeWhile (\<lambda>i. \<not> P i) (rev [0..<m]))
     = card {i. i < m \<and> (\<forall>j. i \<le> j \<and> j < m \<longrightarrow> \<not> P j)}"
proof (induction m)
  case (Suc m)
  show ?case
  proof (cases "P m")
    case True
    then have "{i. i < Suc m \<and> (\<forall>j. i \<le> j \<and> j < Suc m \<longrightarrow> \<not> P j)} = {}"
      by (auto intro!: exI [of _ m])
    with True show ?thesis by simp
  next
    case False
    then have "{i. i < Suc m \<and> (\<forall>j. i \<le> j \<and> j < Suc m \<longrightarrow> \<not> P j)}
        = insert m {i. i < m \<and> (\<forall>j. i \<le> j \<and> j < m \<longrightarrow> \<not> P j)}"
      by (auto simp: less_Suc_eq)
    with False Suc show ?thesis by simp
  qed
qed simp

lemma uint_less_pow_bits: "uint (x :: u64) < 2 ^ i \<longleftrightarrow> (\<forall>j. i \<le> j \<and> j < 64 \<longrightarrow> \<not> bit x j)"
proof -
  have "uint x < 2 ^ i \<longleftrightarrow> take_bit i (uint x) = uint x"
    by (simp add: take_bit_int_eq_self_iff)
  also have "\<dots> \<longleftrightarrow> (\<forall>j. i \<le> j \<and> j < 64 \<longrightarrow> \<not> bit x j)"
  proof -
    have "take_bit i (uint x) = uint x \<longleftrightarrow> (\<forall>j. j < 64 \<and> bit x j \<longrightarrow> j < i)"
      unfolding bit_eq_iff [of "take_bit i (uint x)"]
      by (simp add: bit_take_bit_iff bit_uint_iff) blast
    then show ?thesis by (metis not_le)
  qed
  finally show ?thesis .
qed

lemma LeadingZeros64_card: "LeadingZeros64 x = card {i. i < 64 \<and> uint x < 2 ^ i}"
  unfolding LeadingZeros64_def leading_clear uint_less_pow_bits by simp

lemma lzcount_value:
  assumes "size_ok s" "fits s v"
  shows "LeadingZeros64 v = card {i. i < bits_of s \<and> uint v < 2 ^ i} + (64 - bits_of s)"
proof -
  note n = size_bits [OF assms(1)]
  have "uint v < 2 ^ i" if "bits_of s \<le> i" for i
    using assms that power_increasing [of "bits_of s" i "2 :: int"]
    by (simp add: fits_less) (erule order.strict_trans2, simp)
  then have "{i. i < 64 \<and> uint v < 2 ^ i} = {i. i < bits_of s \<and> uint v < 2 ^ i} \<union> {bits_of s..<64}"
    using n by auto
  then have "LeadingZeros64 v = card ({i. i < bits_of s \<and> uint v < 2 ^ i} \<union> {bits_of s..<64})"
    unfolding LeadingZeros64_card by simp
  also have "\<dots> = card {i. i < bits_of s \<and> uint v < 2 ^ i} + card {bits_of s..<64}"
    by (intro card_Un_disjoint) auto
  finally show ?thesis by simp
qed

lemma OnesCount64_card: "OnesCount64 x = card {i. bit x i}"
proof -
  have "OnesCount64 x = card (set (filter (bit x) [0..<64]))"
    unfolding OnesCount64_def by (intro distinct_card [symmetric]) simp
  also have "set (filter (bit x) [0..<64]) = {i. bit x i}" by (auto dest: bit_imp_le_length)
  finally show ?thesis .
qed

text \<open>The integer meaning of the one-operand operators, from \<open>si\<close> bytes to \<open>so\<close> bytes.\<close>

definition unary_spec :: "OpCode \<Rightarrow> int \<Rightarrow> int \<Rightarrow> u64 \<Rightarrow> int option" where
  "unary_spec opc so si a =
     (case opc of
        CPUI_COPY \<Rightarrow> Some (uint a)
      | CPUI_INT_ZEXT \<Rightarrow> Some (uint a)
      | CPUI_INT_SEXT \<Rightarrow> Some (sval si a mod 2 ^ bits_of so)
      | CPUI_INT_2COMP \<Rightarrow> Some ((- uint a) mod 2 ^ bits_of si)
      | CPUI_INT_NEGATE \<Rightarrow> Some (2 ^ bits_of si - 1 - uint a)
      | CPUI_BOOL_NEGATE \<Rightarrow> Some (if uint a = 0 then 1 else 0)
      | CPUI_POPCOUNT \<Rightarrow> Some (int (card {i. bit a i}))
      | CPUI_LZCOUNT \<Rightarrow> Some (int (card {i. i < bits_of si \<and> uint a < 2 ^ i}))
      | _ \<Rightarrow> None)"

definition int_unary_ops :: "OpCode list" where
  "int_unary_ops = [CPUI_COPY, CPUI_INT_ZEXT, CPUI_INT_2COMP, CPUI_INT_NEGATE, CPUI_POPCOUNT, CPUI_LZCOUNT]"

lemma neg_value:
  assumes "size_ok s" shows "uint (NOT (v - 1) AND maskForSize s) = (- uint v) mod 2 ^ bits_of s"
proof -
  have "NOT (v - 1) = 0 - v" by (simp add: not_eq_complement)
  then show ?thesis
    using size_bits [OF assms] by (simp only: maskForSize_mask [OF assms] mask_minus) simp
qed

lemma not_value:
  assumes "size_ok s" "fits s v" shows "uint (NOT v AND maskForSize s) = 2 ^ bits_of s - 1 - uint v"
proof -
  have "uint (NOT v AND maskForSize s) = (- uint v - 1) mod 2 ^ bits_of s"
    using size_bits [OF assms(1)]
    by (simp only: uint_masked [OF assms(1)] uint_not_mod mod_pow_64)
  also have "\<dots> = (2 ^ bits_of s + (- uint v - 1)) mod 2 ^ bits_of s"
    by (simp only: mod_add_self1)
  also have "\<dots> = (2 ^ bits_of s - 1 - uint v) mod 2 ^ bits_of s"
    by (rule arg_cong [where f = "\<lambda>x. x mod 2 ^ bits_of s"]) simp
  also have "\<dots> = 2 ^ bits_of s - 1 - uint v"
  proof (rule mod_pos_pos_trivial)
    show "0 \<le> 2 ^ bits_of s - 1 - uint v" using assms by (simp add: fits_less)
    have "0 \<le> uint v" by simp
    then show "2 ^ bits_of s - 1 - uint v < 2 ^ bits_of s" by linarith
  qed
  finally show ?thesis .
qed

lemma popcount_le: "OnesCount64 x \<le> 64"
  unfolding OnesCount64_def by (rule order_trans [OF length_filter_le]) simp

lemma LeadingZeros64_le: "LeadingZeros64 x \<le> 64"
  unfolding LeadingZeros64_def by (rule order_trans [OF length_takeWhile_le]) simp

lemma lzcount_eval:
  assumes "size_ok s" "fits s v"
  shows "uint (u64_of (i64 (int (LeadingZeros64 v) - i64 (8 * i64 (8 - s)))))
     = int (card {i. i < bits_of s \<and> uint v < 2 ^ i})"
proof -
  have "i64 (8 - s) = 8 - s" "i64 (8 * (8 - s)) = 8 * (8 - s)"
    using assms(1) by (auto intro!: i64_id simp: size_ok_def)
  moreover have "8 * (8 - s) = int (64 - bits_of s)"
    using assms(1) by (auto simp: size_ok_def bits_of_def)
  ultimately have "int (LeadingZeros64 v) - i64 (8 * i64 (8 - s))
      = int (card {i. i < bits_of s \<and> uint v < 2 ^ i})"
    by (simp add: lzcount_value [OF assms])
  moreover have "card {i. i < bits_of s \<and> uint v < 2 ^ i} \<le> 64"
    using lzcount_value [OF assms] LeadingZeros64_le [of v] by linarith
  ultimately show ?thesis by (simp add: i64_id u64_of_uint)
qed

text \<open>
  C3: on an operand of the input size every integer operator of \<^verbatim>\<open>evaluateUnary\<close> returns
  the mathematical result: the value itself for a zero extension, the two's complement value
  for a sign extension, negation and complement reduced to the width, the number of set bits
  and of leading clear bits.
\<close>

theorem evaluateUnary_arith:
  assumes "size_ok si" "fits si a"
    "opc \<in> set int_unary_ops \<or> opc = CPUI_INT_SEXT \<and> size_ok so \<and> si < so
      \<or> opc = CPUI_BOOL_NEGATE \<and> a \<le> 1"
  shows "result_value (evaluateUnary h opc so si a) = unary_spec opc so si a"
proof -
  have "a = 0 \<or> a = 1" if "a \<le> 1" using that by (metis le_less word_less_1)
  moreover have "uint (of_nat (OnesCount64 a) :: u64) = int (card {i. bit a i})"
    using popcount_le [of a] by (simp add: OnesCount64_card [symmetric] unsigned_of_nat take_bit_nat_eq_self)
  ultimately show ?thesis
    using assms(3) signExtendSize_sval [OF assms(1) _ _ assms(2), of so] neg_value [OF assms(1)]
      not_value [OF assms(1,2)] lzcount_eval [OF assms(1,2)]
    unfolding int_unary_ops_def list.set insert_iff empty_iff
    by (elim disjE FalseE conjE)
      (auto simp: evaluateUnary_def unary_spec_def result_value_def)
qed

theorem evaluateUnary_arith_witness:
  "\<forall>h :: nat hostfloat. result_value (evaluateUnary h CPUI_INT_SEXT 2 1 0x80) = Some 0xff80"
proof
  fix h :: "nat hostfloat"
  have "fits 1 0x80" "size_ok 1" "size_ok 2"
    by (simp_all add: fits_def maskForSize_def shl_def u64_of_def size_ok_def push_bit_eq_mult)
  then have "result_value (evaluateUnary h CPUI_INT_SEXT 2 1 0x80) = unary_spec CPUI_INT_SEXT 2 1 0x80"
    by (intro evaluateUnary_arith) simp_all
  then show "result_value (evaluateUnary h CPUI_INT_SEXT 2 1 0x80) = Some 0xff80"
    by (simp add: unary_spec_def sval_def bits_of_def)
qed

section \<open>Concatenation and truncation\<close>

lemma piece_value:
  assumes "size_ok s" "size_ok t" "s + t \<le> 8" "fits s hi" "fits t lo"
  shows "evaluateBinary h CPUI_PIECE (s + t) s hi lo = Inr (shl hi (u64_of (8 * t)) OR lo)"
    and "uint (shl hi (u64_of (8 * t)) OR lo) = uint hi * 2 ^ bits_of t + uint lo"
proof -
  have k: "i32 (i32 (s + t - s) * 8) = 8 * t" "unat (u64_of (8 * t)) = bits_of t"
    using size_cases [OF assms(2)] by (elim disjE; simp add: i32_id u64_of_def bits_of_def)+
  show "evaluateBinary h CPUI_PIECE (s + t) s hi lo = Inr (shl hi (u64_of (8 * t)) OR lo)"
    using k by (simp add: evaluateBinary_def)
  have "(shl hi (u64_of (8 * t)) :: u64) AND lo = 0"
    by (intro bit_eqI) (auto simp: shl_def k bit_simps dest: fits_bit [OF assms(2,5)])
  then have "shl hi (u64_of (8 * t)) OR lo = shl hi (u64_of (8 * t)) + lo"
    by (metis disjunctive_add_eq_or)
  moreover have "uint hi * 2 ^ bits_of t + uint lo < 2 ^ 64"
  proof -
    have "uint hi + 1 \<le> 2 ^ bits_of s" "uint lo < 2 ^ bits_of t" using assms by (auto simp: fits_less)
    then have "(uint hi + 1) * 2 ^ bits_of t \<le> 2 ^ bits_of s * 2 ^ bits_of t" by (intro mult_right_mono) auto
    also have "\<dots> = 2 ^ (bits_of s + bits_of t)" by (simp add: power_add)
    also have "\<dots> \<le> 2 ^ 64"
      using assms by (intro power_increasing) (auto simp: bits_of_def size_ok_def)
    finally show ?thesis using \<open>uint lo < 2 ^ bits_of t\<close> by (simp add: algebra_simps)
  qed
  ultimately show "uint (shl hi (u64_of (8 * t)) OR lo) = uint hi * 2 ^ bits_of t + uint lo"
    by (simp add: uint_plus_mod uint_shl k mod_simps)
qed

lemma subpiece_value:
  assumes "size_ok so" "k < 8"
  shows "evaluateBinary h CPUI_SUBPIECE so si v k = Inr (shr v (k * 8) AND maskForSize so)"
    and "uint (shr v (k * 8) AND maskForSize so) = uint v div 2 ^ (8 * unat k) mod 2 ^ bits_of so"
proof -
  have "unat (k * 8) = 8 * unat k"
    using assms(2) by (subst unat_mult_lem [THEN iffD1]) (auto simp: word_less_nat_alt)
  then show "evaluateBinary h CPUI_SUBPIECE so si v k = Inr (shr v (k * 8) AND maskForSize so)"
    and "uint (shr v (k * 8) AND maskForSize so) = uint v div 2 ^ (8 * unat k) mod 2 ^ bits_of so"
    using assms by (simp_all add: evaluateBinary_def uint_masked uint_shr not_le [symmetric])
qed

text \<open>
  C39: \<^verbatim>\<open>SUBPIECE\<close> takes apart what \<^verbatim>\<open>PIECE\<close> put together: the low part at offset zero, the
  high part at the offset of the low part's size.
\<close>

theorem piece_subpiece:
  assumes "size_ok s" "size_ok t" "s + t \<le> 8" "fits s hi" "fits t lo"
    and "evaluateBinary h CPUI_PIECE (s + t) s hi lo = Inr w"
  shows "evaluateBinary h CPUI_SUBPIECE t (s + t) w 0 = Inr lo
    \<and> evaluateBinary h CPUI_SUBPIECE s (s + t) w (u64_of t) = Inr hi"
proof -
  have w: "uint w = uint hi * 2 ^ bits_of t + uint lo"
    using piece_value(1) [OF assms(1-5), of h] piece_value(2) [OF assms(1-5)] assms(6) by simp
  have k: "u64_of t < 8" "8 * unat (u64_of t) = bits_of t" "(0 :: u64) < 8"
    using size_cases [OF assms(2)] assms(1,3) by (auto simp: u64_of_def bits_of_def size_ok_def)
  have "shr w (u64_of t * 8) AND maskForSize s = hi" "shr w (0 * 8) AND maskForSize t = lo"
    using subpiece_value(2) [OF assms(1) k(1), of w] subpiece_value(2) [OF assms(2) k(3), of w] assms
    by (simp_all add: word_uint_eq_iff w k fits_less)
  then show ?thesis
    using subpiece_value(1) [OF assms(1) k(1)] subpiece_value(1) [OF assms(2) k(3)] by auto
qed

theorem piece_subpiece_witness:
  "\<forall>h :: nat hostfloat. evaluateBinary h CPUI_SUBPIECE 1 3 0x1234ab 0 = Inr 0xab
     \<and> evaluateBinary h CPUI_SUBPIECE 2 3 0x1234ab 1 = Inr 0x1234"
proof
  fix h :: "nat hostfloat"
  have "evaluateBinary h CPUI_PIECE (2 + 1) 2 0x1234 0xab = Inr 0x1234ab"
    by (simp add: evaluateBinary_def i32_id u64_of_def shl_def push_bit_eq_mult)
  from piece_subpiece [OF _ _ _ _ _ this]
  show "evaluateBinary h CPUI_SUBPIECE 1 3 0x1234ab 0 = Inr 0xab
     \<and> evaluateBinary h CPUI_SUBPIECE 2 3 0x1234ab 1 = Inr 0x1234"
    by (simp add: size_ok_def fits_def maskForSize_def shl_def u64_of_def push_bit_eq_mult)
qed

end
