(* ===== verification/Circle_Pull.thy ===== *)
theory Circle_Pull
  imports Circle_Enum Pcode_Laws
begin

text \<open>
  Pulling a range back through an operation (\<^verbatim>\<open>pullBackUnary\<close>, \<^verbatim>\<open>pullBackBinary\<close>,
  \<^verbatim>\<open>pullBack\<close>) and recovering a comparison from a range (\<^verbatim>\<open>translate2Op\<close>), measured against
  the evaluators of \<^verbatim>\<open>opbehavior.go\<close>: the pulled-back range is the exact preimage.
\<close>

section \<open>Rotations and reflections of the ring\<close>

lemma cr_span_mod:
  assumes "cr_ok n r" "\<not> cr_isempty r"
  shows "cr_span n r = (if (uint (cr_right r) - uint (cr_left r)) mod 2 ^ n = 0 then 2 ^ n
     else (uint (cr_right r) - uint (cr_left r)) mod 2 ^ n)"
proof (cases "cr_left r = cr_right r")
  case False
  note f = cr_ok_facts [OF assms(1)]
  have "uint (cr_left r) < 2 ^ n" "uint (cr_right r) < 2 ^ n"
    using f assms(2) by (simp_all add: le_mask_iff)
  moreover have "uint (cr_left r) \<noteq> uint (cr_right r)" using False by (simp add: word_uint_eq_iff)
  ultimately have "0 < (uint (cr_right r) - uint (cr_left r)) mod 2 ^ n"
    by (intro mod_diff_nonzero) simp_all
  with False show ?thesis by (simp add: cr_span_def)
qed (simp add: cr_span_def)

text \<open>Moving both bounds by one offset moves the set.\<close>

lemma rotate_contains:
  assumes ok: "cr_ok n r" "\<not> cr_isempty r" and v: "v \<le> mask n" and w: "w \<le> mask n"
    and l: "uint l = (uint (cr_left r) + c) mod 2 ^ n" and t: "uint t = (uint (cr_right r) + c) mod 2 ^ n"
    and vw: "uint v mod 2 ^ n = (uint w + c) mod 2 ^ n"
  shows "cr_ok n (r\<lparr>cr_left := l, cr_right := t\<rparr>)"
    and "contains (r\<lparr>cr_left := l, cr_right := t\<rparr>) v \<longleftrightarrow> contains r w"
proof -
  let ?r = "r\<lparr>cr_left := l, cr_right := t\<rparr>"
  note f = cr_ok_facts [OF ok(1)]
  have "cr_step r dvd uint (cr_right r) - uint (cr_left r)" using f ok(2) by (simp add: in_phase_dvd)
  moreover have diff: "(uint t - uint l) mod 2 ^ n = (uint (cr_right r) - uint (cr_left r)) mod 2 ^ n"
    by (simp add: l t mod_simps)
  ultimately have "cr_step r dvd uint t - uint l" using f(6) by (metis dvd_mod_ring)
  then show ok': "cr_ok n ?r"
    using f by (simp add: cr_ok_def cr_dom_def in_phase_dvd le_mask_iff l t)
  have "(uint v - uint l) mod 2 ^ n = (uint w - uint (cr_left r)) mod 2 ^ n"
    using vw by (metis add_diff_cancel_right l mod_diff_eq mod_mod_trivial)
  moreover from this have "cr_step r dvd uint v - uint l \<longleftrightarrow> cr_step r dvd uint w - uint (cr_left r)"
    using f(6) by (metis dvd_mod_ring)
  moreover have "cr_span n ?r = cr_span n r"
    using cr_span_mod [OF ok'] cr_span_mod [OF ok] ok(2) diff by simp
  ultimately show "contains ?r v \<longleftrightarrow> contains r w"
    using contains_span [OF ok' _ v] contains_span [OF ok w] ok(2) by simp
qed

lemma ring_shift: "(a::int) mod N = b mod N \<Longrightarrow> (x + a - y) mod N = (x + b - y) mod N"
  by (metis mod_add_right_eq mod_diff_left_eq)

lemma reflect_ring:
  fixes s N S d :: int
  assumes "0 < s" "s dvd N" "s dvd S" "0 < S" "S \<le> N" "s dvd d" "0 \<le> d" "d < N"
  shows "(S - s - d) mod N < S \<longleftrightarrow> d < S"
proof (cases "d < S")
  case True
  then have "s dvd S - d" "0 < S - d" using assms by auto
  then have "s \<le> S - d" by (rule zdvd_imp_le)
  then have "(S - s - d) mod N = S - s - d" using assms by (intro mod_pos_pos_trivial) auto
  with True assms show ?thesis by simp
next
  case False
  have "s dvd N - d" "0 < N - d" using assms by auto
  then have "s \<le> N - d" by (rule zdvd_imp_le)
  then have "(S - s - d + N) mod N = S - s - d + N"
    using assms False by (intro mod_pos_pos_trivial) auto
  then have "(S - s - d) mod N = S - s - d + N" by simp
  with False \<open>s \<le> N - d\<close> show ?thesis by simp
qed

text \<open>Swapping and negating the bounds reflects the set.\<close>

lemma reflect_contains:
  assumes ok: "cr_ok n r" "\<not> cr_isempty r" and v: "v \<le> mask n" and w: "w \<le> mask n"
    and l: "uint l = (c - uint (cr_right r) + cr_step r) mod 2 ^ n"
    and t: "uint t = (c - uint (cr_left r) + cr_step r) mod 2 ^ n"
    and vw: "uint w mod 2 ^ n = (c - uint v) mod 2 ^ n"
  shows "cr_ok n (r\<lparr>cr_left := l, cr_right := t\<rparr>)"
    and "contains (r\<lparr>cr_left := l, cr_right := t\<rparr>) v \<longleftrightarrow> contains r w"
proof -
  let ?r = "r\<lparr>cr_left := l, cr_right := t\<rparr>"
  note f = cr_ok_facts [OF ok(1)] and sp = cr_span_facts [OF ok]
  have "cr_step r dvd uint (cr_right r) - uint (cr_left r)" using f ok(2) by (simp add: in_phase_dvd)
  moreover have diff: "(uint t - uint l) mod 2 ^ n = (uint (cr_right r) - uint (cr_left r)) mod 2 ^ n"
    by (simp add: l t mod_simps)
  ultimately have "cr_step r dvd uint t - uint l" using f(6) by (metis dvd_mod_ring)
  then show ok': "cr_ok n ?r"
    using f by (simp add: cr_ok_def cr_dom_def in_phase_dvd le_mask_iff l t)
  have span: "cr_span n ?r = cr_span n r"
    using cr_span_mod [OF ok'] cr_span_mod [OF ok] ok(2) diff by simp
  define d where "d = (uint w - uint (cr_left r)) mod 2 ^ n"
  have "(uint v - uint l) mod 2 ^ n = (uint v - c + uint (cr_right r) - cr_step r) mod 2 ^ n"
    by (simp add: l mod_simps algebra_simps)
  also have "\<dots> = (cr_span n r - cr_step r - (c - uint v - uint (cr_left r))) mod 2 ^ n"
    using ring_shift [of "uint (cr_right r)" "2 ^ n" "uint (cr_left r) + cr_span n r" "uint v - c"
        "cr_step r"] sp(4) [symmetric] by (simp add: algebra_simps)
  also have "\<dots> = (cr_span n r - cr_step r - d) mod 2 ^ n"
  proof -
    have "d mod 2 ^ n = (c - uint v - uint (cr_left r)) mod 2 ^ n"
      using vw unfolding d_def by (metis mod_diff_left_eq mod_mod_trivial)
    then show ?thesis by (metis mod_diff_right_eq)
  qed
  finally have v': "(uint v - uint l) mod 2 ^ n = (cr_span n r - cr_step r - d) mod 2 ^ n" .
  have phase: "cr_step r dvd uint v - uint l \<longleftrightarrow> cr_step r dvd uint w - uint (cr_left r)"
  proof -
    have "cr_step r dvd uint v - uint l \<longleftrightarrow> cr_step r dvd cr_span n r - cr_step r - d"
      using f(6) v' by (metis dvd_mod_ring)
    also have "\<dots> \<longleftrightarrow> cr_step r dvd d" using sp(3) by (simp add: dvd_diff_right_iff)
    finally show ?thesis using f(6) by (simp add: d_def dvd_mod_ring)
  qed
  show "contains ?r v \<longleftrightarrow> contains r w"
  proof (cases "cr_step r dvd uint w - uint (cr_left r)")
    case True
    then have "cr_step r dvd d" using f(6) by (simp add: d_def dvd_mod_ring)
    then have "(cr_span n r - cr_step r - d) mod 2 ^ n < cr_span n r \<longleftrightarrow> d < cr_span n r"
      using f(4,6) sp(1-3) by (intro reflect_ring) (simp_all add: d_def)
    then show ?thesis
      using contains_span [OF ok' _ v] contains_span [OF ok w] ok(2) span phase v' by (simp add: d_def)
  next
    case False
    then show ?thesis using contains_span [OF ok' _ v] contains_span [OF ok w] ok(2) phase by simp
  qed
qed

section \<open>Narrowing the domain\<close>

text \<open>A range whose members all fit the smaller ring of \<open>2 ^ m\<close> values does not reach past it.\<close>

lemma narrow_span:
  fixes s S L :: int
  assumes s: "0 < s" "s dvd 2 ^ m" "s dvd S" and m: "m < n" and L: "0 \<le> L" "L < 2 ^ m"
    and small: "\<And>x. \<lbrakk>0 \<le> x; x < 2 ^ n; s dvd x - L; (x - L) mod 2 ^ n < S\<rbrakk> \<Longrightarrow> x < 2 ^ m"
  shows "L + S \<le> 2 ^ m + L mod s"
proof (rule ccontr)
  assume "\<not> L + S \<le> 2 ^ m + L mod s"
  then have gt: "2 ^ m + L mod s < L + S" by simp
  have le: "s \<le> 2 ^ m" using s by (simp add: zdvd_imp_le)
  have "L mod s < s" "0 \<le> L mod s" using s by simp_all
  moreover have "(2::int) * 2 ^ m \<le> 2 ^ n"
    using power_increasing [of "Suc m" n "2 :: int"] m by simp
  ultimately have x: "0 \<le> 2 ^ m + L mod s" "2 ^ m + L mod s < 2 ^ n" using le by linarith+
  have "s dvd 2 ^ m + L mod s - L"
    using s(2) by (metis add_diff_eq dvd_add dvd_minus_mod dvd_minus_iff minus_diff_eq)
  moreover have "(2 ^ m + L mod s - L) mod 2 ^ n = 2 ^ m + L mod s - L"
    using x L \<open>0 \<le> L mod s\<close> by (intro mod_pos_pos_trivial) auto
  ultimately have "2 ^ m + L mod s < 2 ^ m" using gt x by (intro small) auto
  then show False using \<open>0 \<le> L mod s\<close> by simp
qed

lemma narrow_dist:
  fixes s S L V :: int
  assumes s: "0 < s" "s dvd 2 ^ m" and m: "m < n" and L: "0 \<le> L" "L < 2 ^ m"
    and S: "L + S \<le> 2 ^ m + L mod s" and V: "0 \<le> V" "V < 2 ^ m" "s dvd V - L"
  shows "(V - L) mod 2 ^ m < S \<longleftrightarrow> (V - L) mod 2 ^ n < S"
proof (cases "L \<le> V")
  case True
  have "(2::int) ^ m \<le> 2 ^ n" using m by simp
  then have "V - L < 2 ^ m" "V - L < 2 ^ n" using V L by linarith+
  then have "(V - L) mod 2 ^ m = V - L" "(V - L) mod 2 ^ n = V - L"
    using True by (auto intro!: mod_pos_pos_trivial)
  then show ?thesis by simp
next
  case False
  have mn: "(2::int) ^ m \<le> 2 ^ n" using m by simp
  have "V mod s = L mod s" using V(3) by (simp add: mod_eq_iff_dvd)
  moreover have "V mod s \<le> V" using V(1) s(1) by (simp add: zmod_le_nonneg_dividend)
  ultimately have "L mod s \<le> V" by simp
  moreover have "(V - L) mod 2 ^ m = V - L + 2 ^ m"
    using mod_diff_ring [OF V(1,2) L] False by simp
  moreover have "(V - L) mod 2 ^ n = V - L + 2 ^ n"
    using mod_diff_ring [of V "2 ^ n" L] V L False mn by simp
  moreover have "\<not> V - L + 2 ^ m < S" "\<not> V - L + 2 ^ n < S"
    using S mn \<open>L mod s \<le> V\<close> by linarith+
  ultimately show ?thesis by simp
qed

lemma narrow_contains:
  assumes ok: "cr_ok n r" "\<not> cr_isempty r" and m: "0 < m" "m < n" and st: "cr_step r dvd 2 ^ m"
    and small: "\<And>x. \<lbrakk>x \<le> mask n; contains r x\<rbrakk> \<Longrightarrow> x \<le> mask m"
  shows "cr_ok m (r\<lparr>cr_left := cr_left r AND mask m, cr_right := cr_right r AND mask m,
      cr_mask := cr_mask r AND mask m\<rparr>)" (is "cr_ok m ?r")
    and "v \<le> mask m \<Longrightarrow> contains (r\<lparr>cr_left := cr_left r AND mask m,
      cr_right := cr_right r AND mask m, cr_mask := cr_mask r AND mask m\<rparr>) v \<longleftrightarrow> contains r v"
proof -
  note f = cr_ok_facts [OF ok(1)] and sp = cr_span_facts [OF ok]
  let ?L = "uint (cr_left r)" and ?S = "cr_span n r" and ?s = "cr_step r"
  have m64: "m \<le> 64" using m f(2) by simp
  have lm: "cr_left r \<le> mask m"
    using small [of "cr_left r"] f(7) ok sp(1) contains_span [OF ok, of "cr_left r"] by simp
  then have L: "0 \<le> ?L" "?L < 2 ^ m" using m64 by (simp_all add: le_mask_iff)
  have le: "?L + ?S \<le> 2 ^ m + ?L mod ?s"
  proof (rule narrow_span [OF f(4) st sp(3) m(2) L])
    fix x :: int assume x: "0 \<le> x" "x < 2 ^ n" "?s dvd x - ?L" "(x - ?L) mod 2 ^ n < ?S"
    have "(2::int) ^ n \<le> 2 ^ 64" using f(2) by (rule power_increasing) simp
    then have u: "uint (word_of_int x :: u64) = x" using x by (simp add: uint_word_of_int mod_pos_pos_trivial)
    then have "word_of_int x \<le> (mask n :: u64)" using x f(2) by (simp add: le_mask_iff)
    then have "word_of_int x \<le> (mask m :: u64)"
      using small contains_span [OF ok, of "word_of_int x"] u x by simp
    then show "x < 2 ^ m" using u m64 by (simp add: le_mask_iff)
  qed
  have S: "0 < ?S" "?S \<le> 2 ^ m"
    using le sp(1) L f(4) zmod_le_nonneg_dividend [OF L(1), of ?s] by auto
  have lm': "cr_left r AND mask m = cr_left r" using lm m64 by (simp add: and_mask_id)
  have rm: "uint (cr_right r AND mask m) = (?L + ?S) mod 2 ^ m"
    using sp(4) m(2) by (simp add: uint_and_mask mod_mod_cancel le_imp_power_dvd flip: sp(4))
  have mm: "cr_mask r AND mask m = mask m"
    using m f(2,3) by (simp add: min_def and_mask_take_bit take_bit_of_mask)
  have "?s dvd uint (cr_right r AND mask m) - ?L"
    using sp(3) st unfolding rm by (metis add_diff_cancel_left' dvd_mod_ring mod_diff_left_eq)
  then show ok': "cr_ok m ?r"
    using f m m64 st lm mm by (simp add: cr_ok_def cr_dom_def lm' in_phase_dvd and_mask_le)
  have "cr_span m ?r = ?S"
  proof -
    have "(uint (cr_right r AND mask m) - ?L) mod 2 ^ m = ?S mod 2 ^ m"
      by (simp add: rm mod_simps)
    then show ?thesis
      using cr_span_mod [OF ok'] ok(2) S by (cases "?S = 2 ^ m") (simp_all add: lm')
  qed
  then show "v \<le> mask m \<Longrightarrow> contains ?r v \<longleftrightarrow> contains r v"
  proof -
    assume v: "v \<le> mask m"
    then have V: "0 \<le> uint v" "uint v < 2 ^ m" using m64 by (simp_all add: le_mask_iff)
    have "(2::int) ^ m \<le> 2 ^ n" using m by simp
    then have "uint v < 2 ^ n" using V by linarith
    then have vn: "v \<le> mask n" using f(2) by (simp add: le_mask_iff)
    show "contains ?r v \<longleftrightarrow> contains r v"
      using contains_span [OF ok' _ v] contains_span [OF ok vn] ok(2) \<open>cr_span m ?r = ?S\<close>
        narrow_dist [OF f(4) st m(2) L le V] by (auto simp: lm')
  qed
qed

section \<open>Unary operators\<close>

lemma pull_2comp:
  assumes "size_ok s" "cr_ok (bits_of s) r" "\<not> cr_isempty r" "fits s v"
    and "pullBackUnary r CPUI_INT_2COMP s s = (ok, r')"
  shows "ok \<and> cr_ok (bits_of s) r' \<and> (contains r' v \<longleftrightarrow> contains r (NOT (v - 1) AND maskForSize s))"
proof -
  note f = cr_ok_facts [OF assms(2)] and m = maskForSize_mask [OF assms(1)]
  have bound: "uint ((NOT x + 1 + u64_of (cr_step r)) AND cr_mask r)
      = (0 - uint x + cr_step r) mod 2 ^ bits_of s" for x
  proof -
    have "NOT x + 1 = 0 - x" by (simp add: not_eq_complement)
    then have "(NOT x + 1 + u64_of (cr_step r)) AND cr_mask r = (u64_of (cr_step r) - x) AND mask (bits_of s)"
      using f(3) by (simp add: algebra_simps)
    then show ?thesis using f(2) by (simp add: mask_minus u64_of_step [OF assms(2)])
  qed
  have r': "ok" "r' = r\<lparr>cr_left := (NOT (cr_right r) + 1 + u64_of (cr_step r)) AND cr_mask r,
      cr_right := (NOT (cr_left r) + 1 + u64_of (cr_step r)) AND cr_mask r\<rparr>"
    using assms(3,5) by (auto simp: pullBackUnary_def)
  have "v \<le> mask (bits_of s)" using assms(4) by (simp add: fits_def m)
  moreover have "NOT (v - 1) AND maskForSize s \<le> mask (bits_of s)" by (simp add: m and_mask_le)
  moreover have "uint (NOT (v - 1) AND maskForSize s) mod 2 ^ bits_of s = (0 - uint v) mod 2 ^ bits_of s"
    by (simp add: neg_value [OF assms(1)])
  ultimately show ?thesis using r' reflect_contains [OF assms(2,3) _ _ bound bound] by blast
qed

lemma pull_negate:
  assumes "size_ok s" "cr_ok (bits_of s) r" "\<not> cr_isempty r" "fits s v"
    and "pullBackUnary r CPUI_INT_NEGATE s s = (ok, r')"
  shows "ok \<and> cr_ok (bits_of s) r' \<and> (contains r' v \<longleftrightarrow> contains r (NOT v AND maskForSize s))"
proof -
  note f = cr_ok_facts [OF assms(2)] and m = maskForSize_mask [OF assms(1)]
  have bound: "uint ((NOT x + u64_of (cr_step r)) AND cr_mask r)
      = (- 1 - uint x + cr_step r) mod 2 ^ bits_of s" for x
  proof -
    have "uint ((NOT x + u64_of (cr_step r)) AND cr_mask r)
        = ((- uint x - 1) mod 2 ^ 64 + cr_step r) mod 2 ^ bits_of s"
      using f by (simp only: mask_plus u64_of_step [OF assms(2)] uint_not_mod)
    also have "\<dots> = ((- uint x - 1) mod 2 ^ 64 mod 2 ^ bits_of s + cr_step r) mod 2 ^ bits_of s"
      by (simp only: mod_add_left_eq)
    also have "\<dots> = (- 1 - uint x + cr_step r) mod 2 ^ bits_of s"
      unfolding mod_pow_64 [OF f(2)] by (simp add: mod_simps algebra_simps)
    finally show ?thesis .
  qed
  have r': "ok" "r' = r\<lparr>cr_left := (NOT (cr_right r) + u64_of (cr_step r)) AND cr_mask r,
      cr_right := (NOT (cr_left r) + u64_of (cr_step r)) AND cr_mask r\<rparr>"
    using assms(3,5) by (auto simp: pullBackUnary_def)
  have "v \<le> mask (bits_of s)" using assms(4) by (simp add: fits_def m)
  moreover have "NOT v AND maskForSize s \<le> mask (bits_of s)" by (simp add: m and_mask_le)
  moreover have "uint (NOT v AND maskForSize s) mod 2 ^ bits_of s = (- 1 - uint v) mod 2 ^ bits_of s"
    using not_value [OF assms(1,4)] by (simp add: mod_eq_iff_dvd)
  ultimately show ?thesis using r' reflect_contains [OF assms(2,3) _ _ bound bound] by blast
qed

text \<open>The zero-extension branch: restrict to the small values, then narrow the domain.\<close>

lemma zext_range:
  assumes "size_ok si" "size_ok so" "si < so" "cr_ok (bits_of so) r" "\<not> cr_isempty r"
    "cr_step r dvd 2 ^ bits_of si"
    and z: "z = \<lparr>cr_left = cr_left r mod u64_of (cr_step r),
      cr_right = maskForSize si + 1 + cr_left r mod u64_of (cr_step r), cr_mask = cr_mask r,
      cr_isempty = False, cr_step = cr_step r\<rparr>"
  shows "cr_ok (bits_of so) z" "cr_aligned r z"
    and "v \<le> mask (bits_of so) \<Longrightarrow> contains z v \<longleftrightarrow> in_phase (cr_step r) (cr_left r) v \<and> v \<le> mask (bits_of si)"
proof -
  note f = cr_ok_facts [OF assms(4)]
  let ?N = "2 ^ bits_of si :: int" and ?s = "cr_step r" and ?q = "cr_left r mod u64_of (cr_step r)"
  have si: "bits_of si < bits_of so" using assms by (auto simp: bits_of_def size_ok_def)
  have ms: "?s \<le> ?N" using assms(6) by (simp add: zdvd_imp_le)
  have q: "uint ?q = uint (cr_left r) mod ?s" using f by (simp add: uint_mod_u64_of)
  then have qb: "0 \<le> uint ?q" "uint ?q < ?s" using f(4) by simp_all
  have "2 * ?N \<le> 2 ^ bits_of so"
    using power_increasing [of "Suc (bits_of si)" "bits_of so" "2 :: int"] si by simp
  then have big: "?N + uint ?q < 2 ^ bits_of so" using qb ms by linarith
  have "(2::int) ^ bits_of so \<le> 2 ^ 64" using f(2) by (rule power_increasing) simp
  then have big64: "?N + uint ?q < 2 ^ 64" using big by linarith
  have "maskForSize si + 1 + ?q = u64_of (?N + uint ?q)"
    using size_bits [OF assms(1)] by (simp add: maskForSize_mask [OF assms(1)] mask_eq_exp_minus_1 u64_of_def)
  then have t: "uint (maskForSize si + 1 + ?q) = ?N + uint ?q" using qb big64 by (simp add: u64_of_uint)
  have ph: "in_phase ?s (cr_left r) ?q" by (simp add: in_phase_def)
  have "?s dvd uint (maskForSize si + 1 + ?q) - uint ?q" using assms(6) t by simp
  then have "in_phase ?s ?q (maskForSize si + 1 + ?q)" using f(4,5) by (simp add: in_phase_dvd)
  moreover have "0 < ?N" by simp
  then have "uint ?q < 2 ^ bits_of so" using big by linarith
  ultimately show "cr_ok (bits_of so) z"
    using f(1-6) big unfolding z by (simp add: cr_ok_def cr_dom_def le_mask_iff t)
  show "cr_aligned r z" using ph unfolding z by (simp add: cr_aligned_def)
  assume "v \<le> mask (bits_of so)"
  have lt: "?q < maskForSize si + 1 + ?q" using t ms f(4) by (simp add: word_less_def)
  have iff: "uint ?q \<le> uint v \<and> uint v < ?N + uint ?q \<longleftrightarrow> uint v < ?N" if "uint v mod ?s = uint ?q"
  proof
    have "uint v mod ?s \<le> uint v" using f(4) by (simp add: zmod_le_nonneg_dividend)
    moreover assume "uint v < ?N"
    ultimately show "uint ?q \<le> uint v \<and> uint v < ?N + uint ?q" using that qb by linarith
  next
    assume b: "uint ?q \<le> uint v \<and> uint v < ?N + uint ?q"
    show "uint v < ?N"
    proof (rule ccontr)
      assume "\<not> uint v < ?N"
      then have "(uint v - ?N) mod ?s \<le> uint v - ?N" by (intro zmod_le_nonneg_dividend) simp
      moreover have "(uint v - ?N) mod ?s = uint v mod ?s"
        using assms(6) by (simp add: mod_eq_iff_dvd)
      ultimately show False using b that by simp
    qed
  qed
  have "in_phase ?s ?q v \<longleftrightarrow> in_phase ?s (cr_left r) v" by (metis in_phase_cong ph)
  moreover have "uint v mod ?s = uint ?q" if "in_phase ?s (cr_left r) v"
    using that f(4,5) q by (simp add: in_phase_dvd mod_eq_iff_dvd)
  moreover have "contains z v \<longleftrightarrow> in_phase ?s ?q v \<and> uint ?q \<le> uint v \<and> uint v < ?N + uint ?q"
    using lt t unfolding z contains_arc arc_def by (simp add: word_le_def word_less_def)
  moreover have "v \<le> mask (bits_of si) \<longleftrightarrow> uint v < ?N"
    using size_bits [OF assms(1)] by (simp add: le_mask_iff)
  ultimately show "contains z v \<longleftrightarrow> in_phase ?s (cr_left r) v \<and> v \<le> mask (bits_of si)"
    using iff by blast
qed

lemma pull_zext:
  assumes "size_ok si" "size_ok so" "si < so" "cr_ok (bits_of so) r" "\<not> cr_isempty r"
    "cr_step r dvd 2 ^ bits_of si" "fits si v"
    and "pullBackUnary r CPUI_INT_ZEXT si so = (True, r')"
  shows "cr_ok (bits_of si) r' \<and> (contains r' v \<longleftrightarrow> contains r v)"
proof -
  note f = cr_ok_facts [OF assms(4)] and m = maskForSize_mask [OF assms(1)]
  define z where "z = \<lparr>cr_left = cr_left r mod u64_of (cr_step r),
      cr_right = maskForSize si + 1 + cr_left r mod u64_of (cr_step r), cr_mask = cr_mask r,
      cr_isempty = False, cr_step = cr_step r\<rparr>"
  note z = zext_range [OF assms(1-6) z_def]
  have lt: "bits_of si < bits_of so" using assms by (auto simp: bits_of_def size_ok_def)
  have "pullBackUnary r CPUI_INT_ZEXT si so = (case intersect r z of (ret, r) \<Rightarrow>
      if ret \<noteq> 0 then (False, r) else (True, r\<lparr>cr_left := cr_left r AND mask (bits_of si),
        cr_right := cr_right r AND mask (bits_of si), cr_mask := cr_mask r AND mask (bits_of si)\<rparr>))"
    using assms(5) m by (simp add: pullBackUnary_def Let_def z_def)
  then obtain x where x: "intersect r z = (0, x)" and r': "r' = x\<lparr>cr_left := cr_left x AND mask (bits_of si),
      cr_right := cr_right x AND mask (bits_of si), cr_mask := cr_mask x AND mask (bits_of si)\<rparr>"
    using assms(8) by (auto split: prod.splits if_splits)
  note ix = intersect_contains [OF assms(4) z(1,2) x]
  have step: "cr_step x = cr_step r"
    by (rule intersect_cases(4) [OF assms(5) _ _ _ x]) (simp_all add: z_def)
  have sub: "contains x w \<longleftrightarrow> contains r w \<and> w \<le> mask (bits_of si)" if "w \<le> mask (bits_of so)" for w
    using ix(1) [of w] z(3) [OF that] by (auto simp: contains_arc)
  have "uint v < 2 ^ bits_of si" using assms(1,7) by (simp add: fits_less)
  then have "uint v < 2 ^ bits_of so"
    using lt power_strict_increasing [of "bits_of si" "bits_of so" "2 :: int"] by linarith
  then have v: "v \<le> mask (bits_of so)" "v \<le> mask (bits_of si)"
    using assms(1,7) f(2) m by (simp_all add: le_mask_iff fits_def)
  show ?thesis
  proof (cases "cr_isempty x")
    case True
    have "cr_mask x = mask (bits_of so)" by (rule cr_ok_facts(3) [OF ix(2)])
    with step have "cr_ok (bits_of si) r'"
      using True f(1-6) assms(6) size_bits [OF assms(1)] lt unfolding r'
      by (simp add: cr_ok_def cr_dom_def min_def and_mask_take_bit take_bit_of_mask)
    then show ?thesis using sub [OF v(1)] v True unfolding r' by (simp add: contains_arc)
  next
    case False
    have "cr_step x dvd 2 ^ bits_of si" using step assms(6) by simp
    note narrow = narrow_contains [OF ix(2) False _ lt this]
    have "0 < bits_of si" using size_bits [OF assms(1)] by simp
    with narrow sub v show ?thesis unfolding r' by blast
  qed
qed

text \<open>What \<^verbatim>\<open>convertToBoolean\<close> leaves of a range: its members among 0 and 1.\<close>

lemma convertToBoolean_cases:
  assumes "\<not> cr_isempty r" "convertToBoolean r = (both, b)"
  obtains
    (both) "contains r 0" "contains r 1" "both"
      "b = r\<lparr>cr_left := 0, cr_right := 2, cr_mask := 0xff, cr_isempty := False, cr_step := 1\<rparr>"
  | (zero) "contains r 0" "\<not> contains r 1" "\<not> both"
      "b = r\<lparr>cr_left := 0, cr_right := 1, cr_mask := 0xff, cr_isempty := False, cr_step := 1\<rparr>"
  | (one) "\<not> contains r 0" "contains r 1" "\<not> both"
      "b = r\<lparr>cr_left := 1, cr_right := 2, cr_mask := 0xff, cr_isempty := False, cr_step := 1\<rparr>"
  | (none) "\<not> contains r 0" "\<not> contains r 1" "\<not> both"
      "b = r\<lparr>cr_mask := 0xff, cr_isempty := True, cr_step := 1\<rparr>"
  using assms unfolding convertToBoolean_def Let_def
  by (cases "contains r 0"; cases "contains r 1") auto

lemma le_one_cases: "(v :: u64) \<le> 1 \<Longrightarrow> v = 0 \<or> v = 1"
  by (metis le_less word_less_1)

lemma step1_contains:
  "contains (r\<lparr>cr_left := l, cr_right := t, cr_mask := m, cr_isempty := False, cr_step := 1\<rparr>) v
     \<longleftrightarrow> arc l t v"
  by (simp add: contains_arc)

lemma step1_ok:
  "cr_ok 8 (r\<lparr>cr_left := l, cr_right := t, cr_mask := 0xff, cr_isempty := False, cr_step := 1\<rparr>)
     \<longleftrightarrow> l \<le> 0xff \<and> t \<le> 0xff"
  by (simp add: cr_ok_def cr_dom_def mask_eq_exp_minus_1)

lemma pull_bool_negate:
  assumes "\<not> cr_isempty r" "v \<le> 1"
    and "pullBackUnary r CPUI_BOOL_NEGATE 1 1 = (ok, r')"
  shows "ok \<and> cr_ok 8 r' \<and> (contains r' v \<longleftrightarrow> contains r (v XOR 1))"
proof (cases "convertToBoolean r")
  case (Pair bt b)
  have p: "pullBackUnary r CPUI_BOOL_NEGATE 1 1 = (if bt then (True, b) else
      (True, b\<lparr>cr_left := cr_left b XOR 1, cr_right := (cr_left b XOR 1) + 1\<rparr>))"
    using assms(1) Pair by (simp add: pullBackUnary_def)
  note v = le_one_cases [OF assms(2)]
  from assms(1) Pair show ?thesis
  proof (cases rule: convertToBoolean_cases)
    case both
    with p assms(3) have r': "ok" "r' = b" by auto
    with v both(1,2) show ?thesis unfolding r'(2) both(4) by (auto simp: step1_contains arc_def step1_ok)
  next
    case zero
    with p assms(3) have r': "ok" "r' = r\<lparr>cr_left := 1, cr_right := 2, cr_mask := 0xff, cr_isempty := False, cr_step := 1\<rparr>"
      by auto
    with v zero(1,2) show ?thesis unfolding r'(2) by (auto simp: step1_contains arc_def step1_ok)
  next
    case one
    with p assms(3) have r': "ok" "r' = r\<lparr>cr_left := 0, cr_right := 1, cr_mask := 0xff, cr_isempty := False, cr_step := 1\<rparr>"
      by auto
    with v one(1,2) show ?thesis unfolding r'(2) by (auto simp: step1_contains arc_def step1_ok)
  next
    case none
    with p assms(3) have r': "ok" "cr_isempty r'" "cr_mask r' = 0xff" "cr_step r' = 1" by auto
    then have "\<not> contains r' v" "cr_ok 8 r'"
      by (simp_all add: contains_arc cr_ok_def cr_dom_def mask_eq_exp_minus_1)
    with v none(1,2) r'(1) show ?thesis by auto
  qed
qed



text \<open>
  The sign-extension branch takes \<^verbatim>\<open>left & step\<close> for the phase where the zero-extension branch
  takes \<^verbatim>\<open>left % step\<close>: with step one and an odd left bound it tests the wrong gap, and the
  byte \<open>0x80\<close> is in the pulled-back range although its extension \<open>0xff80\<close> is not in the range.
\<close>

lemma pullBackUnary_sext_unsound:
  "pullBackUnary (newCircleRangeBounds 3 0x81 2 1) CPUI_INT_SEXT 1 2 = (True, newCircleRangeBounds 3 0x81 1 1)"
  "contains (newCircleRangeBounds 3 0x81 1 1) 0x80"
  "signExtendSize 0x80 1 2 = 0xff80" "\<not> contains (newCircleRangeBounds 3 0x81 2 1) 0xff80"
  by code_simp+

end
