(* ===== verification/Circle_PullBin.thy ===== *)
theory Circle_PullBin
  imports Circle_Pull
begin

text \<open>
  \<^verbatim>\<open>pullBackBinary\<close> against \<^verbatim>\<open>evaluateBinary\<close>: comparisons, sums, differences and shifts by a
  constant, and \<^verbatim>\<open>translate2Op\<close>, which turns a range back into one comparison.
\<close>

section \<open>Comparisons\<close>

definition eval_slot ::
    "'f hostfloat \<Rightarrow> OpCode \<Rightarrow> int \<Rightarrow> int \<Rightarrow> int \<Rightarrow> u64 \<Rightarrow> u64 \<Rightarrow> eval_error + u64" where
  "eval_slot h opc so si slot val v =
     (if slot = 0 then evaluateBinary h opc so si v val else evaluateBinary h opc so si val v)"

text \<open>A comparison body: on a full-step range over \<open>s\<close> bytes it selects the values satisfying \<open>P\<close>.\<close>

definition compare_body :: "int \<Rightarrow> (circleRange \<Rightarrow> circleRange) \<Rightarrow> (u64 \<Rightarrow> bool) \<Rightarrow> bool" where
  "compare_body s body P \<longleftrightarrow>
     (\<forall>q. cr_mask q = mask (bits_of s) \<and> cr_step q = 1 \<longrightarrow>
        cr_mask (body q) = cr_mask q \<and> cr_step (body q) = 1 \<and>
        (cr_isempty q \<longrightarrow> cr_isempty (body q)) \<and>
        (\<not> cr_isempty q \<longrightarrow> cr_ok (bits_of s) (body q) \<and>
          (\<forall>v. fits s v \<longrightarrow> (contains (body q) v \<longleftrightarrow> P v))))"

lemma pull_compare:
  assumes s: "size_ok s" and body: "compare_body s body P" and ne: "\<not> cr_isempty r"
    and one: "\<not> (contains r 0 \<and> contains r 1)" and v: "fits s v"
  shows "cr_ok (bits_of s) (pullBackCompare body r s)"
    and "contains (pullBackCompare body r s) v \<longleftrightarrow> contains r (boolToUint64 (P v))"
proof -
  obtain both b where b: "convertToBoolean r = (both, b)" by fastforce
  note m = maskForSize_mask [OF s]
  define q where "q = b\<lparr>cr_mask := mask (bits_of s)\<rparr>"
  have q: "cr_mask q = mask (bits_of s)" "cr_step q = 1"
    using ne b by (cases rule: convertToBoolean_cases; simp add: q_def)+
  note B = body [unfolded compare_body_def, rule_format, OF conjI [OF q]]
  have p: "pullBackCompare body r s = (if both then q else if cr_left q = 0 then complement (body q) else body q)"
    unfolding pullBackCompare_def b by (simp add: q_def m Let_def)
  have "cr_ok (bits_of s) (pullBackCompare body r s) \<and>
      (contains (pullBackCompare body r s) v \<longleftrightarrow> contains r (boolToUint64 (P v)))"
    using ne b
  proof (cases rule: convertToBoolean_cases)
    case both
    with one show ?thesis by simp
  next
    case zero
    then have "cr_left q = 0" "\<not> cr_isempty q" by (simp_all add: q_def)
    moreover from this have "cr_ok (bits_of s) (complement (body q))"
      "contains (complement (body q)) v \<longleftrightarrow> \<not> contains (body q) v"
      using B by (auto simp: complement_contains intro: complement_ok)
    ultimately show ?thesis using B v p zero by (auto simp: boolToUint64_def)
  next
    case one
    then have "cr_left q \<noteq> 0" "\<not> cr_isempty q" by (simp_all add: q_def)
    then show ?thesis using B v p one by (auto simp: boolToUint64_def)
  next
    case none
    have "cr_left r \<noteq> 0"
    proof
      assume "cr_left r = 0"
      with none(1) ne show False unfolding contains_arc arc_def
        by (auto simp: word_neq_0_conv in_phase_def split: if_splits)
    qed
    with none have "cr_left q \<noteq> 0" "cr_isempty q" by (simp_all add: q_def)
    moreover have "cr_ok (bits_of s) (body q)"
      using B \<open>cr_isempty q\<close> q size_bits [OF s] by (simp add: cr_ok_def cr_dom_def)
    moreover have "\<not> contains (body q) v" using B \<open>cr_isempty q\<close> by (simp add: contains_def)
    ultimately show ?thesis using p none by (auto simp: boolToUint64_def)
  qed
  then show "cr_ok (bits_of s) (pullBackCompare body r s)"
    and "contains (pullBackCompare body r s) v \<longleftrightarrow> contains r (boolToUint64 (P v))" by blast+
qed

lemma next_masked:
  assumes "size_ok s" "fits s x"
  shows "uint ((x + 1) AND mask (bits_of s)) = (if uint x = 2 ^ bits_of s - 1 then 0 else uint x + 1)"
proof -
  have b: "uint x < 2 ^ bits_of s" using assms by (simp add: fits_less)
  have "uint ((x + 1) AND mask (bits_of s)) = (uint x + 1) mod 2 ^ bits_of s"
    using size_bits [OF assms(1)] by (simp add: mask_plus)
  with b show ?thesis by (auto simp: mod_pos_pos_trivial)
qed

lemma half_masked:
  assumes "size_ok s"
  shows "uint (shr (mask (bits_of s)) 1 + 1) = 2 ^ (bits_of s - 1)"
    "uint (shr (mask (bits_of s)) 1) = 2 ^ (bits_of s - 1) - 1"
  using size_cases [OF assms]
  by (elim disjE; simp add: bits_of_def shr_def drop_bit_eq_div mask_eq_exp_minus_1)+

text \<open>Setting a step-1 range to given bounds.\<close>

definition int_arc :: "int \<Rightarrow> int \<Rightarrow> int \<Rightarrow> bool" where
  "int_arc L T x \<longleftrightarrow> (if L < T then L \<le> x \<and> x < T else if T < L then x < T \<or> L \<le> x else True)"

lemma body_boundsI:
  assumes s: "size_ok s" and l: "uint l = L" "L < 2 ^ bits_of s" and t: "uint t = T" "T < 2 ^ bits_of s"
    and body: "\<And>q. cr_mask q = mask (bits_of s) \<Longrightarrow> body q = q\<lparr>cr_left := l, cr_right := t\<rparr>"
    and P: "\<And>v. fits s v \<Longrightarrow> P v \<longleftrightarrow> Q (uint v)"
    and Q: "\<And>x. \<lbrakk>0 \<le> x; x < 2 ^ bits_of s\<rbrakk> \<Longrightarrow> Q x \<longleftrightarrow> int_arc L T x"
  shows "compare_body s body P"
proof -
  have "l \<le> mask (bits_of s)" "t \<le> mask (bits_of s)" using size_bits [OF s] l t by (auto simp: le_mask_iff)
  moreover have "P v \<longleftrightarrow> arc l t v" if "fits s v" for v
    using P [OF that] Q [of "uint v"] that l t
    by (simp add: fits_less [OF s] arc_def int_arc_def word_less_def word_le_def)
  ultimately show ?thesis
    unfolding compare_body_def using body size_bits [OF s] by (simp add: cr_ok_def cr_dom_def contains_arc)
qed

lemma body_emptyI:
  assumes s: "size_ok s"
    and body: "\<And>q. cr_mask q = mask (bits_of s) \<Longrightarrow> body q = q\<lparr>cr_isempty := True\<rparr>"
    and P: "\<And>v. fits s v \<Longrightarrow> \<not> P v"
  shows "compare_body s body P"
  unfolding compare_body_def using body P size_bits [OF s]
  by (simp add: cr_ok_def cr_dom_def contains_arc)

text \<open>An operand as an integer below the ring size.\<close>

lemma operand:
  assumes "size_ok s" "fits s val"
  obtains c where "uint val = c" "0 \<le> c" "c < 2 ^ bits_of s" "(2::int) \<le> 2 ^ bits_of s"
    "val = 0 \<longleftrightarrow> c = 0" "val = mask (bits_of s) \<longleftrightarrow> c = 2 ^ bits_of s - 1"
    "uint ((val + 1) AND mask (bits_of s)) = (if c = 2 ^ bits_of s - 1 then 0 else c + 1)"
    "val \<noteq> 0 \<Longrightarrow> uint ((mask (bits_of s) - val + 1) AND mask (bits_of s)) = 2 ^ bits_of s - c"
proof
  have n: "bits_of s \<le> 64" "1 \<le> bits_of s" using size_bits [OF assms(1)] by simp_all
  show b: "0 \<le> uint val" "uint val < 2 ^ bits_of s" using assms by (simp_all add: fits_less)
  show "(2::int) \<le> 2 ^ bits_of s" using power_increasing [OF n(2), of "2::int"] by simp
  show "val = mask (bits_of s) \<longleftrightarrow> uint val = 2 ^ bits_of s - 1"
    using n by (simp add: word_uint_eq_iff uint_mask)
  assume nz: "val \<noteq> 0"
  have "(mask (bits_of s) - val + 1) AND mask (bits_of s) = (mask (bits_of s) + 1 - val) AND mask (bits_of s)"
    by (simp add: algebra_simps)
  also have "uint \<dots> = (2 ^ bits_of s mod 2 ^ 64 - uint val) mod 2 ^ bits_of s"
    using n by (simp add: mask_minus uint_plus_mod uint_mask)
  also have "\<dots> = (2 ^ bits_of s - uint val) mod 2 ^ bits_of s"
    using mod_pow_64 [OF n(1), of "2 ^ bits_of s"] by (metis mod_diff_left_eq)
  also have "\<dots> = 2 ^ bits_of s - uint val"
    using b nz by (intro mod_pos_pos_trivial) (auto simp: uint_0_iff le_less)
  finally show "uint ((mask (bits_of s) - val + 1) AND mask (bits_of s)) = 2 ^ bits_of s - uint val" .
qed (simp_all add: uint_0_iff next_masked [OF assms])

lemma body_equal:
  assumes s: "size_ok s" and f: "fits s val"
  shows "compare_body s (\<lambda>r. r\<lparr>cr_left := val, cr_right := (val + 1) AND cr_mask r\<rparr>) (\<lambda>v. v = val)"
    "compare_body s (\<lambda>r. r\<lparr>cr_left := (val + 1) AND cr_mask r, cr_right := val\<rparr>) (\<lambda>v. v \<noteq> val)"
proof -
  obtain c where c: "uint val = c" "0 \<le> c" "c < 2 ^ bits_of s" "(2::int) \<le> 2 ^ bits_of s"
    and nx: "uint ((val + 1) AND mask (bits_of s)) = (if c = 2 ^ bits_of s - 1 then 0 else c + 1)"
    using operand [OF s f] by metis
  show "compare_body s (\<lambda>r. r\<lparr>cr_left := val, cr_right := (val + 1) AND cr_mask r\<rparr>) (\<lambda>v. v = val)"
    by (rule body_boundsI [OF s c(1,3) nx, where Q = "\<lambda>x. x = c"])
      (use c in \<open>auto simp: word_uint_eq_iff [of _ val] int_arc_def\<close>)
  show "compare_body s (\<lambda>r. r\<lparr>cr_left := (val + 1) AND cr_mask r, cr_right := val\<rparr>) (\<lambda>v. v \<noteq> val)"
    by (rule body_boundsI [OF s nx _ c(1,3), where Q = "\<lambda>x. x \<noteq> c"])
      (use c in \<open>auto simp: word_uint_eq_iff [of _ val] int_arc_def\<close>)
qed

lemma body_less:
  assumes s: "size_ok s" and f: "fits s val"
  shows "compare_body s (pullBackLess val 0) (\<lambda>v. v < val)"
    "slot \<noteq> 0 \<Longrightarrow> compare_body s (pullBackLess val slot) (\<lambda>v. val < v)"
proof -
  obtain c where c: "uint val = c" "0 \<le> c" "c < 2 ^ bits_of s"
    and z: "val = 0 \<longleftrightarrow> c = 0" and mx: "val = mask (bits_of s) \<longleftrightarrow> c = 2 ^ bits_of s - 1"
    and nx: "uint ((val + 1) AND mask (bits_of s)) = (if c = 2 ^ bits_of s - 1 then 0 else c + 1)"
    using operand [OF s f] by metis
  show "compare_body s (pullBackLess val 0) (\<lambda>v. v < val)"
  proof (cases "val = 0")
    case True
    then show ?thesis by (intro body_emptyI [OF s]) (simp_all add: pullBackLess_def)
  next
    case False
    then show ?thesis using c z
      by (intro body_boundsI [OF s unsigned_0 _ c(1,3), where Q = "\<lambda>x. x < c"])
        (auto simp: pullBackLess_def word_less_def int_arc_def)
  qed
  assume slot: "slot \<noteq> 0"
  show "compare_body s (pullBackLess val slot) (\<lambda>v. val < v)"
  proof (cases "val = mask (bits_of s)")
    case True
    then show ?thesis using slot mx c
      by (intro body_emptyI [OF s]) (auto simp: pullBackLess_def word_less_def fits_less [OF s])
  next
    case False
    then show ?thesis using slot c mx
      by (intro body_boundsI [OF s nx _ unsigned_0, where Q = "\<lambda>x. c < x"])
        (auto simp: pullBackLess_def word_less_def int_arc_def)
  qed
qed

lemma body_lessequal:
  assumes s: "size_ok s" and f: "fits s val"
  shows "compare_body s (\<lambda>r. r\<lparr>cr_left := 0, cr_right := (val + 1) AND cr_mask r\<rparr>) (\<lambda>v. v \<le> val)"
    "compare_body s (\<lambda>r. r\<lparr>cr_left := val, cr_right := 0\<rparr>) (\<lambda>v. val \<le> v)"
    "compare_body s (\<lambda>r. if val = 0 then r\<lparr>cr_isempty := True\<rparr>
        else r\<lparr>cr_left := ((cr_mask r - val) + 1) AND cr_mask r, cr_right := 0\<rparr>)
      (\<lambda>v. 2 ^ bits_of s \<le> uint v + uint val)"
proof -
  obtain c where c: "uint val = c" "0 \<le> c" "c < 2 ^ bits_of s" and z: "val = 0 \<longleftrightarrow> c = 0"
    and nx: "uint ((val + 1) AND mask (bits_of s)) = (if c = 2 ^ bits_of s - 1 then 0 else c + 1)"
    and neg: "val \<noteq> 0 \<Longrightarrow> uint ((mask (bits_of s) - val + 1) AND mask (bits_of s)) = 2 ^ bits_of s - c"
    using operand [OF s f] by metis
  show "compare_body s (\<lambda>r. r\<lparr>cr_left := 0, cr_right := (val + 1) AND cr_mask r\<rparr>) (\<lambda>v. v \<le> val)"
    by (rule body_boundsI [OF s unsigned_0 _ nx, where Q = "\<lambda>x. x \<le> c"])
      (use c in \<open>auto simp: word_le_def int_arc_def\<close>)
  show "compare_body s (\<lambda>r. r\<lparr>cr_left := val, cr_right := 0\<rparr>) (\<lambda>v. val \<le> v)"
    by (rule body_boundsI [OF s c(1,3) unsigned_0, where Q = "\<lambda>x. c \<le> x"])
      (use c in \<open>auto simp: word_le_def int_arc_def\<close>)
  show "compare_body s (\<lambda>r. if val = 0 then r\<lparr>cr_isempty := True\<rparr>
        else r\<lparr>cr_left := ((cr_mask r - val) + 1) AND cr_mask r, cr_right := 0\<rparr>)
      (\<lambda>v. 2 ^ bits_of s \<le> uint v + uint val)"
  proof (cases "val = 0")
    case True
    then show ?thesis by (intro body_emptyI [OF s]) (auto simp: fits_less [OF s])
  next
    case False
    with c z show ?thesis
      by (intro body_boundsI [OF s neg [OF False] _ unsigned_0, where Q = "\<lambda>x. 2 ^ bits_of s \<le> x + c"])
        (auto simp: int_arc_def)
  qed
qed

definition sring :: "int \<Rightarrow> int \<Rightarrow> int" where
  "sring s x = (if x < 2 ^ (bits_of s - 1) then x else x - 2 ^ bits_of s)"

lemma sval_sring: "sval s v = sring s (uint v)"
  by (simp add: sval_def sring_def)

lemma body_sless:
  assumes s: "size_ok s" and f: "fits s val"
  shows "compare_body s (pullBackSless val 0) (\<lambda>v. sval s v < sval s val)"
    "slot \<noteq> 0 \<Longrightarrow> compare_body s (pullBackSless val slot) (\<lambda>v. sval s val < sval s v)"
proof -
  obtain c where c: "uint val = c" "0 \<le> c" "c < 2 ^ bits_of s"
    and nx: "uint ((val + 1) AND mask (bits_of s)) = (if c = 2 ^ bits_of s - 1 then 0 else c + 1)"
    using operand [OF s f] by metis
  note half = half_masked [OF s]
  have H: "(2::int) ^ bits_of s = 2 * 2 ^ (bits_of s - 1)" by (rule pow_bits [OF s])
  have H0: "(0::int) < 2 ^ (bits_of s - 1)" by simp
  have e: "val = shr (mask (bits_of s)) 1 + 1 \<longleftrightarrow> c = 2 ^ (bits_of s - 1)"
    "val = shr (mask (bits_of s)) 1 \<longleftrightarrow> c = 2 ^ (bits_of s - 1) - 1"
    using half by (simp_all add: word_uint_eq_iff c)
  have range: "- (2 ^ (bits_of s - 1)) \<le> sval s v" "sval s v < 2 ^ (bits_of s - 1)" if "fits s v" for v
    using sval_range [OF s that] by auto
  show "compare_body s (pullBackSless val 0) (\<lambda>v. sval s v < sval s val)"
  proof (cases "c = 2 ^ (bits_of s - 1)")
    case True
    then have "sval s val = - (2 ^ (bits_of s - 1))" using c H by (simp add: sval_def)
    then show ?thesis using True e range by (intro body_emptyI [OF s]) (auto simp: pullBackSless_def not_less)
  next
    case False
    then show ?thesis using c H H0 e
      by (intro body_boundsI [OF s half(1) _ c(1,3), where Q = "\<lambda>x. sring s x < sring s c"])
        (auto simp: pullBackSless_def sval_sring int_arc_def sring_def)
  qed
  assume slot: "slot \<noteq> 0"
  show "compare_body s (pullBackSless val slot) (\<lambda>v. sval s val < sval s v)"
  proof (cases "c = 2 ^ (bits_of s - 1) - 1")
    case True
    then have "sval s val = 2 ^ (bits_of s - 1) - 1" using c H by (simp add: sval_def)
    then show ?thesis using True e range slot
      by (intro body_emptyI [OF s]) (auto simp: pullBackSless_def not_less)
  next
    case False
    then show ?thesis using c H H0 e slot
      by (intro body_boundsI [OF s nx _ half(1), where Q = "\<lambda>x. sring s c < sring s x"])
        (auto simp: pullBackSless_def sval_sring int_arc_def sring_def)
  qed
qed

lemma body_slessequal:
  assumes s: "size_ok s" and f: "fits s val"
  shows "compare_body s (\<lambda>r. r\<lparr>cr_left := shr (cr_mask r) 1 + 1, cr_right := (val + 1) AND cr_mask r\<rparr>)
      (\<lambda>v. sval s v \<le> sval s val)"
    "compare_body s (\<lambda>r. r\<lparr>cr_left := val, cr_right := shr (cr_mask r) 1 + 1\<rparr>)
      (\<lambda>v. sval s val \<le> sval s v)"
proof -
  obtain c where c: "uint val = c" "0 \<le> c" "c < 2 ^ bits_of s"
    and nx: "uint ((val + 1) AND mask (bits_of s)) = (if c = 2 ^ bits_of s - 1 then 0 else c + 1)"
    using operand [OF s f] by metis
  note half = half_masked [OF s]
  have H: "(2::int) ^ bits_of s = 2 * 2 ^ (bits_of s - 1)" by (rule pow_bits [OF s])
  have H0: "(0::int) < 2 ^ (bits_of s - 1)" by simp
  show "compare_body s (\<lambda>r. r\<lparr>cr_left := shr (cr_mask r) 1 + 1, cr_right := (val + 1) AND cr_mask r\<rparr>)
      (\<lambda>v. sval s v \<le> sval s val)"
    by (rule body_boundsI [OF s half(1) _ nx, where Q = "\<lambda>x. sring s x \<le> sring s c"])
      (use c H H0 in \<open>auto simp: sval_sring int_arc_def sring_def\<close>)
  show "compare_body s (\<lambda>r. r\<lparr>cr_left := val, cr_right := shr (cr_mask r) 1 + 1\<rparr>)
      (\<lambda>v. sval s val \<le> sval s v)"
    by (rule body_boundsI [OF s c(1,3) half(1), where Q = "\<lambda>x. sring s c \<le> sring s x"])
      (use c H H0 in \<open>auto simp: sval_sring int_arc_def sring_def\<close>)
qed

text \<open>
  The comparison a branch of \<^verbatim>\<open>pullBackBinary\<close> inverts: the truth value of the operator when
  the varying operand \<open>v\<close> sits in \<open>slot\<close> and the constant \<open>val\<close> in the other one.
\<close>

definition compare_ops :: "OpCode list" where
  "compare_ops = [CPUI_INT_EQUAL, CPUI_INT_NOTEQUAL, CPUI_INT_LESS, CPUI_INT_LESSEQUAL,
     CPUI_INT_SLESS, CPUI_INT_SLESSEQUAL, CPUI_INT_CARRY]"

definition compare_truth :: "OpCode \<Rightarrow> int \<Rightarrow> int \<Rightarrow> u64 \<Rightarrow> u64 \<Rightarrow> bool" where
  "compare_truth opc s slot val v =
     (case opc of
        CPUI_INT_EQUAL \<Rightarrow> v = val
      | CPUI_INT_NOTEQUAL \<Rightarrow> v \<noteq> val
      | CPUI_INT_LESS \<Rightarrow> (if slot = 0 then v < val else val < v)
      | CPUI_INT_LESSEQUAL \<Rightarrow> (if slot = 0 then v \<le> val else val \<le> v)
      | CPUI_INT_SLESS \<Rightarrow> (if slot = 0 then sval s v < sval s val else sval s val < sval s v)
      | CPUI_INT_SLESSEQUAL \<Rightarrow> (if slot = 0 then sval s v \<le> sval s val else sval s val \<le> sval s v)
      | _ \<Rightarrow> 2 ^ bits_of s \<le> uint v + uint val)"

lemma eval_slot_compare:
  assumes "size_ok s" "fits s v" "fits s val" "opc \<in> set compare_ops"
  shows "eval_slot h opc so s slot val v = Inr (boolToUint64 (compare_truth opc s slot val v))"
  using assms(4) eval_signed_less_sval [OF assms(1-3)] eval_signed_less_sval [OF assms(1,3,2)]
    eval_carry_overflow [OF assms(1-3)] eval_carry_overflow [OF assms(1,3,2)]
  unfolding compare_ops_def list.set insert_iff empty_iff
  by (elim disjE FalseE) (auto simp: eval_slot_def evaluateBinary_def compare_truth_def add.commute eq_commute [of val v])

definition cmp_body :: "OpCode \<Rightarrow> u64 \<Rightarrow> int \<Rightarrow> circleRange \<Rightarrow> circleRange" where
  "cmp_body opc val slot =
     (case opc of
        CPUI_INT_EQUAL \<Rightarrow> (\<lambda>r. r\<lparr>cr_left := val, cr_right := (val + 1) AND cr_mask r\<rparr>)
      | CPUI_INT_NOTEQUAL \<Rightarrow> (\<lambda>r. r\<lparr>cr_left := (val + 1) AND cr_mask r, cr_right := val\<rparr>)
      | CPUI_INT_LESS \<Rightarrow> pullBackLess val slot
      | CPUI_INT_LESSEQUAL \<Rightarrow> (\<lambda>r. if slot = 0 then r\<lparr>cr_left := 0, cr_right := (val + 1) AND cr_mask r\<rparr>
                   else r\<lparr>cr_left := val, cr_right := 0\<rparr>)
      | CPUI_INT_SLESS \<Rightarrow> pullBackSless val slot
      | CPUI_INT_SLESSEQUAL \<Rightarrow> (\<lambda>r. if slot = 0
                   then r\<lparr>cr_left := shr (cr_mask r) 1 + 1, cr_right := (val + 1) AND cr_mask r\<rparr>
                   else r\<lparr>cr_left := val, cr_right := shr (cr_mask r) 1 + 1\<rparr>)
      | _ \<Rightarrow> (\<lambda>r. if val = 0 then r\<lparr>cr_isempty := True\<rparr>
                   else r\<lparr>cr_left := ((cr_mask r - val) + 1) AND cr_mask r, cr_right := 0\<rparr>))"

lemma pullBackBinary_cmp:
  assumes "\<not> cr_isempty r" "opc \<in> set compare_ops"
  shows "pullBackBinary r opc val slot s so = (True, pullBackCompare (cmp_body opc val slot) r s)"
  using assms(2) unfolding compare_ops_def list.set insert_iff empty_iff
  by (elim disjE FalseE) (simp_all add: assms(1) pullBackBinary_def cmp_body_def)

lemma cmp_body_selects:
  assumes s: "size_ok s" "fits s val" and "opc \<in> set compare_ops"
  shows "compare_body s (cmp_body opc val slot) (compare_truth opc s slot val)"
  using assms(3) unfolding compare_ops_def list.set insert_iff empty_iff
  by (elim disjE FalseE; cases "slot = 0")
    (simp_all add: cmp_body_def compare_truth_def [abs_def] body_equal [OF s] body_less [OF s]
      body_lessequal [OF s] body_sless [OF s] body_slessequal [OF s])


section \<open>Sums, differences and shifts\<close>

lemma pull_add:
  assumes "size_ok s" "cr_ok (bits_of s) r" "\<not> cr_isempty r" "fits s v" "fits s val"
    and "pullBackBinary r CPUI_INT_ADD val slot s s = (ok, r')"
  shows "ok \<and> cr_ok (bits_of s) r' \<and> (contains r' v \<longleftrightarrow> contains r ((v + val) AND maskForSize s))"
proof -
  note f = cr_ok_facts [OF assms(2)] and m = maskForSize_mask [OF assms(1)]
  have r': "ok" "r' = r\<lparr>cr_left := (cr_left r - val) AND cr_mask r, cr_right := (cr_right r - val) AND cr_mask r\<rparr>"
    using assms(3,6) by (auto simp: pullBackBinary_def)
  have "uint v mod 2 ^ bits_of s = (uint ((v + val) AND maskForSize s) + - uint val) mod 2 ^ bits_of s"
    using f(2) by (simp add: m mask_plus mod_simps)
  moreover have "uint ((x - val) AND cr_mask r) = (uint x + - uint val) mod 2 ^ bits_of s" for x
    using f(2,3) by (simp add: mask_minus)
  moreover have "v \<le> mask (bits_of s)" "(v + val) AND maskForSize s \<le> mask (bits_of s)"
    using assms(4) by (simp_all add: fits_def m and_mask_le)
  ultimately show ?thesis using r' rotate_contains [OF assms(2,3)] by blast
qed

lemma pull_sub:
  assumes "size_ok s" "cr_ok (bits_of s) r" "\<not> cr_isempty r" "fits s v" "fits s val"
    and "pullBackBinary r CPUI_INT_SUB val 0 s s = (ok, r')"
  shows "ok \<and> cr_ok (bits_of s) r' \<and> (contains r' v \<longleftrightarrow> contains r ((v - val) AND maskForSize s))"
proof -
  note f = cr_ok_facts [OF assms(2)] and m = maskForSize_mask [OF assms(1)]
  have r': "ok" "r' = r\<lparr>cr_left := (cr_left r + val) AND cr_mask r, cr_right := (cr_right r + val) AND cr_mask r\<rparr>"
    using assms(3,6) by (auto simp: pullBackBinary_def)
  have "uint v mod 2 ^ bits_of s = (uint ((v - val) AND maskForSize s) + uint val) mod 2 ^ bits_of s"
    using f(2) by (simp add: m mask_minus mod_simps)
  moreover have "uint ((x + val) AND cr_mask r) = (uint x + uint val) mod 2 ^ bits_of s" for x
    using f(2,3) by (simp add: mask_plus)
  moreover have "v \<le> mask (bits_of s)" "(v - val) AND maskForSize s \<le> mask (bits_of s)"
    using assms(4) by (simp_all add: fits_def m and_mask_le)
  ultimately show ?thesis using r' rotate_contains [OF assms(2,3)] by blast
qed


lemma int_arc_scale:
  assumes "0 < K" shows "int_arc (a * K) (b * K) v \<longleftrightarrow> int_arc a b (v div K)"
  using assms by (simp add: int_arc_def int_le_div_iff int_div_less_iff not_less)

lemma contains_int_arc:
  assumes "cr_step r = 1"
  shows "contains r v \<longleftrightarrow> \<not> cr_isempty r \<and> int_arc (uint (cr_left r)) (uint (cr_right r)) (uint v)"
  using assms by (simp add: contains_arc arc_def int_arc_def word_less_def word_le_def)

text \<open>Bounds beyond the largest shifted value count as the end of the ring.\<close>

lemma right_clamp:
  fixes l t q B :: int
  assumes "0 \<le> l" "0 \<le> t" "0 \<le> q" "q < B"
    "\<not> (B \<le> l \<and> B \<le> t \<and> t \<le> l \<or> l = 0 \<and> B \<le> t \<or> l = t)"
  shows "int_arc l t q \<longleftrightarrow> (if B \<le> l then 0 else l) \<noteq> (if B \<le> t then 0 else t) \<and>
      int_arc (if B \<le> l then 0 else l) (if B \<le> t then 0 else t) q"
  using assms by (auto simp: int_arc_def)

lemma right_full:
  fixes l t q B :: int
  assumes "0 \<le> q" "q < B" "B \<le> l \<and> B \<le> t \<and> t \<le> l \<or> l = 0 \<and> B \<le> t \<or> l = t"
  shows "int_arc l t q"
  using assms by (auto simp: int_arc_def)

lemma scaled_bound:
  fixes x B K N :: int
  assumes "0 < K" "0 \<le> x" "x \<le> B" "B * K mod N = 0" "(B - 1) * K < N"
  shows "x * K mod N = (if B \<le> x then 0 else x) * K"
proof (cases "x = B")
  case False
  then have "x * K \<le> (B - 1) * K" using assms by (intro mult_right_mono) auto
  then have "x * K < N" using assms(5) by linarith
  then have "x * K mod N = x * K" using assms by (intro mod_pos_pos_trivial) auto
  with False assms show ?thesis by simp
qed (use assms in simp)

lemma right_bound:
  assumes "size_ok s" "s < 8 \<or> 0 < unat k" and B: "B = (2 ^ bits_of s - 1) div 2 ^ unat k + 1"
  shows "uint (shr (maskForSize s) k + 1) = B"
    and "B * 2 ^ unat k mod 2 ^ bits_of s = 0" and "(B - 1) * 2 ^ unat k < 2 ^ bits_of s"
    and "0 \<le> v \<Longrightarrow> v < 2 ^ bits_of s \<Longrightarrow> v div 2 ^ unat k < B"
proof -
  let ?N = "2 ^ bits_of s :: int" and ?K = "2 ^ unat k :: int"
  have n: "bits_of s \<le> 64" "0 < ?N" using size_bits [OF assms(1)] by simp_all
  have N: "?N \<le> 2 ^ 64" using n by (intro power_increasing) auto
  show "(B - 1) * ?K < ?N"
    using int_le_div_iff [of ?K "(?N - 1) div ?K" "?N - 1"] B by simp
  show "0 \<le> v \<Longrightarrow> v < ?N \<Longrightarrow> v div ?K < B" using zdiv_mono1 [of v "?N - 1" ?K] B by simp
  show "B * ?K mod ?N = 0"
  proof (cases "unat k \<le> bits_of s")
    case True
    then have "?N = 2 ^ (bits_of s - unat k) * ?K" by (simp flip: power_add)
    moreover have "(a * ?K - 1) div ?K + 1 = a" for a
    proof -
      have "(a * ?K - 1) div ?K = (?K - 1 + ?K * (a - 1)) div ?K" by (simp add: algebra_simps)
      also have "\<dots> = a - 1" by (subst div_mult_self2) simp_all
      finally show ?thesis by simp
    qed
    ultimately have "(?N - 1) div ?K + 1 = 2 ^ (bits_of s - unat k)" by metis
    then show ?thesis using \<open>?N = _\<close> B by simp
  next
    case False
    then have "(?N - 1) div ?K = 0" using div_pow_small [of "?N - 1" "bits_of s" "unat k"] n by simp
    moreover have "?N dvd ?K" using False by (simp add: le_imp_power_dvd)
    ultimately show ?thesis using B by simp
  qed
  have "(?N - 1) div ?K + 1 < 2 ^ 64"
  proof (cases "s < 8")
    case True
    then have "(2::int) * ?N \<le> 2 ^ 64"
      using assms(1) power_increasing [of "Suc (bits_of s)" 64 "2::int"] by (auto simp: bits_of_def size_ok_def)
    moreover have "(?N - 1) div ?K \<le> ?N - 1" using zdiv_mono2 [of "?N - 1" 1 ?K] n by simp
    ultimately show ?thesis using n by linarith
  next
    case False
    then have "2 \<le> ?K" using assms(2) power_increasing [of 1 "unat k" "2::int"] by simp
    then have "(?N - 1) div ?K \<le> (?N - 1) div 2" using n by (intro zdiv_mono2) auto
    also have "(?N - 1) div 2 \<le> (2 ^ 64 - 1) div 2" using N by (intro zdiv_mono1) auto
    finally show ?thesis by simp
  qed
  then show "uint (shr (maskForSize s) k + 1) = B"
    using n B by (simp add: uint_plus_mod uint_shr maskForSize_mask [OF assms(1)] uint_mask mod_pos_pos_trivial
       pos_imp_zdiv_nonneg_iff)
qed

lemma pull_right:
  assumes "size_ok s" "cr_ok (bits_of s) r" "\<not> cr_isempty r" "cr_step r = 1" "fits s v"
    and "s < 8 \<or> 0 < unat k"
    and "pullBackBinary r CPUI_INT_RIGHT k slot s s = (ok, r')"
  shows "ok \<and> cr_ok (bits_of s) r' \<and>
    (contains r' v \<longleftrightarrow> contains r (if k \<ge> u64_of s * 8 then 0 else shr (v AND maskForSize s) k))"
proof -
  note f = cr_ok_facts [OF assms(2)]
  define N B l t K where "N = (2 ^ bits_of s :: int)" and "B = (2 ^ bits_of s - 1 :: int) div 2 ^ unat k + 1"
    and "l = uint (cr_left r)" and "t = uint (cr_right r)" and "K = (2 ^ unat k :: int)"
  note rb = right_bound [OF assms(1,6) B_def]
  have b: "0 \<le> l" "0 \<le> t" "0 \<le> uint v" "uint v < N" "0 < K" "0 < N"
    using assms(5) by (simp_all add: l_def t_def N_def K_def fits_less [OF assms(1)])
  have q: "0 \<le> uint v div K" "uint v div K < B"
    using b rb(4) by (simp_all add: K_def N_def pos_imp_zdiv_nonneg_iff)
  have ev: "uint (if k \<ge> u64_of s * 8 then 0 else shr (v AND maskForSize s) k) = uint v div K"
    unfolding K_def by (rule right_value [OF assms(1,5)])
  let ?full = "B \<le> l \<and> B \<le> t \<and> t \<le> l \<or> l = 0 \<and> B \<le> t \<or> l = t"
  have shl: "uint (shl x k AND cr_mask r) = uint x * K mod N" for x
    using uint_shl_masked [OF assms(1)] f(3) by (simp add: maskForSize_mask [OF assms(1)] K_def N_def)
  define L T where "L = (if B \<le> l then 0 else l)" and "T = (if B \<le> t then 0 else t)"
  have lb: "uint (shl (if cr_left r > shr (maskForSize s) k + 1 then shr (maskForSize s) k + 1 else cr_left r) k
      AND cr_mask r) = L * K"
    unfolding shl L_def
    using scaled_bound [OF b(5) b(1), of B N] scaled_bound [OF b(5), of B B N] rb b q
    by (auto simp: word_less_def l_def K_def N_def split: if_splits)
  have tb: "uint (shl (if cr_right r > shr (maskForSize s) k + 1 then 0 else cr_right r) k
      AND cr_mask r) = T * K"
    unfolding shl T_def
    using scaled_bound [OF b(5) b(2), of B N] rb b q
    by (auto simp: word_less_def t_def K_def N_def split: if_splits)
  have full: "(shr (maskForSize s) k + 1 \<le> cr_left r \<and> shr (maskForSize s) k + 1 \<le> cr_right r \<and> cr_right r \<le> cr_left r)
      \<or> (cr_left r = 0 \<and> shr (maskForSize s) k + 1 \<le> cr_right r) \<or> cr_left r = cr_right r \<longleftrightarrow> ?full"
    using rb(1) by (simp add: word_le_def word_uint_eq_iff l_def t_def)
  have r: "contains r (if k \<ge> u64_of s * 8 then 0 else shr (v AND maskForSize s) k) \<longleftrightarrow> int_arc l t (uint v div K)"
    using contains_int_arc [OF assms(4)] assms(3) ev by (simp add: l_def t_def)
  have ok: "ok" and r': "r' = pullBackRight k s r" using assms(3,4,7) by (auto simp: pullBackBinary_def)
  show ?thesis
  proof (cases ?full)
    case True
    then have "r' = r\<lparr>cr_left := 0, cr_right := 0\<rparr>" using full r' by (simp add: pullBackRight_def Let_def)
    moreover have "int_arc l t (uint v div K)" by (rule right_full [OF q True])
    ultimately show ?thesis using r ok f assms(3,4) by (simp add: cr_ok_def cr_dom_def contains_arc arc_def)
  next
    case False
    define l2 where "l2 = shl (if cr_left r > shr (maskForSize s) k + 1 then shr (maskForSize s) k + 1 else cr_left r) k AND cr_mask r"
    define t2 where "t2 = shl (if cr_right r > shr (maskForSize s) k + 1 then 0 else cr_right r) k AND cr_mask r"
    have r2: "r' = (if l2 = t2 then r\<lparr>cr_left := l2, cr_right := t2, cr_isempty := True\<rparr> else r\<lparr>cr_left := l2, cr_right := t2\<rparr>)"
      using full False unfolding r' pullBackRight_def Let_def l2_def t2_def by (simp only: if_False)
    have u: "uint l2 = L * K" "uint t2 = T * K" using lb tb by (simp_all add: l2_def t2_def)
    then have eq: "l2 = t2 \<longleftrightarrow> L = T" using b(5) by (simp add: word_uint_eq_iff)
    have "l2 \<le> mask (bits_of s)" "t2 \<le> mask (bits_of s)" by (simp_all add: l2_def t2_def f(3) and_mask_le)
    then have "cr_ok (bits_of s) r'" using r2 f assms(3,4) by (simp add: cr_ok_def cr_dom_def)
    moreover have "contains r' v \<longleftrightarrow> L \<noteq> T \<and> int_arc (L * K) (T * K) (uint v)"
      using r2 eq u assms(3,4) by (simp add: contains_int_arc)
    moreover have "int_arc l t (uint v div K) \<longleftrightarrow> L \<noteq> T \<and> int_arc L T (uint v div K)"
      using right_clamp [OF b(1,2) q False] by (simp add: L_def T_def)
    ultimately show ?thesis using r ok int_arc_scale [OF b(5)] by blast
  qed
qed

text \<open>
  The arithmetic shift reaches the \<open>h\<close> smallest and the \<open>h\<close> largest values; \<open>fold_mid\<close> drops
  the gap between them.
\<close>

definition fold_mid :: "int \<Rightarrow> int \<Rightarrow> int \<Rightarrow> int" where
  "fold_mid h D x = (if x \<le> h then x else if D + h \<le> x then x - D else h)"

lemma sright_full:
  fixes l t w h D :: int
  assumes "0 \<le> w" "w < 2 * h" "0 \<le> D"
    "h \<le> l \<and> l \<le> D + h \<and> h \<le> t \<and> t \<le> D + h \<and> t \<le> l \<or> l = t"
  shows "int_arc l t (if w < h then w else w + D)"
  using assms by (auto simp: int_arc_def)

lemma sright_clamp:
  fixes l t w h D :: int
  assumes "0 \<le> w" "w < 2 * h" "0 \<le> D" "0 \<le> l" "l < D + 2 * h" "0 \<le> t" "t < D + 2 * h"
    "\<not> (h \<le> l \<and> l \<le> D + h \<and> h \<le> t \<and> t \<le> D + h \<and> t \<le> l \<or> l = t)"
  shows "int_arc l t (if w < h then w else w + D) \<longleftrightarrow>
    fold_mid h D l \<noteq> fold_mid h D t \<and> int_arc (fold_mid h D l) (fold_mid h D t) w"
  using assms by (cases "w < h") (auto simp: int_arc_def fold_mid_def)

lemma fold_mid_scale:
  fixes x h D K N :: int
  assumes "0 < K" "N = 2 * h * K" "D = N - 2 * h" "0 \<le> x" "x < N" "0 < h" "x \<le> h \<or> D + h \<le> x"
  shows "x * K mod N = fold_mid h D x * K"
proof (cases "x \<le> h")
  case True
  then have "x * K \<le> h * K" using assms(1) by (intro mult_right_mono) auto
  moreover have "0 < h * K" using assms by simp
  ultimately have "x * K < N" using assms(2) by linarith
  then show ?thesis using True assms by (simp add: fold_mid_def mod_pos_pos_trivial)
next
  case False
  have "x - D < 2 * h" using assms by linarith
  then have "(x - D) * K < N" using assms(1,2) by simp
  then have "(x - D) * K mod N = (x - D) * K"
    using False assms by (intro mod_pos_pos_trivial) (auto intro!: mult_nonneg_nonneg)
  moreover have "D * K = N * K - N" unfolding assms(3) left_diff_distrib using assms(2) by simp
  then have "x * K = (x - D) * K + N * (K - 1)" by (simp add: algebra_simps)
  ultimately have "x * K mod N = (x - D) * K" by (metis mod_mult_self2)
  then show ?thesis using False assms(7) by (auto simp: fold_mid_def)
qed

lemma xor_masks:
  assumes "j \<le> n" "n \<le> 64" shows "uint (mask j XOR mask n :: u64) = 2 ^ n - 2 ^ j"
proof -
  let ?x = "mask j XOR mask n :: u64"
  have "?x AND mask j = 0" by (rule bit_eqI) (use assms in \<open>auto simp: bit_simps\<close>)
  then have "?x + mask j = ?x XOR mask j" by (rule disjunctive_add_eq_xor)
  also have "\<dots> = mask n" by (simp add: ac_simps)
  finally have "?x = mask n - mask j" by (simp add: eq_diff_eq)
  moreover have "(2::int) ^ j \<le> 2 ^ n" using assms(1) by (rule power_increasing) simp
  then have "(2::int) ^ j - 1 < 2 ^ n" by linarith
  then have "(mask j :: u64) \<le> mask n" using assms by (simp add: le_mask_iff uint_mask)
  ultimately show ?thesis using assms by (simp add: uint_sub_lem [THEN iffD1] word_le_def uint_mask)
qed

lemma sright_bounds:
  assumes "size_ok s" "unat k < bits_of s"
    and h: "h = (2 ^ (bits_of s - 1 - unat k) :: int)"
  shows "uint (shr (maskForSize s) (k + 1) + 1) = h"
    and "uint (shr (maskForSize s) (k + 1) XOR maskForSize s) = 2 ^ bits_of s - h"
    and "2 ^ bits_of s = 2 * h * 2 ^ unat k" and "2 * h \<le> 2 ^ bits_of s"
proof -
  let ?n = "bits_of s" and ?j = "bits_of s - 1 - unat k"
  have n: "?n \<le> 64" "0 < ?n" using size_bits [OF assms(1)] by simp_all
  have "unat (k + 1) = unat k + 1" using assms(2) n by (simp add: unat_word_ariths)
  then have m: "shr (maskForSize s) (k + 1) = mask ?j"
    by (intro bit_eqI) (use n in \<open>auto simp: shr_def maskForSize_mask [OF assms(1)] bit_simps\<close>)
  have j: "?j \<le> ?n" "?j < 64" using n by auto
  have e: "Suc (?j + unat k) = ?n" using assms(2) n by simp
  have "(2::int) ^ ?j < 2 ^ 64" using j by (intro power_strict_increasing) auto
  then show "uint (shr (maskForSize s) (k + 1) + 1) = h"
    unfolding m using j by (simp add: uint_plus_mod uint_mask h mod_pos_pos_trivial)
  show "uint (shr (maskForSize s) (k + 1) XOR maskForSize s) = 2 ^ ?n - h"
    unfolding m h using xor_masks [OF j(1) n(1)] by (simp add: maskForSize_mask [OF assms(1)])
  show "2 ^ ?n = 2 * h * 2 ^ unat k" by (simp add: h flip: power_add power_Suc) (use assms(2) in simp)
  show "2 * h \<le> 2 ^ ?n" unfolding h power_Suc [symmetric] using assms(2) n by (intro power_increasing) auto
qed

lemma sright_value:
  assumes "size_ok s" "fits s v" "unat k < bits_of s"
    and h: "h = (2 ^ (bits_of s - 1 - unat k) :: int)" and D: "D = 2 ^ bits_of s - 2 * h"
  shows "uint (eval_sright s s v k) =
    (if uint v div 2 ^ unat k < h then uint v div 2 ^ unat k else uint v div 2 ^ unat k + D)"
proof -
  note sb = sright_bounds [OF assms(1,3) h]
  let ?w = "uint v div 2 ^ unat k" and ?N = "2 ^ bits_of s :: int"
  have N: "?N = 2 * h * 2 ^ unat k" and H: "2 ^ (bits_of s - 1) = h * 2 ^ unat k"
    using sb(3) pow_bits [OF assms(1)] by auto
  have v: "uint v < ?N" using assms by (simp add: fits_less)
  have w: "0 \<le> ?w" "?w < 2 * h" using v by (simp_all add: pos_imp_zdiv_nonneg_iff int_div_less_iff N)
  have lt: "?w < h \<longleftrightarrow> uint v < 2 ^ (bits_of s - 1)" unfolding H by (simp add: int_div_less_iff)
  show ?thesis
  proof (cases "?w < h")
    case True
    then have "sval s v div 2 ^ unat k mod ?N = ?w mod ?N" using lt by (simp add: sval_def)
    also have "\<dots> = ?w" using w sb(4) True by (intro mod_pos_pos_trivial) auto
    finally show ?thesis using True eval_sright_sval [OF assms(1,2)] by simp
  next
    case False
    have "(uint v - ?N) div 2 ^ unat k = ?w - 2 * h" 
      using div_mult_self1 [of "2 ^ unat k" "uint v" "- (2 * h)"] unfolding N by simp
    then have "sval s v div 2 ^ unat k mod ?N = (?w - 2 * h) mod ?N" using lt False by (simp add: sval_def)
    also have "\<dots> = (?w - 2 * h + ?N) mod ?N" by simp
    also have "\<dots> = ?w - 2 * h + ?N" using w sb(4) False by (intro mod_pos_pos_trivial) auto
    finally show ?thesis using False eval_sright_sval [OF assms(1,2)] by (simp add: D)
  qed
qed

lemma pull_sright:
  assumes "size_ok s" "cr_ok (bits_of s) r" "\<not> cr_isempty r" "cr_step r = 1" "fits s v"
    and "unat k < bits_of s"
    and "pullBackBinary r CPUI_INT_SRIGHT k slot s s = (ok, r')"
  shows "ok \<and> cr_ok (bits_of s) r' \<and> (contains r' v \<longleftrightarrow> contains r (eval_sright s s v k))"
proof -
  note f = cr_ok_facts [OF assms(2)]
  define N h D l t K where "N = (2 ^ bits_of s :: int)" and "h = (2 ^ (bits_of s - 1 - unat k) :: int)"
    and "D = 2 ^ bits_of s - 2 * h" and "l = uint (cr_left r)" and "t = uint (cr_right r)"
    and "K = (2 ^ unat k :: int)"
  note sb = sright_bounds [OF assms(1,6) h_def]
  have b: "0 \<le> l" "0 \<le> t" "l < N" "t < N" "0 \<le> uint v" "uint v < N" "0 < K" "0 < h" "0 \<le> D"
    using assms(3,5) f sb(4) by (simp_all add: l_def t_def N_def K_def h_def D_def fits_less [OF assms(1)] le_mask_iff)
  have N: "N = 2 * h * K" "D = N - 2 * h" using sb(3) by (simp_all add: N_def K_def D_def)
  define w where "w = uint v div K"
  have w: "0 \<le> w" "w < 2 * h"
    using b N(1) by (simp_all add: w_def pos_imp_zdiv_nonneg_iff int_div_less_iff)
  have ev: "uint (eval_sright s s v k) = (if w < h then w else w + D)"
    unfolding w_def K_def by (rule sright_value [OF assms(1,5,6) h_def D_def])
  define lw rw where "lw = shr (maskForSize s) (k + 1) + 1" and "rw = shr (maskForSize s) (k + 1) XOR maskForSize s"
  have lr: "uint lw = h" "uint rw = D + h" using sb by (simp_all add: lw_def rw_def D_def)
  have shl: "uint (shl x k AND cr_mask r) = uint x * K mod N" for x
    using uint_shl_masked [OF assms(1)] f(3) by (simp add: maskForSize_mask [OF assms(1)] K_def N_def)
  define l2 where "l2 = shl (if cr_left r > lw \<and> cr_left r < rw then lw else cr_left r) k AND cr_mask r"
  define t2 where "t2 = shl (if cr_right r > lw \<and> cr_right r < rw then rw else cr_right r) k AND cr_mask r"
  have l2: "uint l2 = fold_mid h D l * K"
    unfolding l2_def shl using fold_mid_scale [OF b(7) N b(1,3,8)] fold_mid_scale [OF b(7) N, of h] b lr N
    by (auto simp: word_less_def l_def fold_mid_def not_less)
  have t2: "uint t2 = fold_mid h D t * K"
    unfolding t2_def shl using fold_mid_scale [OF b(7) N b(2,4,8)] fold_mid_scale [OF b(7) N, of "D + h"] b lr N
    by (auto simp: word_less_def t_def fold_mid_def not_less)
  let ?full = "h \<le> l \<and> l \<le> D + h \<and> h \<le> t \<and> t \<le> D + h \<and> t \<le> l \<or> l = t"
  have full: "(lw \<le> cr_left r \<and> cr_left r \<le> rw \<and> lw \<le> cr_right r \<and> cr_right r \<le> rw \<and> cr_right r \<le> cr_left r)
      \<or> cr_left r = cr_right r \<longleftrightarrow> ?full"
    using lr by (simp add: word_le_def word_uint_eq_iff l_def t_def)
  have r: "contains r (eval_sright s s v k) \<longleftrightarrow> int_arc l t (if w < h then w else w + D)"
    using contains_int_arc [OF assms(4)] assms(3) ev by (simp add: l_def t_def)
  have ok: "ok" and r': "r' = pullBackSright k s r" using assms(3,4,7) by (auto simp: pullBackBinary_def)
  show ?thesis
  proof (cases ?full)
    case True
    then have "r' = r\<lparr>cr_left := 0, cr_right := 0\<rparr>"
      using full unfolding r' by (simp add: pullBackSright_def Let_def lw_def rw_def)
    moreover note sright_full [OF w b(9) True]
    ultimately show ?thesis using r ok f assms(3,4) by (simp add: cr_ok_def cr_dom_def contains_arc arc_def)
  next
    case False
    have r2: "r' = (if l2 = t2 then r\<lparr>cr_left := l2, cr_right := t2, cr_isempty := True\<rparr> else r\<lparr>cr_left := l2, cr_right := t2\<rparr>)"
      using full False unfolding r' pullBackSright_def Let_def l2_def t2_def lw_def rw_def by (simp only: if_False)
    have eq: "l2 = t2 \<longleftrightarrow> fold_mid h D l = fold_mid h D t" using b(7) l2 t2 by (simp add: word_uint_eq_iff)
    have "l2 \<le> mask (bits_of s)" "t2 \<le> mask (bits_of s)" by (simp_all add: l2_def t2_def f(3) and_mask_le)
    then have "cr_ok (bits_of s) r'" using r2 f assms(3,4) by (simp add: cr_ok_def cr_dom_def)
    moreover have "contains r' v \<longleftrightarrow> fold_mid h D l \<noteq> fold_mid h D t \<and>
        int_arc (fold_mid h D l * K) (fold_mid h D t * K) (uint v)"
      using r2 eq l2 t2 assms(3,4) by (simp add: contains_int_arc)
    moreover note sright_clamp [OF w b(9) b(1) _ b(2)] 
    ultimately show ?thesis using r ok int_arc_scale [OF b(7)] False b N(2) by (simp add: w_def)
  qed
qed



section \<open>Recovering a comparison from a range\<close>

lemma compare_body_range:
  assumes "compare_body s body P" "size_ok s" "cr_ok (bits_of s) r" "\<not> cr_isempty r" "cr_step r = 1" "fits s v"
    "body r = r"
  shows "contains r v \<longleftrightarrow> P v"
  using assms cr_ok_facts(3) [OF assms(3)] unfolding compare_body_def by metis

lemma pred_masked:
  assumes "size_ok s" "fits s x" "x \<noteq> 0"
  shows "(((x - 1) AND mask (bits_of s)) + 1) AND mask (bits_of s) = x"
    "uint ((x - 1) AND mask (bits_of s)) = uint x - 1"
proof -
  have b: "uint x < 2 ^ bits_of s" "0 < uint x" "bits_of s \<le> 64"
    using assms size_bits [OF assms(1)] by (auto simp: fits_less word_neq_0_conv word_less_def)
  have "uint ((x - 1) AND mask (bits_of s)) = (uint x - 1) mod 2 ^ bits_of s" using b by (simp add: mask_minus)
  then show u: "uint ((x - 1) AND mask (bits_of s)) = uint x - 1" using b by (simp add: mod_pos_pos_trivial)
  show "(((x - 1) AND mask (bits_of s)) + 1) AND mask (bits_of s) = x"
    using b by (simp add: word_uint_eq_iff mask_plus u)
qed

text \<open>The bounds a comparison body would set are the bounds the range already has.\<close>

lemma less_body_fixed:
  assumes "size_ok s" "fits s (cr_left r)" "cr_mask r = mask (bits_of s)" "cr_left r \<noteq> 0" "cr_right r = 0"
  shows "pullBackLess ((cr_left r - 1) AND cr_mask r) 1 r = r"
proof -
  have "(cr_left r - 1) AND mask (bits_of s) \<noteq> mask (bits_of s)"
    using pred_masked(2) [OF assms(1,2,4)] assms(2) size_bits [OF assms(1)]
    by (auto simp: uint_mask fits_less [OF assms(1)])
  then show ?thesis
    using pred_masked(1) [OF assms(1,2,4)] assms by (auto simp: pullBackLess_def)
qed

lemma sless_body_fixed:
  assumes "size_ok s" "fits s (cr_left r)" "cr_mask r = mask (bits_of s)" "cr_left r \<noteq> 0"
    "cr_left r \<noteq> shr (cr_mask r) 1 + 1" "cr_right r = shr (cr_mask r) 1 + 1"
  shows "pullBackSless ((cr_left r - 1) AND cr_mask r) 1 r = r"
proof -
  have "(cr_left r - 1) AND mask (bits_of s) \<noteq> shr (mask (bits_of s)) 1"
  proof
    assume "(cr_left r - 1) AND mask (bits_of s) = shr (mask (bits_of s)) 1"
    then have "uint (cr_left r) - 1 = 2 ^ (bits_of s - 1) - 1"
      using pred_masked(2) [OF assms(1,2,4)] half_masked(2) [OF assms(1)] by simp
    then have "cr_left r = shr (mask (bits_of s)) 1 + 1"
      using half_masked(1) [OF assms(1)] by (simp add: word_uint_eq_iff)
    with assms(3,5) show False by simp
  qed
  then show ?thesis
    using pred_masked(1) [OF assms(1,2,4)] assms(3,6) by (auto simp: pullBackSless_def)
qed

lemma translate2Op_body:
  assumes "size_ok s" "cr_ok (bits_of s) r" "translate2Op r = (opc, c, cslot, 0)"
  shows "\<not> cr_isempty r" "cr_step r = 1" "opc \<in> set compare_ops" "fits s c"
    "cmp_body opc c (1 - cslot) r = r"
proof -
  note f = cr_ok_facts [OF assms(2)]
  show ne: "\<not> cr_isempty r" and st: "cr_step r = 1" and "opc \<in> set compare_ops"
    using assms(3) by (auto simp: translate2Op_def Let_def compare_ops_def split: if_splits)
  have fl: "fits s (cr_left r)" "fits s (cr_right r)"
    using f ne by (simp_all add: fits_def maskForSize_mask [OF assms(1)])
  have fm: "fits s (x AND cr_mask r)" for x
    using f(3) by (simp add: fits_def maskForSize_mask [OF assms(1)] and_mask_le)
  show "fits s c" using assms(3) fl fm by (auto simp: translate2Op_def Let_def split: if_splits)
  show "cmp_body opc c (1 - cslot) r = r"
    using assms(3) ne st less_body_fixed [OF assms(1) fl(1) f(3)] sless_body_fixed [OF assms(1) fl(1) f(3)]
    by (auto simp: translate2Op_def Let_def cmp_body_def pullBackLess_def pullBackSless_def split: if_splits)
qed

text \<open>
  C6: \<^verbatim>\<open>translate2Op\<close> returns a comparison that is true exactly on the range: with result code
  0 the opcode, the constant and its slot evaluate to the range's membership, code 1 means that
  every value is in the range, code 3 that none is.
\<close>

theorem translate2Op_exact:
  assumes "size_ok s" "cr_ok (bits_of s) r" "fits s v" "translate2Op r = (opc, c, cslot, code)"
  shows "(code = 0 \<and> eval_slot h opc 1 s (1 - cslot) c v = Inr (boolToUint64 (contains r v)))
    \<or> (code = 1 \<and> contains r v) \<or> (code = 3 \<and> \<not> contains r v) \<or> code = 2"
proof (cases "code = 0")
  case True
  note b = translate2Op_body [OF assms(1,2) assms(4) [unfolded True]]
  have "contains r v \<longleftrightarrow> compare_truth opc s (1 - cslot) c v"
    by (rule compare_body_range [OF cmp_body_selects [OF assms(1) b(4,3)] assms(1,2) b(1,2) assms(3) b(5)])
  then show ?thesis using eval_slot_compare [OF assms(1,3) b(4,3), of h 1 "1 - cslot"] True by simp
next
  case False
  then show ?thesis
    using assms(4) by (auto simp: translate2Op_def Let_def contains_arc arc_def split: if_splits)
qed

section \<open>Evaluations\<close>



theorem translate2Op_exact_witness:
  "\<forall>h :: nat hostfloat. eval_slot h CPUI_INT_SLESS 1 1 0 0xfe 0x85 = Inr 1"
proof
  fix h :: "nat hostfloat"
  have "size_ok 1" "cr_ok (bits_of 1) (newCircleRangeBounds 0x80 0xfe 1 1)" "fits 1 0x85"
    "translate2Op (newCircleRangeBounds 0x80 0xfe 1 1) = (CPUI_INT_SLESS, 0xfe, 1, 0)"
    by code_simp+
  from translate2Op_exact [OF this, of h]
  show "eval_slot h CPUI_INT_SLESS 1 1 0 0xfe 0x85 = Inr 1"
    by (simp add: contains_def newCircleRangeBounds_def boolToUint64_def)
qed

text \<open>
  Three branches are not exact. With both truth values in the range the comparison branches
  stop with the boolean range \<open>[0,2)\<close> over the input domain, not with every input; the
  subtraction branch for the second operand does not turn the half-open interval round; and
  for a zero shift of an 8-byte value the bound \<open>mask + 1\<close> wraps to zero.
\<close>

lemma pullBackBinary_both_unsound:
  "pullBackBinary (newCircleRangeBounds 0 2 1 1) CPUI_INT_EQUAL 7 0 4 1 = (True, newCircleRangeBounds 0 2 4 1)"
  "\<not> contains (newCircleRangeBounds 0 2 4 1) 5" "contains (newCircleRangeBounds 0 2 1 1) 0"
  by code_simp+

lemma pullBackBinary_sub_unsound:
  "pullBackBinary (newCircleRangeBounds 3 5 1 1) CPUI_INT_SUB 10 1 1 1 = (True, newCircleRangeBounds 7 5 1 1)"
  "contains (newCircleRangeBounds 7 5 1 1) 100" "\<not> contains (newCircleRangeBounds 3 5 1 1) ((10 - 100) AND 0xff)"
  by code_simp+

lemma pullBackBinary_right_zero_unsound:
  "pullBackBinary (newCircleRangeBounds 3 5 8 1) CPUI_INT_RIGHT 0 0 8 8
     = (True, (newCircleRangeBounds 0 0 8 1)\<lparr>cr_isempty := True\<rparr>)"
  "contains (newCircleRangeBounds 3 5 8 1) (shr 4 0)"
  by code_simp+

end
