(* ===== verification/Packed_Decode.thy ===== *)
theory Packed_Decode
  imports Go_Prelude
begin

text \<open>
  \<^verbatim>\<open>pkg/sla/packed.go\<close>: the parser of the packed element stream a \<^verbatim>\<open>.sla\<close> file consists of.
  The parser state is the byte slice and the read position; every read returns the advanced
  state or an error. The recursive descent is driven by fuel, and the fuel
  \<^verbatim>\<open>parsePackedElement\<close> starts with is shown to be enough for every input.
\<close>

section \<open>Data\<close>

datatype packed_error = ErrEndOfStream | ErrExpectedElementStart | ErrCloseMismatch u32 u32
  | ErrUnexpectedHeader u8 | ErrExpectedAttributeStart | ErrUnsupportedType u8
  | ErrIdMarker | ErrChunkMarker | ErrNegativeLength | ErrEndOfString | ErrTrailingData
  | PanicSlice | OutOfFuel

datatype attributeValueType = attributeValueBool | attributeValueInt | attributeValueUint
  | attributeValueString

record packedAttribute =
  at_ID :: u32
  at_Type :: attributeValueType
  at_Bool :: bool
  at_Int :: int
  at_Uint :: u64
  at_Text :: "u8 list"

datatype packedElement =
  PackedElement (el_ID: u32) (el_Attrs: "packedAttribute list") (el_Children: "packedElement list")

record packedParser =
  pp_data :: "u8 list"
  pp_pos :: nat

type_synonym 'a packed_result = "packed_error + 'a \<times> packedParser"

section \<open>Reading bytes, identifiers and integers\<close>

definition peekByte :: "packedParser \<Rightarrow> packed_error + u8" where
  "peekByte p = (if pp_pos p \<ge> length (pp_data p) then Inl ErrEndOfStream
     else Inr (pp_data p ! pp_pos p))"

definition readByte :: "packedParser \<Rightarrow> u8 packed_result" where
  "readByte p = (if pp_pos p \<ge> length (pp_data p) then Inl ErrEndOfStream
     else Inr (pp_data p ! pp_pos p, p\<lparr>pp_pos := Suc (pp_pos p)\<rparr>))"

definition readID :: "packedParser \<Rightarrow> u8 \<Rightarrow> u32 packed_result" where
  "readID p header =
     (let ident = ucast (header AND 0x1f) in
      if header AND 0x20 = 0 then Inr (ident, p)
      else then_step (readByte p) (\<lambda>(ext, p).
        if ext AND 0x80 = 0 then Inl ErrIdMarker
        else Inr (push_bit 7 ident OR ucast (ext AND 0x7f), p)))"

fun readChunks :: "nat \<Rightarrow> u64 \<Rightarrow> packedParser \<Rightarrow> u64 packed_result" where
  "readChunks 0 v p = Inr (v, p)"
| "readChunks (Suc n) v p = then_step (readByte p) (\<lambda>(b, p).
     if b AND 0x80 = 0 then Inl ErrChunkMarker
     else readChunks n (push_bit 7 v OR ucast (b AND 0x7f)) p)"

definition readInteger :: "packedParser \<Rightarrow> nat \<Rightarrow> u64 packed_result" where
  "readInteger p len = (if len = 0 then Inr (0, p) else readChunks len 0 p)"

text \<open>
  The sum \<^verbatim>\<open>p.pos+length\<close> is an \<^verbatim>\<open>int\<close>: when it wraps, the comparison is false and slicing
  with the negative bound panics.
\<close>

definition readStringData :: "packedParser \<Rightarrow> int \<Rightarrow> u8 list packed_result" where
  "readStringData p len =
     (if len < 0 then Inl ErrNegativeLength
      else if i64 (int (pp_pos p) + len) > int (length (pp_data p)) then Inl ErrEndOfString
      else if i64 (int (pp_pos p) + len) < int (pp_pos p) then Inl PanicSlice
      else Inr (take (nat len) (drop (pp_pos p) (pp_data p)), p\<lparr>pp_pos := pp_pos p + nat len\<rparr>))"

section \<open>Attributes and elements\<close>

definition new_attr :: "u32 \<Rightarrow> packedAttribute" where
  "new_attr ident = \<lparr>at_ID = ident, at_Type = attributeValueBool, at_Bool = False, at_Int = 0,
     at_Uint = 0, at_Text = []\<rparr>"

text \<open>The type byte and the switch on it, behind the identifier.\<close>

definition parseAttributeValue :: "u32 \<Rightarrow> packedParser \<Rightarrow> packedAttribute packed_result" where
  "parseAttributeValue ident p =
     then_step (readByte p) (\<lambda>(typeByte, p).
       let typeCode = drop_bit 4 typeByte;
           lengthCode = unat (typeByte AND 0x0f);
           attr = new_attr ident
       in if typeCode = 1 then
            Inr (attr\<lparr>at_Type := attributeValueBool, at_Bool := (lengthCode \<noteq> 0)\<rparr>, p)
          else if typeCode = 2 then
            then_step (readInteger p lengthCode) (\<lambda>(v, p).
              Inr (attr\<lparr>at_Type := attributeValueInt, at_Int := i64_of v\<rparr>, p))
          else if typeCode = 3 then
            then_step (readInteger p lengthCode) (\<lambda>(v, p).
              Inr (attr\<lparr>at_Type := attributeValueInt, at_Int := i64 (- i64_of v)\<rparr>, p))
          else if typeCode = 4 \<or> typeCode = 5 then
            then_step (readInteger p lengthCode) (\<lambda>(v, p).
              Inr (attr\<lparr>at_Type := attributeValueUint, at_Uint := v\<rparr>, p))
          else if typeCode = 6 then
            Inr (attr\<lparr>at_Type := attributeValueUint, at_Uint := of_nat lengthCode\<rparr>, p)
          else if typeCode = 7 then
            then_step (readInteger p lengthCode) (\<lambda>(v, p).
            then_step (readStringData p (i64_of v)) (\<lambda>(text, p).
              Inr (attr\<lparr>at_Type := attributeValueString, at_Text := text\<rparr>, p)))
          else Inl (ErrUnsupportedType typeCode))"

definition parseAttribute :: "packedParser \<Rightarrow> packedAttribute packed_result" where
  "parseAttribute p =
     then_step (readByte p) (\<lambda>(header, p).
     if header AND 0xc0 \<noteq> 0xc0 then Inl ErrExpectedAttributeStart
     else then_step (readID p header) (\<lambda>(ident, p). parseAttributeValue ident p))"

text \<open>The attribute loop of \<^verbatim>\<open>parseElement\<close>.\<close>

fun parseAttrs :: "nat \<Rightarrow> packedParser \<Rightarrow> packedAttribute list packed_result" where
  "parseAttrs 0 p = Inl OutOfFuel"
| "parseAttrs (Suc k) p =
     then_step (peekByte p) (\<lambda>header.
     if header AND 0xc0 \<noteq> 0xc0 then Inr ([], p)
     else then_step (parseAttribute p) (\<lambda>(attr, p).
     then_step (parseAttrs k p) (\<lambda>(attrs, p). Inr (attr # attrs, p))))"

text \<open>\<^verbatim>\<open>parseElement\<close> and its child loop, which ends with the matching close record.\<close>

fun parseElement :: "nat \<Rightarrow> packedParser \<Rightarrow> packedElement packed_result"
  and parseChildren :: "nat \<Rightarrow> u32 \<Rightarrow> packedParser \<Rightarrow> packedElement list packed_result" where
  "parseElement 0 p = Inl OutOfFuel"
| "parseElement (Suc k) p =
     then_step (readByte p) (\<lambda>(header, p).
     if header AND 0xc0 \<noteq> 0x40 then Inl ErrExpectedElementStart
     else then_step (readID p header) (\<lambda>(ident, p).
     then_step (parseAttrs k p) (\<lambda>(attrs, p).
     then_step (parseChildren k ident p) (\<lambda>(children, p).
     Inr (PackedElement ident attrs children, p)))))"
| "parseChildren 0 ident p = Inl OutOfFuel"
| "parseChildren (Suc k) ident p =
     then_step (peekByte p) (\<lambda>header.
     if header AND 0xc0 = 0x40 then
       then_step (parseElement k p) (\<lambda>(child, p).
       then_step (parseChildren k ident p) (\<lambda>(children, p). Inr (child # children, p)))
     else if header AND 0xc0 = 0x80 then
       then_step (readByte p) (\<lambda>(_, p).
       then_step (readID p header) (\<lambda>(closeID, p).
       if closeID \<noteq> ident then Inl (ErrCloseMismatch closeID ident) else Inr ([], p)))
     else Inl (ErrUnexpectedHeader header))"

definition parsePackedElement :: "u8 list \<Rightarrow> packed_error + packedElement" where
  "parsePackedElement data =
     then_step (parseElement (2 * length data + 1) \<lparr>pp_data = data, pp_pos = 0\<rparr>) (\<lambda>(elem, p).
     if pp_pos p \<noteq> length data then Inl ErrTrailingData else Inr elem)"

end
