(* ===== verification/Packed_Laws.thy ===== *)
theory Packed_Laws
  imports Packed_Decode
begin

text \<open>
  The packed parser reads back what a packed writer produces. The writer is the format's
  specification: it is written here from the record layout the parser's constants name. The
  pieces of the format share one contract, the locale \<open>packed_codec\<close>.
\<close>

section \<open>The contract of a piece of the format\<close>

definition at_bytes :: "u8 list \<Rightarrow> nat \<Rightarrow> packedParser" where
  "at_bytes data i = \<lparr>pp_data = data, pp_pos = i\<rparr>"

locale packed_codec =
  fixes wf :: "'a \<Rightarrow> bool" and enc :: "'a \<Rightarrow> u8 list" and dec :: "packedParser \<Rightarrow> 'a packed_result"
  assumes decodes: "\<lbrakk>wf a; length (pre @ enc a @ post) < 2 ^ 63\<rbrakk> \<Longrightarrow>
    dec (at_bytes (pre @ enc a @ post) (length pre))
      = Inr (a, at_bytes (pre @ enc a @ post) (length pre + length (enc a)))"
begin

text \<open>Decoding in front of anything, at an explicit position.\<close>

lemma decodes_at:
  assumes "wf a" "data = pre @ enc a @ post" "length data < 2 ^ 63" "i = length pre"
  shows "dec (at_bytes data i) = Inr (a, at_bytes data (i + length (enc a)))"
  using decodes [of a pre post] assms by simp

text \<open>Two encodings of different values never agree in front of a common rest.\<close>

lemma enc_inj:
  assumes "wf a" "wf b" "enc a @ x = enc b @ y" "length (enc a @ x) < 2 ^ 63"
  shows "a = b"
proof -
  have "dec (at_bytes (enc a @ x) 0) = Inr (a, at_bytes (enc a @ x) (length (enc a)))"
    using decodes [of a "[]" x] assms by simp
  moreover have "dec (at_bytes (enc a @ x) 0) = Inr (b, at_bytes (enc a @ x) (length (enc b)))"
    using decodes [of b "[]" y] assms by simp
  ultimately show ?thesis by simp
qed

end

section \<open>Reading single bytes\<close>

lemma readByte_at: "i < length data \<Longrightarrow> readByte (at_bytes data i) = Inr (data ! i, at_bytes data (Suc i))"
  by (simp add: readByte_def at_bytes_def)

lemma peekByte_at: "i < length data \<Longrightarrow> peekByte (at_bytes data i) = Inr (data ! i)"
  by (simp add: peekByte_def at_bytes_def)

lemma readByte_mid: "readByte (at_bytes (pre @ b # post) (length pre)) = Inr (b, at_bytes (pre @ b # post) (Suc (length pre)))"
  by (simp add: readByte_at nth_append)

lemma peekByte_mid: "peekByte (at_bytes (pre @ b # post) (length pre)) = Inr b"
  by (simp add: peekByte_at nth_append)

section \<open>Identifiers\<close>

definition enc_id :: "u8 \<Rightarrow> u32 \<Rightarrow> u8 list" where
  "enc_id header ident =
     (if ident < 0x20 then [header OR ucast ident]
      else [header OR 0x20 OR ucast (drop_bit 7 ident), 0x80 OR ucast (ident AND 0x7f)])"

definition wf_id :: "u32 \<Rightarrow> bool" where
  "wf_id ident \<longleftrightarrow> ident < 0x1000"

lemma word_bit_less: "uint (w :: 'a::len word) < 2 ^ n \<Longrightarrow> bit w i \<Longrightarrow> i < n"
proof -
  assume "uint w < 2 ^ n" "bit w i"
  then have "take_bit n (uint w) = uint w" by (simp add: take_bit_int_eq_self_iff)
  moreover have "bit (uint w) i" using \<open>bit w i\<close> by (simp add: bit_uint_iff bit_imp_le_length)
  ultimately show "i < n" by (metis bit_take_bit_iff)
qed

lemma id_bits: "wf_id ident \<Longrightarrow> bit ident i \<Longrightarrow> i < 12" "ident < 0x20 \<Longrightarrow> bit ident i \<Longrightarrow> i < 5"
  using word_bit_less [of ident 12 i] word_bit_less [of ident 5 i]
  by (simp_all add: wf_id_def word_less_def)

lemma low_masks: "(0x1f :: u8) = mask 5" "(0x7f :: u8) = mask 7" "(0x7f :: u32) = mask 7" "(0x0f :: u8) = mask 4"
  by (simp_all add: mask_eq_exp_minus_1)

lemma flag_bits: "(0x20 :: u8) = push_bit 5 1" "(0x80 :: u8) = push_bit 7 1" "(0x40 :: u8) = push_bit 6 1"
  "(0xc0 :: u8) = push_bit 6 1 OR push_bit 7 1"
  by simp_all

lemma and_flag: "(w :: 'a::len word) AND push_bit k 1 = (if bit w k then push_bit k 1 else 0)"
  by (rule bit_eqI) (auto simp: bit_simps)

lemma header_byte:
  fixes low :: u8
  assumes "header \<in> {0x40, 0x80, 0xc0}" "\<And>i. bit low i \<Longrightarrow> i < 6"
  shows "(header OR low) AND 0xc0 = header"
  using assms(1)
  by (intro bit_eqI) (auto simp: flag_bits bit_simps simp del: push_bit_of_1 dest: assms(2))

lemma enc_id_first:
  assumes "wf_id ident" "header \<in> {0x40, 0x80, 0xc0}"
  obtains b bs where "enc_id header ident = b # bs" "b AND 0xc0 = header"
    and "\<And>pre post. readID (at_bytes (pre @ b # bs @ post) (Suc (length pre))) b
      = Inr (ident, at_bytes (pre @ b # bs @ post) (Suc (length pre) + length bs))"
proof (cases "ident < 0x20")
  case True
  let ?b = "header OR ucast ident"
  have low: "bit (ucast ident :: u8) i \<Longrightarrow> i < 5" for i using id_bits(2) [OF True] by (simp add: bit_simps)
  have h: "?b AND 0xc0 = header" using assms(2) low by (intro header_byte) (auto dest: low)
  have "\<not> bit ?b 5" using assms(2) low [of 5] by (auto simp: flag_bits bit_simps simp del: push_bit_of_1)
  then have e: "?b AND 0x20 = 0" unfolding flag_bits(1) and_flag by simp
  have i: "ucast (?b AND 0x1f) = ident"
    using assms(2)
    by (intro bit_eqI) (auto simp: flag_bits low_masks bit_simps simp del: push_bit_of_1 dest: id_bits(2) [OF True])
  show ?thesis
    by (rule that [of ?b "[]"]) (use True h e i in \<open>simp_all add: enc_id_def readID_def Let_def\<close>)
next
  case False
  let ?b = "header OR 0x20 OR ucast (drop_bit 7 ident)" and ?c = "0x80 OR ucast (ident AND 0x7f) :: u8"
  have low: "bit (ucast (drop_bit 7 ident) :: u8) i \<Longrightarrow> i < 5" for i
    using id_bits(1) [OF assms(1), of "7 + i"] by (simp add: bit_simps)
  have h: "(header OR (0x20 OR ucast (drop_bit 7 ident))) AND 0xc0 = header"
    using assms(2)
    by (intro header_byte)
      (auto simp: flag_bits bit_simps simp del: push_bit_of_1 dest: id_bits(1) [OF assms(1)])
  have "bit ?b 5" by (simp add: flag_bits bit_simps del: push_bit_of_1)
  then have e: "?b AND 0x20 \<noteq> 0" unfolding flag_bits(1) and_flag by simp
  have "bit ?c 7" by (simp add: flag_bits bit_simps del: push_bit_of_1)
  then have c: "?c AND 0x80 \<noteq> 0" unfolding flag_bits(2) and_flag by simp
  have i: "push_bit 7 (ucast (?b AND 0x1f)) OR ucast (?c AND 0x7f) = ident"
    using assms(2)
    by (intro bit_eqI) (auto simp: flag_bits low_masks bit_simps simp del: push_bit_of_1 dest: id_bits(1) [OF assms(1)])
  have rb: "readByte (at_bytes (pre @ b # c # post) (Suc (length pre)))
      = Inr (c, at_bytes (pre @ b # c # post) (Suc (Suc (length pre))))" for pre post and b c :: u8
    using readByte_mid [of "pre @ [b]" c post] by simp
  show ?thesis
    by (rule that [of ?b "[?c]"])
      (use False h e c i in \<open>simp_all add: enc_id_def readID_def Let_def rb or.assoc\<close>)
qed

section \<open>Integers\<close>

definition enc_chunks :: "nat \<Rightarrow> u64 \<Rightarrow> u8 list" where
  "enc_chunks n v = map (\<lambda>i. 0x80 OR ucast (drop_bit (7 * i) v AND mask 7)) (rev [0..<n])"

definition chunk_count :: "u64 \<Rightarrow> nat" where
  "chunk_count v = hd (filter (\<lambda>n. drop_bit (7 * n) v = 0) [0..<11])"

lemma enc_chunks_Suc: "enc_chunks (Suc n) v = (0x80 OR ucast (drop_bit (7 * n) v AND mask 7)) # enc_chunks n v"
  by (simp add: enc_chunks_def)

lemma length_enc_chunks [simp]: "length (enc_chunks n v) = n"
  by (simp add: enc_chunks_def)

lemma chunk_byte:
  fixes x :: u64
  shows "(0x80 OR ucast (x AND mask 7) :: u8) AND 0x80 \<noteq> 0"
    "ucast ((0x80 OR ucast (x AND mask 7) :: u8) AND 0x7f) = take_bit 7 x"
proof -
  have "bit (0x80 OR ucast (x AND mask 7) :: u8) 7" by (simp add: flag_bits bit_simps del: push_bit_of_1)
  then show "(0x80 OR ucast (x AND mask 7) :: u8) AND 0x80 \<noteq> 0" unfolding flag_bits(2) and_flag by simp
  show "ucast ((0x80 OR ucast (x AND mask 7) :: u8) AND 0x7f) = take_bit 7 x"
    by (rule bit_eqI) (auto simp: flag_bits low_masks bit_simps simp del: push_bit_of_1)
qed

lemma readChunks_enc:
  "readChunks n acc (at_bytes (pre @ enc_chunks n v @ post) (length pre))
     = Inr (push_bit (7 * n) acc OR take_bit (7 * n) v,
         at_bytes (pre @ enc_chunks n v @ post) (length pre + n))"
proof (induction n arbitrary: acc pre)
  case 0
  then show ?case by simp
next
  case (Suc n)
  let ?b = "0x80 OR ucast (drop_bit (7 * n) v AND mask 7) :: u8"
  have join: "push_bit (7 * n) (push_bit 7 acc OR take_bit 7 (drop_bit (7 * n) v)) OR take_bit (7 * n) v
      = push_bit (7 * Suc n) acc OR take_bit (7 * Suc n) v"
    by (rule bit_eqI) (auto simp: bit_simps add.commute)
  have "readChunks n (push_bit 7 acc OR take_bit 7 (drop_bit (7 * n) v))
      (at_bytes ((pre @ [?b]) @ enc_chunks n v @ post) (length (pre @ [?b])))
      = Inr (push_bit (7 * Suc n) acc OR take_bit (7 * Suc n) v,
          at_bytes ((pre @ [?b]) @ enc_chunks n v @ post) (length (pre @ [?b]) + n))"
    unfolding Suc.IH join ..
  then show ?case
    using chunk_byte [of "drop_bit (7 * n) v"] by (simp add: enc_chunks_Suc readByte_mid)
qed

lemma chunk_count_props: "drop_bit (7 * chunk_count v) v = 0" "chunk_count v \<le> 10"
proof -
  let ?xs = "filter (\<lambda>n. drop_bit (7 * n) v = 0) [0..<11]"
  have "10 \<in> set ?xs" by (simp add: drop_bit_eq_zero_iff_not_bit_last) 
  then have "hd ?xs \<in> set ?xs" by (metis empty_iff hd_in_set list.set(1))
  then show "drop_bit (7 * chunk_count v) v = 0" "chunk_count v \<le> 10" by (auto simp: chunk_count_def)
qed

lemma chunk_count_enough: "take_bit (7 * chunk_count v) v = v"
  using chunk_count_props(1) [of v] by (metis add_0 bits_ident push_bit_of_0)

definition enc_int :: "u64 \<Rightarrow> u8 list" where
  "enc_int v = enc_chunks (chunk_count v) v"

lemma readInteger_enc:
  "readInteger (at_bytes (pre @ enc_int v @ post) (length pre)) (chunk_count v)
     = Inr (v, at_bytes (pre @ enc_int v @ post) (length pre + length (enc_int v)))"
  using readChunks_enc [of "chunk_count v" 0 pre v post] chunk_count_enough [of v]
  by (auto simp: readInteger_def enc_int_def)

section \<open>Attributes\<close>

definition type_byte :: "nat \<Rightarrow> nat \<Rightarrow> u8" where
  "type_byte code len = of_nat (16 * code + len)"

lemma type_byte_fields:
  assumes "code < 16" "len < 16"
  shows "drop_bit 4 (type_byte code len) = of_nat code" "unat (type_byte code len AND 0x0f) = len"
proof -
  have u: "uint (type_byte code len) = 16 * int code + int len"
    unfolding type_byte_def unsigned_of_nat using assms by (simp add: take_bit_eq_mod)
  have "uint (drop_bit 4 (type_byte code len)) = drop_bit 4 (uint (type_byte code len))"
    by (rule bit_eqI) (auto simp: bit_uint_iff bit_simps dest: bit_imp_le_length)
  also have "\<dots> = int code" using assms by (simp add: drop_bit_eq_div u)
  finally show "drop_bit 4 (type_byte code len) = of_nat code"
    using assms by (simp add: word_uint_eq_iff unsigned_of_nat take_bit_nat_eq_self)
  have "uint (type_byte code len AND 0x0f) = uint (type_byte code len) AND mask 4"
    by (simp add: unsigned_and_eq mask_eq_exp_minus_1)
  also have "\<dots> = int len" using assms by (simp add: u take_bit_eq_mod flip: take_bit_eq_mask)
  finally show "unat (type_byte code len AND 0x0f) = len" by (simp add: unat_eq_nat_uint)
qed

definition enc_typed :: "nat \<Rightarrow> u64 \<Rightarrow> u8 list" where
  "enc_typed code v = type_byte code (chunk_count v) # enc_int v"

definition enc_value :: "packedAttribute \<Rightarrow> u8 list" where
  "enc_value a = (case at_Type a of
     attributeValueBool \<Rightarrow> [type_byte 1 (if at_Bool a then 1 else 0)]
   | attributeValueInt \<Rightarrow>
       (if at_Int a \<ge> 0 then enc_typed 2 (u64_of (at_Int a)) else enc_typed 3 (u64_of (- at_Int a)))
   | attributeValueUint \<Rightarrow> enc_typed 4 (at_Uint a)
   | attributeValueString \<Rightarrow> enc_typed 7 (of_nat (length (at_Text a))) @ at_Text a)"

definition enc_attr :: "packedAttribute \<Rightarrow> u8 list" where
  "enc_attr a = enc_id 0xc0 (at_ID a) @ enc_value a"

text \<open>An attribute as the parser builds it: only the field of its type is set.\<close>

definition wf_attr :: "packedAttribute \<Rightarrow> bool" where
  "wf_attr a \<longleftrightarrow> wf_id (at_ID a) \<and> fits64 (at_Int a) \<and>
     a = (let b = (new_attr (at_ID a))\<lparr>at_Type := at_Type a\<rparr> in
       case at_Type a of
         attributeValueBool \<Rightarrow> b\<lparr>at_Bool := at_Bool a\<rparr>
       | attributeValueInt \<Rightarrow> b\<lparr>at_Int := at_Int a\<rparr>
       | attributeValueUint \<Rightarrow> b\<lparr>at_Uint := at_Uint a\<rparr>
       | attributeValueString \<Rightarrow> b\<lparr>at_Text := at_Text a\<rparr>)"

text \<open>An integer attribute in front of anything.\<close>

lemma typed_reads:
  fixes pre post v code
  defines "data \<equiv> pre @ enc_typed code v @ post"
  assumes "code < 16"
  shows "readByte (at_bytes data (length pre))
      = Inr (type_byte code (chunk_count v), at_bytes data (Suc (length pre)))"
    and "drop_bit 4 (type_byte code (chunk_count v)) = of_nat code"
    and "readInteger (at_bytes data (Suc (length pre))) (unat (type_byte code (chunk_count v) AND 0x0f))
      = Inr (v, at_bytes data (length pre + length (enc_typed code v)))"
proof -
  have c: "chunk_count v < 16" using chunk_count_props(2) [of v] by simp
  show "readByte (at_bytes data (length pre))
      = Inr (type_byte code (chunk_count v), at_bytes data (Suc (length pre)))"
    by (simp add: data_def enc_typed_def readByte_mid)
  show "drop_bit 4 (type_byte code (chunk_count v)) = of_nat code" by (rule type_byte_fields(1) [OF assms(2) c])
  show "readInteger (at_bytes data (Suc (length pre))) (unat (type_byte code (chunk_count v) AND 0x0f))
      = Inr (v, at_bytes data (length pre + length (enc_typed code v)))"
    using readInteger_enc [of "pre @ [type_byte code (chunk_count v)]" v post]
    by (simp add: type_byte_fields(2) [OF assms(2) c] data_def enc_typed_def)
qed

lemma i64_of_small: "0 \<le> x \<Longrightarrow> x < 2 ^ 63 \<Longrightarrow> i64_of (u64_of x) = x"
  by (simp add: i64_id)

lemma readStringData_mid:
  assumes "length (pre @ xs @ post) < 2 ^ 63"
  shows "readStringData (at_bytes (pre @ xs @ post) (length pre)) (int (length xs))
    = Inr (xs, at_bytes (pre @ xs @ post) (length pre + length xs))"
proof -
  have "int (length pre) + int (length xs) < 2 ^ 63" using assms by simp
  then have "i64 (int (length pre) + int (length xs)) = int (length pre) + int (length xs)"
    by (intro i64_id) auto
  then show ?thesis by (simp add: readStringData_def at_bytes_def)
qed

lemma parse_typed:
  fixes pre post v code
  defines "data \<equiv> pre @ enc_typed code v @ post"
  defines "p \<equiv> at_bytes data (length pre + length (enc_typed code v))"
  shows "code = 2 \<Longrightarrow> parseAttributeValue ident (at_bytes data (length pre))
      = Inr ((new_attr ident)\<lparr>at_Type := attributeValueInt, at_Int := i64_of v\<rparr>, p)"
    and "code = 3 \<Longrightarrow> parseAttributeValue ident (at_bytes data (length pre))
      = Inr ((new_attr ident)\<lparr>at_Type := attributeValueInt, at_Int := i64 (- i64_of v)\<rparr>, p)"
    and "code = 4 \<Longrightarrow> parseAttributeValue ident (at_bytes data (length pre))
      = Inr ((new_attr ident)\<lparr>at_Type := attributeValueUint, at_Uint := v\<rparr>, p)"
    and "code = 7 \<Longrightarrow> parseAttributeValue ident (at_bytes data (length pre))
      = then_step (readStringData p (i64_of v)) (\<lambda>(text, p).
          Inr ((new_attr ident)\<lparr>at_Type := attributeValueString, at_Text := text\<rparr>, p))"
  unfolding p_def data_def by (simp_all add: parseAttributeValue_def Let_def typed_reads)

lemma parse_value_enc:
  assumes "wf_attr a" "length (pre @ enc_value a @ post) < 2 ^ 63"
  shows "parseAttributeValue (at_ID a) (at_bytes (pre @ enc_value a @ post) (length pre))
    = Inr (a, at_bytes (pre @ enc_value a @ post) (length pre + length (enc_value a)))"
proof (cases "at_Type a")
  case attributeValueBool
  then have "a = (new_attr (at_ID a))\<lparr>at_Type := attributeValueBool, at_Bool := at_Bool a\<rparr>"
    using assms(1) by (simp add: wf_attr_def Let_def)
  then show ?thesis using attributeValueBool type_byte_fields [of 1 "if at_Bool a then 1 else 0"]
    by (auto simp: enc_value_def parseAttributeValue_def Let_def readByte_mid)
next
  case attributeValueInt
  then have a: "a = (new_attr (at_ID a))\<lparr>at_Type := attributeValueInt, at_Int := at_Int a\<rparr>"
    and f: "fits64 (at_Int a)" using assms(1) by (simp_all add: wf_attr_def Let_def)
  show ?thesis
  proof (cases "at_Int a \<ge> 0")
    case True
    then have "i64_of (u64_of (at_Int a)) = at_Int a" using f by (intro i64_of_small) (auto simp: fits64_def)
    with True attributeValueInt a show ?thesis by (simp add: enc_value_def parse_typed(1))
  next
    case False
    have "i64 (- i64 (- at_Int a)) = at_Int a"
    proof (cases "at_Int a = - (2 ^ 63)")
      case True
      then show ?thesis by (simp add: i64_def)
    next
      case False
      then have "- (2 ^ 63) \<le> - at_Int a" "- at_Int a < 2 ^ 63" using f \<open>\<not> at_Int a \<ge> 0\<close> by (auto simp: fits64_def)
      then show ?thesis using f by (simp add: i64_id fits64_def)
    qed
    with False attributeValueInt a show ?thesis by (simp add: enc_value_def parse_typed(2))
  qed
next
  case attributeValueUint
  then have a: "a = (new_attr (at_ID a))\<lparr>at_Type := attributeValueUint, at_Uint := at_Uint a\<rparr>"
    using assms(1) by (simp add: wf_attr_def Let_def)
  with attributeValueUint show ?thesis by (simp add: enc_value_def parse_typed(3))
next
  case attributeValueString
  let ?t = "at_Text a" and ?n = "of_nat (length (at_Text a)) :: u64"
  have a: "a = (new_attr (at_ID a))\<lparr>at_Type := attributeValueString, at_Text := ?t\<rparr>"
    using assms(1) attributeValueString by (simp add: wf_attr_def Let_def)
  have v: "enc_value a = enc_typed 7 ?n @ ?t" using attributeValueString by (simp add: enc_value_def)
  have "i64_of (u64_of (int (length ?t))) = int (length ?t)"
    using assms(2) v by (intro i64_of_small) auto
  then have n: "i64_of ?n = int (length ?t)" by (simp add: u64_of_def)
  have "readStringData (at_bytes ((pre @ enc_typed 7 ?n) @ ?t @ post) (length (pre @ enc_typed 7 ?n)))
      (int (length ?t)) = Inr (?t, at_bytes ((pre @ enc_typed 7 ?n) @ ?t @ post) (length (pre @ enc_typed 7 ?n) + length ?t))"
    using assms(2) v by (intro readStringData_mid) simp
  then show ?thesis using a n parse_typed(4) [of 7 "at_ID a" pre ?n "?t @ post"] by (simp add: v add.assoc)
qed

lemma parseAttribute_enc:
  assumes "wf_attr a" "length (pre @ enc_attr a @ post) < 2 ^ 63"
  shows "parseAttribute (at_bytes (pre @ enc_attr a @ post) (length pre))
    = Inr (a, at_bytes (pre @ enc_attr a @ post) (length pre + length (enc_attr a)))"
proof -
  have "wf_id (at_ID a)" using assms(1) by (simp add: wf_attr_def)
  then obtain b bs where id: "enc_id 0xc0 (at_ID a) = b # bs" "b AND 0xc0 = 0xc0"
    and rd: "\<And>pre post. readID (at_bytes (pre @ b # bs @ post) (Suc (length pre))) b
      = Inr (at_ID a, at_bytes (pre @ b # bs @ post) (Suc (length pre) + length bs))"
    using enc_id_first [of "at_ID a" "0xc0"] by auto
  have "parseAttributeValue (at_ID a) (at_bytes ((pre @ b # bs) @ enc_value a @ post) (length (pre @ b # bs)))
    = Inr (a, at_bytes ((pre @ b # bs) @ enc_value a @ post) (length (pre @ b # bs) + length (enc_value a)))"
    using assms id(1) by (intro parse_value_enc) (simp_all add: enc_attr_def)
  then show ?thesis
    using id rd [of pre "enc_value a @ post"] by (simp add: parseAttribute_def enc_attr_def readByte_mid ac_simps)
qed

interpretation attr_codec: packed_codec wf_attr enc_attr parseAttribute
  by unfold_locales (rule parseAttribute_enc)

section \<open>Elements\<close>

primrec enc_elem :: "packedElement \<Rightarrow> u8 list" where
  "enc_elem (PackedElement ident attrs children) =
     enc_id 0x40 ident @ concat (map enc_attr attrs) @ concat (map enc_elem children) @ enc_id 0x80 ident"

primrec wf_elem :: "packedElement \<Rightarrow> bool" where
  "wf_elem (PackedElement ident attrs children) \<longleftrightarrow>
     wf_id ident \<and> list_all wf_attr attrs \<and> list_all id (map wf_elem children)"

lemma enc_id_ne: "enc_id h i \<noteq> []" "0 < length (enc_id h i)"
  by (simp_all add: enc_id_def)

lemma enc_attr_len: "0 < length (enc_attr a)"
  using enc_id_ne by (simp add: enc_attr_def)

lemma enc_elem_len: "2 \<le> length (enc_elem e)"
proof (cases e)
  case (PackedElement i as cs)
  have "1 \<le> length (enc_id 0x40 i)" "1 \<le> length (enc_id 0x80 i)"
    using enc_id_ne(2) [of "0x40" i] enc_id_ne(2) [of "0x80" i] by linarith+
  with PackedElement show ?thesis by simp
qed

lemma enc_id_head:
  assumes "wf_id i" "h \<in> {0x40, 0x80, 0xc0}"
  obtains b bs where "enc_id h i = b # bs" "b AND 0xc0 = h"
  using enc_id_first [OF assms] by metis

lemma enc_attr_head:
  assumes "wf_attr a" obtains b bs where "enc_attr a = b # bs" "b AND 0xc0 = 0xc0"
proof -
  have "wf_id (at_ID a)" using assms by (simp add: wf_attr_def)
  then obtain b bs where "enc_id 0xc0 (at_ID a) = b # bs" "b AND 0xc0 = 0xc0"
    by (rule enc_id_head [of _ "0xc0"]) auto
  then show ?thesis using that by (simp add: enc_attr_def)
qed

lemma enc_elem_head:
  assumes "wf_elem e" obtains b bs where "enc_elem e = b # bs" "b AND 0xc0 = 0x40"
proof (cases e)
  case (PackedElement i as cs)
  then obtain b bs where "enc_id 0x40 i = b # bs" "b AND 0xc0 = 0x40"
    using assms enc_id_head [of i "0x40"] by auto
  then show ?thesis using that PackedElement by simp
qed

lemma parseAttrs_enc:
  assumes "list_all wf_attr as" "b AND 0xc0 \<noteq> 0xc0" "length as < k"
    and "length (pre @ concat (map enc_attr as) @ b # post) < 2 ^ 63"
  shows "parseAttrs k (at_bytes (pre @ concat (map enc_attr as) @ b # post) (length pre))
    = Inr (as, at_bytes (pre @ concat (map enc_attr as) @ b # post) (length pre + length (concat (map enc_attr as))))"
  using assms
proof (induction as arbitrary: pre k)
  case Nil
  then obtain j where "k = Suc j" using less_imp_Suc_add by auto
  with Nil show ?case by (simp add: peekByte_mid)
next
  case (Cons a as)
  obtain j where j: "k = Suc j" using Cons.prems(3) by (cases k) auto
  obtain c cs where c: "enc_attr a = c # cs" "c AND 0xc0 = 0xc0"
    using Cons.prems(1) by (auto elim: enc_attr_head)
  let ?data = "pre @ enc_attr a @ concat (map enc_attr as) @ b # post"
  have "parseAttribute (at_bytes ?data (length pre)) = Inr (a, at_bytes ?data (length pre + length (enc_attr a)))"
    by (rule attr_codec.decodes_at [where post = "concat (map enc_attr as) @ b # post"])
      (use Cons.prems in simp_all)
  moreover have "peekByte (at_bytes ?data (length pre)) = Inr c"
    using peekByte_mid [of pre c "cs @ concat (map enc_attr as) @ b # post"] c by simp
  moreover have "parseAttrs j (at_bytes ((pre @ enc_attr a) @ concat (map enc_attr as) @ b # post) (length (pre @ enc_attr a)))
    = Inr (as, at_bytes ((pre @ enc_attr a) @ concat (map enc_attr as) @ b # post)
        (length (pre @ enc_attr a) + length (concat (map enc_attr as))))"
    using Cons.prems j by (intro Cons.IH) simp_all
  ultimately show ?case using c j by (simp add: ac_simps)
qed

lemma parseChildren_enc:
  assumes "\<And>c k pre post. \<lbrakk>c \<in> set cs; wf_elem c; 2 * length (enc_elem c) + 1 \<le> k;
      length (pre @ enc_elem c @ post) < 2 ^ 63\<rbrakk> \<Longrightarrow>
    parseElement k (at_bytes (pre @ enc_elem c @ post) (length pre))
      = Inr (c, at_bytes (pre @ enc_elem c @ post) (length pre + length (enc_elem c)))"
    and "wf_id i" "list_all wf_elem cs" "2 * length (concat (map enc_elem cs)) + 2 \<le> k"
    and "data = pre @ concat (map enc_elem cs) @ enc_id 0x80 i @ post" "length data < 2 ^ 63"
  shows "parseChildren k i (at_bytes data (length pre))
    = Inr (cs, at_bytes data (length pre + length (concat (map enc_elem cs)) + length (enc_id 0x80 i)))"
  using assms
proof (induction cs arbitrary: pre k)
  case Nil
  obtain j where k: "k = Suc j" using Nil.prems(4) by (cases k) auto
  obtain b bs where b: "enc_id 0x80 i = b # bs" "b AND 0xc0 = 0x80"
    and rd: "\<And>pre post. readID (at_bytes (pre @ b # bs @ post) (Suc (length pre))) b
      = Inr (i, at_bytes (pre @ b # bs @ post) (Suc (length pre) + length bs))"
    using enc_id_first [OF assms(2), of "0x80"] by auto
  then show ?case using k Nil.prems(5) by (simp add: peekByte_mid readByte_mid)
next
  case (Cons c cs)
  obtain j where k: "k = Suc j" using Cons.prems(4) by (cases k) auto
  let ?rest = "concat (map enc_elem cs) @ enc_id 0x80 i @ post"
  have wf: "wf_elem c" "list_all wf_elem cs" using Cons.prems(3) by simp_all
  obtain b bs where b: "enc_elem c = b # bs" "b AND 0xc0 = 0x40" using wf(1) by (rule enc_elem_head)
  have data: "data = pre @ enc_elem c @ ?rest" using Cons.prems(5) by simp
  have "parseElement j (at_bytes data (length pre)) = Inr (c, at_bytes data (length pre + length (enc_elem c)))"
    unfolding data using Cons.prems(4,6) k data wf by (intro Cons.prems(1)) simp_all
  moreover have "parseChildren j i (at_bytes data (length (pre @ enc_elem c)))
      = Inr (cs, at_bytes data (length (pre @ enc_elem c) + length (concat (map enc_elem cs)) + length (enc_id 0x80 i)))"
    using Cons.prems k wf enc_elem_len [of c] by (intro Cons.IH) (auto simp: data)
  moreover have "peekByte (at_bytes data (length pre)) = Inr b"
    using peekByte_mid [of pre b "bs @ ?rest"] b data by simp
  ultimately show ?case using b k by (simp add: ac_simps)
qed

lemma parseElement_enc:
  assumes "wf_elem e" "2 * length (enc_elem e) + 1 \<le> k" "length (pre @ enc_elem e @ post) < 2 ^ 63"
  shows "parseElement k (at_bytes (pre @ enc_elem e @ post) (length pre))
    = Inr (e, at_bytes (pre @ enc_elem e @ post) (length pre + length (enc_elem e)))"
  using assms
proof (induction e arbitrary: k pre post)
  case (PackedElement i as cs)
  obtain j where k: "k = Suc j" using PackedElement.prems(2) by (cases k) auto
  have wf: "wf_id i" "list_all wf_attr as" "list_all wf_elem cs"
    using PackedElement.prems(1) by (simp_all add: list_all_iff)
  obtain b bs where b: "enc_id 0x40 i = b # bs" "b AND 0xc0 = 0x40"
    and rd: "\<And>pre post. readID (at_bytes (pre @ b # bs @ post) (Suc (length pre))) b
      = Inr (i, at_bytes (pre @ b # bs @ post) (Suc (length pre) + length bs))"
    using enc_id_first [OF wf(1), of "0x40"] by auto
  let ?A = "concat (map enc_attr as)" and ?C = "concat (map enc_elem cs)"
  let ?data = "pre @ enc_elem (PackedElement i as cs) @ post"
  obtain d ds where d: "?C @ enc_id 0x80 i @ post = d # ds" "d AND 0xc0 \<noteq> 0xc0"
  proof (cases cs)
    case Nil
    obtain x xs where "enc_id 0x80 i = x # xs" "x AND 0xc0 = 0x80"
      using enc_id_head [OF wf(1), of "0x80"] by auto
    with Nil show ?thesis using that by simp
  next
    case (Cons c cs')
    then have "wf_elem c" using wf(3) by simp
    then obtain x xs where "enc_elem c = x # xs" "x AND 0xc0 = 0x40" by (rule enc_elem_head)
    with Cons show ?thesis using that by simp
  qed
  have len: "length as \<le> length ?A"
    using enc_attr_len by (induction as) (auto simp: Suc_le_eq intro: add_le_mono [of 1, simplified])
  have eq: "(pre @ b # bs) @ ?A @ d # ds = ?data" using b(1) d(1) by simp
  have "parseAttrs j (at_bytes ((pre @ b # bs) @ ?A @ d # ds) (length (pre @ b # bs)))
      = Inr (as, at_bytes ((pre @ b # bs) @ ?A @ d # ds) (length (pre @ b # bs) + length ?A))"
  proof (rule parseAttrs_enc [OF wf(2) d(2)])
    have "length ?A < length (enc_elem (PackedElement i as cs))" using enc_id_ne(2) [of "0x40" i] by simp
    then show "length as < j" using PackedElement.prems(2) k len by linarith
    show "length ((pre @ b # bs) @ ?A @ d # ds) < 2 ^ 63" unfolding eq by (rule PackedElement.prems(3))
  qed
  then have attrs: "parseAttrs j (at_bytes ?data (Suc (length pre + length bs)))
      = Inr (as, at_bytes ?data (length pre + length (enc_id 0x40 i @ ?A)))" unfolding eq using b(1) by (simp add: ac_simps)
  have "parseChildren j i (at_bytes ?data (length (pre @ enc_id 0x40 i @ ?A)))
      = Inr (cs, at_bytes ?data (length (pre @ enc_id 0x40 i @ ?A) + length ?C + length (enc_id 0x80 i)))"
  proof (rule parseChildren_enc [OF _ wf(1,3)])
    show "2 * length ?C + 2 \<le> j" using PackedElement.prems(2) k b(1) by auto
    show "?data = (pre @ enc_id 0x40 i @ ?A) @ ?C @ enc_id 0x80 i @ post" by simp
    show "length ?data < 2 ^ 63" by (rule PackedElement.prems(3))
  qed (rule PackedElement.IH)
  then show ?case
    using attrs k b rd [of pre "?A @ ?C @ enc_id 0x80 i @ post"] readByte_mid [of pre b "bs @ ?A @ ?C @ enc_id 0x80 i @ post"]
    by (simp add: ac_simps)
qed

text \<open>
  C13: what a packed writer emits for a well-formed element, \<^verbatim>\<open>parsePackedElement\<close> reads back as
  that element, with nothing left over.
\<close>

theorem packed_roundtrip:
  assumes "wf_elem e" "length (enc_elem e) < 2 ^ 63"
  shows "parsePackedElement (enc_elem e) = Inr e"
  using parseElement_enc [of e "2 * length (enc_elem e) + 1" "[]" "[]"] assms
  by (simp add: parsePackedElement_def at_bytes_def)

theorem packed_roundtrip_witness:
  "parsePackedElement (enc_elem (PackedElement 40
     [\<lparr>at_ID = 3, at_Type = attributeValueInt, at_Bool = False, at_Int = -300, at_Uint = 0, at_Text = []\<rparr>]
     [PackedElement 7 [] []]))
   = Inr (PackedElement 40
     [\<lparr>at_ID = 3, at_Type = attributeValueInt, at_Bool = False, at_Int = -300, at_Uint = 0, at_Text = []\<rparr>]
     [PackedElement 7 [] []])"
proof (rule packed_roundtrip)
  show "wf_elem (PackedElement 40
     [\<lparr>at_ID = 3, at_Type = attributeValueInt, at_Bool = False, at_Int = -300, at_Uint = 0, at_Text = []\<rparr>]
     [PackedElement 7 [] []])" by code_simp
  show "length (enc_elem (PackedElement 40
     [\<lparr>at_ID = 3, at_Type = attributeValueInt, at_Bool = False, at_Int = -300, at_Uint = 0, at_Text = []\<rparr>]
     [PackedElement 7 [] []])) < 2 ^ 63"
    using chunk_count_props(2) [of "u64_of 300"] by (simp add: enc_id_def enc_attr_def enc_value_def enc_typed_def enc_int_def)
qed

interpretation elem_codec: packed_codec wf_elem enc_elem "\<lambda>p. parseElement (2 * length (pp_data p) + 1) p"
proof
  fix a pre post assume "wf_elem a" "length (pre @ enc_elem a @ post) < 2 ^ 63"
  then show "parseElement (2 * length (pp_data (at_bytes (pre @ enc_elem a @ post) (length pre))) + 1)
      (at_bytes (pre @ enc_elem a @ post) (length pre))
    = Inr (a, at_bytes (pre @ enc_elem a @ post) (length pre + length (enc_elem a)))"
    by (intro parseElement_enc) (simp_all add: at_bytes_def)
qed

section \<open>The parser always ends\<close>

text \<open>
  \<open>reads d p r\<close>: the result \<open>r\<close> of a read from \<open>p\<close> is not an exhausted budget, and a successful
  one consumed at least \<open>d\<close> bytes.
\<close>

definition bytes_left :: "packedParser \<Rightarrow> nat" where
  "bytes_left p = length (pp_data p) - pp_pos p"

definition reads :: "nat \<Rightarrow> packedParser \<Rightarrow> 'a packed_result \<Rightarrow> bool" where
  "reads d p r \<longleftrightarrow> (case r of Inl e \<Rightarrow> e \<noteq> OutOfFuel | Inr (x, q) \<Rightarrow> bytes_left q + d \<le> bytes_left p)"

lemma reads_Inl [simp]: "reads d p (Inl e) \<longleftrightarrow> e \<noteq> OutOfFuel"
  and reads_Inr [simp]: "reads d p (Inr (x, q)) \<longleftrightarrow> bytes_left q + d \<le> bytes_left p"
  by (simp_all add: reads_def)

lemma reads_mono: "reads d p r \<Longrightarrow> c \<le> d \<Longrightarrow> reads c p r"
  by (auto simp: reads_def split: sum.splits)

lemma reads_bind:
  assumes "reads d p r" "\<And>x q. bytes_left q + d \<le> bytes_left p \<Longrightarrow> reads (e - d) q (f (x, q))"
  shows "reads e p (then_step r f)"
proof (cases r)
  case (Inr y)
  obtain x q where y: "y = (x, q)" by fastforce
  then have le: "bytes_left q + d \<le> bytes_left p" using assms(1) Inr by simp
  with assms(2) [OF le, of x] show ?thesis unfolding Inr y
    by (cases "f (x, q)") (auto simp: reads_def)
qed (use assms(1) in simp)

lemma reads_if:
  "\<lbrakk>c \<Longrightarrow> reads d p a; \<not> c \<Longrightarrow> reads d p b\<rbrakk> \<Longrightarrow> reads d p (if c then a else b)"
  by simp

lemma reads_peek:
  "\<lbrakk>\<And>h. reads d p (f h)\<rbrakk> \<Longrightarrow> reads d p (then_step (peekByte p) f)"
  by (simp add: peekByte_def)

lemma readByte_reads: "reads 1 p (readByte p)"
  by (auto simp: readByte_def bytes_left_def)

lemma readID_reads: "reads 0 p (readID p h)"
  unfolding readID_def Let_def
  by (intro reads_if reads_bind [OF readByte_reads]) (simp_all add: reads_if)

lemma readChunks_reads: "reads n p (readChunks n v p)"
proof (induction n arbitrary: v p)
  case (Suc n)
  then show ?case by (auto intro!: reads_bind [OF readByte_reads])
qed simp

lemma readInteger_reads: "reads 0 p (readInteger p n)"
  by (simp add: readInteger_def reads_mono [OF readChunks_reads])

lemma readStringData_reads: "reads 0 p (readStringData p n)"
  by (auto simp: readStringData_def bytes_left_def)

lemma parseAttributeValue_reads: "reads 1 p (parseAttributeValue i p)"
  unfolding parseAttributeValue_def
  by (rule reads_bind [OF readByte_reads])
    (auto simp: Let_def intro!: reads_bind [OF readInteger_reads] reads_bind [OF readStringData_reads])

lemma parseAttribute_reads: "reads 2 p (parseAttribute p)"
  unfolding parseAttribute_def
  by (rule reads_bind [OF readByte_reads])
    (auto intro!: reads_bind [OF readID_reads] parseAttributeValue_reads [unfolded One_nat_def])

lemma parseAttrs_reads: "bytes_left p < k \<Longrightarrow> reads 0 p (parseAttrs k p)"
proof (induction k arbitrary: p)
  case (Suc k)
  then show ?case
    by (auto intro!: reads_peek reads_bind [OF parseAttribute_reads] reads_bind [OF Suc.IH])
qed simp

lemma parse_reads:
  "(\<forall>p. 2 * bytes_left p + 1 \<le> k \<longrightarrow> reads 1 p (parseElement k p)) \<and>
   (\<forall>i p. 2 * bytes_left p + 2 \<le> k \<longrightarrow> reads 0 p (parseChildren k i p))"
proof (induction k)
  case (Suc k)
  have elem: "reads 1 p (parseElement k p)" if "2 * bytes_left p + 1 \<le> k" for p
    using Suc.IH that by blast
  have children: "reads 0 p (parseChildren k i p)" if "2 * bytes_left p + 2 \<le> k" for i p
    using Suc.IH that by blast
  have "reads 1 p (parseElement (Suc k) p)" if "2 * bytes_left p + 1 \<le> Suc k" for p
    unfolding parseElement.simps
    by (rule reads_bind [OF readByte_reads])
      (use that in \<open>auto intro!: reads_bind [OF readID_reads] reads_bind [OF parseAttrs_reads] reads_bind [OF children]\<close>)
  moreover have "reads 0 p (parseChildren (Suc k) i p)" if "2 * bytes_left p + 2 \<le> Suc k" for i p
    unfolding parseChildren.simps
    by (rule reads_peek, intro reads_if)
      (use that in \<open>auto intro!: reads_bind [OF elem] reads_bind [OF children] reads_bind [OF readByte_reads]
        reads_bind [OF readID_reads]\<close>)
  ultimately show ?case by blast
qed simp

text \<open>
  C14: the recursive descent ends on every input: with the budget \<^verbatim>\<open>parsePackedElement\<close> starts
  with, two units per byte, it never runs out.
\<close>

theorem packed_parse_ends: "parsePackedElement data \<noteq> Inl OutOfFuel"
proof -
  have "reads 1 \<lparr>pp_data = data, pp_pos = 0\<rparr> (parseElement (2 * length data + 1) \<lparr>pp_data = data, pp_pos = 0\<rparr>)"
    by (rule parse_reads [THEN conjunct1, rule_format]) (simp add: bytes_left_def)
  then show ?thesis
    by (auto simp: parsePackedElement_def reads_def then_step_Inl split: sum.splits if_splits)
qed

text \<open>
  A string length close to the largest \<^verbatim>\<open>int\<close> makes \<^verbatim>\<open>p.pos+length\<close> wrap: the bounds check passes
  and the slice expression panics. Thirteen bytes are enough.
\<close>

lemma packed_string_panic:
  "parsePackedElement [0x41, 0xc1, 0x79, 0xff, 0xff, 0xff, 0xff, 0xff, 0xff, 0xff, 0xff, 0xff, 0x81]
     = Inl PanicSlice"
  by code_simp

end
