(* ===== verification/Address_Space.thy ===== *)
theory Address_Space
  imports Go_Prelude
begin

text \<open>
  \<^verbatim>\<open>pkg/address/address.go\<close> and \<^verbatim>\<open>space.go\<close>: address spaces and addresses. A \<^verbatim>\<open>*Space\<close> is a
  reference into a store of spaces (\<open>None\<close> is \<^verbatim>\<open>nil\<close>); Go compares such pointers by identity,
  the model compares references. Operations that dereference take the store as argument.
\<close>

section \<open>Spaces\<close>

type_synonym space_ref = nat

datatype SpaceKind = SpaceKindProcessor | SpaceKindConstant | SpaceKindUnique | SpaceKindJoin
  | SpaceKindIop | SpaceKindFspec | SpaceKindStack | SpaceKindOther

primrec SpaceKind_String :: "SpaceKind \<Rightarrow> string" where
  "SpaceKind_String SpaceKindProcessor = ''processor''"
| "SpaceKind_String SpaceKindConstant = ''constant''"
| "SpaceKind_String SpaceKindUnique = ''unique''"
| "SpaceKind_String SpaceKindJoin = ''join''"
| "SpaceKind_String SpaceKindIop = ''iop''"
| "SpaceKind_String SpaceKindFspec = ''fspec''"
| "SpaceKind_String SpaceKindStack = ''stack''"
| "SpaceKind_String SpaceKindOther = ''other''"

record SpacebaseData =
  sb_Space :: "space_ref option"
  sb_Offset :: u64
  sb_Size :: int

record Space =
  sp_Name :: string
  sp_Kind :: SpaceKind
  sp_Index :: u16
  sp_AddrSize :: u8
  sp_WordSize :: u8
  sp_BigEndian :: bool
  sp_Physical :: bool
  sp_Delay :: int
  sp_Truncated :: bool
  sp_spacebases :: "SpacebaseData list"

type_synonym space_store = "space_ref \<Rightarrow> Space"

text \<open>Methods on a possibly nil receiver.\<close>

definition NumSpacebase :: "Space option \<Rightarrow> int" where
  "NumSpacebase s = (case s of None \<Rightarrow> 0 | Some s \<Rightarrow> int (length (sp_spacebases s)))"

definition GetSpacebase :: "Space option \<Rightarrow> int \<Rightarrow> SpacebaseData" where
  "GetSpacebase s i =
     (let zero = \<lparr>sb_Space = None, sb_Offset = 0, sb_Size = 0\<rparr> in
      case s of None \<Rightarrow> zero
      | Some s \<Rightarrow> if i < 0 \<or> i \<ge> int (length (sp_spacebases s)) then zero else sp_spacebases s ! nat i)"

definition AddSpacebase :: "Space option \<Rightarrow> SpacebaseData \<Rightarrow> Space option" where
  "AddSpacebase s sb =
     (case s of None \<Rightarrow> None
      | Some s \<Rightarrow>
          if sb_Space sb = None \<or> sb_Size sb = 0 then Some s
          else if List.member (sp_spacebases s) sb then Some s
          else Some (s\<lparr>sp_spacebases := sp_spacebases s @ [sb]\<rparr>))"

definition IsTruncated :: "Space option \<Rightarrow> bool" where
  "IsTruncated s = (case s of None \<Rightarrow> False | Some s \<Rightarrow> sp_Truncated s)"

datatype space_error = ErrNilSpace | ErrNameRequired | ErrAddrSize string | ErrWordSize string
  | ErrDelay string

definition Space_Validate :: "Space \<Rightarrow> space_error option" where
  "Space_Validate s =
     (if sp_Name s = '''' then Some ErrNameRequired
      else if sp_AddrSize s = 0 then Some (ErrAddrSize (sp_Name s))
      else if sp_WordSize s = 0 then Some (ErrWordSize (sp_Name s))
      else if sp_Delay s < 0 then Some (ErrDelay (sp_Name s))
      else None)"

definition IsConstant :: "Space \<Rightarrow> bool" where
  "IsConstant s = (sp_Kind s = SpaceKindConstant)"

definition IsUnique :: "Space \<Rightarrow> bool" where
  "IsUnique s = (sp_Kind s = SpaceKindUnique)"

section \<open>Addresses\<close>

record Address =
  ad_Space :: "space_ref option"
  ad_Offset :: u64

definition IsInvalid :: "Address \<Rightarrow> bool" where
  "IsInvalid a = (ad_Space a = None)"

definition Address_Validate :: "space_store \<Rightarrow> Address \<Rightarrow> space_error option" where
  "Address_Validate \<sigma> a =
     (case ad_Space a of None \<Rightarrow> Some ErrNilSpace | Some s \<Rightarrow> Space_Validate (\<sigma> s))"

definition Less :: "space_store \<Rightarrow> Address \<Rightarrow> Address \<Rightarrow> bool" where
  "Less \<sigma> a other =
     (case ad_Space a of
        None \<Rightarrow> ad_Space other \<noteq> None
      | Some s \<Rightarrow> (case ad_Space other of
          None \<Rightarrow> False
        | Some t \<Rightarrow>
            if sp_Index (\<sigma> s) \<noteq> sp_Index (\<sigma> t) then sp_Index (\<sigma> s) < sp_Index (\<sigma> t)
            else ad_Offset a < ad_Offset other))"

definition Address_Add :: "Address \<Rightarrow> u64 \<Rightarrow> Address" where
  "Address_Add a delta =
     (case ad_Space a of None \<Rightarrow> a | Some _ \<Rightarrow> a\<lparr>ad_Offset := ad_Offset a + delta\<rparr>)"

section \<open>Laws\<close>

text \<open>The key \<open>Less\<close> compares: the missing space first, then index and offset.\<close>

definition addr_key :: "space_store \<Rightarrow> Address \<Rightarrow> (u16 \<times> u64) option" where
  "addr_key \<sigma> a = map_option (\<lambda>s. (sp_Index (\<sigma> s), ad_Offset a)) (ad_Space a)"

definition key_less :: "(u16 \<times> u64) option \<Rightarrow> (u16 \<times> u64) option \<Rightarrow> bool" where
  "key_less x y = (case (x, y) of (None, None) \<Rightarrow> False | (None, Some _) \<Rightarrow> True | (Some _, None) \<Rightarrow> False
     | (Some (i, p), Some (j, q)) \<Rightarrow> i < j \<or> (i = j \<and> p < q))"

lemma Less_key: "Less \<sigma> a b \<longleftrightarrow> key_less (addr_key \<sigma> a) (addr_key \<sigma> b)"
  by (auto simp: Less_def addr_key_def key_less_def split: option.splits)

lemma key_less_trans: "key_less x y \<Longrightarrow> key_less y z \<Longrightarrow> key_less x z"
  by (auto simp: key_less_def split: option.splits)

lemma key_less_linear: "key_less x y \<or> x = y \<or> key_less y x"
  by (auto simp: key_less_def split: option.splits)

lemma key_less_irrefl: "\<not> key_less x x"
  by (auto simp: key_less_def split: option.splits)

text \<open>
  A strict order of addresses as the ordered containers of the decompiler rely on it: a
  comparison that is irreflexive, transitive and decides any two addresses with different keys.
\<close>

locale strict_order_on =
  fixes less :: "'a \<Rightarrow> 'a \<Rightarrow> bool" and same :: "'a \<Rightarrow> 'a \<Rightarrow> bool"
  assumes irrefl: "same a b \<Longrightarrow> \<not> less a b"
    and trans: "less a b \<Longrightarrow> less b c \<Longrightarrow> less a c"
    and total: "same a b \<or> less a b \<or> less b a"
    and refl: "same a a"
    and sym: "same a b \<Longrightarrow> same b a"
begin

lemma asym: "less a b \<Longrightarrow> \<not> less b a"
  using trans [of a b a] irrefl [OF refl] by blast

text \<open>A list sorted by the comparison, without equals, holds each element at one place only.\<close>

lemma sorted_wrt_distinct: "sorted_wrt less xs \<Longrightarrow> distinct xs"
proof (induction xs)
  case (Cons x xs)
  then show ?case using asym by auto
qed simp

lemma sorted_wrt_unique:
  "\<lbrakk>sorted_wrt less xs; sorted_wrt less ys; set xs = set ys\<rbrakk> \<Longrightarrow> xs = ys"
proof (induction xs arbitrary: ys)
  case (Cons x xs)
  from Cons.prems(3) obtain y ys' where ys: "ys = y # ys'" by (cases ys) auto
  have "x = y"
  proof (rule ccontr)
    assume "x \<noteq> y"
    then have "x \<in> set ys'" "y \<in> set xs" using Cons.prems(3) ys by auto
    then have "less y x" "less x y" using Cons.prems(1,2) ys by auto
    then show False using asym by blast
  qed
  moreover have "x \<notin> set xs" "y \<notin> set ys'"
    using Cons.prems(1,2) ys sorted_wrt_distinct by fastforce+
  ultimately have "set xs = set ys'" using Cons.prems(3) ys by auto
  then show ?case using Cons ys \<open>x = y\<close> by simp
qed simp

end

interpretation address_order: strict_order_on "Less \<sigma>" "\<lambda>a b. addr_key \<sigma> a = addr_key \<sigma> b" for \<sigma>
proof
  fix a b c
  show "addr_key \<sigma> a = addr_key \<sigma> b \<Longrightarrow> \<not> Less \<sigma> a b" by (simp add: Less_key key_less_irrefl)
  show "Less \<sigma> a b \<Longrightarrow> Less \<sigma> b c \<Longrightarrow> Less \<sigma> a c" using key_less_trans by (auto simp: Less_key)
  show "addr_key \<sigma> a = addr_key \<sigma> b \<or> Less \<sigma> a b \<or> Less \<sigma> b a" using key_less_linear by (auto simp: Less_key)
qed simp_all

text \<open>
  C18: \<^verbatim>\<open>Less\<close> is a strict order (irreflexive, asymmetric, transitive), it decides any two addresses
  of spaces with different indices or offsets, and so two lists of addresses that are sorted
  by it and hold the same addresses are the same list.
\<close>

theorem Less_order:
  "\<not> Less \<sigma> a a \<and> (Less \<sigma> a b \<and> Less \<sigma> b c \<longrightarrow> Less \<sigma> a c)
    \<and> (addr_key \<sigma> a \<noteq> addr_key \<sigma> b \<longrightarrow> Less \<sigma> a b \<noteq> Less \<sigma> b a)
    \<and> (sorted_wrt (Less \<sigma>) xs \<and> sorted_wrt (Less \<sigma>) ys \<and> set xs = set ys \<longrightarrow> xs = ys)"
  using address_order.irrefl [of \<sigma> a a] address_order.trans [of \<sigma> a b c] address_order.total [of \<sigma> a b]
    address_order.asym [of \<sigma> a b] address_order.asym [of \<sigma> b a] address_order.sorted_wrt_unique [of \<sigma> xs ys]
  by blast

theorem Less_order_witness:
  "Less (\<lambda>i. \<lparr>sp_Name = ''ram'', sp_Kind = SpaceKindProcessor, sp_Index = of_nat i, sp_AddrSize = 8,
      sp_WordSize = 1, sp_BigEndian = False, sp_Physical = True, sp_Delay = 0, sp_Truncated = False,
      sp_spacebases = []\<rparr>)
    \<lparr>ad_Space = Some 1, ad_Offset = 9\<rparr> \<lparr>ad_Space = Some 2, ad_Offset = 3\<rparr>"
proof -
  let ?\<sigma> = "\<lambda>i. \<lparr>sp_Name = ''ram'', sp_Kind = SpaceKindProcessor, sp_Index = of_nat i, sp_AddrSize = 8,
      sp_WordSize = 1, sp_BigEndian = False, sp_Physical = True, sp_Delay = 0, sp_Truncated = False,
      sp_spacebases = []\<rparr>"
  have "Less ?\<sigma> \<lparr>ad_Space = Some 1, ad_Offset = 9\<rparr> \<lparr>ad_Space = Some 1, ad_Offset = 10\<rparr>"
    "Less ?\<sigma> \<lparr>ad_Space = Some 1, ad_Offset = 10\<rparr> \<lparr>ad_Space = Some 2, ad_Offset = 3\<rparr>"
    by (simp_all add: Less_def)
  then show ?thesis using Less_order by blast
qed

text \<open>Registering a base register twice changes nothing, and no entry is lost or repeated.\<close>

lemma AddSpacebase_idem: "AddSpacebase (AddSpacebase s sb) sb = AddSpacebase s sb"
  by (cases s) (auto simp: AddSpacebase_def List.member_iff)

lemma AddSpacebase_distinct:
  "distinct (sp_spacebases s) \<Longrightarrow> AddSpacebase (Some s) sb = Some s' \<Longrightarrow> distinct (sp_spacebases s')"
  by (auto simp: AddSpacebase_def List.member_iff split: if_splits)



end
