(* ===== verification/Join_Space.thy ===== *)
theory Join_Space
  imports Address_Space
begin

text \<open>
  \<^verbatim>\<open>pkg/address/join.go\<close>: the join space, a synthetic address space whose ranges stand for
  logical values split over several physical pieces. The process-wide \<^verbatim>\<open>joinManager\<close> is an
  explicit state; a \<^verbatim>\<open>*JoinRecord\<close> is its value, since records are never changed after they
  are appended. A panic of the source (nil dereference, index out of range) is a value of
  \<open>join_panic\<close>.
\<close>

section \<open>Records\<close>

record VarnodeData =
  vd_Space :: "space_ref option"
  vd_Offset :: u64
  vd_Size :: int

definition VarnodeData_Addr :: "VarnodeData \<Rightarrow> Address" where
  "VarnodeData_Addr v = \<lparr>ad_Space = vd_Space v, ad_Offset = vd_Offset v\<rparr>"

record JoinRecord =
  jr_Pieces :: "VarnodeData list"
  jr_Unified :: VarnodeData

definition NumPieces :: "JoinRecord \<Rightarrow> int" where
  "NumPieces j = int (length (jr_Pieces j))"

datatype join_panic = NilDereference | IndexOutOfRange

definition Piece :: "JoinRecord \<Rightarrow> int \<Rightarrow> join_panic + VarnodeData" where
  "Piece j i = (if 0 \<le> i \<and> i < int (length (jr_Pieces j)) then Inr (jr_Pieces j ! nat i) else Inl IndexOutOfRange)"

definition IsFloatExtension :: "JoinRecord \<Rightarrow> bool" where
  "IsFloatExtension j = (length (jr_Pieces j) = 1)"

record joinManager =
  jm_list :: "JoinRecord list"
  jm_allocate :: u64

definition joins :: joinManager where
  "joins = \<lparr>jm_list = [], jm_allocate = 0\<rparr>"

section \<open>The join manager\<close>

fun samePieces :: "VarnodeData list \<Rightarrow> VarnodeData list \<Rightarrow> bool" where
  "samePieces [] [] = True"
| "samePieces (a # as) (b # bs) = (if a \<noteq> b then False else samePieces as bs)"
| "samePieces _ _ = False"

definition totalPieceSize :: "VarnodeData list \<Rightarrow> int" where
  "totalPieceSize ps = fold (\<lambda>p t. i32 (t + vd_Size p)) ps 0"

definition FindAddJoin ::
  "space_ref option \<Rightarrow> VarnodeData list \<Rightarrow> int \<Rightarrow> joinManager \<Rightarrow> JoinRecord \<times> joinManager" where
  "FindAddJoin joinSpace pieces logicalsize st =
     (let totalsize = (if logicalsize = 0 then totalPieceSize pieces else logicalsize) in
      case List.find (\<lambda>rec. vd_Size (jr_Unified rec) = totalsize \<and> samePieces (jr_Pieces rec) pieces) (jm_list st) of
        Some rec \<Rightarrow> (rec, st)
      | None \<Rightarrow>
          let roundsize = (u64_of totalsize + 15) AND NOT 0xf;
              rec = \<lparr>jr_Pieces = pieces,
                     jr_Unified = \<lparr>vd_Space = joinSpace, vd_Offset = jm_allocate st, vd_Size = totalsize\<rparr>\<rparr>
          in (rec, st\<lparr>jm_allocate := jm_allocate st + roundsize, jm_list := jm_list st @ [rec]\<rparr>))"

definition findJoinInternal :: "joinManager \<Rightarrow> u64 \<Rightarrow> JoinRecord option" where
  "findJoinInternal st offset =
     List.find (\<lambda>rec. vd_Offset (jr_Unified rec) \<le> offset
       \<and> offset < vd_Offset (jr_Unified rec) + u64_of (vd_Size (jr_Unified rec))) (jm_list st)"

text \<open>
  The loop of \<^verbatim>\<open>equivalentAddress\<close>: how many pieces are skipped, and the offset that is left.
\<close>

fun skipPieces :: "VarnodeData list \<Rightarrow> int \<Rightarrow> nat \<times> int" where
  "skipPieces [] smallOff = (0, smallOff)"
| "skipPieces (p # ps) smallOff =
     (if smallOff < vd_Size p then (0, smallOff)
      else let (n, r) = skipPieces ps (i32 (smallOff - vd_Size p)) in (Suc n, r))"

definition equivalentAddress :: "space_store \<Rightarrow> JoinRecord \<Rightarrow> u64 \<Rightarrow> join_panic + Address \<times> int" where
  "equivalentAddress \<sigma> j offset =
     (if offset < vd_Offset (jr_Unified j) then Inr (\<lparr>ad_Space = None, ad_Offset = 0\<rparr>, -1)
      else
        let smallOff = i32 (uint (offset - vd_Offset (jr_Unified j))) in
        case jr_Pieces j of
          [] \<Rightarrow> Inl IndexOutOfRange
        | p0 # _ \<Rightarrow> (case vd_Space p0 of
            None \<Rightarrow> Inl NilDereference
          | Some s \<Rightarrow>
              let (n, r) = skipPieces (if sp_BigEndian (\<sigma> s) then jr_Pieces j else rev (jr_Pieces j)) smallOff in
              if n = length (jr_Pieces j) then Inr (\<lparr>ad_Space = None, ad_Offset = 0\<rparr>, -1)
              else
                let pos = (if sp_BigEndian (\<sigma> s) then n else length (jr_Pieces j) - 1 - n);
                    p = jr_Pieces j ! pos
                in Inr (\<lparr>ad_Space = vd_Space p, ad_Offset = vd_Offset p + u64_of r\<rparr>, int pos)))"

text \<open>The slice \<^verbatim>\<open>rec.Pieces[a:b+1]\<close>, copied.\<close>

definition slicePieces :: "VarnodeData list \<Rightarrow> nat \<Rightarrow> nat \<Rightarrow> VarnodeData list" where
  "slicePieces ps a b = take (b + 1 - a) (drop a ps)"

definition map_last :: "('a \<Rightarrow> 'a) \<Rightarrow> 'a list \<Rightarrow> 'a list" where
  "map_last f xs = xs[length xs - 1 := f (xs ! (length xs - 1))]"

definition map_first :: "('a \<Rightarrow> 'a) \<Rightarrow> 'a list \<Rightarrow> 'a list" where
  "map_first f xs = xs[0 := f (xs ! 0)]"

definition moveFront :: "u64 \<Rightarrow> int \<Rightarrow> VarnodeData \<Rightarrow> VarnodeData" where
  "moveFront offset trunc p = p\<lparr>vd_Offset := offset, vd_Size := i32 (vd_Size p - trunc)\<rparr>"

definition trimBack :: "int \<Rightarrow> VarnodeData \<Rightarrow> VarnodeData" where
  "trimBack trunc p = p\<lparr>vd_Size := i32 (vd_Size p - trunc)\<rparr>"

text \<open>The pieces that cover the bytes from \<open>addr1\<close> in piece \<open>pos1\<close> to \<open>addr2\<close> in piece \<open>pos2\<close>.\<close>

definition cutPieces :: "VarnodeData list \<Rightarrow> Address \<Rightarrow> nat \<Rightarrow> Address \<Rightarrow> nat \<Rightarrow> VarnodeData list" where
  "cutPieces ps addr1 pos1 addr2 pos2 =
     (let sizeTrunc1 = i32 (uint (ad_Offset addr1 - vd_Offset (ps ! pos1)));
          sizeTrunc2 = i32 (vd_Size (ps ! pos2) - i32 (uint (ad_Offset addr2 - vd_Offset (ps ! pos2))) - 1)
      in if pos2 < pos1
         then map_first (trimBack sizeTrunc2)
                (map_last (moveFront (ad_Offset addr1) sizeTrunc1) (slicePieces ps pos2 pos1))
         else map_last (trimBack sizeTrunc2)
                (map_first (moveFront (ad_Offset addr1) sizeTrunc1) (slicePieces ps pos1 pos2)))"

definition renormalizeJoin ::
  "space_store \<Rightarrow> joinManager \<Rightarrow> Address \<Rightarrow> int \<Rightarrow> join_panic + Address \<times> joinManager" where
  "renormalizeJoin \<sigma> st addr size0 =
     (case findJoinInternal st (ad_Offset addr) of
        None \<Rightarrow> Inr (addr, st)
      | Some rec \<Rightarrow>
          if ad_Offset addr = vd_Offset (jr_Unified rec) \<and> size0 = vd_Size (jr_Unified rec) then Inr (addr, st)
          else then_step (equivalentAddress \<sigma> rec (ad_Offset addr)) (\<lambda>(addr1, pos1).
            then_step (equivalentAddress \<sigma> rec (ad_Offset addr + u64_of (i32 (size0 - 1)))) (\<lambda>(addr2, pos2).
              if pos1 < 0 \<or> pos2 < 0 then Inr (addr, st)
              else if pos1 = pos2 then Inr (addr1, st)
              else
                let newPieces = cutPieces (jr_Pieces rec) addr1 (nat pos1) addr2 (nat pos2);
                    (nrec, st') = FindAddJoin (vd_Space (jr_Unified rec)) newPieces 0 st
                in Inr (\<lparr>ad_Space = vd_Space (jr_Unified nrec), ad_Offset = vd_Offset (jr_Unified nrec)\<rparr>, st'))))"

definition FindJoin :: "joinManager \<Rightarrow> u64 \<Rightarrow> JoinRecord option" where
  "FindJoin st offset = List.find (\<lambda>rec. vd_Offset (jr_Unified rec) = offset) (jm_list st)"

definition IsContiguous :: "space_store \<Rightarrow> Address \<Rightarrow> int \<Rightarrow> Address \<Rightarrow> int \<Rightarrow> join_panic + bool" where
  "IsContiguous \<sigma> hi hisz lo losz =
     (if ad_Space hi \<noteq> ad_Space lo then Inr False
      else case ad_Space hi of
        None \<Rightarrow> Inl NilDereference
      | Some s \<Rightarrow>
          if sp_BigEndian (\<sigma> s) then Inr (ad_Offset hi + u64_of hisz = ad_Offset lo)
          else Inr (ad_Offset lo + u64_of losz = ad_Offset hi))"

text \<open>
  \<^verbatim>\<open>hi.Space.Kind != SpaceKindStack && lo.Space.Kind != SpaceKindStack && ...\<close>: a nil space of
  \<open>lo\<close> is only dereferenced when the test of \<open>hi\<close> holds.
\<close>

definition usesJoinSpace :: "space_store \<Rightarrow> space_ref option \<Rightarrow> Address \<Rightarrow> Address \<Rightarrow> join_panic + bool" where
  "usesJoinSpace \<sigma> codeSpace hi lo =
     (case ad_Space hi of
        None \<Rightarrow> Inl NilDereference
      | Some s \<Rightarrow>
          if sp_Kind (\<sigma> s) = SpaceKindStack then Inr False
          else case ad_Space lo of
            None \<Rightarrow> Inl NilDereference
          | Some t \<Rightarrow> Inr (sp_Kind (\<sigma> t) \<noteq> SpaceKindStack \<and> ad_Space hi \<noteq> codeSpace \<and> ad_Space lo \<noteq> codeSpace))"

definition ConstructJoinAddress ::
  "space_store \<Rightarrow> space_ref option \<Rightarrow> space_ref option \<Rightarrow> Address \<Rightarrow> int \<Rightarrow> Address \<Rightarrow> int
    \<Rightarrow> (Address \<Rightarrow> int \<Rightarrow> bool) option \<Rightarrow> joinManager \<Rightarrow> join_panic + Address \<times> joinManager" where
  "ConstructJoinAddress \<sigma> joinSpace codeSpace hi hisz lo losz regExists st =
     then_step (usesJoinSpace \<sigma> codeSpace hi lo) (\<lambda>usejoinspace.
     then_step (IsContiguous \<sigma> hi hisz lo losz) (\<lambda>contiguous.
       let big = (case ad_Space hi of None \<Rightarrow> False | Some s \<Rightarrow> sp_BigEndian (\<sigma> s));
           whole = (if big then hi else lo);
           joined =
             (let (rec, st') = FindAddJoin joinSpace
                [\<lparr>vd_Space = ad_Space hi, vd_Offset = ad_Offset hi, vd_Size = hisz\<rparr>,
                 \<lparr>vd_Space = ad_Space lo, vd_Offset = ad_Offset lo, vd_Size = losz\<rparr>] 0 st
              in Inr (\<lparr>ad_Space = joinSpace, ad_Offset = vd_Offset (jr_Unified rec)\<rparr>, st'))
       in if contiguous \<and> \<not> usejoinspace then Inr (whole, st)
          else if contiguous \<and> (case regExists of None \<Rightarrow> False | Some f \<Rightarrow> f whole (i32 (hisz + losz)))
          then Inr (whole, st)
          else joined))"

section \<open>The table of join spaces\<close>

text \<open>
  \<^verbatim>\<open>joinSpaces\<close> maps an index to the space created for it; a new space gets the next free
  reference of the store.
\<close>

record joinSpaceTable =
  jt_map :: "u16 \<rightharpoonup> space_ref"
  jt_store :: space_store
  jt_next :: space_ref

definition JoinSpaceAt :: "u16 \<Rightarrow> joinSpaceTable \<Rightarrow> space_ref \<times> joinSpaceTable" where
  "JoinSpaceAt i t =
     (case jt_map t i of
        Some s \<Rightarrow> (s, t)
      | None \<Rightarrow>
          let s = \<lparr>sp_Name = ''join'', sp_Kind = SpaceKindJoin, sp_Index = i, sp_AddrSize = 4, sp_WordSize = 1,
                   sp_BigEndian = False, sp_Physical = False, sp_Delay = 0, sp_Truncated = False, sp_spacebases = []\<rparr>
          in (jt_next t, t\<lparr>jt_map := (jt_map t)(i \<mapsto> jt_next t), jt_store := (jt_store t)(jt_next t := s),
                           jt_next := jt_next t + 1\<rparr>))"

end
