(* ===== verification/Join_Laws.thy ===== *)
theory Join_Laws
  imports Join_Space
begin

text \<open>
  The join space as an allocator: records occupy consecutive, 16-aligned and disjoint ranges, a
  set of pieces is registered once, and every byte of a joined value is found again in the piece
  that holds it.
\<close>

section \<open>Allocation\<close>

definition round16 :: "nat \<Rightarrow> nat" where
  "round16 n = (n + 15) div 16 * 16"

lemma round16_ge: "n \<le> round16 n"
  unfolding round16_def using div_mult_mod_eq [of "n + 15" 16] mod_less_divisor [of 16 "n + 15"] by linarith

lemma and_not_15: "uint ((w :: u64) AND NOT 15) = uint w div 16 * 16"
proof -
  have m: "(15 :: u64) = mask 4" by (simp add: mask_eq_exp_minus_1)
  have "w AND NOT 15 = push_bit 4 (drop_bit 4 w)"
    unfolding m by (rule bit_word_eqI) (auto simp: bit_simps)
  then have "w = (w AND NOT 15) + take_bit 4 w" by (simp add: bits_ident)
  then have "w AND NOT 15 = w - (w AND mask 4)" by (simp add: and_mask_take_bit algebra_simps)
  then have "uint (w AND NOT 15) = (uint w - uint w mod 16) mod 2 ^ 64"
    by (simp add: uint_minus_mod uint_and_mask)
  also have "uint w - uint w mod 16 = uint w div 16 * 16" by (simp add: minus_mod_eq_div_mult)
  also have "\<dots> mod 2 ^ 64 = uint w div 16 * 16"
  proof (rule mod_pos_pos_trivial)
    have "uint w div 16 * 16 \<le> uint w" using int_le_div_iff [of 16 "uint w div 16" "uint w"] by simp
    also have "\<dots> < 2 ^ 64" using uint_lt2p [of w] by simp
    finally show "uint w div 16 * 16 < 2 ^ 64" .
  qed (simp add: pos_imp_zdiv_nonneg_iff)
  finally show ?thesis .
qed

lemma roundsize_round16:
  assumes "0 \<le> t" "t < 2 ^ 31"
  shows "unat ((u64_of t + 15) AND NOT 15) = round16 (nat t)"
proof -
  have "uint (u64_of t + 15) = t + 15"
    using assms by (simp add: uint_plus_mod u64_of_uint)
  then have "uint ((u64_of t + 15) AND NOT 15) = (t + 15) div 16 * 16" by (simp only: and_not_15)
  then have "int (unat ((u64_of t + 15) AND NOT 15)) = int (round16 (nat t))"
    using assms by (simp add: round16_def)
  then show ?thesis by (simp only: of_nat_eq_iff)
qed

abbreviation "jr_start r \<equiv> unat (vd_Offset (jr_Unified r))"
abbreviation "jr_len r \<equiv> nat (vd_Size (jr_Unified r))"

text \<open>The records from offset \<open>a\<close> on follow each other without gap or overlap, up to \<open>b\<close>.\<close>

fun join_layout :: "nat \<Rightarrow> JoinRecord list \<Rightarrow> nat \<Rightarrow> bool" where
  "join_layout a [] b = (a = b)"
| "join_layout a (r # rs) b =
     (jr_start r = a \<and> 0 < vd_Size (jr_Unified r) \<and> vd_Size (jr_Unified r) < 2 ^ 31
      \<and> join_layout (a + round16 (jr_len r)) rs b)"

lemma join_layout_le: "join_layout a rs b \<Longrightarrow> a \<le> b"
  by (induction rs arbitrary: a) (use add_leD1 in force)+

lemma join_layout_mem:
  assumes "join_layout a rs b" "r \<in> set rs"
  shows "a \<le> jr_start r" "jr_start r + jr_len r \<le> b"
    "0 < vd_Size (jr_Unified r)" "vd_Size (jr_Unified r) < 2 ^ 31"
proof -
  have "a \<le> jr_start r \<and> jr_start r + jr_len r \<le> b \<and> 0 < vd_Size (jr_Unified r) \<and> vd_Size (jr_Unified r) < 2 ^ 31"
    using assms
  proof (induction rs arbitrary: a)
    case (Cons q rs)
    then show ?case
      using join_layout_le [of "a + round16 (jr_len q)" rs b] round16_ge [of "jr_len q"]
      by (fastforce dest: add_leD1)
  qed simp
  then show "a \<le> jr_start r" "jr_start r + jr_len r \<le> b"
    "0 < vd_Size (jr_Unified r)" "vd_Size (jr_Unified r) < 2 ^ 31" by auto
qed

lemma join_layout_snoc:
  "join_layout a (rs @ [r]) b \<longleftrightarrow>
     (\<exists>m. join_layout a rs m \<and> join_layout m [r] b)"
  by (induction rs arbitrary: a) auto

text \<open>The range test of \<^verbatim>\<open>findJoinInternal\<close> on natural numbers.\<close>

lemma in_range_iff:
  assumes "jr_start r + jr_len r < 2 ^ 64" "0 < vd_Size (jr_Unified r)"
  shows "vd_Offset (jr_Unified r) \<le> off \<and> off < vd_Offset (jr_Unified r) + u64_of (vd_Size (jr_Unified r))
    \<longleftrightarrow> jr_start r \<le> unat off \<and> unat off < jr_start r + jr_len r"
proof -
  have s: "u64_of (vd_Size (jr_Unified r)) = of_nat (jr_len r)"
    using assms(2) by (simp add: u64_of_def)
  have "unat (of_nat (jr_len r) :: u64) = jr_len r"
    using assms(1) by (simp add: unat_of_nat)
  then have "unat (vd_Offset (jr_Unified r) + u64_of (vd_Size (jr_Unified r))) = jr_start r + jr_len r"
    unfolding s using assms(1) by (subst unat_word_ariths) simp
  then show ?thesis by (simp add: word_le_nat_alt word_less_nat_alt)
qed

lemma layout_find:
  assumes "join_layout a rs b" "b < 2 ^ 64" "r \<in> set rs" "jr_start r \<le> unat off" "unat off < jr_start r + jr_len r"
  shows "List.find (\<lambda>rec. vd_Offset (jr_Unified rec) \<le> off
       \<and> off < vd_Offset (jr_Unified rec) + u64_of (vd_Size (jr_Unified rec))) rs = Some r"
  using assms
proof (induction rs arbitrary: a)
  case (Cons q rs)
  have q: "jr_start q + jr_len q < 2 ^ 64" "0 < vd_Size (jr_Unified q)"
    using join_layout_mem [OF Cons.prems(1), of q] Cons.prems(2) by auto
  show ?case
  proof (cases "r = q")
    case True
    then show ?thesis using Cons.prems(4,5) in_range_iff [OF q, of off] by simp
  next
    case False
    then have r: "r \<in> set rs" using Cons.prems(3) by simp
    have lay: "join_layout (a + round16 (jr_len q)) rs b" "jr_start q = a" using Cons.prems(1) by auto
    from join_layout_mem(1) [OF lay(1) r] round16_ge [of "jr_len q"] lay(2)
    have "jr_start q + jr_len q \<le> jr_start r" by simp
    with Cons.prems(4) have "\<not> (jr_start q \<le> unat off \<and> unat off < jr_start q + jr_len q)" by linarith
    then show ?thesis using Cons.IH [OF lay(1) Cons.prems(2) r Cons.prems(4,5)] in_range_iff [OF q, of off] by auto
  qed
qed simp

lemma layout_find_start:
  assumes "join_layout a rs b" "b < 2 ^ 64" "r \<in> set rs"
  shows "List.find (\<lambda>rec. vd_Offset (jr_Unified rec) = vd_Offset (jr_Unified r)) rs = Some r"
  using assms
proof (induction rs arbitrary: a)
  case (Cons q rs)
  show ?case
  proof (cases "r = q")
    case False
    then have r: "r \<in> set rs" using Cons.prems(3) by simp
    have lay: "join_layout (a + round16 (jr_len q)) rs b" "jr_start q = a" "0 < vd_Size (jr_Unified q)"
      using Cons.prems(1) by auto
    from join_layout_mem(1) [OF lay(1) r] round16_ge [of "jr_len q"] lay(2,3)
    have "jr_start q < jr_start r" by linarith
    then have "vd_Offset (jr_Unified q) \<noteq> vd_Offset (jr_Unified r)" by auto
    then show ?thesis using Cons.IH [OF lay(1) Cons.prems(2) r] by simp
  qed simp
qed simp

section \<open>Well-formed states\<close>

text \<open>
  Pieces lie in physical spaces of one endianness and hold at least one byte; the record itself
  lies in a join space.
\<close>

definition piece_ok :: "space_store \<Rightarrow> bool \<Rightarrow> VarnodeData \<Rightarrow> bool" where
  "piece_ok \<sigma> big p \<longleftrightarrow> 0 < vd_Size p
     \<and> (case vd_Space p of None \<Rightarrow> False
        | Some s \<Rightarrow> sp_Kind (\<sigma> s) \<noteq> SpaceKindJoin \<and> sp_BigEndian (\<sigma> s) = big)"

definition pieces_ok :: "space_store \<Rightarrow> bool \<Rightarrow> VarnodeData list \<Rightarrow> bool" where
  "pieces_ok \<sigma> big ps \<longleftrightarrow> ps \<noteq> [] \<and> list_all (piece_ok \<sigma> big) ps \<and> sum_list (map vd_Size ps) < 2 ^ 31"

definition join_ref :: "space_store \<Rightarrow> space_ref option \<Rightarrow> bool" where
  "join_ref \<sigma> js \<longleftrightarrow> (case js of None \<Rightarrow> False | Some s \<Rightarrow> sp_Kind (\<sigma> s) = SpaceKindJoin)"

definition record_ok :: "space_store \<Rightarrow> JoinRecord \<Rightarrow> bool" where
  "record_ok \<sigma> r \<longleftrightarrow> (pieces_ok \<sigma> True (jr_Pieces r) \<or> pieces_ok \<sigma> False (jr_Pieces r))
     \<and> join_ref \<sigma> (vd_Space (jr_Unified r))"

definition join_key :: "JoinRecord \<Rightarrow> int \<times> VarnodeData list" where
  "join_key r = (vd_Size (jr_Unified r), jr_Pieces r)"

definition join_ok :: "space_store \<Rightarrow> joinManager \<Rightarrow> bool" where
  "join_ok \<sigma> st \<longleftrightarrow> join_layout 0 (jm_list st) (unat (jm_allocate st))
     \<and> distinct (map join_key (jm_list st)) \<and> list_all (record_ok \<sigma>) (jm_list st)"

text \<open>The size a request asks for, and whether it still fits below the end of the space.\<close>

definition join_total :: "VarnodeData list \<Rightarrow> int \<Rightarrow> int" where
  "join_total ps logical = (if logical = 0 then totalPieceSize ps else logical)"

definition join_room :: "joinManager \<Rightarrow> int \<Rightarrow> bool" where
  "join_room st t \<longleftrightarrow> 0 < t \<and> t < 2 ^ 31 \<and> unat (jm_allocate st) + round16 (nat t) < 2 ^ 64"

lemma joins_ok: "join_ok \<sigma> joins"
  by (simp add: join_ok_def joins_def)

lemma samePieces_eq: "samePieces a b \<longleftrightarrow> a = b"
  by (induction a b rule: samePieces.induct) auto

lemma totalPieceSize_sum:
  assumes "list_all (\<lambda>p. 0 < vd_Size p) ps" "sum_list (map vd_Size ps) < 2 ^ 31"
  shows "totalPieceSize ps = sum_list (map vd_Size ps)"
proof -
  have "0 \<le> t \<Longrightarrow> t + sum_list (map vd_Size ps) < 2 ^ 31 \<Longrightarrow>
      fold (\<lambda>p t. i32 (t + vd_Size p)) ps t = t + sum_list (map vd_Size ps)" for t
    using assms(1)
  proof (induction ps arbitrary: t)
    case (Cons p ps)
    then have "0 \<le> sum_list (map vd_Size ps)"
      by (intro sum_list_nonneg) (auto simp: list_all_iff)
    with Cons show ?case by (simp add: i32_id algebra_simps)
  qed simp
  from this [of 0] show ?thesis using assms(2) by (simp add: totalPieceSize_def)
qed

lemma pieces_ok_sizes: "pieces_ok \<sigma> big ps \<Longrightarrow> list_all (\<lambda>p. 0 < vd_Size p) ps"
  by (auto simp: pieces_ok_def piece_ok_def list_all_iff)

lemma FindAddJoin_cases:
  assumes "FindAddJoin js ps logical st = (r, st')"
  obtains (Found) "r \<in> set (jm_list st)" "st' = st" "join_key r = (join_total ps logical, ps)"
  | (New) "\<forall>q\<in>set (jm_list st). join_key q \<noteq> (join_total ps logical, ps)"
      "r = \<lparr>jr_Pieces = ps, jr_Unified = \<lparr>vd_Space = js, vd_Offset = jm_allocate st, vd_Size = join_total ps logical\<rparr>\<rparr>"
      "st' = \<lparr>jm_list = jm_list st @ [r],
              jm_allocate = jm_allocate st + ((u64_of (join_total ps logical) + 15) AND NOT 15)\<rparr>"
proof (cases "List.find (\<lambda>rec. vd_Size (jr_Unified rec) = join_total ps logical \<and> samePieces (jr_Pieces rec) ps) (jm_list st)")
  case None
  with assms have "r = \<lparr>jr_Pieces = ps, jr_Unified = \<lparr>vd_Space = js, vd_Offset = jm_allocate st, vd_Size = join_total ps logical\<rparr>\<rparr>"
      "st' = \<lparr>jm_list = jm_list st @ [r],
              jm_allocate = jm_allocate st + ((u64_of (join_total ps logical) + 15) AND NOT 15)\<rparr>"
    unfolding FindAddJoin_def Let_def by (simp_all flip: join_total_def) auto
  moreover have "\<forall>q\<in>set (jm_list st). join_key q \<noteq> (join_total ps logical, ps)"
    using None by (auto simp: find_None_iff samePieces_eq join_key_def)
  ultimately show ?thesis using New by blast
next
  case (Some q)
  with assms have "r = q" "st' = st" unfolding FindAddJoin_def Let_def by (simp_all flip: join_total_def)
  with Some show ?thesis
    by (intro Found) (auto simp: find_Some_iff samePieces_eq join_key_def)
qed

lemma FindAddJoin_ok:
  assumes ok: "join_ok \<sigma> st" and ps: "pieces_ok \<sigma> big ps" and js: "join_ref \<sigma> js"
    and room: "join_room st (join_total ps logical)"
    and call: "FindAddJoin js ps logical st = (r, st')"
  shows "join_ok \<sigma> st' \<and> r \<in> set (jm_list st') \<and> join_key r = (join_total ps logical, ps)
    \<and> set (jm_list st) \<subseteq> set (jm_list st')"
  using call
proof (cases rule: FindAddJoin_cases)
  case New
  have "unat (jm_allocate st') = unat (jm_allocate st) + round16 (nat (join_total ps logical))"
    using New room roundsize_round16 [of "join_total ps logical"]
    by (simp add: join_room_def unat_word_ariths)
  moreover have "record_ok \<sigma> r" using New ps js by (cases big) (auto simp: record_ok_def)
  ultimately have "join_ok \<sigma> st'"
    using New ok room by (auto simp: join_ok_def join_layout_snoc join_room_def join_key_def)
  then show ?thesis using New by (auto simp: join_key_def)
qed (use ok in auto)

lemma join_ok_find:
  assumes "join_ok \<sigma> st" "r \<in> set (jm_list st)"
  shows "FindJoin st (vd_Offset (jr_Unified r)) = Some r"
    "i < jr_len r \<Longrightarrow> findJoinInternal st (vd_Offset (jr_Unified r) + of_nat i) = Some r"
proof -
  have lay: "join_layout 0 (jm_list st) (unat (jm_allocate st))" using assms(1) by (simp add: join_ok_def)
  have b: "unat (jm_allocate st) < 2 ^ 64" using unsigned_less [of "jm_allocate st"] by simp
  show "FindJoin st (vd_Offset (jr_Unified r)) = Some r"
    unfolding FindJoin_def by (rule layout_find_start [OF lay b assms(2)])
  assume i: "i < jr_len r"
  with join_layout_mem(2) [OF lay assms(2)] b have "jr_start r + i < 2 ^ 64" by linarith
  then have "unat (vd_Offset (jr_Unified r) + of_nat i) = jr_start r + i"
    by (simp add: unat_word_ariths unat_of_nat)
  then show "findJoinInternal st (vd_Offset (jr_Unified r) + of_nat i) = Some r"
    unfolding findJoinInternal_def by (intro layout_find [OF lay b assms(2)]) (use i in simp_all)
qed

lemma FindAddJoin_again:
  assumes "join_ok \<sigma> st" "q \<in> set (jm_list st)" "join_key q = (join_total ps logical, ps)"
  shows "FindAddJoin js ps logical st = (q, st)"
proof -
  obtain r st' where call: "FindAddJoin js ps logical st = (r, st')" by fastforce
  then show ?thesis
  proof (cases rule: FindAddJoin_cases)
    case Found
    have "inj_on join_key (set (jm_list st))" using assms(1) by (simp add: join_ok_def distinct_map)
    from inj_onD [OF this, of r q] Found assms(2,3) have "r = q" by simp
    with Found(2) call show ?thesis by simp
  qed (use assms in auto)
qed

section \<open>The bytes of a joined value\<close>

text \<open>
  The specification: the physical byte addresses of a record, in join-space order. A piece holds
  its bytes in ascending order; the pieces are listed most significant first, so a little-endian
  value starts with the last piece.
\<close>

definition piece_bytes :: "VarnodeData \<Rightarrow> Address list" where
  "piece_bytes p = map (\<lambda>k. \<lparr>ad_Space = vd_Space p, ad_Offset = vd_Offset p + of_nat k\<rparr>) [0..<nat (vd_Size p)]"

definition pieces_bytes :: "VarnodeData list \<Rightarrow> Address list" where
  "pieces_bytes ps = concat (map piece_bytes ps)"

definition big_first :: "space_store \<Rightarrow> VarnodeData list \<Rightarrow> bool" where
  "big_first \<sigma> ps \<longleftrightarrow> (case vd_Space (ps ! 0) of None \<Rightarrow> False | Some s \<Rightarrow> sp_BigEndian (\<sigma> s))"

definition mem_order :: "bool \<Rightarrow> VarnodeData list \<Rightarrow> VarnodeData list" where
  "mem_order big ps = (if big then ps else rev ps)"

definition record_bytes :: "space_store \<Rightarrow> JoinRecord \<Rightarrow> Address list" where
  "record_bytes \<sigma> r = pieces_bytes (mem_order (big_first \<sigma> (jr_Pieces r)) (jr_Pieces r))"

lemma length_piece_bytes [simp]: "length (piece_bytes p) = nat (vd_Size p)"
  by (simp add: piece_bytes_def)

lemma pieces_bytes_simps [simp]:
  "pieces_bytes [] = []" "pieces_bytes (p # ps) = piece_bytes p @ pieces_bytes ps"
  "pieces_bytes (ps @ qs) = pieces_bytes ps @ pieces_bytes qs"
  by (simp_all add: pieces_bytes_def)

lemma nth_piece_bytes: "k < nat (vd_Size p) \<Longrightarrow>
    piece_bytes p ! k = \<lparr>ad_Space = vd_Space p, ad_Offset = vd_Offset p + of_nat k\<rparr>"
  by (simp add: piece_bytes_def)

lemma length_mem_order [simp]: "length (mem_order big ps) = length ps"
  by (simp add: mem_order_def)

lemma mem_order_inv [simp]: "mem_order big (mem_order big ps) = ps"
  by (simp add: mem_order_def)

lemma length_pieces_bytes:
  "list_all (\<lambda>p. 0 < vd_Size p) ps \<Longrightarrow> int (length (pieces_bytes ps)) = sum_list (map vd_Size ps)"
  by (induction ps) auto

lemma big_first_ok: "pieces_ok \<sigma> big ps \<Longrightarrow> big_first \<sigma> ps = big"
  by (cases ps) (auto simp: pieces_ok_def piece_ok_def big_first_def split: option.splits)

lemma skipPieces_at:
  assumes "list_all (\<lambda>p. 0 < vd_Size p) ps" "k < length (pieces_bytes ps)" "length (pieces_bytes ps) < 2 ^ 31"
  shows "\<exists>n q. skipPieces ps (int k) = (n, int q) \<and> n < length ps \<and> q < nat (vd_Size (ps ! n))
    \<and> k = length (pieces_bytes (take n ps)) + q"
  using assms
proof (induction ps arbitrary: k)
  case (Cons p ps)
  show ?case
  proof (cases "int k < vd_Size p")
    case True
    then show ?thesis by (intro exI [of _ 0] exI [of _ k]) auto
  next
    case False
    define l where "l = k - nat (vd_Size p)"
    have l: "i32 (int k - vd_Size p) = int l" using False Cons.prems by (simp add: l_def i32_id of_nat_diff)
    have "l < length (pieces_bytes ps)" using False Cons.prems by (simp add: l_def)
    then obtain n q where "skipPieces ps (int l) = (n, int q)" "n < length ps" "q < nat (vd_Size (ps ! n))"
        "l = length (pieces_bytes (take n ps)) + q"
      using Cons.IH [of l] Cons.prems by auto
    with False l show ?thesis
      by (intro exI [of _ "Suc n"] exI [of _ q]) (auto simp: l_def)
  qed
qed simp

lemma skipPieces_past:
  assumes "list_all (\<lambda>p. 0 < vd_Size p) ps" "length (pieces_bytes ps) \<le> k" "k < 2 ^ 31"
  shows "fst (skipPieces ps (int k)) = length ps"
  using assms
proof (induction ps arbitrary: k)
  case (Cons p ps)
  define l where "l = k - nat (vd_Size p)"
  have "i32 (int k - vd_Size p) = int l" using Cons.prems by (simp add: l_def i32_id of_nat_diff)
  with Cons.IH [of l] Cons.prems show ?case by (auto simp: l_def split: prod.splits)
qed simp

lemma mem_order_sizes: "list_all P (mem_order big ps) = list_all P ps"
  by (simp add: mem_order_def)

lemma length_pieces_bytes_order:
  "list_all (\<lambda>p. 0 < vd_Size p) ps \<Longrightarrow> int (length (pieces_bytes (mem_order big ps))) = sum_list (map vd_Size ps)"
  by (subst length_pieces_bytes) (simp_all add: mem_order_def mem_order_sizes sum_list_rev flip: rev_map)

text \<open>\<^verbatim>\<open>equivalentAddress\<close> at the \<open>k\<close>-th byte of a record.\<close>

lemma equivalentAddress_skip:
  assumes "pieces_ok \<sigma> big (jr_Pieces r)" "jr_start r + k < 2 ^ 64" "k < 2 ^ 31"
  shows "equivalentAddress \<sigma> r (vd_Offset (jr_Unified r) + of_nat k) =
    (let (n, q) = skipPieces (mem_order big (jr_Pieces r)) (int k) in
     if n = length (jr_Pieces r) then Inr (\<lparr>ad_Space = None, ad_Offset = 0\<rparr>, -1)
     else let pos = (if big then n else length (jr_Pieces r) - 1 - n); p = jr_Pieces r ! pos
          in Inr (\<lparr>ad_Space = vd_Space p, ad_Offset = vd_Offset p + u64_of q\<rparr>, int pos))"
proof -
  obtain p0 ps s where p0: "jr_Pieces r = p0 # ps" "vd_Space p0 = Some s" "sp_BigEndian (\<sigma> s) = big"
    using assms(1) by (cases "jr_Pieces r") (auto simp: pieces_ok_def piece_ok_def split: option.splits)
  have "unat (vd_Offset (jr_Unified r) + of_nat k) = jr_start r + k"
    using assms(2) by (simp add: unat_word_ariths unat_of_nat)
  then have "\<not> vd_Offset (jr_Unified r) + of_nat k < vd_Offset (jr_Unified r)"
    by (simp add: word_less_nat_alt)
  moreover have "i32 (uint (of_nat k :: u64)) = int k"
    using assms(3) by (simp add: uint_nat unat_of_nat i32_id)
  ultimately show ?thesis
    using p0 by (simp add: equivalentAddress_def mem_order_def Let_def del: skipPieces.simps split: prod.splits)
qed

lemma nth_mem_order: "n < length ps \<Longrightarrow>
    mem_order big ps ! n = ps ! (if big then n else length ps - 1 - n)"
  by (simp add: mem_order_def rev_nth)

lemma equivalentAddress_at:
  assumes "pieces_ok \<sigma> big (jr_Pieces r)" "jr_start r + k < 2 ^ 64" "k < length (record_bytes \<sigma> r)"
  defines "os \<equiv> mem_order big (jr_Pieces r)"
  shows "\<exists>n q. n < length os \<and> q < nat (vd_Size (os ! n)) \<and> k = length (pieces_bytes (take n os)) + q
    \<and> equivalentAddress \<sigma> r (vd_Offset (jr_Unified r) + of_nat k) =
        Inr (\<lparr>ad_Space = vd_Space (os ! n), ad_Offset = vd_Offset (os ! n) + of_nat q\<rparr>,
             int (if big then n else length os - 1 - n))"
proof -
  have sizes: "list_all (\<lambda>p. 0 < vd_Size p) os"
    using pieces_ok_sizes [OF assms(1)] by (simp add: os_def mem_order_sizes)
  have "int (length (pieces_bytes os)) < 2 ^ 31"
    using assms(1) length_pieces_bytes_order [OF pieces_ok_sizes [OF assms(1)], of big]
    by (simp add: os_def pieces_ok_def)
  then have len: "length (pieces_bytes os) < 2 ^ 31" by simp
  have k: "k < length (pieces_bytes os)"
    using assms(3) by (simp add: os_def record_bytes_def big_first_ok [OF assms(1)])
  from skipPieces_at [OF sizes k len] obtain n q where
    nq: "skipPieces os (int k) = (n, int q)" "n < length os" "q < nat (vd_Size (os ! n))"
      "k = length (pieces_bytes (take n os)) + q" by blast
  have "os ! n = jr_Pieces r ! (if big then n else length os - 1 - n)"
    using nq(2) by (simp add: os_def nth_mem_order)
  then have "equivalentAddress \<sigma> r (vd_Offset (jr_Unified r) + of_nat k) =
        Inr (\<lparr>ad_Space = vd_Space (os ! n), ad_Offset = vd_Offset (os ! n) + of_nat q\<rparr>,
             int (if big then n else length os - 1 - n))"
    using equivalentAddress_skip [OF assms(1,2)] nq k len
    by (simp add: os_def Let_def u64_of_def)
  with nq show ?thesis by blast
qed

lemma nth_pieces_bytes:
  assumes "n < length os" "q < nat (vd_Size (os ! n))" "k = length (pieces_bytes (take n os)) + q"
  shows "pieces_bytes os ! k = \<lparr>ad_Space = vd_Space (os ! n), ad_Offset = vd_Offset (os ! n) + of_nat q\<rparr>"
    "k < length (pieces_bytes os)"
proof -
  have "pieces_bytes os = pieces_bytes (take n os @ os ! n # drop (Suc n) os)"
    using assms(1) by (simp add: id_take_nth_drop [symmetric])
  then have os: "pieces_bytes os = pieces_bytes (take n os) @ piece_bytes (os ! n) @ pieces_bytes (drop (Suc n) os)"
    by simp
  then show "pieces_bytes os ! k = \<lparr>ad_Space = vd_Space (os ! n), ad_Offset = vd_Offset (os ! n) + of_nat q\<rparr>"
    using assms(2,3) by (simp add: nth_append nth_piece_bytes)
  show "k < length (pieces_bytes os)" using os assms(2,3) by simp
qed

section \<open>The manager as an allocator\<close>

text \<open>
  The interface the clients of the join manager rely on: a request adds a record or finds the one
  with its key, records are never lost, and every offset of a record's range leads to it.
\<close>

locale range_allocator =
  fixes ok :: "'st \<Rightarrow> bool" and admissible :: "'q \<Rightarrow> 'st \<Rightarrow> bool" and add :: "'q \<Rightarrow> 'st \<Rightarrow> 'r \<times> 'st"
    and recs :: "'st \<Rightarrow> 'r set" and key :: "'r \<Rightarrow> 'k" and key_of :: "'q \<Rightarrow> 'k"
    and place :: "'r \<Rightarrow> nat \<Rightarrow> 'o" and extent :: "'r \<Rightarrow> nat" and lookup :: "'st \<Rightarrow> 'o \<Rightarrow> 'r option"
  assumes add_ok: "\<lbrakk>ok st; admissible q st; add q st = (r, st')\<rbrakk>
      \<Longrightarrow> ok st' \<and> r \<in> recs st' \<and> key r = key_of q \<and> recs st \<subseteq> recs st'"
    and add_again: "\<lbrakk>ok st; r \<in> recs st; key r = key_of q\<rbrakk> \<Longrightarrow> add q st = (r, st)"
    and lookup_place: "\<lbrakk>ok st; r \<in> recs st; i < extent r\<rbrakk> \<Longrightarrow> lookup st (place r i) = Some r"
begin

inductive reach :: "'st \<Rightarrow> 'st \<Rightarrow> bool" for st where
  start: "reach st st"
| step: "\<lbrakk>reach st st1; admissible q st1; add q st1 = (r, st2)\<rbrakk> \<Longrightarrow> reach st st2"

lemma reach_ok: "reach st st' \<Longrightarrow> ok st \<Longrightarrow> ok st' \<and> recs st \<subseteq> recs st'"
  by (induction rule: reach.induct) (blast dest: add_ok)+

lemma disjoint:
  "\<lbrakk>ok st; r \<in> recs st; r' \<in> recs st; i < extent r; j < extent r'; place r i = place r' j\<rbrakk> \<Longrightarrow> r = r'"
  using lookup_place [of st r i] lookup_place [of st r' j] by simp

text \<open>What was allocated once stays: the same request gives the same record ever after.\<close>

lemma stable:
  assumes "ok st" "admissible q st" "add q st = (r, st1)" "reach st1 st2"
  shows "ok st2 \<and> r \<in> recs st2 \<and> (\<forall>q'. key_of q' = key_of q \<longrightarrow> add q' st2 = (r, st2))
    \<and> (\<forall>i<extent r. lookup st2 (place r i) = Some r)"
proof -
  have 1: "ok st1" "r \<in> recs st1" "key r = key_of q" using add_ok [OF assms(1-3)] by auto
  have 2: "ok st2" "r \<in> recs st2" using reach_ok [OF assms(4) 1(1)] 1(2) by auto
  then show ?thesis using 1(3) add_again lookup_place by auto
qed

end

text \<open>A request, and when it is admissible: proper pieces, and room for its size.\<close>

definition join_request_ok :: "space_store \<Rightarrow> space_ref option \<times> VarnodeData list \<times> int \<Rightarrow> joinManager \<Rightarrow> bool" where
  "join_request_ok \<sigma> q st \<longleftrightarrow> (case q of (js, ps, logical) \<Rightarrow>
     (pieces_ok \<sigma> True ps \<or> pieces_ok \<sigma> False ps) \<and> join_ref \<sigma> js \<and> join_room st (join_total ps logical))"

interpretation joinalloc: range_allocator "join_ok \<sigma>" "join_request_ok \<sigma>" "\<lambda>(js, ps, logical). FindAddJoin js ps logical"
  "\<lambda>st. set (jm_list st)" join_key "\<lambda>(js, ps, logical). (join_total ps logical, ps)"
  "\<lambda>r i. vd_Offset (jr_Unified r) + of_nat i" jr_len findJoinInternal for \<sigma>
proof (unfold_locales, goal_cases)
  case (1 st q r st')
  then show ?case using FindAddJoin_ok by (cases q) (fastforce simp: join_request_ok_def)
next
  case (2 st r q)
  then show ?case using FindAddJoin_again by (cases q) auto
next
  case (3 st r i)
  then show ?case by (rule join_ok_find(2))
qed

inductive join_reach :: "space_store \<Rightarrow> joinManager \<Rightarrow> joinManager \<Rightarrow> bool" for \<sigma> st where
  start: "join_reach \<sigma> st st"
| add: "\<lbrakk>join_reach \<sigma> st st1; join_request_ok \<sigma> (js, ps, logical) st1; FindAddJoin js ps logical st1 = (r, st2)\<rbrakk>
    \<Longrightarrow> join_reach \<sigma> st st2"

lemma join_reach_alloc: "join_reach \<sigma> st st' \<Longrightarrow> joinalloc.reach \<sigma> st st'"
proof (induction rule: join_reach.induct)
  case (add st1 js ps logical r st2)
  show ?case
    by (rule joinalloc.step [OF add.IH, where q = "(js, ps, logical)"]) (use add.hyps in simp_all)
qed (rule joinalloc.start)

text \<open>
  C15: the join manager as a state machine. From a well-formed state, the record a request gets is
  never lost or moved by later requests: the same pieces and size give it again without any
  change of the state, whatever join space is named; \<^verbatim>\<open>FindJoin\<close> finds it at its first offset and
  \<^verbatim>\<open>findJoinInternal\<close> at each of its offsets; ranges of different records are disjoint.
\<close>

theorem join_allocation_stable:
  assumes "join_ok \<sigma> st" "join_request_ok \<sigma> (js, ps, logical) st" "FindAddJoin js ps logical st = (r, st1)"
    "join_reach \<sigma> st1 st2"
  shows "join_ok \<sigma> st2 \<and> FindAddJoin js' ps logical st2 = (r, st2) \<and> FindJoin st2 (vd_Offset (jr_Unified r)) = Some r
    \<and> (\<forall>i<jr_len r. findJoinInternal st2 (vd_Offset (jr_Unified r) + of_nat i) = Some r)
    \<and> (\<forall>r'\<in>set (jm_list st2). \<forall>i<jr_len r. \<forall>j<jr_len r'.
         vd_Offset (jr_Unified r) + of_nat i = vd_Offset (jr_Unified r') + of_nat j \<longrightarrow> r = r')"
proof -
  have *: "join_ok \<sigma> st2 \<and> r \<in> set (jm_list st2) \<and> FindAddJoin js' ps logical st2 = (r, st2)
    \<and> (\<forall>i<jr_len r. findJoinInternal st2 (vd_Offset (jr_Unified r) + of_nat i) = Some r)"
    using joinalloc.stable [OF assms(1,2) _ join_reach_alloc [OF assms(4)]] assms(3) by fastforce
  then show ?thesis using join_ok_find(1) joinalloc.disjoint by blast
qed

section \<open>Storage\<close>

text \<open>The physical byte behind a byte address, and the bytes of a range.\<close>

definition resolve_byte :: "space_store \<Rightarrow> joinManager \<Rightarrow> Address \<Rightarrow> Address option" where
  "resolve_byte \<sigma> st a =
     (if join_ref \<sigma> (ad_Space a) then
        (case findJoinInternal st (ad_Offset a) of
           None \<Rightarrow> None
         | Some rec \<Rightarrow> (case equivalentAddress \<sigma> rec (ad_Offset a) of
             Inl _ \<Rightarrow> None
           | Inr (b, pos) \<Rightarrow> if pos < 0 then None else Some b))
      else Some a)"

definition storage :: "space_store \<Rightarrow> joinManager \<Rightarrow> Address \<Rightarrow> nat \<Rightarrow> Address option list" where
  "storage \<sigma> st a n = map (\<lambda>i. resolve_byte \<sigma> st (a\<lparr>ad_Offset := ad_Offset a + of_nat i\<rparr>)) [0..<n]"

lemma record_pieces_ok:
  assumes "join_ok \<sigma> st" "r \<in> set (jm_list st)"
  obtains big where "pieces_ok \<sigma> big (jr_Pieces r)" "join_ref \<sigma> (vd_Space (jr_Unified r))"
  using assms by (auto simp: join_ok_def record_ok_def list_all_iff)

lemma join_ok_bound:
  assumes "join_ok \<sigma> st" "r \<in> set (jm_list st)"
  shows "jr_start r + jr_len r < 2 ^ 64" "0 < vd_Size (jr_Unified r)" "vd_Size (jr_Unified r) < 2 ^ 31"
proof -
  have "join_layout 0 (jm_list st) (unat (jm_allocate st))" using assms(1) by (simp add: join_ok_def)
  moreover have "unat (jm_allocate st) < 2 ^ 64" using unsigned_less [of "jm_allocate st"] by simp
  ultimately
  show "jr_start r + jr_len r < 2 ^ 64" "0 < vd_Size (jr_Unified r)" "vd_Size (jr_Unified r) < 2 ^ 31"
    using join_layout_mem [OF _ assms(2)] by force+
qed

lemma resolve_record_byte:
  assumes ok: "join_ok \<sigma> st" "r \<in> set (jm_list st)" and js: "join_ref \<sigma> (ad_Space a)"
    and a: "ad_Offset a = vd_Offset (jr_Unified r) + of_nat k" and k: "k < jr_len r" "k < length (record_bytes \<sigma> r)"
  shows "resolve_byte \<sigma> st a = Some (record_bytes \<sigma> r ! k)"
proof -
  obtain big where big: "pieces_ok \<sigma> big (jr_Pieces r)" using record_pieces_ok [OF ok] by blast
  have "jr_start r + k < 2 ^ 64" using join_ok_bound(1) [OF ok] k(1) by linarith
  from equivalentAddress_at [OF big this k(2)] obtain n q where
    nq: "n < length (mem_order big (jr_Pieces r))" "q < nat (vd_Size (mem_order big (jr_Pieces r) ! n))"
      "k = length (pieces_bytes (take n (mem_order big (jr_Pieces r)))) + q"
    and eq: "equivalentAddress \<sigma> r (ad_Offset a) =
      Inr (\<lparr>ad_Space = vd_Space (mem_order big (jr_Pieces r) ! n),
            ad_Offset = vd_Offset (mem_order big (jr_Pieces r) ! n) + of_nat q\<rparr>,
           int (if big then n else length (mem_order big (jr_Pieces r)) - 1 - n))"
    unfolding a by blast
  have "record_bytes \<sigma> r ! k = \<lparr>ad_Space = vd_Space (mem_order big (jr_Pieces r) ! n),
            ad_Offset = vd_Offset (mem_order big (jr_Pieces r) ! n) + of_nat q\<rparr>"
    unfolding record_bytes_def big_first_ok [OF big] by (rule nth_pieces_bytes(1) [OF nq])
  moreover have "findJoinInternal st (ad_Offset a) = Some r" unfolding a by (rule join_ok_find(2) [OF ok k(1)])
  ultimately show ?thesis using js eq by (simp add: resolve_byte_def)
qed

lemma storage_record:
  assumes "join_ok \<sigma> st" "r \<in> set (jm_list st)" "join_ref \<sigma> (ad_Space a)"
    "ad_Offset a = vd_Offset (jr_Unified r) + of_nat k" "k + n \<le> jr_len r" "k + n \<le> length (record_bytes \<sigma> r)"
  shows "storage \<sigma> st a n = map Some (take n (drop k (record_bytes \<sigma> r)))"
proof (rule nth_equalityI)
  fix i assume "i < length (storage \<sigma> st a n)"
  then have i: "i < n" by (simp add: storage_def)
  have "resolve_byte \<sigma> st (a\<lparr>ad_Offset := ad_Offset a + of_nat i\<rparr>) = Some (record_bytes \<sigma> r ! (k + i))"
    using assms i by (intro resolve_record_byte) (simp_all add: add.assoc)
  then show "storage \<sigma> st a n ! i = map Some (take n (drop k (record_bytes \<sigma> r))) ! i"
    using i assms(6) by (simp add: storage_def)
qed (use assms(6) in \<open>simp add: storage_def\<close>)

lemma storage_plain:
  assumes "\<not> join_ref \<sigma> (ad_Space a)"
  shows "storage \<sigma> st a n = map Some (piece_bytes \<lparr>vd_Space = ad_Space a, vd_Offset = ad_Offset a, vd_Size = int n\<rparr>)"
  using assms by (cases a) (simp add: storage_def resolve_byte_def piece_bytes_def)

lemma piece_ok_plain: "piece_ok \<sigma> big p \<Longrightarrow> \<not> join_ref \<sigma> (vd_Space p)"
  by (auto simp: piece_ok_def join_ref_def split: option.splits)

section \<open>Renormalization\<close>

lemma map_first_Cons [simp]: "map_first f (x # xs) = f x # xs"
  by (simp add: map_first_def)

lemma map_last_snoc [simp]: "map_last f (xs @ [x]) = xs @ [f x]" "map_last f (y # xs @ [x]) = y # xs @ [f x]"
  by (simp_all add: map_last_def list_update_append nth_append)

lemma slicePieces_nth: "a \<le> b \<Longrightarrow> b < length ps \<Longrightarrow> i \<le> b - a \<Longrightarrow> slicePieces ps a b ! i = ps ! (a + i)"
  by (simp add: slicePieces_def)

lemma length_slicePieces: "a \<le> b \<Longrightarrow> b < length ps \<Longrightarrow> length (slicePieces ps a b) = b + 1 - a"
  by (simp add: slicePieces_def)

lemma slicePieces_rev:
  assumes "a \<le> b" "b < length ps"
  shows "slicePieces (rev ps) (length ps - 1 - b) (length ps - 1 - a) = rev (slicePieces ps a b)"
proof (rule nth_equalityI)
  show "length (slicePieces (rev ps) (length ps - 1 - b) (length ps - 1 - a)) = length (rev (slicePieces ps a b))"
    using assms by (simp add: length_slicePieces)
  fix i assume "i < length (slicePieces (rev ps) (length ps - 1 - b) (length ps - 1 - a))"
  then have i: "i \<le> b - a" using assms by (simp add: length_slicePieces)
  have "rev ps ! (length ps - 1 - b + i) = ps ! (b - i)" using i assms by (simp add: rev_nth)
  moreover have "rev (slicePieces ps a b) ! i = ps ! (b - i)"
    using i assms by (simp add: rev_nth length_slicePieces slicePieces_nth)
  ultimately show "slicePieces (rev ps) (length ps - 1 - b) (length ps - 1 - a) ! i = rev (slicePieces ps a b) ! i"
    using i assms by (simp add: slicePieces_nth)
qed

text \<open>The list between two positions, split at its ends.\<close>

lemma list_split2:
  assumes "n1 < n2" "n2 < length os"
  obtains A M B where "os = A @ os ! n1 # M @ os ! n2 # B" "length A = n1" "length M = n2 - n1 - 1"
    "take n1 os = A" "take n2 os = A @ os ! n1 # M" "slicePieces os n1 n2 = os ! n1 # M @ [os ! n2]"
proof -
  define A M B where "A = take n1 os" and "M = drop (Suc n1) (take n2 os)" and "B = drop (Suc n2) os"
  have t2: "take n2 os = A @ os ! n1 # M"
    using id_take_nth_drop [of n1 "take n2 os"] assms by (simp add: A_def M_def min_absorb1)
  then have os: "os = A @ os ! n1 # M @ os ! n2 # B"
    using id_take_nth_drop [of n2 os] assms by (simp add: B_def)
  have len: "length A = n1" "length M = n2 - n1 - 1" using assms by (simp_all add: A_def M_def)
  have "slicePieces os n1 n2 = take (n2 + 1 - n1) (drop n1 (A @ os ! n1 # M @ os ! n2 # B))"
    unfolding slicePieces_def using os by simp
  also have "\<dots> = os ! n1 # M @ [os ! n2]" using len assms by (simp add: Suc_diff_le take_Cons')
  finally show thesis using that os len t2 by (simp add: A_def)
qed

lemma piece_bytes_trimBack:
  assumes "q < nat (vd_Size p)" "vd_Size p < 2 ^ 31"
  shows "piece_bytes (trimBack (i32 (vd_Size p - i32 (int q) - 1)) p) = take (Suc q) (piece_bytes p)"
    "vd_Size (trimBack (i32 (vd_Size p - i32 (int q) - 1)) p) = int (Suc q)"
  using assms by (simp_all add: trimBack_def piece_bytes_def i32_id take_map nat_add_distrib min_absorb2)

lemma piece_bytes_moveFront:
  assumes "q < nat (vd_Size p)" "vd_Size p < 2 ^ 31"
  shows "piece_bytes (moveFront (vd_Offset p + of_nat q) (i32 (int q)) p) = drop q (piece_bytes p)"
    "vd_Size (moveFront (vd_Offset p + of_nat q) (i32 (int q)) p) = vd_Size p - int q"
  using assms by (auto simp: moveFront_def piece_bytes_def i32_id drop_map nat_diff_distrib algebra_simps intro!: nth_equalityI)

lemma pieces_ok_size:
  assumes "pieces_ok \<sigma> big ps" "p \<in> set ps"
  shows "0 < vd_Size p" "vd_Size p < 2 ^ 31"
proof -
  have pos: "\<forall>x\<in>set (map vd_Size ps). 0 \<le> x" using pieces_ok_sizes [OF assms(1)] by (auto simp: list_all_iff)
  have "vd_Size p \<le> sum_list (map vd_Size ps)" using assms(2) pos by (intro member_le_sum_list) auto
  with assms show "vd_Size p < 2 ^ 31" "0 < vd_Size p" by (auto simp: pieces_ok_def piece_ok_def list_all_iff)
qed

lemma cutPieces_order:
  fixes os :: "VarnodeData list"
  assumes "n1 < n2" "n2 < length os"
    and "q1 < nat (vd_Size (os ! n1))" "q2 < nat (vd_Size (os ! n2))" "vd_Size (os ! n1) < 2 ^ 31" "vd_Size (os ! n2) < 2 ^ 31"
    and "slicePieces os n1 n2 = os ! n1 # M @ [os ! n2]"
    and "ad_Offset addr1 = vd_Offset (os ! n1) + of_nat q1" "ad_Offset addr2 = vd_Offset (os ! n2) + of_nat q2"
  shows "mem_order big (cutPieces (mem_order big os) addr1 (if big then n1 else length os - 1 - n1)
           addr2 (if big then n2 else length os - 1 - n2)) =
    moveFront (vd_Offset (os ! n1) + of_nat q1) (i32 (int q1)) (os ! n1) # M
      @ [trimBack (i32 (vd_Size (os ! n2) - i32 (int q2) - 1)) (os ! n2)]"
proof -
  have u: "uint (of_nat q1 :: u64) = int q1" "uint (of_nat q2 :: u64) = int q2"
    using assms(3-6) by (simp_all add: uint_nat unat_of_nat)
  show ?thesis
  proof (cases big)
    case True
    then show ?thesis using assms u by (simp add: cutPieces_def mem_order_def Let_def)
  next
    case False
    have nth: "rev os ! (length os - Suc n1) = os ! n1" "rev os ! (length os - Suc n2) = os ! n2"
      using assms(1,2) by (simp_all add: rev_nth)
    have "slicePieces (rev os) (length os - Suc n2) (length os - Suc n1) = os ! n2 # rev M @ [os ! n1]"
      using slicePieces_rev [of n1 n2 os] assms(1,2,7) by simp
    moreover have "length os - Suc n2 < length os - Suc n1" using assms(1,2) by simp
    ultimately show ?thesis using False assms(8,9) u nth by (simp add: cutPieces_def mem_order_def Let_def)
  qed
qed

lemma cutPieces_bytes:
  assumes ok: "pieces_ok \<sigma> big ps" and os: "os = mem_order big ps" and n: "n1 < n2" "n2 < length os"
    and q: "q1 < nat (vd_Size (os ! n1))" "q2 < nat (vd_Size (os ! n2))"
    and addr: "ad_Offset addr1 = vd_Offset (os ! n1) + of_nat q1" "ad_Offset addr2 = vd_Offset (os ! n2) + of_nat q2"
    and k: "k = length (pieces_bytes (take n1 os)) + q1" "k + Suc m = length (pieces_bytes (take n2 os)) + Suc q2"
  defines "new \<equiv> cutPieces ps addr1 (if big then n1 else length os - 1 - n1) addr2 (if big then n2 else length os - 1 - n2)"
  shows "pieces_bytes (mem_order big new) = take (Suc m) (drop k (pieces_bytes os)) \<and> pieces_ok \<sigma> big new
    \<and> sum_list (map vd_Size new) = int (Suc m)"
proof -
  obtain A M B where AMB: "os = A @ os ! n1 # M @ os ! n2 # B" "take n1 os = A" "take n2 os = A @ os ! n1 # M"
      "slicePieces os n1 n2 = os ! n1 # M @ [os ! n2]"
    using list_split2 [OF n] by metis
  have ps: "ps = mem_order big os" "set ps = set os" using os by (simp_all add: mem_order_def)
  have mem: "os ! n1 \<in> set ps" "os ! n2 \<in> set ps" using n ps(2) by simp_all
  note s1 = pieces_ok_size [OF ok mem(1)] and s2 = pieces_ok_size [OF ok mem(2)]
  let ?p1 = "moveFront (vd_Offset (os ! n1) + of_nat q1) (i32 (int q1)) (os ! n1)"
  let ?p2 = "trimBack (i32 (vd_Size (os ! n2) - i32 (int q2) - 1)) (os ! n2)"
  have new: "mem_order big new = ?p1 # M @ [?p2]"
    unfolding new_def ps(1) by (rule cutPieces_order [OF n q s1(2) s2(2) AMB(4) addr])
  have bytes: "pieces_bytes os = pieces_bytes A @ piece_bytes (os ! n1) @ pieces_bytes M @ piece_bytes (os ! n2) @ pieces_bytes B"
    by (subst AMB(1)) simp
  have m: "Suc m = nat (vd_Size (os ! n1)) - q1 + length (pieces_bytes M) + Suc q2"
    using k q(1) by (simp add: AMB(2,3))
  have eq: "pieces_bytes (mem_order big new) = take (Suc m) (drop k (pieces_bytes os))"
    unfolding new bytes using q m k(1)
    by (simp add: piece_bytes_moveFront [OF q(1) s1(2)] piece_bytes_trimBack [OF q(2) s2(2)] AMB(2))
  have setM: "set M \<subseteq> set ps" using AMB(1) ps(2) by (metis Un_iff set_append set_subset_Cons subsetI subset_iff)
  have pk: "piece_ok \<sigma> big p" if "p \<in> set ps" for p using ok that by (simp add: pieces_ok_def list_all_iff)
  have "piece_ok \<sigma> big ?p1" "piece_ok \<sigma> big ?p2"
    using pk [OF mem(1)] pk [OF mem(2)] q piece_bytes_moveFront(2) [OF q(1) s1(2)] piece_bytes_trimBack(2) [OF q(2) s2(2)]
    by (auto simp: piece_ok_def moveFront_def trimBack_def)
  then have all: "list_all (piece_ok \<sigma> big) new"
    using new setM pk mem_order_sizes [of "piece_ok \<sigma> big" big new] by (auto simp: list_all_iff)
  then have sz: "list_all (\<lambda>p. 0 < vd_Size p) new" by (auto simp: list_all_iff piece_ok_def)
  have len: "k + Suc m \<le> length (pieces_bytes os)" unfolding bytes m using k(1) q by (simp add: AMB(2))
  then have "length (pieces_bytes (mem_order big new)) = Suc m" unfolding eq by simp
  then have sum: "sum_list (map vd_Size new) = int (Suc m)"
    using length_pieces_bytes_order [OF sz, of big] by simp
  moreover have "int (Suc m) \<le> int (length (pieces_bytes os))" using len by simp
  moreover have "int (length (pieces_bytes os)) < 2 ^ 31"
    using length_pieces_bytes_order [OF pieces_ok_sizes [OF ok], of big] ok os by (simp add: pieces_ok_def)
  moreover have "new \<noteq> []" using new by (cases big) (auto simp: mem_order_def)
  ultimately have "pieces_ok \<sigma> big new" using all by (simp add: pieces_ok_def)
  with eq sum show ?thesis by blast
qed

text \<open>The new record for a cut, and the bytes it stands for.\<close>

lemma FindAddJoin_storage:
  assumes ok: "join_ok \<sigma> st" and js: "join_ref \<sigma> js" and ps: "pieces_ok \<sigma> big ps"
    and room: "join_room st (sum_list (map vd_Size ps))" and call: "FindAddJoin js ps 0 st = (r, st')"
    and a: "join_ref \<sigma> s"
  shows "join_ok \<sigma> st' \<and> r \<in> set (jm_list st') \<and> vd_Size (jr_Unified r) = sum_list (map vd_Size ps)
    \<and> storage \<sigma> st' \<lparr>ad_Space = s, ad_Offset = vd_Offset (jr_Unified r)\<rparr> (nat (sum_list (map vd_Size ps)))
      = map Some (pieces_bytes (mem_order big ps))"
proof -
  have t: "join_total ps 0 = sum_list (map vd_Size ps)"
    using ps totalPieceSize_sum [OF pieces_ok_sizes [OF ps]] by (simp add: join_total_def pieces_ok_def)
  have r: "join_ok \<sigma> st'" "r \<in> set (jm_list st')" "vd_Size (jr_Unified r) = sum_list (map vd_Size ps)" "jr_Pieces r = ps"
    using FindAddJoin_ok [OF ok ps js _ call] room unfolding t by (auto simp: join_key_def)
  have b: "record_bytes \<sigma> r = pieces_bytes (mem_order big ps)"
    by (simp add: record_bytes_def r(4) big_first_ok [OF ps])
  have "int (length (record_bytes \<sigma> r)) = sum_list (map vd_Size ps)"
    unfolding b by (rule length_pieces_bytes_order [OF pieces_ok_sizes [OF ps]])
  then have len: "nat (sum_list (map vd_Size ps)) = length (record_bytes \<sigma> r)" by linarith
  have "storage \<sigma> st' \<lparr>ad_Space = s, ad_Offset = vd_Offset (jr_Unified r)\<rparr> (length (record_bytes \<sigma> r)) =
      map Some (take (length (record_bytes \<sigma> r)) (drop 0 (record_bytes \<sigma> r)))"
    by (rule storage_record [OF r(1,2)]) (use a r(3) len in simp_all)
  then show ?thesis using r len b by simp
qed

lemma piece_bytes_part:
  assumes "q + n \<le> nat (vd_Size p)"
  shows "piece_bytes \<lparr>vd_Space = vd_Space p, vd_Offset = vd_Offset p + of_nat q, vd_Size = int n\<rparr>
    = take n (drop q (piece_bytes p))"
  using assms by (intro nth_equalityI) (auto simp: piece_bytes_def add.assoc)

lemma take_bytes_mono:
  assumes "n1 < length os" "n2 < length os" "q2 < nat (vd_Size (os ! n2))"
    "length (pieces_bytes (take n1 os)) + q1 \<le> length (pieces_bytes (take n2 os)) + q2"
  shows "n1 \<le> n2"
proof (rule ccontr)
  assume "\<not> n1 \<le> n2"
  then have "take n1 os = take n2 os @ os ! n2 # drop (Suc n2) (take n1 os)"
    using id_take_nth_drop [of n2 "take n1 os"] assms(1) by (simp add: min_absorb2)
  then have "length (pieces_bytes (take n1 os)) =
      length (pieces_bytes (take n2 os)) + nat (vd_Size (os ! n2)) + length (pieces_bytes (drop (Suc n2) (take n1 os)))"
    by (metis length_append length_piece_bytes pieces_bytes_simps(2,3) add.assoc)
  with assms(3,4) show False by simp
qed

lemma take_within_piece:
  assumes "n < length os" "q + m \<le> nat (vd_Size (os ! n))" "k = length (pieces_bytes (take n os)) + q"
  shows "take m (drop k (pieces_bytes os)) =
    piece_bytes \<lparr>vd_Space = vd_Space (os ! n), vd_Offset = vd_Offset (os ! n) + of_nat q, vd_Size = int m\<rparr>"
proof -
  have "pieces_bytes os = pieces_bytes (take n os @ os ! n # drop (Suc n) os)"
    using assms(1) by (simp add: id_take_nth_drop [symmetric])
  then have "pieces_bytes os = pieces_bytes (take n os) @ piece_bytes (os ! n) @ pieces_bytes (drop (Suc n) os)" by simp
  then show ?thesis using assms(2,3) by (simp add: piece_bytes_part)
qed

lemma equivalentAddress_pos:
  assumes "join_ok \<sigma> st" "r \<in> set (jm_list st)" "pieces_ok \<sigma> big (jr_Pieces r)" "k < jr_len r" "k < length (record_bytes \<sigma> r)"
  obtains n q where "n < length (mem_order big (jr_Pieces r))" "q < nat (vd_Size (mem_order big (jr_Pieces r) ! n))"
    "k = length (pieces_bytes (take n (mem_order big (jr_Pieces r)))) + q"
    "equivalentAddress \<sigma> r (vd_Offset (jr_Unified r) + of_nat k) =
      Inr (\<lparr>ad_Space = vd_Space (mem_order big (jr_Pieces r) ! n),
            ad_Offset = vd_Offset (mem_order big (jr_Pieces r) ! n) + of_nat q\<rparr>,
           int (if big then n else length (mem_order big (jr_Pieces r)) - 1 - n))"
proof -
  have "jr_start r + k < 2 ^ 64" using join_ok_bound(1) [OF assms(1,2)] assms(4) by linarith
  from equivalentAddress_at [OF assms(3) this assms(5)] show thesis using that by blast
qed

text \<open>The two outcomes of a range that is not a whole record: one piece, or a new record.\<close>

lemma renormalizeJoin_inner:
  assumes ok: "join_ok \<sigma> st" and r: "r \<in> set (jm_list st)" and pieces: "pieces_ok \<sigma> big (jr_Pieces r)"
    and room: "join_room st (int (Suc m))"
    and os: "os = mem_order big (jr_Pieces r)"
    and 1: "n1 < length os" "q1 < nat (vd_Size (os ! n1))" "k = length (pieces_bytes (take n1 os)) + q1"
      "equivalentAddress \<sigma> r (ad_Offset addr) = Inr (addr1, int (if big then n1 else length os - 1 - n1))"
      "addr1 = \<lparr>ad_Space = vd_Space (os ! n1), ad_Offset = vd_Offset (os ! n1) + of_nat q1\<rparr>"
    and 2: "n2 < length os" "q2 < nat (vd_Size (os ! n2))" "k + m = length (pieces_bytes (take n2 os)) + q2"
      "equivalentAddress \<sigma> r (ad_Offset addr + u64_of (i32 (int (Suc m) - 1))) = Inr (addr2, int (if big then n2 else length os - 1 - n2))"
      "addr2 = \<lparr>ad_Space = vd_Space (os ! n2), ad_Offset = vd_Offset (os ! n2) + of_nat q2\<rparr>"
    and found: "findJoinInternal st (ad_Offset addr) = Some r"
    and nomatch: "\<not> (ad_Offset addr = vd_Offset (jr_Unified r) \<and> int (Suc m) = vd_Size (jr_Unified r))"
  shows "\<exists>addr' st'. renormalizeJoin \<sigma> st addr (int (Suc m)) = Inr (addr', st') \<and> join_ok \<sigma> st'
    \<and> storage \<sigma> st' addr' (Suc m) = map Some (take (Suc m) (drop k (pieces_bytes os)))
    \<and> (\<not> join_ref \<sigma> (ad_Space addr')
       \<or> (\<exists>r'. FindJoin st' (ad_Offset addr') = Some r' \<and> vd_Size (jr_Unified r') = int (Suc m)))"
proof (cases "n1 = n2")
  case True
  have "os ! n1 \<in> set (jr_Pieces r)" using 1(1) os by (metis mem_order_def nth_mem set_rev)
  then have plain: "\<not> join_ref \<sigma> (ad_Space addr1)"
    using pieces 1(5) by (auto simp: pieces_ok_def list_all_iff piece_ok_plain)
  have "q1 + Suc m \<le> nat (vd_Size (os ! n1))" using True 1(3) 2(2,3) by simp
  from take_within_piece [OF 1(1) this 1(3)]
  have "storage \<sigma> st addr1 (Suc m) = map Some (take (Suc m) (drop k (pieces_bytes os)))"
    using storage_plain [OF plain, of st "Suc m"] 1(5) by simp
  moreover have "renormalizeJoin \<sigma> st addr (int (Suc m)) = Inr (addr1, st)"
    unfolding renormalizeJoin_def found option.case if_not_P [OF nomatch] 1(4) 2(4) then_step_simps prod.case
    using True by simp
  ultimately show ?thesis using ok plain by blast
next
  case False
  have n: "n1 < n2" using take_bytes_mono [OF 1(1) 2(1,2), of q1] False 1(3) 2(3) by simp
  define new where "new = cutPieces (jr_Pieces r) addr1 (if big then n1 else length os - 1 - n1)
    addr2 (if big then n2 else length os - 1 - n2)"
  have new: "pieces_bytes (mem_order big new) = take (Suc m) (drop k (pieces_bytes os))" "pieces_ok \<sigma> big new"
      "sum_list (map vd_Size new) = int (Suc m)"
    unfolding new_def using cutPieces_bytes [OF pieces os n 2(1) 1(2) 2(2) _ _ 1(3)] 1(5) 2(3,5) by auto
  have js: "join_ref \<sigma> (vd_Space (jr_Unified r))" using record_pieces_ok [OF ok r] by blast
  obtain nr st' where call: "FindAddJoin (vd_Space (jr_Unified r)) new 0 st = (nr, st')" by fastforce
  have nr: "join_ok \<sigma> st'" "nr \<in> set (jm_list st')" "vd_Size (jr_Unified nr) = int (Suc m)"
    using FindAddJoin_storage [OF ok js new(2) _ call js] room new(3) by auto
  have js': "join_ref \<sigma> (vd_Space (jr_Unified nr))" using record_pieces_ok [OF nr(1,2)] by blast
  have st: "storage \<sigma> st' \<lparr>ad_Space = vd_Space (jr_Unified nr), ad_Offset = vd_Offset (jr_Unified nr)\<rparr> (Suc m)
      = map Some (take (Suc m) (drop k (pieces_bytes os)))"
    using FindAddJoin_storage [OF ok js new(2) _ call js'] room unfolding new(1,3) nat_int by blast
  have pos: "int (if big then n1 else length os - 1 - n1) \<noteq> int (if big then n2 else length os - 1 - n2)"
    using n 2(1) by auto
  have "renormalizeJoin \<sigma> st addr (int (Suc m)) =
      Inr (\<lparr>ad_Space = vd_Space (jr_Unified nr), ad_Offset = vd_Offset (jr_Unified nr)\<rparr>, st')"
    unfolding renormalizeJoin_def found option.case if_not_P [OF nomatch] 1(4) 2(4) then_step_simps prod.case if_not_P [OF pos]
    using call by (simp add: new_def)
  then show ?thesis using nr st join_ok_find(1) [OF nr(1,2)] by auto
qed

text \<open>
  C16: \<^verbatim>\<open>renormalizeJoin\<close> on a range of a record succeeds, keeps the manager well-formed, and the
  address it returns stands for exactly the same physical bytes. The result is normal: it is a
  physical address, or the start of a record of exactly the requested size.
\<close>

theorem renormalizeJoin_storage:
  assumes ok: "join_ok \<sigma> st" and r: "r \<in> set (jm_list st)" and js: "join_ref \<sigma> (ad_Space addr)"
    and off: "ad_Offset addr = vd_Offset (jr_Unified r) + of_nat k"
    and n: "0 < n" "k + n \<le> jr_len r" "k + n \<le> length (record_bytes \<sigma> r)" and room: "join_room st (int n)"
  shows "\<exists>addr' st'. renormalizeJoin \<sigma> st addr (int n) = Inr (addr', st') \<and> join_ok \<sigma> st'
    \<and> storage \<sigma> st' addr' n = storage \<sigma> st addr n
    \<and> (\<not> join_ref \<sigma> (ad_Space addr')
       \<or> (\<exists>r'. FindJoin st' (ad_Offset addr') = Some r' \<and> vd_Size (jr_Unified r') = int n))"
proof -
  obtain m where m: "n = Suc m" using n(1) by (cases n) auto
  obtain big where big: "pieces_ok \<sigma> big (jr_Pieces r)" using record_pieces_ok [OF ok r] by blast
  have found: "findJoinInternal st (ad_Offset addr) = Some r" unfolding off using join_ok_find(2) [OF ok r] n by simp
  have old: "storage \<sigma> st addr n = map Some (take n (drop k (pieces_bytes (mem_order big (jr_Pieces r)))))"
    using storage_record [OF ok r js off n(2,3)] by (simp add: record_bytes_def big_first_ok [OF big])
  have last: "ad_Offset addr + u64_of (i32 (int (Suc m) - 1)) = vd_Offset (jr_Unified r) + of_nat (k + m)"
    using n join_ok_bound [OF ok r] m by (simp add: off i32_id u64_of_def)
  have k: "k < jr_len r" "k < length (record_bytes \<sigma> r)" "k + m < jr_len r" "k + m < length (record_bytes \<sigma> r)"
    using n m by simp_all
  note at1 = equivalentAddress_pos [OF ok r big k(1,2), folded off]
  note at2 = equivalentAddress_pos [OF ok r big k(3,4), folded last]
  show ?thesis
  proof (cases "ad_Offset addr = vd_Offset (jr_Unified r) \<and> int n = vd_Size (jr_Unified r)")
    case True
    then show ?thesis using found ok join_ok_find(1) [OF ok r] by (auto simp: renormalizeJoin_def)
  next
    case False
    note inner = renormalizeJoin_inner [OF ok r big room [unfolded m] refl _ _ _ _ refl _ _ _ _ refl found False [unfolded m]]
    show ?thesis unfolding m old [unfolded m]
    proof (rule at1, rule at2, goal_cases)
      case (1 n1 q1 n2 q2)
      show ?case by (rule inner [OF 1])
    qed
  qed
qed

section \<open>Joining two locations\<close>

text \<open>Two adjacent pieces are one longer piece.\<close>

lemma piece_bytes_append:
  assumes "0 \<le> n" "0 \<le> m"
  shows "piece_bytes \<lparr>vd_Space = s, vd_Offset = x, vd_Size = n\<rparr> @ piece_bytes \<lparr>vd_Space = s, vd_Offset = x + u64_of n, vd_Size = m\<rparr>
    = piece_bytes \<lparr>vd_Space = s, vd_Offset = x, vd_Size = n + m\<rparr>"
proof -
  obtain a b where "n = int a" "m = int b" using assms nonneg_int_cases by metis
  then show ?thesis
    by (auto simp: piece_bytes_def u64_of_def nat_add_distrib nth_append add.assoc intro!: nth_equalityI
        simp flip: of_nat_add)
qed

text \<open>
  C17: \<^verbatim>\<open>ConstructJoinAddress\<close> on two physical locations of one endianness succeeds and the address
  it returns stands for the bytes of both, low address first: the high part first on a
  big-endian machine, the low part first on a little-endian one. This holds on each of its
  branches: the contiguous mappable range, the parent register and the join record.
\<close>

theorem ConstructJoinAddress_storage:
  assumes ok: "join_ok \<sigma> st" and js: "join_ref \<sigma> joinSpace"
    and hi: "piece_ok \<sigma> big \<lparr>vd_Space = ad_Space hi, vd_Offset = ad_Offset hi, vd_Size = hisz\<rparr>"
    and lo: "piece_ok \<sigma> big \<lparr>vd_Space = ad_Space lo, vd_Offset = ad_Offset lo, vd_Size = losz\<rparr>"
    and room: "join_room st (hisz + losz)"
  shows "\<exists>a st'. ConstructJoinAddress \<sigma> joinSpace codeSpace hi hisz lo losz regExists st = Inr (a, st')
    \<and> join_ok \<sigma> st' \<and> storage \<sigma> st' a (nat (hisz + losz)) =
        map Some (pieces_bytes (mem_order big
          [\<lparr>vd_Space = ad_Space hi, vd_Offset = ad_Offset hi, vd_Size = hisz\<rparr>,
           \<lparr>vd_Space = ad_Space lo, vd_Offset = ad_Offset lo, vd_Size = losz\<rparr>]))"
proof -
  let ?hi = "\<lparr>vd_Space = ad_Space hi, vd_Offset = ad_Offset hi, vd_Size = hisz\<rparr>"
  let ?lo = "\<lparr>vd_Space = ad_Space lo, vd_Offset = ad_Offset lo, vd_Size = losz\<rparr>"
  obtain s t where s: "ad_Space hi = Some s" "sp_BigEndian (\<sigma> s) = big" and t: "ad_Space lo = Some t"
    using hi lo by (auto simp: piece_ok_def split: option.splits)
  have sz: "0 < hisz" "0 < losz" using hi lo by (auto simp: piece_ok_def)
  have "\<exists>u. usesJoinSpace \<sigma> codeSpace hi lo = Inr u" by (auto simp: usesJoinSpace_def s t)
  then obtain u where u: "usesJoinSpace \<sigma> codeSpace hi lo = Inr u" by blast
  have "\<exists>c. IsContiguous \<sigma> hi hisz lo losz = Inr c" by (auto simp: IsContiguous_def s t)
  then obtain c where c: "IsContiguous \<sigma> hi hisz lo losz = Inr c" by blast
  have ps: "pieces_ok \<sigma> big [?hi, ?lo]" using hi lo room by (simp add: pieces_ok_def join_room_def)
  obtain r st' where call: "FindAddJoin joinSpace [?hi, ?lo] 0 st = (r, st')" by fastforce
  have joined: "join_ok \<sigma> st'" "storage \<sigma> st' \<lparr>ad_Space = joinSpace, ad_Offset = vd_Offset (jr_Unified r)\<rparr> (nat (hisz + losz))
      = map Some (pieces_bytes (mem_order big [?hi, ?lo]))"
    using FindAddJoin_storage [OF ok js ps _ call js] room by simp_all
  have whole: "storage \<sigma> st (if big then hi else lo) (nat (hisz + losz)) = map Some (pieces_bytes (mem_order big [?hi, ?lo]))"
    if c
  proof -
    have adj: "ad_Space hi = ad_Space lo" "(if big then ad_Offset hi + u64_of hisz = ad_Offset lo else ad_Offset lo + u64_of losz = ad_Offset hi)"
      using c that s t by (cases "s = t"; cases big; simp add: IsContiguous_def)+
    have "\<not> join_ref \<sigma> (ad_Space (if big then hi else lo))" using piece_ok_plain [OF hi] adj(1) by simp
    from storage_plain [OF this, of st "nat (hisz + losz)"]
    show ?thesis
      using adj sz piece_bytes_append [of hisz losz "ad_Space hi" "ad_Offset hi"]
        piece_bytes_append [of losz hisz "ad_Space lo" "ad_Offset lo"]
      by (cases big) (auto simp: mem_order_def add.commute)
  qed
  have "ConstructJoinAddress \<sigma> joinSpace codeSpace hi hisz lo losz regExists st =
      (if c \<and> (\<not> u \<or> (case regExists of None \<Rightarrow> False | Some f \<Rightarrow> f (if big then hi else lo) (i32 (hisz + losz))))
       then Inr (if big then hi else lo, st)
       else Inr (\<lparr>ad_Space = joinSpace, ad_Offset = vd_Offset (jr_Unified r)\<rparr>, st'))"
    using u c s call by (simp add: ConstructJoinAddress_def Let_def)
  then show ?thesis using ok whole joined by (auto split: if_splits)
qed

section \<open>The table of join spaces\<close>

text \<open>\<^verbatim>\<open>JoinSpaceAt\<close> creates one space per index and returns it ever after.\<close>

definition join_table_ok :: "joinSpaceTable \<Rightarrow> bool" where
  "join_table_ok t \<longleftrightarrow> (\<forall>i s. jt_map t i = Some s \<longrightarrow> s < jt_next t \<and> sp_Kind (jt_store t s) = SpaceKindJoin
     \<and> sp_Index (jt_store t s) = i)"

lemma JoinSpaceAt_ok:
  assumes "join_table_ok t" "JoinSpaceAt i t = (s, t')"
  shows "join_table_ok t' \<and> jt_map t' i = Some s \<and> sp_Kind (jt_store t' s) = SpaceKindJoin
    \<and> (\<forall>j s'. jt_map t j = Some s' \<longrightarrow> jt_map t' j = Some s' \<and> jt_store t' s' = jt_store t s')
    \<and> JoinSpaceAt i t' = (s, t')"
proof (cases "jt_map t i")
  case None
  have fresh: "jt_map t j = Some s' \<Longrightarrow> s' \<noteq> jt_next t" for j s'
    using assms(1) by (auto simp: join_table_ok_def)
  have "s' < jt_next t' \<and> sp_Kind (jt_store t' s') = SpaceKindJoin \<and> sp_Index (jt_store t' s') = j"
    if "jt_map t' j = Some s'" for j s'
    using None assms that fresh [of j s']
    by (cases "j = i") (auto simp: JoinSpaceAt_def join_table_ok_def Let_def less_SucI)
  then have "join_table_ok t'" by (simp add: join_table_ok_def)
  then show ?thesis using None assms(2) by (auto simp: JoinSpaceAt_def Let_def dest: fresh)
qed (use assms in \<open>auto simp: JoinSpaceAt_def join_table_ok_def\<close>)

section \<open>Concrete inputs\<close>

text \<open>A little-endian register space 0 and a join space 1; a value in two 4-byte registers.\<close>

definition example_spaces :: space_store where
  "example_spaces i = \<lparr>sp_Name = (if i = 1 then ''join'' else ''register''),
     sp_Kind = (if i = 1 then SpaceKindJoin else SpaceKindProcessor), sp_Index = of_nat i, sp_AddrSize = 8,
     sp_WordSize = 1, sp_BigEndian = False, sp_Physical = True, sp_Delay = 0, sp_Truncated = False, sp_spacebases = []\<rparr>"

definition example_pieces :: "VarnodeData list" where
  "example_pieces = [\<lparr>vd_Space = Some 0, vd_Offset = 0x20, vd_Size = 4\<rparr>, \<lparr>vd_Space = Some 0, vd_Offset = 0, vd_Size = 4\<rparr>]"

definition example_record :: JoinRecord where
  "example_record = \<lparr>jr_Pieces = example_pieces, jr_Unified = \<lparr>vd_Space = Some 1, vd_Offset = 0, vd_Size = 8\<rparr>\<rparr>"

lemma example_request: "join_request_ok example_spaces (Some 1, example_pieces, 0) joins"
  by (simp add: join_request_ok_def pieces_ok_def piece_ok_def example_pieces_def example_spaces_def join_ref_def
      join_room_def join_total_def totalPieceSize_def i32_id joins_def round16_def)

lemma example_add: "FindAddJoin (Some 1) example_pieces 0 joins = (example_record, \<lparr>jm_list = [example_record], jm_allocate = 16\<rparr>)"
  by code_simp

lemma example_state: "join_ok example_spaces \<lparr>jm_list = [example_record], jm_allocate = 16\<rparr>"
  using joinalloc.add_ok [OF joins_ok example_request] example_add by auto

theorem join_allocation_stable_witness:
  "FindJoin \<lparr>jm_list = [example_record], jm_allocate = 16\<rparr> 0 = Some example_record"
  using join_allocation_stable [OF joins_ok example_request example_add join_reach.start, of "Some 1"]
  by (simp add: example_record_def)

theorem renormalizeJoin_storage_witness:
  "\<exists>addr' st'. renormalizeJoin example_spaces \<lparr>jm_list = [example_record], jm_allocate = 16\<rparr>
       \<lparr>ad_Space = Some 1, ad_Offset = 2\<rparr> (int 4) = Inr (addr', st')
     \<and> storage example_spaces st' addr' 4 =
         storage example_spaces \<lparr>jm_list = [example_record], jm_allocate = 16\<rparr> \<lparr>ad_Space = Some 1, ad_Offset = 2\<rparr> 4"
proof -
  have b: "length (record_bytes example_spaces example_record) = 8" by code_simp
  have "join_room \<lparr>jm_list = [example_record], jm_allocate = 16\<rparr> (int 4)" by (simp add: join_room_def round16_def)
  from renormalizeJoin_storage [OF example_state, of example_record "\<lparr>ad_Space = Some 1, ad_Offset = 2\<rparr>" 2 4] this b
  show ?thesis by (simp add: join_ref_def example_spaces_def example_record_def) blast
qed

theorem ConstructJoinAddress_storage_witness:
  "\<exists>a st'. ConstructJoinAddress example_spaces (Some 1) None \<lparr>ad_Space = Some 0, ad_Offset = 0x20\<rparr> 4
       \<lparr>ad_Space = Some 0, ad_Offset = 0\<rparr> 4 None joins = Inr (a, st')
     \<and> storage example_spaces st' a 8 = map Some (pieces_bytes (rev example_pieces))"
proof -
  have "join_room joins (4 + 4)" by (simp add: join_room_def round16_def joins_def)
  moreover have "join_ref example_spaces (Some 1)" "piece_ok example_spaces False \<lparr>vd_Space = Some 0, vd_Offset = 0x20, vd_Size = 4\<rparr>"
      "piece_ok example_spaces False \<lparr>vd_Space = Some 0, vd_Offset = 0, vd_Size = 4\<rparr>"
    by (simp_all add: join_ref_def piece_ok_def example_spaces_def)
  ultimately show ?thesis
    using ConstructJoinAddress_storage [OF joins_ok, of example_spaces "Some 1" False "\<lparr>ad_Space = Some 0, ad_Offset = 0x20\<rparr>" 4
      "\<lparr>ad_Space = Some 0, ad_Offset = 0\<rparr>" 4 None None]
    by (simp add: example_pieces_def mem_order_def) blast
qed

end
