(* ===== verification/Sla_Attrs.thy ===== *)
theory Sla_Attrs
  imports Packed_Decode Address_Space
begin

text \<open>
  \<^verbatim>\<open>pkg/sla/metadata.go\<close>: the element and attribute identifiers of the \<^verbatim>\<open>.sla\<close> format, the typed
  attribute readers every decoder uses, and the decoder of the \<^verbatim>\<open><sleigh>\<close> root with its address
  spaces. The texts of errors are not modelled: an error is its kind and the identifier it names.
  The XML form of the file (\<^verbatim>\<open>xml.go\<close>, over Go's \<^verbatim>\<open>encoding/xml\<close>) is a parameter.
\<close>

datatype sla_error = ErrAttrMissing u32 | ErrAttrType u32 | ErrAttrOverflow u32 | ErrAttrNegative u32
  | ErrElement u32 | ErrChildMissing u32 | ErrChildCount u32 | ErrUnknownBody u64 | ErrBodyMismatch u64
  | ErrShortTable | ErrVersion int | ErrNoSpaces | ErrSpace space_error | ErrPacked packed_error
  | ErrXML | PanicMakeslice

section \<open>Identifiers\<close>

abbreviation "elemConstReal \<equiv> (1 :: u32)"
abbreviation "elemVarnodeTpl \<equiv> (2 :: u32)"
abbreviation "elemConstSpaceID \<equiv> (3 :: u32)"
abbreviation "elemConstHandle \<equiv> (4 :: u32)"
abbreviation "elemOpTpl \<equiv> (5 :: u32)"
abbreviation "elemMaskWord \<equiv> (6 :: u32)"
abbreviation "elemPatBlock \<equiv> (7 :: u32)"
abbreviation "elemPrint \<equiv> (8 :: u32)"
abbreviation "elemPair \<equiv> (9 :: u32)"
abbreviation "elemContextPat \<equiv> (10 :: u32)"
abbreviation "elemNull \<equiv> (11 :: u32)"
abbreviation "elemOperandExp \<equiv> (12 :: u32)"
abbreviation "elemOperandSym \<equiv> (13 :: u32)"
abbreviation "elemOperandSymHead \<equiv> (14 :: u32)"
abbreviation "elemOper \<equiv> (15 :: u32)"
abbreviation "elemDecision \<equiv> (16 :: u32)"
abbreviation "elemOpPrint \<equiv> (17 :: u32)"
abbreviation "elemInstructPat \<equiv> (18 :: u32)"
abbreviation "elemCombinePat \<equiv> (19 :: u32)"
abbreviation "elemConstructor \<equiv> (20 :: u32)"
abbreviation "elemConstructTpl \<equiv> (21 :: u32)"
abbreviation "elemScope \<equiv> (22 :: u32)"
abbreviation "elemVarnodeSym \<equiv> (23 :: u32)"
abbreviation "elemVarnodeSymHead \<equiv> (24 :: u32)"
abbreviation "elemUserOp \<equiv> (25 :: u32)"
abbreviation "elemUserOpHead \<equiv> (26 :: u32)"
abbreviation "elemTokenField \<equiv> (27 :: u32)"
abbreviation "elemVar \<equiv> (28 :: u32)"
abbreviation "elemContextField \<equiv> (29 :: u32)"
abbreviation "elemHandleTpl \<equiv> (30 :: u32)"
abbreviation "elemConstRelative \<equiv> (31 :: u32)"
abbreviation "elemContextOp \<equiv> (32 :: u32)"
abbreviation "elemSleigh \<equiv> (33 :: u32)"
abbreviation "elemSpaces \<equiv> (34 :: u32)"
abbreviation "elemSourceFiles \<equiv> (35 :: u32)"
abbreviation "elemSourceFile \<equiv> (36 :: u32)"
abbreviation "elemSpace \<equiv> (37 :: u32)"
abbreviation "elemSymbolTable \<equiv> (38 :: u32)"
abbreviation "elemValueSym \<equiv> (39 :: u32)"
abbreviation "elemValueSymHead \<equiv> (40 :: u32)"
abbreviation "elemContextSym \<equiv> (41 :: u32)"
abbreviation "elemContextSymHead \<equiv> (42 :: u32)"
abbreviation "elemEndSym \<equiv> (43 :: u32)"
abbreviation "elemEndSymHead \<equiv> (44 :: u32)"
abbreviation "elemSpaceOther \<equiv> (45 :: u32)"
abbreviation "elemSpaceUnique \<equiv> (46 :: u32)"
abbreviation "elemAndExp \<equiv> (47 :: u32)"
abbreviation "elemDivExp \<equiv> (48 :: u32)"
abbreviation "elemLShiftExp \<equiv> (49 :: u32)"
abbreviation "elemMinusExp \<equiv> (50 :: u32)"
abbreviation "elemMultExp \<equiv> (51 :: u32)"
abbreviation "elemNotExp \<equiv> (52 :: u32)"
abbreviation "elemOrExp \<equiv> (53 :: u32)"
abbreviation "elemPlusExp \<equiv> (54 :: u32)"
abbreviation "elemRShiftExp \<equiv> (55 :: u32)"
abbreviation "elemSubExp \<equiv> (56 :: u32)"
abbreviation "elemXorExp \<equiv> (57 :: u32)"
abbreviation "elemIntB \<equiv> (58 :: u32)"
abbreviation "elemEndExp \<equiv> (59 :: u32)"
abbreviation "elemNext2Exp \<equiv> (60 :: u32)"
abbreviation "elemStartExp \<equiv> (61 :: u32)"
abbreviation "elemEpsilonSym \<equiv> (62 :: u32)"
abbreviation "elemEpsilonSymHead \<equiv> (63 :: u32)"
abbreviation "elemNameSym \<equiv> (64 :: u32)"
abbreviation "elemNameSymHead \<equiv> (65 :: u32)"
abbreviation "elemNameTab \<equiv> (66 :: u32)"
abbreviation "elemNext2Sym \<equiv> (67 :: u32)"
abbreviation "elemNext2SymHead \<equiv> (68 :: u32)"
abbreviation "elemStartSym \<equiv> (69 :: u32)"
abbreviation "elemStartSymHead \<equiv> (70 :: u32)"
abbreviation "elemSubtableSym \<equiv> (71 :: u32)"
abbreviation "elemSubtableSymHead \<equiv> (72 :: u32)"
abbreviation "elemValueMapSym \<equiv> (73 :: u32)"
abbreviation "elemValueMapSymHead \<equiv> (74 :: u32)"
abbreviation "elemValueTab \<equiv> (75 :: u32)"
abbreviation "elemVarListSym \<equiv> (76 :: u32)"
abbreviation "elemVarListSymHead \<equiv> (77 :: u32)"
abbreviation "elemOrPat \<equiv> (78 :: u32)"
abbreviation "elemCommit \<equiv> (79 :: u32)"
abbreviation "elemConstStart \<equiv> (80 :: u32)"
abbreviation "elemConstNext \<equiv> (81 :: u32)"
abbreviation "elemConstNext2 \<equiv> (82 :: u32)"
abbreviation "elemConstCurSpace \<equiv> (83 :: u32)"
abbreviation "elemConstCurSpaceSize \<equiv> (84 :: u32)"
abbreviation "elemConstFlowRef \<equiv> (85 :: u32)"
abbreviation "elemConstFlowRefSize \<equiv> (86 :: u32)"
abbreviation "elemConstFlowDest \<equiv> (87 :: u32)"
abbreviation "elemConstFlowDestSize \<equiv> (88 :: u32)"

abbreviation "attrVal \<equiv> (2 :: u32)"
abbreviation "attrID \<equiv> (3 :: u32)"
abbreviation "attrSpace \<equiv> (4 :: u32)"
abbreviation "attrS \<equiv> (5 :: u32)"
abbreviation "attrOff \<equiv> (6 :: u32)"
abbreviation "attrCode \<equiv> (7 :: u32)"
abbreviation "attrMask \<equiv> (8 :: u32)"
abbreviation "attrIndex \<equiv> (9 :: u32)"
abbreviation "attrNonZero \<equiv> (10 :: u32)"
abbreviation "attrPiece \<equiv> (11 :: u32)"
abbreviation "attrName \<equiv> (12 :: u32)"
abbreviation "attrScope \<equiv> (13 :: u32)"
abbreviation "attrStartBit \<equiv> (14 :: u32)"
abbreviation "attrSize \<equiv> (15 :: u32)"
abbreviation "attrMinLen \<equiv> (18 :: u32)"
abbreviation "attrBase \<equiv> (19 :: u32)"
abbreviation "attrNumber \<equiv> (20 :: u32)"
abbreviation "attrContext \<equiv> (21 :: u32)"
abbreviation "attrParent \<equiv> (22 :: u32)"
abbreviation "attrSubSym \<equiv> (23 :: u32)"
abbreviation "attrLine \<equiv> (24 :: u32)"
abbreviation "attrSource \<equiv> (25 :: u32)"
abbreviation "attrLength \<equiv> (26 :: u32)"
abbreviation "attrFirst \<equiv> (27 :: u32)"
abbreviation "attrPlus \<equiv> (28 :: u32)"
abbreviation "attrShift \<equiv> (29 :: u32)"
abbreviation "attrEndBit \<equiv> (30 :: u32)"
abbreviation "attrSignBit \<equiv> (31 :: u32)"
abbreviation "attrEndByte \<equiv> (32 :: u32)"
abbreviation "attrStartByte \<equiv> (33 :: u32)"
abbreviation "attrVersion \<equiv> (34 :: u32)"
abbreviation "attrBigEndian \<equiv> (35 :: u32)"
abbreviation "attrAlign \<equiv> (36 :: u32)"
abbreviation "attrUniqBase \<equiv> (37 :: u32)"
abbreviation "attrMaxDelay \<equiv> (38 :: u32)"
abbreviation "attrUniqMask \<equiv> (39 :: u32)"
abbreviation "attrNumSections \<equiv> (40 :: u32)"
abbreviation "attrDefaultSpace \<equiv> (41 :: u32)"
abbreviation "attrDelay \<equiv> (42 :: u32)"
abbreviation "attrWordSize \<equiv> (43 :: u32)"
abbreviation "attrPhysical \<equiv> (44 :: u32)"
abbreviation "attrScopeSize \<equiv> (45 :: u32)"
abbreviation "attrSymbolSize \<equiv> (46 :: u32)"
abbreviation "attrVarnode \<equiv> (47 :: u32)"
abbreviation "attrLow \<equiv> (48 :: u32)"
abbreviation "attrHigh \<equiv> (49 :: u32)"
abbreviation "attrFlow \<equiv> (50 :: u32)"
abbreviation "attrI \<equiv> (52 :: u32)"
abbreviation "attrNumCT \<equiv> (53 :: u32)"
abbreviation "attrSection \<equiv> (54 :: u32)"
abbreviation "attrLabels \<equiv> (55 :: u32)"

section \<open>Attribute readers\<close>

definition findAttr :: "packedAttribute list \<Rightarrow> u32 \<Rightarrow> packedAttribute option" where
  "findAttr attrs i = List.find (\<lambda>attr. at_ID attr = i) attrs"

definition requiredBoolAttr :: "packedAttribute list \<Rightarrow> u32 \<Rightarrow> sla_error + bool" where
  "requiredBoolAttr attrs i =
     (case findAttr attrs i of
        None \<Rightarrow> Inl (ErrAttrMissing i)
      | Some attr \<Rightarrow> if at_Type attr \<noteq> attributeValueBool then Inl (ErrAttrType i) else Inr (at_Bool attr))"

definition optionalBoolAttr :: "packedAttribute list \<Rightarrow> u32 \<Rightarrow> bool" where
  "optionalBoolAttr attrs i =
     (case findAttr attrs i of
        None \<Rightarrow> False
      | Some attr \<Rightarrow> if at_Type attr \<noteq> attributeValueBool then False else at_Bool attr)"

definition requiredIntAttr :: "packedAttribute list \<Rightarrow> u32 \<Rightarrow> sla_error + int" where
  "requiredIntAttr attrs i =
     (case findAttr attrs i of
        None \<Rightarrow> Inl (ErrAttrMissing i)
      | Some attr \<Rightarrow> (case at_Type attr of
          attributeValueInt \<Rightarrow> Inr (at_Int attr)
        | attributeValueUint \<Rightarrow>
            if at_Uint attr > 0x7fffffffffffffff then Inl (ErrAttrOverflow i) else Inr (i64_of (at_Uint attr))
        | _ \<Rightarrow> Inl (ErrAttrType i)))"

definition optionalIntAttr :: "packedAttribute list \<Rightarrow> u32 \<Rightarrow> int option" where
  "optionalIntAttr attrs i =
     (case findAttr attrs i of
        None \<Rightarrow> None
      | Some attr \<Rightarrow> (case at_Type attr of
          attributeValueInt \<Rightarrow> Some (at_Int attr)
        | attributeValueUint \<Rightarrow>
            if at_Uint attr > 0x7fffffffffffffff then None else Some (i64_of (at_Uint attr))
        | _ \<Rightarrow> None))"

definition optionalIntAttrDefault :: "packedAttribute list \<Rightarrow> u32 \<Rightarrow> int \<Rightarrow> int" where
  "optionalIntAttrDefault attrs i fallback =
     (case findAttr attrs i of
        None \<Rightarrow> fallback
      | Some attr \<Rightarrow> (case at_Type attr of
          attributeValueInt \<Rightarrow> at_Int attr
        | attributeValueUint \<Rightarrow>
            if at_Uint attr > 0x7fffffffffffffff then fallback else i64_of (at_Uint attr)
        | _ \<Rightarrow> fallback))"

definition requiredSpaceAttr :: "packedAttribute list \<Rightarrow> u32 \<Rightarrow> sla_error + int" where
  "requiredSpaceAttr attrs i =
     (case findAttr attrs i of
        None \<Rightarrow> Inl (ErrAttrMissing i)
      | Some attr \<Rightarrow> (case at_Type attr of
          attributeValueInt \<Rightarrow> Inr (at_Int attr)
        | attributeValueUint \<Rightarrow> Inr (i64_of (at_Uint attr))
        | _ \<Rightarrow> Inl (ErrAttrType i)))"

definition requiredUintAttr :: "packedAttribute list \<Rightarrow> u32 \<Rightarrow> sla_error + u64" where
  "requiredUintAttr attrs i =
     (case findAttr attrs i of
        None \<Rightarrow> Inl (ErrAttrMissing i)
      | Some attr \<Rightarrow> (case at_Type attr of
          attributeValueUint \<Rightarrow> Inr (at_Uint attr)
        | attributeValueInt \<Rightarrow> if at_Int attr < 0 then Inl (ErrAttrNegative i) else Inr (u64_of (at_Int attr))
        | _ \<Rightarrow> Inl (ErrAttrType i)))"

definition optionalUintAttr :: "packedAttribute list \<Rightarrow> u32 \<Rightarrow> u64" where
  "optionalUintAttr attrs i =
     (case findAttr attrs i of
        None \<Rightarrow> 0
      | Some attr \<Rightarrow> (case at_Type attr of
          attributeValueUint \<Rightarrow> at_Uint attr
        | attributeValueInt \<Rightarrow> if at_Int attr < 0 then 0 else u64_of (at_Int attr)
        | _ \<Rightarrow> 0))"

definition requiredStringAttr :: "packedAttribute list \<Rightarrow> u32 \<Rightarrow> sla_error + u8 list" where
  "requiredStringAttr attrs i =
     (case findAttr attrs i of
        None \<Rightarrow> Inl (ErrAttrMissing i)
      | Some attr \<Rightarrow> if at_Type attr \<noteq> attributeValueString then Inl (ErrAttrType i) else Inr (at_Text attr))"

section \<open>The root element and its spaces\<close>

definition findChild :: "packedElement \<Rightarrow> u32 \<Rightarrow> sla_error + packedElement" where
  "findChild elem childID =
     (case List.find (\<lambda>c. el_ID c = childID) (el_Children elem) of
        None \<Rightarrow> Inl (ErrChildMissing childID) | Some c \<Rightarrow> Inr c)"

definition go_string :: "u8 list \<Rightarrow> string" where
  "go_string bs = map (\<lambda>b. char_of (unat b)) bs"

definition decodeSpaceKind :: "u32 \<Rightarrow> sla_error + SpaceKind" where
  "decodeSpaceKind i =
     (if i = elemSpace then Inr SpaceKindProcessor
      else if i = elemSpaceUnique then Inr SpaceKindUnique
      else if i = elemSpaceOther then Inr SpaceKindOther
      else Inl (ErrElement i))"

definition decodeSpace :: "packedElement \<Rightarrow> sla_error + Space" where
  "decodeSpace elem =
     then_step (decodeSpaceKind (el_ID elem)) (\<lambda>kind.
     then_step (requiredStringAttr (el_Attrs elem) attrName) (\<lambda>name.
     then_step (requiredIntAttr (el_Attrs elem) attrIndex) (\<lambda>idx.
     then_step (requiredIntAttr (el_Attrs elem) attrSize) (\<lambda>addrSize.
     then_step (requiredIntAttr (el_Attrs elem) attrDelay) (\<lambda>delay.
       let space = \<lparr>sp_Name = go_string name, sp_Kind = kind, sp_Index = word_of_int idx,
             sp_AddrSize = word_of_int addrSize,
             sp_WordSize = word_of_int (optionalIntAttrDefault (el_Attrs elem) attrWordSize 1),
             sp_BigEndian = optionalBoolAttr (el_Attrs elem) attrBigEndian,
             sp_Physical = optionalBoolAttr (el_Attrs elem) attrPhysical,
             sp_Delay = i32 delay, sp_Truncated = False, sp_spacebases = []\<rparr>
       in case Space_Validate space of Some e \<Rightarrow> Inl (ErrSpace e) | None \<Rightarrow> Inr space)))))"

record Metadata =
  md_Version :: int
  md_BigEndian :: bool
  md_Align :: int
  md_UniqueBase :: u64
  md_MaxDelay :: u64
  md_UniqueMask :: u64
  md_NumSections :: u64
  md_DefaultSpace :: "u8 list"
  md_Spaces :: "Space list"

definition decodeMetadata :: "packedElement \<Rightarrow> sla_error + Metadata" where
  "decodeMetadata root =
     then_step (requiredIntAttr (el_Attrs root) attrVersion) (\<lambda>version.
     if version \<noteq> 4 \<and> version \<noteq> 3 then Inl (ErrVersion version)
     else
     then_step (requiredBoolAttr (el_Attrs root) attrBigEndian) (\<lambda>bigEndian.
     then_step (requiredIntAttr (el_Attrs root) attrAlign) (\<lambda>align.
     then_step (requiredUintAttr (el_Attrs root) attrUniqBase) (\<lambda>uniqBase.
     then_step (findChild root elemSpaces) (\<lambda>spacesElem.
     then_step (requiredStringAttr (el_Attrs spacesElem) attrDefaultSpace) (\<lambda>defaultSpace.
     then_step (append_step decodeSpace
         (filter (\<lambda>c. el_ID c = elemSpace \<or> el_ID c = elemSpaceUnique \<or> el_ID c = elemSpaceOther) (el_Children spacesElem)))
       (\<lambda>spaces.
     if spaces = [] then Inl ErrNoSpaces
     else Inr \<lparr>md_Version = version, md_BigEndian = bigEndian, md_Align = align, md_UniqueBase = uniqBase,
            md_MaxDelay = optionalUintAttr (el_Attrs root) attrMaxDelay,
            md_UniqueMask = optionalUintAttr (el_Attrs root) attrUniqMask,
            md_NumSections = optionalUintAttr (el_Attrs root) attrNumSections,
            md_DefaultSpace = defaultSpace, md_Spaces = spaces\<rparr>)))))))"

text \<open>The XML reader: the test for the XML form and the parser of its root element.\<close>

record xml_reader =
  xr_isXMLPayload :: "u8 list \<Rightarrow> bool"
  xr_parseXMLRootElement :: "u8 list \<Rightarrow> sla_error + packedElement"

definition decodeRootElement :: "xml_reader \<Rightarrow> u8 list \<Rightarrow> sla_error + packedElement" where
  "decodeRootElement xr payload =
     (if xr_isXMLPayload xr payload then xr_parseXMLRootElement xr payload
      else case parsePackedElement payload of
        Inl e \<Rightarrow> Inl (ErrPacked e)
      | Inr root \<Rightarrow> if el_ID root \<noteq> elemSleigh then Inl (ErrElement (el_ID root)) else Inr root)"

definition DecodeMetadataPayload :: "xml_reader \<Rightarrow> u8 list \<Rightarrow> sla_error + Metadata" where
  "DecodeMetadataPayload xr payload = then_step (decodeRootElement xr payload) decodeMetadata"

end
