(* ===== verification/Sla_Templates.thy ===== *)
theory Sla_Templates
  imports Sla_Attrs
begin

text \<open>
  \<^verbatim>\<open>pkg/sla/templates.go\<close>: the p-code templates of a constructor and their decoder. The display
  name \<^verbatim>\<open>Opcode\<close> of an operation template, a function of its number, is left out.
\<close>

datatype ConstKind = ConstKindReal | ConstKindHandle | ConstKindStart | ConstKindNext | ConstKindNext2
  | ConstKindCurSpace | ConstKindCurSpaceSize | ConstKindSpaceID | ConstKindRelative | ConstKindFlowRef
  | ConstKindFlowRefSize | ConstKindFlowDest | ConstKindFlowDestSize

record ConstBoundary =
  cb_Kind :: ConstKind
  cb_ElementID :: u32
  cb_Value :: u64
  cb_HandleIndex :: int
  cb_Selector :: int
  cb_Plus :: u64
  cb_SpaceIndex :: int

record VarnodeTplBoundary =
  vt_Space :: ConstBoundary
  vt_Offset :: ConstBoundary
  vt_Size :: ConstBoundary

record HandleTplBoundary =
  ht_Space :: ConstBoundary
  ht_Size :: ConstBoundary
  ht_PtrSpace :: ConstBoundary
  ht_PtrOffset :: ConstBoundary
  ht_PtrSize :: ConstBoundary
  ht_TempSpace :: ConstBoundary
  ht_TempOffset :: ConstBoundary

record OpTplBoundary =
  ot_OpcodeID :: int
  ot_Output :: "VarnodeTplBoundary option"
  ot_Inputs :: "VarnodeTplBoundary list"

record ConstructTplBoundary =
  ct_SectionID :: "int option"
  ct_DelaySlot :: u64
  ct_NumLabels :: u64
  ct_Result :: "HandleTplBoundary option"
  ct_Ops :: "OpTplBoundary list"

text \<open>A \<^verbatim>\<open>ConstBoundary{ElementID: elem.ID}\<close> of the given kind.\<close>

definition const_of :: "ConstKind \<Rightarrow> u32 \<Rightarrow> ConstBoundary" where
  "const_of k i = \<lparr>cb_Kind = k, cb_ElementID = i, cb_Value = 0, cb_HandleIndex = 0, cb_Selector = 0,
     cb_Plus = 0, cb_SpaceIndex = 0\<rparr>"

definition decodeConst :: "packedElement \<Rightarrow> sla_error + ConstBoundary" where
  "decodeConst elem =
     (let i = el_ID elem; attrs = el_Attrs elem in
      if i = elemConstReal then
        then_step (requiredUintAttr attrs attrVal) (\<lambda>v. Inr ((const_of ConstKindReal i)\<lparr>cb_Value := v\<rparr>))
      else if i = elemConstHandle then
        then_step (requiredIntAttr attrs attrVal) (\<lambda>handleIndex.
        then_step (requiredIntAttr attrs attrS) (\<lambda>selector.
          Inr ((const_of ConstKindHandle i)\<lparr>cb_HandleIndex := handleIndex, cb_Selector := selector,
                 cb_Plus := optionalUintAttr attrs attrPlus\<rparr>)))
      else if i = elemConstStart then Inr (const_of ConstKindStart i)
      else if i = elemConstNext then Inr (const_of ConstKindNext i)
      else if i = elemConstNext2 then Inr (const_of ConstKindNext2 i)
      else if i = elemConstCurSpace then Inr (const_of ConstKindCurSpace i)
      else if i = elemConstCurSpaceSize then Inr (const_of ConstKindCurSpaceSize i)
      else if i = elemConstSpaceID then
        then_step (requiredSpaceAttr attrs attrSpace) (\<lambda>v. Inr ((const_of ConstKindSpaceID i)\<lparr>cb_SpaceIndex := v\<rparr>))
      else if i = elemConstRelative then
        then_step (requiredUintAttr attrs attrVal) (\<lambda>v. Inr ((const_of ConstKindRelative i)\<lparr>cb_Value := v\<rparr>))
      else if i = elemConstFlowRef then Inr (const_of ConstKindFlowRef i)
      else if i = elemConstFlowRefSize then Inr (const_of ConstKindFlowRefSize i)
      else if i = elemConstFlowDest then Inr (const_of ConstKindFlowDest i)
      else if i = elemConstFlowDestSize then Inr (const_of ConstKindFlowDestSize i)
      else Inl (ErrElement i))"

definition decodeVarnodeTpl :: "packedElement \<Rightarrow> sla_error + VarnodeTplBoundary" where
  "decodeVarnodeTpl elem =
     (if el_ID elem \<noteq> elemVarnodeTpl then Inl (ErrElement (el_ID elem))
      else case el_Children elem of
        [c0, c1, c2] \<Rightarrow>
          then_step (decodeConst c0) (\<lambda>space.
          then_step (decodeConst c1) (\<lambda>offset.
          then_step (decodeConst c2) (\<lambda>size0.
            Inr \<lparr>vt_Space = space, vt_Offset = offset, vt_Size = size0\<rparr>)))
      | _ \<Rightarrow> Inl (ErrChildCount (el_ID elem)))"

definition decodeHandleTpl :: "packedElement \<Rightarrow> sla_error + HandleTplBoundary" where
  "decodeHandleTpl elem =
     (if el_ID elem \<noteq> elemHandleTpl then Inl (ErrElement (el_ID elem))
      else if length (el_Children elem) \<noteq> 7 then Inl (ErrChildCount (el_ID elem))
      else then_step (append_step decodeConst (el_Children elem)) (\<lambda>decoded.
        Inr \<lparr>ht_Space = decoded ! 0, ht_Size = decoded ! 1, ht_PtrSpace = decoded ! 2, ht_PtrOffset = decoded ! 3,
             ht_PtrSize = decoded ! 4, ht_TempSpace = decoded ! 5, ht_TempOffset = decoded ! 6\<rparr>))"

text \<open>The first child of a template: \<^verbatim>\<open>null\<close>, or an element of the expected kind.\<close>

definition decodeFirst :: "u32 \<Rightarrow> (packedElement \<Rightarrow> sla_error + 'a) \<Rightarrow> packedElement \<Rightarrow> sla_error + 'a option" where
  "decodeFirst expected dec first =
     (if el_ID first = elemNull then Inr None
      else if el_ID first = expected then then_step (dec first) (\<lambda>x. Inr (Some x))
      else Inl (ErrElement (el_ID first)))"

definition decodeOpTpl :: "packedElement \<Rightarrow> sla_error + OpTplBoundary" where
  "decodeOpTpl elem =
     (if el_ID elem \<noteq> elemOpTpl then Inl (ErrElement (el_ID elem))
      else then_step (requiredIntAttr (el_Attrs elem) attrCode) (\<lambda>opcode.
        case el_Children elem of
          [] \<Rightarrow> Inl (ErrChildCount (el_ID elem))
        | first # rest \<Rightarrow>
            then_step (decodeFirst elemVarnodeTpl decodeVarnodeTpl first) (\<lambda>output.
            then_step (append_step decodeVarnodeTpl (filter (\<lambda>c. el_ID c = elemVarnodeTpl) rest)) (\<lambda>inputs.
              Inr \<lparr>ot_OpcodeID = opcode, ot_Output = output, ot_Inputs = inputs\<rparr>))))"

definition decodeConstructTpl :: "packedElement \<Rightarrow> sla_error + ConstructTplBoundary" where
  "decodeConstructTpl elem =
     (if el_ID elem \<noteq> elemConstructTpl then Inl (ErrElement (el_ID elem))
      else case el_Children elem of
        [] \<Rightarrow> Inl (ErrChildCount (el_ID elem))
      | first # rest \<Rightarrow>
          then_step (decodeFirst elemHandleTpl decodeHandleTpl first) (\<lambda>result.
          then_step (append_step decodeOpTpl (filter (\<lambda>c. el_ID c = elemOpTpl) rest)) (\<lambda>ops.
            Inr \<lparr>ct_SectionID = optionalIntAttr (el_Attrs elem) attrSection,
                 ct_DelaySlot = u64_of (optionalIntAttrDefault (el_Attrs elem) attrDelay 0),
                 ct_NumLabels = u64_of (optionalIntAttrDefault (el_Attrs elem) attrLabels 0),
                 ct_Result = result, ct_Ops = ops\<rparr>)))"

end
