(* ===== verification/Sla_Symbols.thy ===== *)
theory Sla_Symbols
  imports Sla_Templates "HOL-Library.AList"
begin

text \<open>
  \<^verbatim>\<open>pkg/sla/patterns.go\<close> and \<^verbatim>\<open>symbols.go\<close>: the decoded forms of pattern expressions, disjoint
  patterns, decision trees, constructors, subtables and the symbol table, with their decoders.
  A Go map is an association list with distinct keys: its iteration order is fixed but arbitrary.
\<close>

section \<open>Patterns\<close>

datatype PatternExprBoundary =
  PatternExpr (pe_ElementID: u32) (pe_Attrs: "(u32 \<times> packedAttribute) list") (pe_Children: "PatternExprBoundary list")

record PatternMaskWordBoundary =
  mw_Mask :: u64
  mw_Val :: u64

record PatternBlockBoundary =
  pb_Offset :: int
  pb_NonZeroSize :: int
  pb_MaskWords :: "PatternMaskWordBoundary list"

datatype DisjointPatternBoundary =
  DisjointPattern (dp_ElementID: u32) (dp_Block: "PatternBlockBoundary option") (dp_Children: "DisjointPatternBoundary list")

definition patternBlockWordBytes :: "PatternBlockBoundary \<Rightarrow> int" where
  "patternBlockWordBytes block =
     (if list_ex (\<lambda>w. mw_Mask w > 0xffffffff \<or> mw_Val w > 0xffffffff) (pb_MaskWords block) then 8 else 4)"

definition isPatternExpressionElement :: "u32 \<Rightarrow> bool" where
  "isPatternExpressionElement i = List.member
     [elemTokenField, elemContextField, elemIntB, elemOperandExp, elemStartExp, elemEndExp, elemNext2Exp,
      elemPlusExp, elemSubExp, elemMultExp, elemLShiftExp, elemRShiftExp,
      elemAndExp, elemOrExp, elemXorExp, elemDivExp, elemMinusExp, elemNotExp] i"

definition copyAttrMap :: "packedAttribute list \<Rightarrow> (u32 \<times> packedAttribute) list" where
  "copyAttrMap attrs = fold (\<lambda>attr m. AList.update (at_ID attr) attr m) attrs []"

fun decodePatternExpression :: "packedElement \<Rightarrow> sla_error + PatternExprBoundary" where
  "decodePatternExpression (PackedElement i attrs children) =
     (if \<not> isPatternExpressionElement i then Inl (ErrElement i)
      else then_step (append_step decodePatternExpression children) (\<lambda>subs.
        Inr (PatternExpr i (copyAttrMap attrs) subs)))"

definition decodeMaskWord :: "packedElement \<Rightarrow> sla_error + PatternMaskWordBoundary" where
  "decodeMaskWord child =
     then_step (requiredUintAttr (el_Attrs child) attrMask) (\<lambda>m.
     then_step (requiredUintAttr (el_Attrs child) attrVal) (\<lambda>v. Inr \<lparr>mw_Mask = m, mw_Val = v\<rparr>))"

definition decodePatternBlock :: "packedElement \<Rightarrow> sla_error + PatternBlockBoundary" where
  "decodePatternBlock elem =
     (if el_ID elem \<noteq> elemPatBlock then Inl (ErrElement (el_ID elem))
      else
        then_step (requiredIntAttr (el_Attrs elem) attrOff) (\<lambda>offset.
        then_step (requiredIntAttr (el_Attrs elem) attrNonZero) (\<lambda>nonzero.
        then_step (append_step decodeMaskWord (filter (\<lambda>c. el_ID c = elemMaskWord) (el_Children elem))) (\<lambda>ws.
          Inr \<lparr>pb_Offset = offset, pb_NonZeroSize = nonzero, pb_MaskWords = ws\<rparr>))))"

fun decodeDisjointPattern :: "packedElement \<Rightarrow> sla_error + DisjointPatternBoundary" where
  "decodeDisjointPattern (PackedElement i attrs children) =
     (if i = elemInstructPat \<or> i = elemContextPat then
        (case children of
           [c] \<Rightarrow> then_step (decodePatternBlock c) (\<lambda>block. Inr (DisjointPattern i (Some block) []))
         | _ \<Rightarrow> Inl (ErrChildCount i))
      else if i = elemCombinePat then
        then_step (append_step decodeDisjointPattern children) (\<lambda>subs. Inr (DisjointPattern i None subs))
      else Inl (ErrElement i))"

definition decodePatternTree :: "packedElement \<Rightarrow> sla_error + DisjointPatternBoundary" where
  "decodePatternTree elem =
     (if el_ID elem = elemOrPat then
        then_step (append_step decodeDisjointPattern (el_Children elem)) (\<lambda>subs.
          Inr (DisjointPattern (el_ID elem) None subs))
      else decodeDisjointPattern elem)"

section \<open>Decision trees, constructors and subtables\<close>

record DecisionPairBoundary =
  dpr_ConstructorID :: u64
  dpr_Pattern :: "DisjointPatternBoundary option"

datatype DecisionNodeBoundary =
  DecisionNode (dn_Number: int) (dn_Context: bool) (dn_StartBit: int) (dn_Size: int)
    (dn_Pairs: "DecisionPairBoundary list") (dn_Children: "DecisionNodeBoundary list")

record PrintPieceBoundary =
  pr_Text :: "u8 list"
  pr_OperandIndex :: int
  pr_IsOperandRef :: bool

record ContextOpBoundary =
  co_Num :: int
  co_Shift :: int
  co_Mask :: u64
  co_Expression :: "PatternExprBoundary option"

record ContextCommitBoundary =
  cc_SymbolID :: u64
  cc_Number :: int
  cc_Mask :: u64
  cc_Flow :: bool

record NamedSectionBoundary =
  ns_SectionID :: int
  ns_Template :: ConstructTplBoundary

record ConstructorBoundary =
  cn_ConstructorID :: u64
  cn_ParentSymbolID :: u64
  cn_FirstWhitespace :: int
  cn_FlowThruIndex :: int
  cn_MinimumLength :: int
  cn_SourceFileIndex :: int
  cn_LineNumber :: int
  cn_OperandSymbolIDs :: "u64 list"
  cn_PrintPieces :: "PrintPieceBoundary list"
  cn_ContextOps :: "ContextOpBoundary list"
  cn_ContextCommits :: "ContextCommitBoundary list"
  cn_MainSection :: "ConstructTplBoundary option"
  cn_NamedSections :: "NamedSectionBoundary list"

record SubtableBoundary =
  st_ConstructorCount :: int
  st_Constructors :: "ConstructorBoundary list"
  st_Decision :: "DecisionNodeBoundary option"

definition decodeDecisionPair :: "packedElement \<Rightarrow> sla_error + DecisionPairBoundary" where
  "decodeDecisionPair elem =
     then_step (requiredIntAttr (el_Attrs elem) attrID) (\<lambda>constructorID.
     case el_Children elem of
       [] \<Rightarrow> Inr \<lparr>dpr_ConstructorID = u64_of constructorID, dpr_Pattern = None\<rparr>
     | c # _ \<Rightarrow> then_step (decodePatternTree c) (\<lambda>decoded.
         Inr \<lparr>dpr_ConstructorID = u64_of constructorID, dpr_Pattern = Some decoded\<rparr>))"

text \<open>One iteration of the child loop of \<^verbatim>\<open>decodeDecisionNode\<close>, with the decoder of a subnode.\<close>

definition decodeDecisionChild ::
  "(packedElement \<Rightarrow> sla_error + DecisionNodeBoundary) \<Rightarrow> DecisionPairBoundary list \<times> DecisionNodeBoundary list
    \<Rightarrow> packedElement \<Rightarrow> sla_error + DecisionPairBoundary list \<times> DecisionNodeBoundary list" where
  "decodeDecisionChild dec acc child =
     (case acc of (pairs, nodes) \<Rightarrow>
        if el_ID child = elemPair then
          then_step (decodeDecisionPair child) (\<lambda>pair. Inr (pairs @ [pair], nodes))
        else if el_ID child = elemDecision then
          then_step (dec child) (\<lambda>subnode. Inr (pairs, nodes @ [subnode]))
        else Inr (pairs, nodes))"

lemma decodeDecisionChild_cong [fundef_cong]:
  "a = b \<Longrightarrow> c = d \<Longrightarrow> f d = g d \<Longrightarrow> decodeDecisionChild f a c = decodeDecisionChild g b d"
  by (simp add: decodeDecisionChild_def split: prod.splits)

fun decodeDecisionNode :: "packedElement \<Rightarrow> sla_error + DecisionNodeBoundary" where
  "decodeDecisionNode (PackedElement i attrs children) =
     then_step (requiredIntAttr attrs attrNumber) (\<lambda>number.
     then_step (requiredBoolAttr attrs attrContext) (\<lambda>ctx.
     then_step (requiredIntAttr attrs attrStartBit) (\<lambda>startBit.
     then_step (requiredIntAttr attrs attrSize) (\<lambda>size0.
     then_step (loop_step (\<lambda>acc child. decodeDecisionChild decodeDecisionNode acc child) ([], []) children)
       (\<lambda>(pairs, nodes). Inr (DecisionNode number ctx startBit size0 pairs nodes))))))"

text \<open>
  The file numbers 32-bit context words; two of them share one 64-bit word, the first in the upper
  half. \<^verbatim>\<open>num / 2\<close> and \<^verbatim>\<open>num % 2\<close> truncate towards zero.
\<close>

definition decodeContextOp :: "packedElement \<Rightarrow> sla_error + ContextOpBoundary" where
  "decodeContextOp elem =
     then_step (requiredIntAttr (el_Attrs elem) attrI) (\<lambda>num.
     then_step (requiredIntAttr (el_Attrs elem) attrShift) (\<lambda>shift.
     then_step (requiredUintAttr (el_Attrs elem) attrMask) (\<lambda>m.
     then_step (case el_Children elem of [] \<Rightarrow> Inr None
                | c # _ \<Rightarrow> then_step (decodePatternExpression c) (\<lambda>e. Inr (Some e))) (\<lambda>expr.
       Inr \<lparr>co_Num = num sdiv 2, co_Shift = (if num smod 2 = 0 then i64 (shift + 32) else shift),
            co_Mask = (if num smod 2 = 0 then push_bit 32 m else m), co_Expression = expr\<rparr>))))"

definition decodeContextCommit :: "packedElement \<Rightarrow> sla_error + ContextCommitBoundary" where
  "decodeContextCommit elem =
     then_step (requiredUintAttr (el_Attrs elem) attrID) (\<lambda>symbolID.
     then_step (requiredIntAttr (el_Attrs elem) attrNumber) (\<lambda>number.
     then_step (requiredUintAttr (el_Attrs elem) attrMask) (\<lambda>m.
     then_step (requiredBoolAttr (el_Attrs elem) attrFlow) (\<lambda>flow.
       Inr \<lparr>cc_SymbolID = symbolID, cc_Number = number, cc_Mask = m, cc_Flow = flow\<rparr>))))"

text \<open>One iteration of the child loop of \<^verbatim>\<open>decodeConstructor\<close>.\<close>

definition decodeConstructorChild :: "ConstructorBoundary \<Rightarrow> packedElement \<Rightarrow> sla_error + ConstructorBoundary" where
  "decodeConstructorChild result child =
     (let i = el_ID child; attrs = el_Attrs child in
      if i = elemOper then
        then_step (requiredUintAttr attrs attrID) (\<lambda>operandID.
          Inr (result\<lparr>cn_OperandSymbolIDs := cn_OperandSymbolIDs result @ [operandID]\<rparr>))
      else if i = elemPrint then
        then_step (requiredStringAttr attrs attrPiece) (\<lambda>text0.
          Inr (result\<lparr>cn_PrintPieces := cn_PrintPieces result
            @ [\<lparr>pr_Text = text0, pr_OperandIndex = 0, pr_IsOperandRef = False\<rparr>]\<rparr>))
      else if i = elemOpPrint then
        then_step (requiredIntAttr attrs attrID) (\<lambda>operandIndex.
          Inr (result\<lparr>cn_PrintPieces := cn_PrintPieces result
            @ [\<lparr>pr_Text = [], pr_OperandIndex = operandIndex, pr_IsOperandRef = True\<rparr>]\<rparr>))
      else if i = elemContextOp then
        then_step (decodeContextOp child) (\<lambda>ctxOp.
          Inr (result\<lparr>cn_ContextOps := cn_ContextOps result @ [ctxOp]\<rparr>))
      else if i = elemCommit then
        then_step (decodeContextCommit child) (\<lambda>commit.
          Inr (result\<lparr>cn_ContextCommits := cn_ContextCommits result @ [commit]\<rparr>))
      else if i = elemConstructTpl then
        then_step (decodeConstructTpl child) (\<lambda>tpl.
          case ct_SectionID tpl of
            None \<Rightarrow> Inr (result\<lparr>cn_MainSection := Some tpl\<rparr>)
          | Some sid \<Rightarrow> Inr (result\<lparr>cn_NamedSections := cn_NamedSections result
              @ [\<lparr>ns_SectionID = sid, ns_Template = tpl\<rparr>]\<rparr>))
      else Inr result)"

text \<open>A single print piece that refers to an operand makes the constructor flow through it.\<close>

definition flowThru :: "PrintPieceBoundary list \<Rightarrow> int option" where
  "flowThru pieces = (case pieces of [p] \<Rightarrow> if pr_IsOperandRef p then Some (pr_OperandIndex p) else None | _ \<Rightarrow> None)"

definition decodeConstructor :: "packedElement \<Rightarrow> sla_error + ConstructorBoundary" where
  "decodeConstructor elem =
     then_step (requiredUintAttr (el_Attrs elem) attrParent) (\<lambda>parentSymbolID.
     then_step (requiredIntAttr (el_Attrs elem) attrFirst) (\<lambda>firstWhitespace.
     then_step (requiredIntAttr (el_Attrs elem) attrLength) (\<lambda>minimumLength.
     then_step (requiredIntAttr (el_Attrs elem) attrSource) (\<lambda>sourceIndex.
     then_step (requiredIntAttr (el_Attrs elem) attrLine) (\<lambda>lineNumber.
     then_step (loop_step decodeConstructorChild
         \<lparr>cn_ConstructorID = 0, cn_ParentSymbolID = parentSymbolID, cn_FirstWhitespace = firstWhitespace,
          cn_FlowThruIndex = -1, cn_MinimumLength = minimumLength, cn_SourceFileIndex = sourceIndex,
          cn_LineNumber = lineNumber, cn_OperandSymbolIDs = [], cn_PrintPieces = [], cn_ContextOps = [],
          cn_ContextCommits = [], cn_MainSection = None, cn_NamedSections = []\<rparr> (el_Children elem))
       (\<lambda>result. Inr (case flowThru (cn_PrintPieces result) of
          Some i \<Rightarrow> result\<lparr>cn_FlowThruIndex := i\<rparr> | None \<Rightarrow> result)))))))"

definition decodeSubtableChild :: "SubtableBoundary \<Rightarrow> packedElement \<Rightarrow> sla_error + SubtableBoundary" where
  "decodeSubtableChild result child =
     (if el_ID child = elemConstructor then
        then_step (decodeConstructor child) (\<lambda>constructor.
          Inr (result\<lparr>st_Constructors := st_Constructors result
            @ [constructor\<lparr>cn_ConstructorID := of_nat (length (st_Constructors result))\<rparr>]\<rparr>))
      else if el_ID child = elemDecision then
        then_step (decodeDecisionNode child) (\<lambda>decision. Inr (result\<lparr>st_Decision := Some decision\<rparr>))
      else Inr result)"

definition decodeSubtable :: "packedElement \<Rightarrow> sla_error + SubtableBoundary" where
  "decodeSubtable elem =
     then_step (requiredIntAttr (el_Attrs elem) attrNumCT) (\<lambda>constructorCount.
     loop_step decodeSubtableChild
       \<lparr>st_ConstructorCount = constructorCount, st_Constructors = [], st_Decision = None\<rparr> (el_Children elem))"

section \<open>Symbols\<close>

record UserOpBoundary =
  uo_Index :: int

record OpaqueSymbolBody =
  os_AttributeCount :: int
  os_ChildElementIDs :: "u32 list"

record PatternSymbolBoundary =
  ps_Expression :: "PatternExprBoundary option"
  ps_ValueTable :: "int list"
  ps_NameTable :: "u8 list list"
  ps_Opaque :: "OpaqueSymbolBody option"

record ContextSymbolBoundary =
  cs_VarnodeSymbolID :: u64
  cs_HasVarnodeSymbolID :: bool
  cs_Low :: int
  cs_High :: int
  cs_Flow :: bool
  cs_Pattern :: "PatternSymbolBoundary option"

record OperandSymbolBoundary =
  op_Index :: int
  op_RelativeOffset :: int
  op_OffsetBase :: int
  op_MinimumLength :: int
  op_CodeAddress :: bool
  op_DefiningSymbolID :: u64
  op_HasDefiningSymbolID :: bool
  op_LocalExpression :: "PatternExprBoundary option"
  op_DefiningExpression :: "PatternExprBoundary option"

record VarnodeSymbolBoundary =
  vs_SpaceIndex :: int
  vs_Offset :: u64
  vs_Size :: int

record VarnodeListEntryBoundary =
  ve_VarnodeSymbolID :: u64
  ve_HasVarnodeSymbolID :: bool

record VarnodeListSymbolBoundary =
  vl_Selector :: "PatternExprBoundary option"
  vl_Table :: "VarnodeListEntryBoundary list"

record SymbolBodyBoundary =
  bd_UserOp :: "UserOpBoundary option"
  bd_Subtable :: "SubtableBoundary option"
  bd_Pattern :: "PatternSymbolBoundary option"
  bd_Context :: "ContextSymbolBoundary option"
  bd_Operand :: "OperandSymbolBoundary option"
  bd_Varnode :: "VarnodeSymbolBoundary option"
  bd_VarnodeList :: "VarnodeListSymbolBoundary option"
  bd_Opaque :: "OpaqueSymbolBody option"

definition no_body :: SymbolBodyBoundary where
  "no_body = \<lparr>bd_UserOp = None, bd_Subtable = None, bd_Pattern = None, bd_Context = None, bd_Operand = None,
     bd_Varnode = None, bd_VarnodeList = None, bd_Opaque = None\<rparr>"

record SymbolBoundary =
  sy_Name :: "u8 list"
  sy_ID :: u64
  sy_ScopeID :: u64
  sy_HeaderElement :: u32
  sy_BodyElement :: u32
  sy_Body :: SymbolBodyBoundary

record SymbolScopeBoundary =
  sc_ID :: u64
  sc_ParentID :: u64

record SymbolTableBoundary =
  tb_Scopes :: "SymbolScopeBoundary list"
  tb_Symbols :: "SymbolBoundary list"

definition FindSymbol :: "SymbolTableBoundary option \<Rightarrow> u64 \<Rightarrow> SymbolBoundary option" where
  "FindSymbol t i = (case t of None \<Rightarrow> None | Some t \<Rightarrow> List.find (\<lambda>s. sy_ID s = i) (tb_Symbols t))"

definition FindOperandSymbol :: "SymbolTableBoundary option \<Rightarrow> u64 \<Rightarrow> OperandSymbolBoundary option" where
  "FindOperandSymbol t i = (case FindSymbol t i of None \<Rightarrow> None | Some s \<Rightarrow> bd_Operand (sy_Body s))"

definition FindOperandForConstructor ::
  "SymbolTableBoundary option \<Rightarrow> ConstructorBoundary option \<Rightarrow> int \<Rightarrow> OperandSymbolBoundary option" where
  "FindOperandForConstructor t constructor i =
     (case (t, constructor) of
        (Some _, Some c) \<Rightarrow>
          if i < 0 \<or> i \<ge> int (length (cn_OperandSymbolIDs c)) then None
          else FindOperandSymbol t (cn_OperandSymbolIDs c ! nat i)
      | _ \<Rightarrow> None)"

definition decodeSymbolScope :: "packedElement \<Rightarrow> sla_error + SymbolScopeBoundary" where
  "decodeSymbolScope elem =
     (if el_ID elem \<noteq> elemScope then Inl (ErrElement (el_ID elem))
      else
        then_step (requiredUintAttr (el_Attrs elem) attrID) (\<lambda>i.
        then_step (requiredUintAttr (el_Attrs elem) attrParent) (\<lambda>parentID.
          Inr \<lparr>sc_ID = i, sc_ParentID = parentID\<rparr>)))"

definition decodeSymbolHeader :: "packedElement \<Rightarrow> sla_error + SymbolBoundary" where
  "decodeSymbolHeader elem =
     then_step (requiredStringAttr (el_Attrs elem) attrName) (\<lambda>name.
     then_step (requiredUintAttr (el_Attrs elem) attrID) (\<lambda>i.
     then_step (requiredUintAttr (el_Attrs elem) attrScope) (\<lambda>scopeID.
       Inr \<lparr>sy_Name = name, sy_ID = i, sy_ScopeID = scopeID, sy_HeaderElement = el_ID elem,
            sy_BodyElement = 0, sy_Body = no_body\<rparr>)))"

definition opaque_body :: "packedElement \<Rightarrow> OpaqueSymbolBody" where
  "opaque_body elem = \<lparr>os_AttributeCount = int (length (el_Attrs elem)), os_ChildElementIDs = map el_ID (el_Children elem)\<rparr>"

definition decodeVarnodeSymbolBody :: "packedElement \<Rightarrow> sla_error + VarnodeSymbolBoundary" where
  "decodeVarnodeSymbolBody elem =
     then_step (requiredSpaceAttr (el_Attrs elem) attrSpace) (\<lambda>spaceIndex.
     then_step (requiredUintAttr (el_Attrs elem) attrOff) (\<lambda>offset.
     then_step (requiredIntAttr (el_Attrs elem) attrSize) (\<lambda>size0.
       Inr \<lparr>vs_SpaceIndex = spaceIndex, vs_Offset = offset, vs_Size = size0\<rparr>)))"

definition decodeVarnodeListEntry :: "packedElement \<Rightarrow> sla_error + VarnodeListEntryBoundary" where
  "decodeVarnodeListEntry child =
     (if el_ID child = elemVar then
        then_step (requiredUintAttr (el_Attrs child) attrID) (\<lambda>i.
          Inr \<lparr>ve_VarnodeSymbolID = i, ve_HasVarnodeSymbolID = True\<rparr>)
      else Inr \<lparr>ve_VarnodeSymbolID = 0, ve_HasVarnodeSymbolID = False\<rparr>)"

definition decodeVarnodeListSymbolBody :: "packedElement \<Rightarrow> sla_error + VarnodeListSymbolBoundary" where
  "decodeVarnodeListSymbolBody elem =
     (case el_Children elem of
        [] \<Rightarrow> Inl (ErrChildCount (el_ID elem))
      | c # rest \<Rightarrow>
          then_step (decodePatternExpression c) (\<lambda>selector.
          then_step (append_step decodeVarnodeListEntry rest) (\<lambda>table.
            Inr \<lparr>vl_Selector = Some selector, vl_Table = table\<rparr>)))"

text \<open>The table loop of \<^verbatim>\<open>decodePatternSymbolBody\<close>; a name without text is a tab.\<close>

definition decodePatternTable :: "PatternSymbolBoundary \<Rightarrow> packedElement \<Rightarrow> sla_error + PatternSymbolBoundary" where
  "decodePatternTable result child =
     (if el_ID child = elemValueTab then
        then_step (requiredIntAttr (el_Attrs child) attrVal) (\<lambda>v.
          Inr (result\<lparr>ps_ValueTable := ps_ValueTable result @ [v]\<rparr>))
      else if el_ID child = elemNameTab then
        (case findAttr (el_Attrs child) attrName of
           Some attr \<Rightarrow> Inr (result\<lparr>ps_NameTable := ps_NameTable result
             @ [if at_Type attr = attributeValueString then at_Text attr else [9]]\<rparr>)
         | None \<Rightarrow> Inr (result\<lparr>ps_NameTable := ps_NameTable result @ [[9]]\<rparr>))
      else Inr result)"

definition decodePatternSymbolBody :: "packedElement \<Rightarrow> sla_error + PatternSymbolBoundary" where
  "decodePatternSymbolBody elem =
     (let result = \<lparr>ps_Expression = None, ps_ValueTable = [], ps_NameTable = [], ps_Opaque = None\<rparr> in
      case el_Children elem of
        [] \<Rightarrow> Inr (if el_ID elem = elemStartSym then result\<lparr>ps_Expression := Some (PatternExpr elemStartExp [] [])\<rparr>
              else if el_ID elem = elemEndSym then result\<lparr>ps_Expression := Some (PatternExpr elemEndExp [] [])\<rparr>
              else if el_ID elem = elemNext2Sym then result\<lparr>ps_Expression := Some (PatternExpr elemNext2Exp [] [])\<rparr>
              else result)
      | c # rest \<Rightarrow> (case decodePatternExpression c of
          Inl _ \<Rightarrow> Inr (result\<lparr>ps_Opaque := Some (opaque_body elem)\<rparr>)
        | Inr expr \<Rightarrow> loop_step decodePatternTable (result\<lparr>ps_Expression := Some expr\<rparr>) rest))"

definition decodeContextSymbolBody :: "packedElement \<Rightarrow> sla_error + ContextSymbolBoundary" where
  "decodeContextSymbolBody elem =
     (let (varnodeID, hasVarnode) =
        (case findAttr (el_Attrs elem) attrVarnode of
           Some attr \<Rightarrow> if at_Type attr = attributeValueUint then (at_Uint attr, True) else (0, False)
         | None \<Rightarrow> (0, False)) in
      then_step (requiredIntAttr (el_Attrs elem) attrLow) (\<lambda>low.
      then_step (requiredIntAttr (el_Attrs elem) attrHigh) (\<lambda>high.
      then_step (decodePatternSymbolBody elem) (\<lambda>pattern.
        Inr \<lparr>cs_VarnodeSymbolID = varnodeID, cs_HasVarnodeSymbolID = hasVarnode, cs_Low = low, cs_High = high,
             cs_Flow = optionalBoolAttr (el_Attrs elem) attrFlow, cs_Pattern = Some pattern\<rparr>))))"

definition decodeOperandSymbolBody :: "packedElement \<Rightarrow> sla_error + OperandSymbolBoundary" where
  "decodeOperandSymbolBody elem =
     then_step (requiredIntAttr (el_Attrs elem) attrIndex) (\<lambda>idx.
     then_step (requiredIntAttr (el_Attrs elem) attrOff) (\<lambda>relativeOffset.
     then_step (requiredIntAttr (el_Attrs elem) attrBase) (\<lambda>offsetBase.
     then_step (requiredIntAttr (el_Attrs elem) attrMinLen) (\<lambda>minimumLength.
       let result = \<lparr>op_Index = idx, op_RelativeOffset = relativeOffset, op_OffsetBase = offsetBase,
             op_MinimumLength = minimumLength, op_CodeAddress = False, op_DefiningSymbolID = 0,
             op_HasDefiningSymbolID = False, op_LocalExpression = None, op_DefiningExpression = None\<rparr>;
           result = (case findAttr (el_Attrs elem) attrSubSym of
               Some attr \<Rightarrow> if at_Type attr = attributeValueUint
                 then result\<lparr>op_DefiningSymbolID := at_Uint attr, op_HasDefiningSymbolID := True\<rparr> else result
             | None \<Rightarrow> result);
           result = (case findAttr (el_Attrs elem) attrCode of
               Some attr \<Rightarrow> if at_Type attr = attributeValueBool
                 then result\<lparr>op_CodeAddress := at_Bool attr\<rparr> else result
             | None \<Rightarrow> result)
       in case el_Children elem of
            [] \<Rightarrow> Inr result
          | c # rest \<Rightarrow> then_step (decodePatternExpression c) (\<lambda>localExpr.
              case rest of
                [] \<Rightarrow> Inr (result\<lparr>op_LocalExpression := Some localExpr\<rparr>)
              | d # _ \<Rightarrow> then_step (decodePatternExpression d) (\<lambda>defExpr.
                  Inr (result\<lparr>op_LocalExpression := Some localExpr, op_DefiningExpression := Some defExpr\<rparr>)))))))"

definition decodeSymbolBody :: "packedElement \<Rightarrow> sla_error + SymbolBodyBoundary" where
  "decodeSymbolBody elem =
     (let i = el_ID elem in
      if i = elemUserOp then
        then_step (requiredIntAttr (el_Attrs elem) attrIndex) (\<lambda>idx. Inr (no_body\<lparr>bd_UserOp := Some \<lparr>uo_Index = idx\<rparr>\<rparr>))
      else if i = elemSubtableSym then then_step (decodeSubtable elem) (\<lambda>x. Inr (no_body\<lparr>bd_Subtable := Some x\<rparr>))
      else if i = elemOperandSym then then_step (decodeOperandSymbolBody elem) (\<lambda>x. Inr (no_body\<lparr>bd_Operand := Some x\<rparr>))
      else if i = elemVarnodeSym then then_step (decodeVarnodeSymbolBody elem) (\<lambda>x. Inr (no_body\<lparr>bd_Varnode := Some x\<rparr>))
      else if i = elemVarListSym then then_step (decodeVarnodeListSymbolBody elem) (\<lambda>x. Inr (no_body\<lparr>bd_VarnodeList := Some x\<rparr>))
      else if i = elemContextSym then then_step (decodeContextSymbolBody elem) (\<lambda>x. Inr (no_body\<lparr>bd_Context := Some x\<rparr>))
      else if i = elemEpsilonSym then
        Inr (no_body\<lparr>bd_Pattern := Some \<lparr>ps_Expression = None, ps_ValueTable = [], ps_NameTable = [], ps_Opaque = None\<rparr>\<rparr>)
      else if i = elemValueSym \<or> i = elemValueMapSym \<or> i = elemNameSym \<or> i = elemStartSym \<or> i = elemEndSym \<or> i = elemNext2Sym then
        then_step (decodePatternSymbolBody elem) (\<lambda>x. Inr (no_body\<lparr>bd_Pattern := Some x\<rparr>))
      else Inr (no_body\<lparr>bd_Opaque := Some (opaque_body elem)\<rparr>))"

definition expectedBodyElement :: "u32 \<Rightarrow> u32" where
  "expectedBodyElement h =
     (if h = elemUserOpHead then elemUserOp
      else if h = elemEpsilonSymHead then elemEpsilonSym
      else if h = elemValueSymHead then elemValueSym
      else if h = elemValueMapSymHead then elemValueMapSym
      else if h = elemNameSymHead then elemNameSym
      else if h = elemVarnodeSymHead then elemVarnodeSym
      else if h = elemContextSymHead then elemContextSym
      else if h = elemVarListSymHead then elemVarListSym
      else if h = elemOperandSymHead then elemOperandSym
      else if h = elemStartSymHead then elemStartSym
      else if h = elemEndSymHead then elemEndSym
      else if h = elemNext2SymHead then elemNext2Sym
      else if h = elemSubtableSymHead then elemSubtableSym
      else 0)"

text \<open>
  \<^verbatim>\<open>byID\<close> maps an identifier to the last header with it; a body is written through that pointer.
\<close>

definition last_index :: "u64 \<Rightarrow> SymbolBoundary list \<Rightarrow> nat option" where
  "last_index i syms = (if filter (\<lambda>k. sy_ID (syms ! k) = i) [0..<length syms] = [] then None
     else Some (last (filter (\<lambda>k. sy_ID (syms ! k) = i) [0..<length syms])))"

definition attachBody :: "SymbolBoundary list \<Rightarrow> packedElement \<Rightarrow> sla_error + SymbolBoundary list" where
  "attachBody syms child =
     then_step (requiredUintAttr (el_Attrs child) attrID) (\<lambda>i.
     case last_index i syms of
       None \<Rightarrow> Inl (ErrUnknownBody i)
     | Some k \<Rightarrow>
         let expected = expectedBodyElement (sy_HeaderElement (syms ! k)) in
         if expected \<noteq> 0 \<and> el_ID child \<noteq> expected then Inl (ErrBodyMismatch i)
         else then_step (decodeSymbolBody child) (\<lambda>body.
           Inr (syms[k := (syms ! k)\<lparr>sy_BodyElement := el_ID child, sy_Body := body\<rparr>])))"

text \<open>
  \<^verbatim>\<open>make([]T, 0, n)\<close> panics for a negative capacity, and for one no address space can hold: that is
  the case whenever the sum of the two sizes wraps around.
\<close>

definition decodeSymbolTable :: "packedElement \<Rightarrow> sla_error + SymbolTableBoundary" where
  "decodeSymbolTable root =
     then_step (findChild root elemSymbolTable) (\<lambda>tableElem.
     then_step (requiredIntAttr (el_Attrs tableElem) attrScopeSize) (\<lambda>scopeSize.
     then_step (requiredIntAttr (el_Attrs tableElem) attrSymbolSize) (\<lambda>symbolSize.
       let children = el_Children tableElem in
       if int (length children) < i64 (scopeSize + symbolSize) then Inl ErrShortTable
       else if scopeSize < 0 \<or> symbolSize < 0 \<or> i64 (scopeSize + symbolSize) \<noteq> scopeSize + symbolSize then Inl PanicMakeslice
       else
         then_step (append_step decodeSymbolScope (take (nat scopeSize) children)) (\<lambda>scopes.
         then_step (append_step decodeSymbolHeader (take (nat symbolSize) (drop (nat scopeSize) children))) (\<lambda>headers.
         then_step (loop_step attachBody headers (drop (nat scopeSize + nat symbolSize) children)) (\<lambda>symbols.
           Inr \<lparr>tb_Scopes = scopes, tb_Symbols = symbols\<rparr>))))))"

record SourceFile =
  sf_Index :: int
  sf_Name :: "u8 list"

record Boundaries =
  bn_Metadata :: Metadata
  bn_SourceFiles :: "SourceFile list"
  bn_SymbolTable :: SymbolTableBoundary

definition decodeSourceFile :: "packedElement \<Rightarrow> sla_error + SourceFile" where
  "decodeSourceFile child =
     then_step (requiredStringAttr (el_Attrs child) attrName) (\<lambda>name.
     then_step (requiredIntAttr (el_Attrs child) attrIndex) (\<lambda>idx.
       Inr \<lparr>sf_Index = idx, sf_Name = name\<rparr>))"

definition decodeSourceFiles :: "packedElement \<Rightarrow> sla_error + SourceFile list" where
  "decodeSourceFiles root =
     then_step (findChild root elemSourceFiles) (\<lambda>elem.
     append_step decodeSourceFile (filter (\<lambda>c. el_ID c = elemSourceFile) (el_Children elem)))"

definition DecodeBoundariesPayload :: "xml_reader \<Rightarrow> u8 list \<Rightarrow> sla_error + Boundaries" where
  "DecodeBoundariesPayload xr payload =
     then_step (decodeRootElement xr payload) (\<lambda>root.
     then_step (decodeMetadata root) (\<lambda>metadata.
     then_step (decodeSourceFiles root) (\<lambda>sourcefiles.
     then_step (decodeSymbolTable root) (\<lambda>symbolTable.
       Inr \<lparr>bn_Metadata = metadata, bn_SourceFiles = sourcefiles, bn_SymbolTable = symbolTable\<rparr>))))"

end
