(* ===== verification/Sla_Bits.thy ===== *)
theory Sla_Bits
  imports Go_Prelude
begin

text \<open>
  Reading bit fields out of instruction bytes and context words: the packing functions at the end of
  \<^verbatim>\<open>pkg/sla/walker.go\<close>, those of \<^verbatim>\<open>translate.go\<close> and the field extraction of \<^verbatim>\<open>patexpr.go\<close>.
  The reference they are compared with is a big-endian bit stream: bit 0 is the most significant
  bit of the first byte (or word), and a field is a run of consecutive bits of the stream.
\<close>

datatype bits_error = ErrInvalidWindow | ErrWindowTooWide | ErrWindowExceedsData | ErrInvalidBitWidth
  | ErrContextExceedsData | ErrContextCrossesEnd | ErrBitRange | ErrValueWidth | PanicIndex

text \<open>\<^verbatim>\<open>data[i]\<close>, which panics out of range.\<close>

definition go_index :: "'a list \<Rightarrow> int \<Rightarrow> bits_error + 'a" where
  "go_index xs i = (if 0 \<le> i \<and> i < int (length xs) then Inr (xs ! nat i) else Inl PanicIndex)"

text \<open>The loop \<^verbatim>\<open>for i := 0; i < width; i++ { result <<= 8; result |= uint64(data[offset+i]) }\<close>.\<close>

fun packBytes :: "u8 list \<Rightarrow> int \<Rightarrow> nat \<Rightarrow> u64 \<Rightarrow> bits_error + u64" where
  "packBytes data offset 0 result = Inr result"
| "packBytes data offset (Suc n) result =
     then_step (go_index data offset) (\<lambda>b. packBytes data (i64 (offset + 1)) n (push_bit 8 result OR ucast b))"

definition packWindowBE :: "u8 list \<Rightarrow> int \<Rightarrow> int \<Rightarrow> bits_error + u64" where
  "packWindowBE data offset width =
     (if offset < 0 \<or> width < 0 then Inl ErrInvalidWindow
      else if width > 8 then Inl ErrWindowTooWide
      else if i64 (offset + width) > int (length data) then Inl ErrWindowExceedsData
      else packBytes data offset (nat width) 0)"

definition packBitsBE :: "u8 list \<Rightarrow> int \<Rightarrow> int \<Rightarrow> int \<Rightarrow> bits_error + u64" where
  "packBitsBE data baseOffset startBit size0 =
     (if size0 < 0 \<or> size0 > 64 then Inl ErrInvalidBitWidth
      else if size0 = 0 then Inr 0
      else
        let byteOffset = i64 (baseOffset + startBit sdiv 8);
            bitOffset = startBit smod 8;
            byteSize = (bitOffset + size0 - 1) sdiv 8 + 1
        in if byteSize > 8 then Inl ErrWindowTooWide
           else then_step (packWindowBE data byteOffset byteSize) (\<lambda>packed.
             Inr (shr (shl packed (u64_of (8 * (8 - byteSize) + bitOffset))) (u64_of (8 * 8 - size0)))))"

definition packContextBytesBE :: "u64 list \<Rightarrow> int \<Rightarrow> int \<Rightarrow> bits_error + u64" where
  "packContextBytesBE ws byteoff width =
     (if byteoff < 0 \<or> width < 0 then Inl ErrInvalidWindow
      else if width > 8 then Inl ErrWindowTooWide
      else
        let wordIndex = byteoff sdiv 8 in
        if wordIndex < 0 \<or> wordIndex \<ge> int (length ws) then Inl ErrContextExceedsData
        else
          let byteOffset = byteoff smod 8;
              res = shr (shl (ws ! nat wordIndex) (u64_of (byteOffset * 8))) (u64_of ((8 - width) * 8));
              remaining = width - 8 + byteOffset
          in if remaining > 0 then
               (if wordIndex + 1 \<ge> int (length ws) then Inl ErrContextCrossesEnd
                else Inr (res OR shr (ws ! nat (wordIndex + 1)) (u64_of ((8 - remaining) * 8))))
             else Inr res)"

definition packContextBitsBE :: "u64 list \<Rightarrow> int \<Rightarrow> int \<Rightarrow> bits_error + u64" where
  "packContextBitsBE ws startBit size0 =
     (if size0 < 0 \<or> size0 > 64 then Inl ErrInvalidBitWidth
      else if size0 = 0 then Inr 0
      else
        let wordIndex = startBit sdiv 64 in
        if wordIndex < 0 \<or> wordIndex \<ge> int (length ws) then Inl ErrContextExceedsData
        else
          let bitOffset = startBit smod 64;
              res = shr (shl (ws ! nat wordIndex) (u64_of bitOffset)) (u64_of (64 - size0));
              remaining = size0 - 64 + bitOffset
          in if remaining > 0 then
               (if wordIndex + 1 \<ge> int (length ws) then Inl ErrContextCrossesEnd
                else Inr (res OR shr (ws ! nat (wordIndex + 1)) (u64_of (64 - remaining))))
             else Inr res)"

text \<open>The readers of \<^verbatim>\<open>translate.go\<close>: bytes past the end count as zero.\<close>

fun readPackedLoop :: "u8 list \<Rightarrow> int \<Rightarrow> nat \<Rightarrow> u64 \<Rightarrow> u64" where
  "readPackedLoop data pos 0 result = result"
| "readPackedLoop data pos (Suc n) result =
     readPackedLoop data (i64 (pos + 1)) n
       (push_bit 8 result OR (if 0 \<le> pos \<and> pos < int (length data) then ucast (data ! nat pos) else 0))"

definition readPackedBytesBigEndian :: "u8 list \<Rightarrow> int \<Rightarrow> int \<Rightarrow> u64" where
  "readPackedBytesBigEndian data offset width =
     (if offset < 0 \<or> width \<le> 0 then 0 else readPackedLoop data offset (nat width) 0)"

definition extractBits :: "u8 list \<Rightarrow> int \<Rightarrow> int \<Rightarrow> int \<Rightarrow> bits_error + u64" where
  "extractBits data baseOffset startBit size0 =
     (if startBit < 0 \<or> size0 < 0 \<or> size0 > 64 then Inl ErrBitRange
      else
        let byteOffset = i64 (baseOffset + startBit sdiv 8) in
        if byteOffset < 0 \<or> byteOffset \<ge> int (length data) then Inl ErrBitRange
        else
          let bitOffset = startBit smod 8;
              byteSize = (bitOffset + size0 - 1) sdiv 8 + 1;
              packed = readPackedBytesBigEndian data byteOffset byteSize;
              leftShift = u64_of (8 * (8 - byteSize) + bitOffset)
          in Inr (shr (shl packed leftShift) (u64_of (8 * 8 - size0))))"

text \<open>The little-endian byte loop of \<^verbatim>\<open>getPatternInstructionBytes\<close>, from the last byte down.\<close>

fun packBytesDown :: "u8 list \<Rightarrow> int \<Rightarrow> nat \<Rightarrow> u64 \<Rightarrow> bits_error + u64" where
  "packBytesDown data base 0 result = Inr result"
| "packBytesDown data base (Suc n) result =
     then_step (go_index data (base + int n)) (\<lambda>b. packBytesDown data base n (push_bit 8 result OR ucast b))"

definition extendPatternValue :: "u64 \<Rightarrow> int \<Rightarrow> bool \<Rightarrow> bits_error + int" where
  "extendPatternValue raw0 width signbit =
     (if width \<le> 0 \<or> width > 64 then Inl ErrValueWidth
      else
        let raw = (if width < 64 then raw0 AND (shl 1 (u64_of width) - 1) else raw0) in
        if \<not> signbit then Inr (i64_of raw)
        else if width = 64 then Inr (i64_of raw)
        else
          let signMask = shl 1 (u64_of (width - 1)) in
          if raw AND signMask = 0 then Inr (i64_of raw)
          else Inr (i64_of (raw OR NOT (shl 1 (u64_of width) - 1))))"

section \<open>The reference: a big-endian bit stream\<close>

text \<open>Bit \<open>j\<close> of the stream of \<open>n\<close>-bit units, and the field of \<open>len\<close> bits from \<open>start\<close>.\<close>

definition be_bit :: "nat \<Rightarrow> 'a::len word list \<Rightarrow> nat \<Rightarrow> bool" where
  "be_bit n ws j \<longleftrightarrow> j div n < length ws \<and> bit (ws ! (j div n)) (n - 1 - j mod n)"

definition bit_field :: "(nat \<Rightarrow> bool) \<Rightarrow> nat \<Rightarrow> nat \<Rightarrow> u64" where
  "bit_field f start len = horner_sum of_bool 2 (map f (rev [start..<start + len]))"

lemma bit_bit_field: "bit (bit_field f start len) i \<longleftrightarrow> i < 64 \<and> i < len \<and> f (start + len - 1 - i)"
  by (auto simp: bit_field_def bit_horner_sum_bit_word_iff rev_nth rev_map [symmetric])

text \<open>A word is a field when its bits are.\<close>

lemma bit_field_eqI:
  assumes "\<And>i. i < 64 \<Longrightarrow> bit w i \<longleftrightarrow> i < len \<and> f (start + len - 1 - i)"
  shows "w = bit_field f start len"
  using assms by (intro bit_word_eqI) (simp add: bit_bit_field)

lemma shift_counts: "0 \<le> n \<Longrightarrow> n \<le> 64 \<Longrightarrow> unat (u64_of n) = nat n"
  by (simp add: unat_eq_nat_uint u64_of_uint)

lemma shr_nat: "0 \<le> n \<Longrightarrow> n \<le> 64 \<Longrightarrow> shr x (u64_of n) = drop_bit (nat n) x"
  by (simp add: shr_def shift_counts)

lemma shl_nat: "0 \<le> n \<Longrightarrow> n \<le> 64 \<Longrightarrow> shl x (u64_of n) = push_bit (nat n) x"
  by (simp add: shl_def shift_counts)

lemma sdiv_nonneg: "0 \<le> x \<Longrightarrow> (x :: int) sdiv numeral k = x div numeral k"
  by (simp add: signed_divide_int_def sgn_if)

lemma smod_nonneg: "0 \<le> x \<Longrightarrow> (x :: int) smod numeral k = x mod numeral k"
  by (simp add: signed_modulo_int_def signed_divide_int_def sgn_if minus_div_mult_eq_mod)

section \<open>Byte windows\<close>

lemma be_bit_byte: "t < 8 \<Longrightarrow> be_bit 8 data (8 * k + (7 - t)) \<longleftrightarrow> k < length data \<and> bit (data ! k) t"
proof -
  assume t: "t < 8"
  define x where "x = 7 - t"
  with t have "x < 8" "7 - x = t" by simp_all
  then show ?thesis by (simp add: be_bit_def flip: x_def)
qed

lemma byte_cases:
  fixes i n :: nat
  obtains "i < 8 * n" | t where "i = 8 * n + t" "t < 8" | "8 * Suc n \<le> i"
proof -
  have "i < 8 * n \<or> (\<exists>t. i = 8 * n + t \<and> t < 8) \<or> 8 * Suc n \<le> i" by presburger
  then show thesis using that by blast
qed

text \<open>The zero-padded reader never fails; on a window inside the data both readers agree.\<close>

lemma readPackedLoop_bits:
  assumes "off + n < 2 ^ 63"
  shows "bit (readPackedLoop data (int off) n acc) i \<longleftrightarrow>
    i < 64 \<and> (if i < 8 * n then be_bit 8 data (8 * off + 8 * n - 1 - i) else bit acc (i - 8 * n))"
  using assms
proof (induction n arbitrary: off acc)
  case 0
  then show ?case by (auto simp: bit_imp_le_length dest: bit_imp_le_length)
next
  case (Suc n)
  define acc' where "acc' = push_bit 8 acc OR (if off < length data then ucast (data ! off) else 0)"
  have "i64 (int off + 1) = int (Suc off)" using Suc.prems by (simp add: i64_id)
  then have "readPackedLoop data (int off) (Suc n) acc = readPackedLoop data (int (Suc off)) n acc'"
    by (simp add: acc'_def)
  then have step: "bit (readPackedLoop data (int off) (Suc n) acc) i \<longleftrightarrow>
      i < 64 \<and> (if i < 8 * n then be_bit 8 data (8 * Suc off + 8 * n - 1 - i) else bit acc' (i - 8 * n))"
    using Suc.IH [of "Suc off" acc'] Suc.prems by simp
  consider "i < 8 * n" | t where "i = 8 * n + t" "t < 8" | "8 * Suc n \<le> i"
    by (rule byte_cases)
  then show ?case
  proof cases
    case 2
    then have "8 * off + 8 * Suc n - 1 - i = 8 * off + (7 - t)" by simp
    with 2 show ?thesis using be_bit_byte [of t data off] unfolding step
      by (auto simp: acc'_def bit_simps)
  next
    case 3
    then have "8 \<le> i - 8 * n" "i - 8 * n - 8 = i - 8 * Suc n" by auto
    then show ?thesis using 3 unfolding step
      by (auto simp: acc'_def bit_simps dest: bit_imp_le_length)
  qed (simp only: step, simp)
qed

lemma packBytes_read:
  assumes "off + n \<le> length data" "length data < 2 ^ 63"
  shows "packBytes data (int off) n acc = Inr (readPackedLoop data (int off) n acc)"
  using assms
proof (induction n arbitrary: off acc)
  case (Suc n)
  have "i64 (int off + 1) = int (Suc off)" using Suc.prems by (simp add: i64_id)
  then show ?case using Suc.prems Suc.IH [of "Suc off"] by (simp add: go_index_def)
qed simp

lemma readPacked_field:
  assumes "off + n < 2 ^ 63" "n \<le> 8"
  shows "readPackedBytesBigEndian data (int off) (int n) = bit_field (be_bit 8 data) (8 * off) (8 * n)"
proof (cases "n = 0")
  case False
  then show ?thesis
    using assms by (intro bit_field_eqI) (auto simp: readPackedBytesBigEndian_def readPackedLoop_bits)
qed (simp add: readPackedBytesBigEndian_def bit_field_def)

lemma packWindowBE_field:
  assumes "length data < 2 ^ 63" "n \<le> 8" "off < 2 ^ 62"
  shows "packWindowBE data (int off) (int n) =
    (if off + n \<le> length data then Inr (bit_field (be_bit 8 data) (8 * off) (8 * n)) else Inl ErrWindowExceedsData)"
proof -
  have "i64 (int off + int n) = int off + int n" using assms by (simp add: i64_id)
  then show ?thesis
    using assms packBytes_read [of off n data 0] readPacked_field [of off n data]
    by (cases "n = 0") (auto simp: packWindowBE_def readPackedBytesBigEndian_def bit_field_def)
qed

text \<open>Cutting a field out of a window.\<close>

lemma cut_field:
  assumes "k + len \<le> m" "m \<le> 64" "0 < len"
  shows "drop_bit (64 - len) (push_bit (64 - m + k) (bit_field f start m)) = bit_field f (start + k) len"
proof (rule bit_field_eqI)
  fix i :: nat assume i: "i < 64"
  show "bit (drop_bit (64 - len) (push_bit (64 - m + k) (bit_field f start m))) i \<longleftrightarrow> i < len \<and> f (start + k + len - 1 - i)"
  proof (cases "i < len")
    case True
    then have "start + m - 1 - (64 - len + i - (64 - m + k)) = start + k + len - 1 - i" using assms by linarith
    moreover have "64 - m + k \<le> 64 - len + i" "64 - len + i < 64" "64 - len + i - (64 - m + k) < m"
      using True assms by linarith+
    ultimately show ?thesis using True assms i by (simp add: bit_simps bit_bit_field)
  qed (use assms in \<open>auto simp: bit_simps\<close>)
qed

section \<open>Bit fields\<close>

text \<open>The byte window of a field: its first byte, the offset in it and the number of bytes.\<close>

lemma byte_window:
  fixes r len :: nat
  assumes "0 < len"
  defines "m \<equiv> (r + len - 1) div 8 + 1"
  shows "r + len \<le> 8 * m" "8 * m < r + len + 8" "(int r + int len - 1) div 8 = int m - 1"
proof -
  have eq: "int r + int len - 1 = int (r + len - 1)" using assms(1) by simp
  show "(int r + int len - 1) div 8 = int m - 1"
    unfolding eq m_def by (simp only: of_nat_add of_nat_1 zdiv_int of_nat_numeral add_diff_cancel_right')
  define x where "x = r + len - 1"
  have "x div 8 * 8 + x mod 8 = x" "x mod 8 < 8" by simp_all
  moreover have "r + len = x + 1" "m = x div 8 + 1" using assms(1) by (simp_all add: x_def m_def)
  ultimately show "r + len \<le> 8 * m" "8 * m < r + len + 8" by linarith+
qed

lemma cut_window:
  fixes q r len m :: nat
  assumes "0 < len" "r + len \<le> 8 * m" "m \<le> 8"
  shows "shr (shl (bit_field f (8 * q) (8 * m)) (u64_of (8 * (8 - int m) + int r))) (u64_of (8 * 8 - int len))
    = bit_field f (8 * q + r) len"
proof -
  have "int (64 - 8 * m) = 64 - 8 * int m" using assms(3) by (simp add: of_nat_diff)
  then have eq: "8 * (8 - int m) + int r = int (64 - 8 * m + r)" by simp
  have "64 - 8 * m + r \<le> 64" using assms by linarith
  then have shl: "shl (bit_field f (8 * q) (8 * m)) (u64_of (8 * (8 - int m) + int r))
      = push_bit (64 - 8 * m + r) (bit_field f (8 * q) (8 * m))"
    unfolding eq by (intro shl_nat [of "int (64 - 8 * m + r)", unfolded nat_int]) simp_all
  have eq2: "8 * 8 - int len = int (64 - len)" using assms by (simp add: of_nat_diff)
  have "shr x (u64_of (8 * 8 - int len)) = drop_bit (64 - len) x" for x
    unfolding eq2 by (intro shr_nat [of "int (64 - len)", unfolded nat_int]) simp_all
  then show ?thesis unfolding shl using cut_field [of r len "8 * m" f "8 * q"] assms by simp
qed

text \<open>Go's quotient and remainder of the start bit.\<close>

lemma start_bit:
  fixes k base :: nat
  assumes "base < 2 ^ 60" "k < 2 ^ 60"
  shows "int k sdiv 8 = int (k div 8)" "int k smod 8 = int (k mod 8)"
    "i64 (int base + int (k div 8)) = int (base + k div 8)" "base + k div 8 < 2 ^ 61"
proof -
  show "int k sdiv 8 = int (k div 8)" "int k smod 8 = int (k mod 8)"
    by (simp_all add: sdiv_nonneg smod_nonneg zdiv_int zmod_int)
  have "k div 8 \<le> k" by simp
  then show less: "base + k div 8 < 2 ^ 61" using assms by simp
  then show "i64 (int base + int (k div 8)) = int (base + k div 8)"
    unfolding of_nat_add [symmetric] by (intro i64_id) simp_all
qed

lemma sdiv_window:
  assumes "0 < len"
  shows "(int r + int len - 1) sdiv 8 = int ((r + len - 1) div 8 + 1) - 1"
  using byte_window(3) [OF assms, of r] assms by (simp add: sdiv_nonneg)

text \<open>
  \<^verbatim>\<open>packBitsBE\<close> reads the field of the instruction stream, and fails exactly when its bytes do not fit
  in eight or run past the end.
\<close>

lemma packBitsBE_field:
  assumes "length data < 2 ^ 60" "base < 2 ^ 60" "k < 2 ^ 60" "0 < len" "len \<le> 64"
  shows "packBitsBE data (int base) (int k) (int len) =
    (if 64 < k mod 8 + len then Inl ErrWindowTooWide
     else if base + k div 8 + ((k mod 8 + len - 1) div 8 + 1) \<le> length data
          then Inr (bit_field (be_bit 8 data) (8 * base + k) len) else Inl ErrWindowExceedsData)"
proof -
  define m where "m = (k mod 8 + len - 1) div 8 + 1"
  note w = byte_window [OF assms(4), of "k mod 8", folded m_def]
  note k = start_bit [OF assms(2,3)]
  have eq: "packBitsBE data (int base) (int k) (int len) =
      (if 8 < m then Inl ErrWindowTooWide
       else then_step (packWindowBE data (int (base + k div 8)) (int m)) (\<lambda>packed.
         Inr (shr (shl packed (u64_of (8 * (8 - int m) + int (k mod 8)))) (u64_of (8 * 8 - int len)))))"
    using assms(4,5) unfolding packBitsBE_def Let_def k sdiv_window [OF assms(4), where r = "k mod 8", folded m_def] by simp
  have wide: "8 < m \<longleftrightarrow> 64 < k mod 8 + len" using w(1,2) by linarith
  show ?thesis
  proof (cases "8 < m")
    case False
    then have cut: "shr (shl (bit_field (be_bit 8 data) (8 * (base + k div 8)) (8 * m)) (u64_of (8 * (8 - int m) + int (k mod 8)))) (u64_of (8 * 8 - int len))
        = bit_field (be_bit 8 data) (8 * base + k) len"
      using cut_window [OF assms(4) w(1), of "be_bit 8 data" "base + k div 8"] by (simp add: algebra_simps)
    have "packWindowBE data (int (base + k div 8)) (int m) =
      (if base + k div 8 + m \<le> length data then Inr (bit_field (be_bit 8 data) (8 * (base + k div 8)) (8 * m)) else Inl ErrWindowExceedsData)"
      using False assms(1) k(4) by (intro packWindowBE_field) auto
    then show ?thesis unfolding eq m_def [symmetric] using False wide cut by simp
  qed (simp add: eq wide)
qed

lemma extractBits_field:
  assumes "length data < 2 ^ 60" "base < 2 ^ 60" "k < 2 ^ 60" "0 < len" "k mod 8 + len \<le> 64" "base + k div 8 < length data"
  shows "extractBits data (int base) (int k) (int len) = Inr (bit_field (be_bit 8 data) (8 * base + k) len)"
proof -
  define m where "m = (k mod 8 + len - 1) div 8 + 1"
  note w = byte_window [OF assms(4), of "k mod 8", folded m_def]
  note k = start_bit [OF assms(2,3)]
  have m: "m \<le> 8" using w(2) assms(5) by linarith
  have "extractBits data (int base) (int k) (int len) =
      Inr (shr (shl (readPackedBytesBigEndian data (int (base + k div 8)) (int m)) (u64_of (8 * (8 - int m) + int (k mod 8)))) (u64_of (8 * 8 - int len)))"
    using assms(4-6) unfolding extractBits_def Let_def k sdiv_window [OF assms(4), where r = "k mod 8", folded m_def] by simp
  also have "readPackedBytesBigEndian data (int (base + k div 8)) (int m) = bit_field (be_bit 8 data) (8 * (base + k div 8)) (8 * m)"
    using assms(1,6) m by (intro readPacked_field) auto
  finally show ?thesis
    using cut_window [OF assms(4) w(1) m, of "be_bit 8 data" "base + k div 8"] by (simp add: algebra_simps)
qed

section \<open>Context words\<close>

text \<open>One or two neighbouring words around a field.\<close>

lemma word_cut:
  assumes "b + len \<le> 64" "0 < len"
  shows "drop_bit (64 - len) (push_bit b (w :: u64)) = bit_field (\<lambda>j. bit w (63 - j)) b len"
proof (rule bit_field_eqI)
  fix i :: nat assume i: "i < 64"
  show "bit (drop_bit (64 - len) (push_bit b w)) i \<longleftrightarrow> i < len \<and> bit w (63 - (b + len - 1 - i))"
  proof (cases "i < len")
    case True
    then have "b \<le> 64 - len + i" "64 - len + i < 64" "64 - len + i - b = 63 - (b + len - 1 - i)"
      using assms by linarith+
    with True show ?thesis by (simp add: bit_simps)
  qed (use assms in \<open>auto simp: bit_simps\<close>)
qed

lemma word_cut2:
  assumes "b < 64" "64 < b + len" "len \<le> 64"
  shows "drop_bit (64 - len) (push_bit b (w :: u64)) OR drop_bit (64 - (b + len - 64)) w'
    = bit_field (\<lambda>j. if j < 64 then bit w (63 - j) else bit w' (63 - (j - 64))) b len"
proof (rule bit_field_eqI)
  fix i :: nat assume i: "i < 64"
  let ?j = "b + len - 1 - i"
  show "bit (drop_bit (64 - len) (push_bit b w) OR drop_bit (64 - (b + len - 64)) w') i \<longleftrightarrow>
      i < len \<and> (if ?j < 64 then bit w (63 - ?j) else bit w' (63 - (?j - 64)))"
  proof (cases "i < len")
    case True
    then have less: "64 - len + i < 64" using assms by linarith
    show ?thesis
    proof (cases "?j < 64")
      case True
      then have "b \<le> 64 - len + i" "64 - len + i - b = 63 - ?j" "64 \<le> 64 - (b + len - 64) + i"
        using assms \<open>i < len\<close> by linarith+
      with True less \<open>i < len\<close> show ?thesis by (auto simp: bit_simps add.commute dest: bit_imp_le_length)
    next
      case False
      then have "\<not> b \<le> 64 - len + i" "64 - (b + len - 64) + i = 63 - (?j - 64)"
        using assms \<open>i < len\<close> by linarith+
      with False \<open>i < len\<close> show ?thesis by (auto simp: bit_simps)
    qed
  next
    case False
    then have "\<not> 64 - len + i < 64" "64 \<le> 64 - (b + len - 64) + i" using assms by linarith+
    with False show ?thesis by (auto simp: bit_simps dest: bit_imp_le_length)
  qed
qed

lemma bit_field_cong:
  assumes "\<And>j. j < len \<Longrightarrow> f (a + j) = g (b + j)"
  shows "bit_field f a len = bit_field g b len"
proof (rule bit_field_eqI)
  fix i :: nat
  have "i < len \<Longrightarrow> f (a + len - 1 - i) = g (b + len - 1 - i)" using assms [of "len - 1 - i"] by simp
  then show "i < 64 \<Longrightarrow> bit (bit_field f a len) i \<longleftrightarrow> i < len \<and> g (b + len - 1 - i)" by (auto simp: bit_bit_field)
qed

lemma be_bit_word: "be_bit 64 ws (64 * q + j) \<longleftrightarrow> (if j < 64 then q < length ws \<and> bit (ws ! q) (63 - j)
     else be_bit 64 ws (64 * Suc q + (j - 64)))"
  by (auto simp: be_bit_def)

text \<open>The field of \<open>len\<close> bits from bit \<open>r\<close> of word \<open>q\<close>, as both context readers compute it.\<close>

lemma context_cut:
  fixes q r len :: nat
  assumes "r < 64" "0 < len" "len \<le> 64" "q < length ws"
  shows "r + len \<le> 64 \<Longrightarrow> drop_bit (64 - len) (push_bit r (ws ! q)) = bit_field (be_bit 64 ws) (64 * q + r) len"
    "64 < r + len \<Longrightarrow> Suc q < length ws \<Longrightarrow>
      drop_bit (64 - len) (push_bit r (ws ! q)) OR drop_bit (64 - (r + len - 64)) (ws ! Suc q)
      = bit_field (be_bit 64 ws) (64 * q + r) len"
proof -
  have shift: "bit_field (be_bit 64 ws) (64 * q + r) len = bit_field (\<lambda>j. be_bit 64 ws (64 * q + j)) r len"
    by (rule bit_field_cong) (simp add: add.assoc)
  show "drop_bit (64 - len) (push_bit r (ws ! q)) = bit_field (be_bit 64 ws) (64 * q + r) len" if "r + len \<le> 64"
    unfolding shift word_cut [OF that assms(2)]
    using that assms(4) be_bit_word [of ws q] by (intro bit_field_cong) simp
  show "drop_bit (64 - len) (push_bit r (ws ! q)) OR drop_bit (64 - (r + len - 64)) (ws ! Suc q)
      = bit_field (be_bit 64 ws) (64 * q + r) len" if "64 < r + len" "Suc q < length ws"
    unfolding shift word_cut2 [OF assms(1) that(1) assms(3)]
  proof (rule bit_field_cong)
    fix j assume "j < len"
    then have "r + j - 64 < 64" using assms by linarith
    then show "(if r + j < 64 then bit (ws ! q) (63 - (r + j)) else bit (ws ! Suc q) (63 - (r + j - 64))) = be_bit 64 ws (64 * q + (r + j))"
      unfolding be_bit_word [of ws q "r + j"] be_bit_word [of ws "Suc q" "r + j - 64"] using that(2) by simp
  qed
qed

lemma packContextBitsBE_field:
  assumes "length ws < 2 ^ 60" "0 < len" "len \<le> 64"
  shows "packContextBitsBE ws (int k) (int len) =
    (if length ws \<le> k div 64 then Inl ErrContextExceedsData
     else if 64 < k mod 64 + len \<and> length ws \<le> Suc (k div 64) then Inl ErrContextCrossesEnd
     else Inr (bit_field (be_bit 64 ws) k len))"
proof -
  define q r where "q = k div 64" and "r = k mod 64"
  have k: "k = 64 * q + r" "r < 64" by (simp_all add: q_def r_def)
  have div: "int k sdiv 64 = int q" "int k smod 64 = int r"
    by (simp_all add: sdiv_nonneg smod_nonneg zdiv_int zmod_int q_def r_def)
  have sh: "shl x (u64_of (int r)) = push_bit r x" "shr x (u64_of (64 - int len)) = drop_bit (64 - len) x" for x
    using k(2) assms by (simp_all add: shl_nat shr_nat nat_diff_distrib)
  have rest: "shr x (u64_of (64 - (int len - 64 + int r))) = drop_bit (64 - (r + len - 64)) x" if "64 < r + len" for x
  proof -
    have eq: "64 - (int len - 64 + int r) = int (64 - (r + len - 64))" using that k(2) assms by (simp add: of_nat_diff)
    show ?thesis unfolding eq by (intro shr_nat [of "int (64 - (r + len - 64))", unfolded nat_int]) simp_all
  qed
  have idx: "nat (int q + 1) = Suc q" by simp
  have cmp: "int len - 64 + int r > 0 \<longleftrightarrow> 64 < r + len" by auto
  have end_cmp: "int q + 1 \<ge> int (length ws) \<longleftrightarrow> length ws \<le> Suc q" by auto
  have "packContextBitsBE ws (int k) (int len) =
    (if length ws \<le> q then Inl ErrContextExceedsData
     else if 64 < r + len then
       (if length ws \<le> Suc q then Inl ErrContextCrossesEnd
        else Inr (drop_bit (64 - len) (push_bit r (ws ! q)) OR drop_bit (64 - (r + len - 64)) (ws ! Suc q)))
     else Inr (drop_bit (64 - len) (push_bit r (ws ! q))))"
    unfolding packContextBitsBE_def Let_def div idx cmp end_cmp sh nat_int using assms(2,3) rest by simp
  then show ?thesis
    unfolding q_def [symmetric] r_def [symmetric]
    using context_cut [OF k(2) assms(2,3), of q ws] k by auto
qed

lemma packContextBytesBE_field:
  assumes "length ws < 2 ^ 60" "0 < n" "n \<le> 8"
  shows "packContextBytesBE ws (int k) (int n) =
    (if length ws \<le> k div 8 then Inl ErrContextExceedsData
     else if 8 < k mod 8 + n \<and> length ws \<le> Suc (k div 8) then Inl ErrContextCrossesEnd
     else Inr (bit_field (be_bit 64 ws) (8 * k) (8 * n)))"
proof -
  define q r where "q = k div 8" and "r = k mod 8"
  have k: "k = 8 * q + r" "r < 8" by (simp_all add: q_def r_def)
  have div: "int k sdiv 8 = int q" "int k smod 8 = int r"
    by (simp_all add: sdiv_nonneg smod_nonneg zdiv_int zmod_int q_def r_def)
  have sh: "shl x (u64_of (int r * 8)) = push_bit (8 * r) x" "shr x (u64_of ((8 - int n) * 8)) = drop_bit (64 - 8 * n) x" for x
    using k(2) assms by (simp_all add: shl_nat shr_nat nat_diff_distrib nat_mult_distrib algebra_simps)
  have rest: "shr x (u64_of ((8 - (int n - 8 + int r)) * 8)) = drop_bit (64 - (8 * r + 8 * n - 64)) x" if "8 < r + n" for x
  proof -
    have eq: "(8 - (int n - 8 + int r)) * 8 = int (64 - (8 * r + 8 * n - 64))" using that k(2) assms by (simp add: of_nat_diff)
    show ?thesis unfolding eq by (intro shr_nat [of "int (64 - (8 * r + 8 * n - 64))", unfolded nat_int]) simp_all
  qed
  have idx: "nat (int q + 1) = Suc q" by simp
  have cmp: "int n - 8 + int r > 0 \<longleftrightarrow> 8 < r + n" by auto
  have end_cmp: "int q + 1 \<ge> int (length ws) \<longleftrightarrow> length ws \<le> Suc q" by auto
  have "packContextBytesBE ws (int k) (int n) =
    (if length ws \<le> q then Inl ErrContextExceedsData
     else if 8 < r + n then
       (if length ws \<le> Suc q then Inl ErrContextCrossesEnd
        else Inr (drop_bit (64 - 8 * n) (push_bit (8 * r) (ws ! q)) OR drop_bit (64 - (8 * r + 8 * n - 64)) (ws ! Suc q)))
     else Inr (drop_bit (64 - 8 * n) (push_bit (8 * r) (ws ! q))))"
    unfolding packContextBytesBE_def Let_def div idx cmp end_cmp sh nat_int using assms(2,3) rest by simp
  then show ?thesis
    unfolding q_def [symmetric] r_def [symmetric]
    using context_cut [of "8 * r" "8 * n" q ws] k assms by auto
qed

section \<open>Equivalence of the readers\<close>

text \<open>The bytes of a list of context words, most significant first.\<close>

definition word_bytes :: "u64 \<Rightarrow> u8 list" where
  "word_bytes w = map (\<lambda>i. ucast (drop_bit (56 - 8 * i) w)) [0..<8]"

definition context_bytes :: "u64 list \<Rightarrow> u8 list" where
  "context_bytes ws = concat (map word_bytes ws)"

lemma length_context_bytes [simp]: "length (context_bytes ws) = 8 * length ws"
  by (induction ws) (simp_all add: context_bytes_def word_bytes_def)

lemma nth_context_bytes:
  "i < 8 * length ws \<Longrightarrow> context_bytes ws ! i = word_bytes (ws ! (i div 8)) ! (i mod 8)"
proof (induction ws arbitrary: i)
  case (Cons w ws)
  have len: "length (word_bytes w) = 8" by (simp add: word_bytes_def)
  show ?case
  proof (cases "i < 8")
    case False
    define j where "j = i - 8"
    with False have i: "i = j + 8" by simp
    have "context_bytes ws ! j = word_bytes (ws ! (j div 8)) ! (j mod 8)" using Cons i by simp
    moreover have "(j + 8) div 8 = Suc (j div 8)" "(j + 8) mod 8 = j mod 8" by simp_all
    ultimately show ?thesis using len by (simp add: i context_bytes_def nth_append)
  qed (use len in \<open>simp add: context_bytes_def nth_append\<close>)
qed simp

lemma be_bit_context_bytes: "be_bit 8 (context_bytes ws) j = be_bit 64 ws j"
proof -
  define q r t where "q = j div 64" and "r = j div 8 mod 8" and "t = j mod 8"
  have "j div 8 div 8 = q" using div_mult2_eq [of j 8 8] by (simp add: q_def)
  moreover have "j mod 64 = 8 * r + t" using mod_mult2_eq [of j 8 8] by (simp add: r_def t_def)
  ultimately have j: "j div 8 = 8 * q + r" "j mod 64 = 8 * r + t" "r < 8" "t < 8"
    using div_mult_mod_eq [of "j div 8" 8] by (simp_all add: r_def t_def)
  have d: "(8 * q + r) div 8 = q" "(8 * q + r) mod 8 = r" using j(3) by simp_all
  have "8 * q + r < 8 * length ws \<longleftrightarrow> q < length ws" using j(3) by linarith
  moreover have "bit (word_bytes w ! r) (7 - t) \<longleftrightarrow> bit w (63 - (8 * r + t))" for w
  proof -
    have "56 - 8 * r + (7 - t) = 63 - (8 * r + t)" using j(3,4) by linarith
    then show ?thesis using j(3,4) by (simp add: word_bytes_def bit_simps less_imp_diff_less)
  qed
  moreover have "context_bytes ws ! (8 * q + r) = word_bytes (ws ! q) ! r" if "q < length ws"
    using nth_context_bytes [of "8 * q + r" ws] d that calculation(1) by simp
  moreover have "(8 :: nat) - 1 - t = 7 - t" "(64 :: nat) - 1 - (8 * r + t) = 63 - (8 * r + t)" by simp_all
  ultimately show ?thesis
    unfolding be_bit_def length_context_bytes q_def [symmetric] t_def [symmetric] j(1,2) by metis
qed

lemma window_end:
  fixes x y k m n len :: nat
  shows "\<lbrakk>8 * x + y = k; 8 * x + 8 * m \<le> 64 * n; y + len \<le> 8 * m\<rbrakk> \<Longrightarrow> k + len \<le> 64 * n"
  by linarith

lemma window_cross:
  fixes x y k n len :: nat
  shows "\<lbrakk>64 * x + y = k; k + len \<le> 64 * n\<rbrakk> \<Longrightarrow> \<not> (64 < y + len \<and> n \<le> Suc x)"
  by linarith



text \<open>Where the field needs nine bytes the two paths differ: one fails, the other silently returns 0.\<close>

lemma extractBits_nine_bytes:
  "packBitsBE (replicate 9 0xff) 0 4 64 = Inl ErrWindowTooWide" "extractBits (replicate 9 0xff) 0 4 64 = Inr 0"
proof -
  show "packBitsBE (replicate 9 0xff) 0 4 64 = Inl ErrWindowTooWide" by code_simp
  have "unat (u64_of (- 4)) = 2 ^ 64 - 4" by (simp add: unat_eq_nat_uint u64_of_def uint_word_of_int)
  then have "shl x (u64_of (- 4)) = 0" for x by (intro bit_word_eqI) (simp add: shl_def bit_push_bit_iff)
  then show "extractBits (replicate 9 0xff) 0 4 64 = Inr 0"
    by (simp add: extractBits_def sdiv_nonneg smod_nonneg i64_id shr_def)
qed

section \<open>Extension of a field value\<close>

lemma bit_i64_of: "bit (i64_of w) n \<longleftrightarrow> bit w (min n 63)"
proof -
  have "n < 64 \<or> n \<ge> 64" by linarith
  then show ?thesis by (auto simp: i64_of_def bit_sint_iff min_def not_less le_less_Suc_eq intro: arg_cong [of _ _ "bit w"]
      dest: bit_imp_le_length)
qed

lemma shl_one_minus: "w \<le> 64 \<Longrightarrow> shl 1 (u64_of (int w)) - 1 = (mask w :: u64)"
  using shl_nat [of "int w" 1] by (simp add: mask_eq_exp_minus_1 push_bit_eq_mult)

text \<open>\<^verbatim>\<open>extendPatternValue\<close> is sign extension, or truncation to the width.\<close>

lemma extendPatternValue_value:
  assumes "0 < w" "w \<le> 64"
  shows "extendPatternValue raw (int w) signbit =
    Inr (if signbit \<or> w = 64 then signed_take_bit (w - 1) (uint raw) else take_bit w (uint raw))"
proof -
  obtain v where v: "w = Suc v" using assms(1) by (cases w) auto
  then have v': "w - 1 = v" by simp
  have m: "raw AND mask w = take_bit w raw" by (rule and_mask_take_bit)
  have sm: "shl 1 (u64_of (int w - 1)) = push_bit v 1"
    using shl_nat [of "int v" 1] assms v by simp
  have test: "(take_bit w raw AND push_bit v 1 = 0) \<longleftrightarrow> \<not> bit raw v"
  proof -
    have "bit (take_bit w raw AND push_bit v 1) n \<longleftrightarrow> n = v \<and> bit raw v" for n
      using v assms(2) by (auto simp: bit_simps)
    then show ?thesis by (metis bit_0_eq bot_apply bot_bool_def bit_word_eqI)
  qed
  consider "w = 64" | "w < 64" "\<not> signbit" | "w < 64" "signbit" "\<not> bit raw v" | "w < 64" "signbit" "bit raw v"
    using assms(2) by fastforce
  then show ?thesis
  proof cases
    case 1
    have "i64_of raw = signed_take_bit 63 (uint raw)"
      by (rule bit_eqI) (auto simp: bit_i64_of bit_simps min_def)
    then show ?thesis using 1 by (simp add: extendPatternValue_def Let_def)
  next
    case 2
    have "i64_of (take_bit w raw) = take_bit w (uint raw)"
      using 2 by (intro bit_eqI) (auto simp: bit_i64_of bit_simps min_def)
    then show ?thesis using 2 assms by (simp add: extendPatternValue_def Let_def shl_one_minus m)
  next
    case 3
    have "i64_of (take_bit w raw) = signed_take_bit v (uint raw)"
      using 3 v by (intro bit_eqI) (auto simp: bit_i64_of bit_simps min_def less_Suc_eq)
    then show ?thesis using 3 assms v' by (simp add: extendPatternValue_def Let_def shl_one_minus m sm test del: push_bit_of_1)
  next
    case 4
    have "i64_of (take_bit w raw OR NOT (mask w)) = signed_take_bit v (uint raw)"
      using 4 v by (intro bit_eqI) (auto simp: bit_i64_of bit_simps min_def less_Suc_eq)
    then show ?thesis using 4 assms v' by (simp add: extendPatternValue_def Let_def shl_one_minus m sm test del: push_bit_of_1)
  qed
qed

end
