(* ===== verification/Sla_Walker.thy ===== *)
theory Sla_Walker
  imports Sla_Symbols Sla_Bits
begin

text \<open>
  \<^verbatim>\<open>pkg/sla/walker.go\<close>: the constructor states of one instruction, the parser context and the walker
  that moves over the tree of states. The states form an explicit heap, since parents and children
  point at each other and several walkers share them; a \<^verbatim>\<open>*ConstructState\<close> is a reference into it
  (\<open>None\<close> is \<^verbatim>\<open>nil\<close>). Parser contexts live in a second part of the heap.
\<close>

datatype walker_error = ErrNoActiveState | ErrDepthExceeded | ErrOperandInvalid int | ErrOperandUnavailable int
  | ErrWalkerNil | ErrOutOfBandArgs | ErrParentNotOnPath | ErrNegativeOffset int | ErrNoInstructionState
  | ErrNoContext | ErrBits bits_error | ErrNoChange | ErrLengthState | ErrCommitRange int | ErrCommitContext
  | ErrNextUnavailable | PanicNil | WalkFuel

section \<open>Constructor states\<close>

record FixedHandle =
  fh_Space :: "space_ref option"
  fh_Size :: u32
  fh_OffsetSpace :: "space_ref option"
  fh_OffsetOffset :: u64
  fh_OffsetSize :: u32
  fh_TempSpace :: "space_ref option"
  fh_TempOffset :: u64

definition IsDynamic :: "FixedHandle \<Rightarrow> bool" where
  "IsDynamic h = (fh_OffsetSpace h \<noteq> None)"

definition zeroHandle :: FixedHandle where
  "zeroHandle = \<lparr>fh_Space = None, fh_Size = 0, fh_OffsetSpace = None, fh_OffsetOffset = 0, fh_OffsetSize = 0,
     fh_TempSpace = None, fh_TempOffset = 0\<rparr>"

type_synonym state_ref = nat
type_synonym ctx_ref = nat

record ConstructState =
  cs_ConstructorID :: u64
  cs_SectionID :: "int option"
  cs_Constructor :: "ConstructorBoundary option"
  cs_Handle :: FixedHandle
  cs_Parent :: "state_ref option"
  cs_Children :: "state_ref option list"
  cs_OperandIndex :: int
  cs_Offset :: u64
  cs_Length :: int

record state_heap =
  hp_state :: "state_ref \<Rightarrow> ConstructState"
  hp_next :: state_ref

definition emptyState :: ConstructState where
  "emptyState = \<lparr>cs_ConstructorID = 0, cs_SectionID = None, cs_Constructor = None, cs_Handle = zeroHandle,
     cs_Parent = None, cs_Children = [], cs_OperandIndex = -1, cs_Offset = 0, cs_Length = 0\<rparr>"

text \<open>Writing through a pointer.\<close>

definition upd_state :: "state_ref \<Rightarrow> (ConstructState \<Rightarrow> ConstructState) \<Rightarrow> state_heap \<Rightarrow> state_heap" where
  "upd_state s f h = h\<lparr>hp_state := (hp_state h)(s := f (hp_state h s))\<rparr>"

definition NewConstructState :: "state_heap \<Rightarrow> state_ref \<times> state_heap" where
  "NewConstructState h = (hp_next h, \<lparr>hp_state = (hp_state h)(hp_next h := emptyState), hp_next = Suc (hp_next h)\<rparr>)"

definition SetSectionID :: "state_ref \<Rightarrow> int \<Rightarrow> state_heap \<Rightarrow> state_heap" where
  "SetSectionID s i = upd_state s (\<lambda>c. c\<lparr>cs_SectionID := Some i\<rparr>)"

definition ClearSectionID :: "state_ref \<Rightarrow> state_heap \<Rightarrow> state_heap" where
  "ClearSectionID s = upd_state s (\<lambda>c. c\<lparr>cs_SectionID := None\<rparr>)"

definition normalizeFlowThru :: "ConstructorBoundary \<Rightarrow> ConstructorBoundary" where
  "normalizeFlowThru c =
     (case flowThru (cn_PrintPieces c) of
        Some i \<Rightarrow> c\<lparr>cn_FlowThruIndex := i\<rparr>
      | None \<Rightarrow> if cn_FlowThruIndex c \<ge> 0 then c\<lparr>cn_FlowThruIndex := -1\<rparr> else c)"

definition ConstructState_SetConstructor :: "state_ref \<Rightarrow> ConstructorBoundary \<Rightarrow> state_heap \<Rightarrow> state_heap" where
  "ConstructState_SetConstructor s c = upd_state s (\<lambda>st. st\<lparr>cs_Constructor := Some (normalizeFlowThru c)\<rparr>)"

definition TemplateForSection :: "ConstructState option \<Rightarrow> int \<Rightarrow> ConstructTplBoundary option" where
  "TemplateForSection s sectionID =
     (case s of None \<Rightarrow> None
      | Some s \<Rightarrow> (case cs_Constructor s of
          None \<Rightarrow> None
        | Some c \<Rightarrow>
            if sectionID < 0 then cn_MainSection c
            else map_option ns_Template (List.find (\<lambda>n. ns_SectionID n = sectionID) (cn_NamedSections c))))"

definition SectionValue :: "ConstructState option \<Rightarrow> int option" where
  "SectionValue s = (case s of None \<Rightarrow> None | Some s \<Rightarrow> cs_SectionID s)"

definition ConstructorOffset :: "ConstructState option \<Rightarrow> u64 \<Rightarrow> u64" where
  "ConstructorOffset s relative = (case s of None \<Rightarrow> relative | Some s \<Rightarrow> cs_Offset s + relative)"

definition Child :: "state_heap \<Rightarrow> state_ref \<Rightarrow> int \<Rightarrow> state_ref option" where
  "Child h s i =
     (if i < 0 \<or> i \<ge> int (length (cs_Children (hp_state h s))) then None
      else cs_Children (hp_state h s) ! nat i)"

text \<open>
  \<^verbatim>\<open>EnsureOperand\<close>: the slice of children is extended with nil up to the index, and a missing child
  is allocated and linked both ways.
\<close>

definition growChildren :: "nat \<Rightarrow> state_ref option list \<Rightarrow> state_ref option list" where
  "growChildren n cs = cs @ replicate (Suc n - length cs) None"

definition EnsureOperand :: "state_heap \<Rightarrow> state_ref \<Rightarrow> int \<Rightarrow> state_ref option \<times> state_heap" where
  "EnsureOperand h s i =
     (if i < 0 then (None, h)
      else
        let h = upd_state s (\<lambda>c. c\<lparr>cs_Children := growChildren (nat i) (cs_Children c)\<rparr>) h in
        case cs_Children (hp_state h s) ! nat i of
          Some child \<Rightarrow> (Some child, h)
        | None \<Rightarrow>
            let (child, h) = NewConstructState h;
                h = upd_state child (\<lambda>c. c\<lparr>cs_Parent := Some s, cs_OperandIndex := i\<rparr>) h;
                h = upd_state s (\<lambda>c. c\<lparr>cs_Children := (cs_Children c)[nat i := Some child]\<rparr>) h
            in (Some child, h))"

definition OperandOffset :: "state_heap \<Rightarrow> state_ref \<Rightarrow> int \<Rightarrow> walker_error + u64" where
  "OperandOffset h s i =
     (case Child h s i of
        None \<Rightarrow> Inl (ErrOperandUnavailable i)
      | Some c \<Rightarrow> Inr (cs_Offset (hp_state h c) + u64_of (cs_Length (hp_state h c))))"

section \<open>Parser contexts\<close>

datatype ParseState = ParseStateUninitialized | ParseStateDisassembly | ParseStatePcode

record ContextSet =
  ck_SymbolID :: u64
  ck_Point :: state_ref
  ck_Number :: int
  ck_Mask :: u64
  ck_Value :: u64
  ck_Flow :: bool

text \<open>
  The queue of pending commits, which \<^verbatim>\<open>load_context.go\<close> keeps beside the context, is a field. The
  resolver of \<^verbatim>\<open>inst_next2\<close>, a closure over the disassembly cache, is the value it returns.
\<close>

record ParserContext =
  pc_Addr :: Address
  pc_NAddr :: Address
  pc_N2Addr :: Address
  pc_RefAddr :: Address
  pc_DestAddr :: Address
  pc_InstructionBytes :: "u8 list"
  pc_ContextWords :: "u64 list"
  pc_ConstSpace :: "space_ref option"
  pc_Symbols :: "SymbolTableBoundary option"
  pc_ParserState :: ParseState
  pc_DelaySlot :: int
  pc_BaseState :: "state_ref option"
  pc_SpacesByIndex :: "(int \<times> space_ref) list"
  pc_n2Resolver :: "(Address \<times> bool) option"
  pc_n2Resolving :: bool
  pc_commits :: "ContextSet list"

definition invalidAddress :: Address where
  "invalidAddress = \<lparr>ad_Space = None, ad_Offset = 0\<rparr>"

definition NewParserContext :: "Address \<Rightarrow> space_ref option \<Rightarrow> state_heap \<Rightarrow> ParserContext \<times> state_heap" where
  "NewParserContext addr constSpace h =
     (let (base, h) = NewConstructState h in
      (\<lparr>pc_Addr = addr, pc_NAddr = invalidAddress, pc_N2Addr = invalidAddress, pc_RefAddr = invalidAddress,
        pc_DestAddr = invalidAddress, pc_InstructionBytes = [], pc_ContextWords = [], pc_ConstSpace = constSpace,
        pc_Symbols = None, pc_ParserState = ParseStateUninitialized, pc_DelaySlot = 0, pc_BaseState = Some base,
        pc_SpacesByIndex = [], pc_n2Resolver = None, pc_n2Resolving = False, pc_commits = []\<rparr>, h))"

definition ParserContext_Initialize :: "ParserContext \<Rightarrow> space_ref option \<Rightarrow> state_heap \<Rightarrow> ParserContext \<times> state_heap" where
  "ParserContext_Initialize ctx constSpace h =
     (let ctx = ctx\<lparr>pc_ConstSpace := constSpace\<rparr> in
      if pc_BaseState ctx = None then
        (let (base, h) = NewConstructState h in (ctx\<lparr>pc_BaseState := Some base\<rparr>, h))
      else (ctx, h))"

definition SetAddr :: "ParserContext \<Rightarrow> Address \<Rightarrow> ParserContext" where
  "SetAddr ctx addr = ctx\<lparr>pc_Addr := addr, pc_N2Addr := invalidAddress, pc_n2Resolver := None, pc_n2Resolving := False\<rparr>"

definition SetN2addr :: "ParserContext \<Rightarrow> Address \<Rightarrow> ParserContext" where
  "SetN2addr ctx addr = ctx\<lparr>pc_N2Addr := addr, pc_n2Resolving := False, pc_n2Resolver := None\<rparr>"

definition SetN2addrResolver :: "ParserContext \<Rightarrow> (Address \<times> bool) option \<Rightarrow> ParserContext" where
  "SetN2addrResolver ctx r = ctx\<lparr>pc_n2Resolver := r, pc_n2Resolving := False\<rparr>"

definition SetSymbolTable :: "ParserContext \<Rightarrow> SymbolTableBoundary option \<Rightarrow> ParserContext" where
  "SetSymbolTable ctx symbols = ctx\<lparr>pc_Symbols := symbols\<rparr>"

definition SetNaddr :: "ParserContext \<Rightarrow> Address \<Rightarrow> ParserContext" where
  "SetNaddr ctx addr = ctx\<lparr>pc_NAddr := addr\<rparr>"

definition SetRefAddr :: "ParserContext \<Rightarrow> Address \<Rightarrow> ParserContext" where
  "SetRefAddr ctx addr = ctx\<lparr>pc_RefAddr := addr\<rparr>"

definition SetDestAddr :: "ParserContext \<Rightarrow> Address \<Rightarrow> ParserContext" where
  "SetDestAddr ctx addr = ctx\<lparr>pc_DestAddr := addr\<rparr>"

definition SetParserState :: "ParserContext \<Rightarrow> ParseState \<Rightarrow> ParserContext" where
  "SetParserState ctx state = ctx\<lparr>pc_ParserState := state\<rparr>"

definition SetDelaySlot :: "ParserContext \<Rightarrow> int \<Rightarrow> ParserContext" where
  "SetDelaySlot ctx v = ctx\<lparr>pc_DelaySlot := v\<rparr>"

definition SetInstructionBytes :: "ParserContext \<Rightarrow> u8 list \<Rightarrow> ParserContext" where
  "SetInstructionBytes ctx data = ctx\<lparr>pc_InstructionBytes := data\<rparr>"

definition SetContextWords :: "ParserContext \<Rightarrow> u64 list \<Rightarrow> ParserContext" where
  "SetContextWords ctx ws = ctx\<lparr>pc_ContextWords := ws\<rparr>"

definition SetContextWord :: "ParserContext \<Rightarrow> int \<Rightarrow> u64 \<Rightarrow> u64 \<Rightarrow> ParserContext" where
  "SetContextWord ctx i v m =
     (if i < 0 \<or> i \<ge> int (length (pc_ContextWords ctx)) then ctx
      else ctx\<lparr>pc_ContextWords := (pc_ContextWords ctx)[nat i := (pc_ContextWords ctx ! nat i AND NOT m) OR (m AND v)]\<rparr>)"

definition GetN2addr :: "ParserContext \<Rightarrow> Address \<times> ParserContext" where
  "GetN2addr ctx =
     (if IsInvalid (pc_N2Addr ctx) \<and> \<not> pc_n2Resolving ctx then
        (case pc_n2Resolver ctx of
           None \<Rightarrow> (pc_N2Addr ctx, ctx)
         | Some (derived, ok) \<Rightarrow>
             if ok \<and> \<not> IsInvalid derived then (derived, ctx\<lparr>pc_N2Addr := derived, pc_n2Resolver := None\<rparr>)
             else (pc_N2Addr ctx, ctx))
      else (pc_N2Addr ctx, ctx))"

definition GetN2addrE :: "ParserContext option \<Rightarrow> walker_error + Address \<times> ParserContext" where
  "GetN2addrE ctx =
     (case ctx of None \<Rightarrow> Inl ErrNextUnavailable
      | Some ctx \<Rightarrow> if pc_ParserState ctx = ParseStateUninitialized then Inl ErrNextUnavailable else Inr (GetN2addr ctx))"

definition ParserContext_GetLength :: "state_heap \<Rightarrow> ParserContext \<Rightarrow> int" where
  "ParserContext_GetLength h ctx = (case pc_BaseState ctx of None \<Rightarrow> 0 | Some s \<Rightarrow> cs_Length (hp_state h s))"

definition AddCommit :: "ParserContext \<Rightarrow> ContextCommitBoundary \<Rightarrow> state_ref \<Rightarrow> walker_error + ParserContext" where
  "AddCommit ctx commit point =
     (let num = cc_Number commit in
      if num < 0 \<or> num \<ge> int (length (pc_ContextWords ctx)) then Inl (ErrCommitRange num)
      else Inr (ctx\<lparr>pc_commits := pc_commits ctx @ [\<lparr>ck_SymbolID = cc_SymbolID commit, ck_Point = point, ck_Number = num,
             ck_Mask = cc_Mask commit, ck_Value = pc_ContextWords ctx ! nat num AND cc_Mask commit, ck_Flow = cc_Flow commit\<rparr>]\<rparr>))"

definition ClearCommits :: "ParserContext \<Rightarrow> ParserContext" where
  "ClearCommits ctx = ctx\<lparr>pc_commits := []\<rparr>"

section \<open>The walker\<close>

type_synonym ctx_store = "ctx_ref \<Rightarrow> ParserContext"

abbreviation "walkerMaxDepth \<equiv> (32 :: nat)"

record ParserWalker =
  pw_constContext :: "ctx_ref option"
  pw_crossContext :: "ctx_ref option"
  pw_Point :: "state_ref option"
  pw_Depth :: int
  pw_Breadcrumb :: "int list"

definition NewParserWalker :: "ctx_ref option \<Rightarrow> ParserWalker" where
  "NewParserWalker ctx = \<lparr>pw_constContext = ctx, pw_crossContext = None, pw_Point = None, pw_Depth = 0,
     pw_Breadcrumb = replicate walkerMaxDepth 0\<rparr>"

definition NewCrossParserWalker :: "ctx_ref option \<Rightarrow> ctx_ref option \<Rightarrow> ParserWalker" where
  "NewCrossParserWalker ctx cross = (NewParserWalker ctx)\<lparr>pw_crossContext := cross\<rparr>"

definition BaseState :: "ctx_store \<Rightarrow> ParserWalker \<Rightarrow> ParserWalker" where
  "BaseState \<kappa> w =
     (let w = w\<lparr>pw_Depth := 0, pw_Breadcrumb := (pw_Breadcrumb w)[0 := 0]\<rparr> in
      case pw_constContext w of
        None \<Rightarrow> w\<lparr>pw_Point := None\<rparr>
      | Some c \<Rightarrow> w\<lparr>pw_Point := pc_BaseState (\<kappa> c)\<rparr>)"

definition IsState :: "ParserWalker \<Rightarrow> bool" where
  "IsState w = (pw_Point w \<noteq> None)"

definition PushOperand :: "state_heap \<Rightarrow> ParserWalker \<Rightarrow> int \<Rightarrow> walker_error + ParserWalker \<times> state_heap" where
  "PushOperand h w i =
     (case pw_Point w of
        None \<Rightarrow> Inl ErrNoActiveState
      | Some p \<Rightarrow>
          if pw_Depth w + 1 \<ge> int (length (pw_Breadcrumb w)) then Inl ErrDepthExceeded
          else case EnsureOperand h p i of
            (None, _) \<Rightarrow> Inl (ErrOperandInvalid i)
          | (Some child, h) \<Rightarrow>
              Inr (w\<lparr>pw_Point := Some child, pw_Depth := pw_Depth w + 1,
                     pw_Breadcrumb := (pw_Breadcrumb w)[nat (pw_Depth w + 1) := i]\<rparr>, h))"

definition PopOperand :: "state_heap \<Rightarrow> ParserWalker \<Rightarrow> ParserWalker" where
  "PopOperand h w =
     (case pw_Point w of
        None \<Rightarrow> w
      | Some p \<Rightarrow> w\<lparr>pw_Point := cs_Parent (hp_state h p), pw_Depth := (if pw_Depth w > 0 then pw_Depth w - 1 else pw_Depth w)\<rparr>)"

definition GetOperand :: "ParserWalker \<Rightarrow> walker_error + int" where
  "GetOperand w =
     (if pw_Depth w < 0 then Inr 0
      else if pw_Depth w \<ge> int (length (pw_Breadcrumb w)) then Inl (ErrBits PanicIndex)
      else Inr (pw_Breadcrumb w ! nat (pw_Depth w)))"

definition GetParentHandle :: "state_heap \<Rightarrow> ParserWalker \<Rightarrow> FixedHandle option" where
  "GetParentHandle h w = map_option (\<lambda>p. cs_Handle (hp_state h p)) (pw_Point w)"

definition GetFixedHandle :: "state_heap \<Rightarrow> ParserWalker \<Rightarrow> int \<Rightarrow> walker_error + FixedHandle" where
  "GetFixedHandle h w i =
     (case pw_Point w of
        None \<Rightarrow> Inl ErrNoActiveState
      | Some p \<Rightarrow> (case Child h p i of
          None \<Rightarrow> Inl (ErrOperandUnavailable i)
        | Some c \<Rightarrow> Inr (cs_Handle (hp_state h c))))"

text \<open>The context a getter of the walker reads: the cross-build context when there is one.\<close>

definition GetCurSpace :: "ctx_store \<Rightarrow> ParserWalker \<Rightarrow> space_ref option" where
  "GetCurSpace \<kappa> w =
     (case pw_crossContext w of
        Some c \<Rightarrow> (case ad_Space (pc_Addr (\<kappa> c)) of
            Some s \<Rightarrow> Some s
          | None \<Rightarrow> (case pw_constContext w of None \<Rightarrow> None | Some d \<Rightarrow> ad_Space (pc_Addr (\<kappa> d))))
      | None \<Rightarrow> (case pw_constContext w of None \<Rightarrow> None | Some d \<Rightarrow> ad_Space (pc_Addr (\<kappa> d))))"

definition GetConstSpace :: "ctx_store \<Rightarrow> ParserWalker \<Rightarrow> space_ref option" where
  "GetConstSpace \<kappa> w =
     (case pw_crossContext w of
        Some c \<Rightarrow> (case pc_ConstSpace (\<kappa> c) of
            Some s \<Rightarrow> Some s
          | None \<Rightarrow> (case pw_constContext w of None \<Rightarrow> None | Some d \<Rightarrow> pc_ConstSpace (\<kappa> d)))
      | None \<Rightarrow> (case pw_constContext w of None \<Rightarrow> None | Some d \<Rightarrow> pc_ConstSpace (\<kappa> d)))"

definition active_context :: "ParserWalker \<Rightarrow> ctx_ref option" where
  "active_context w = (case pw_crossContext w of Some c \<Rightarrow> Some c | None \<Rightarrow> pw_constContext w)"

definition GetAddr :: "ctx_store \<Rightarrow> ParserWalker \<Rightarrow> Address" where
  "GetAddr \<kappa> w = (case active_context w of None \<Rightarrow> invalidAddress | Some c \<Rightarrow> pc_Addr (\<kappa> c))"

definition GetNaddr :: "ctx_store \<Rightarrow> ParserWalker \<Rightarrow> Address" where
  "GetNaddr \<kappa> w = (case active_context w of None \<Rightarrow> invalidAddress | Some c \<Rightarrow> pc_NAddr (\<kappa> c))"

definition Walker_GetN2addr :: "ctx_store \<Rightarrow> ParserWalker \<Rightarrow> Address \<times> ctx_store" where
  "Walker_GetN2addr \<kappa> w =
     (case active_context w of
        None \<Rightarrow> (invalidAddress, \<kappa>)
      | Some c \<Rightarrow> (let (a, ctx) = GetN2addr (\<kappa> c) in (a, \<kappa>(c := ctx))))"

definition GetRefAddr :: "ctx_store \<Rightarrow> ParserWalker \<Rightarrow> Address" where
  "GetRefAddr \<kappa> w = (case active_context w of None \<Rightarrow> invalidAddress | Some c \<Rightarrow> pc_RefAddr (\<kappa> c))"

definition GetDestAddr :: "ctx_store \<Rightarrow> ParserWalker \<Rightarrow> Address" where
  "GetDestAddr \<kappa> w = (case active_context w of None \<Rightarrow> invalidAddress | Some c \<Rightarrow> pc_DestAddr (\<kappa> c))"

definition Walker_GetLength :: "ctx_store \<Rightarrow> state_heap \<Rightarrow> ParserWalker \<Rightarrow> int" where
  "Walker_GetLength \<kappa> h w = (case pw_constContext w of None \<Rightarrow> 0 | Some c \<Rightarrow> ParserContext_GetLength h (\<kappa> c))"

definition findOutOfBandOperandBoundary ::
  "ParserContext option \<Rightarrow> ConstructState \<Rightarrow> int \<Rightarrow> OperandSymbolBoundary option" where
  "findOutOfBandOperandBoundary ctx parent i =
     (case ctx of None \<Rightarrow> None
      | Some ctx \<Rightarrow> FindOperandForConstructor (pc_Symbols ctx) (cs_Constructor parent) i)"

definition outOfBandOperandOffset :: "ParserContext option \<Rightarrow> state_heap \<Rightarrow> state_ref \<Rightarrow> int \<Rightarrow> walker_error + u64" where
  "outOfBandOperandOffset ctx h parent i =
     (let byChild = (case Child h parent i of
          None \<Rightarrow> Inl (ErrOperandUnavailable i) | Some c \<Rightarrow> Inr (cs_Offset (hp_state h c))) in
      case findOutOfBandOperandBoundary ctx (hp_state h parent) i of
        Some operand \<Rightarrow>
          if op_OffsetBase operand < 0 then
            (let offset = i64 (i64_of (cs_Offset (hp_state h parent)) + op_RelativeOffset operand) in
             if offset < 0 then Inl (ErrNegativeOffset i) else Inr (u64_of offset))
          else byChild
      | None \<Rightarrow> byChild)"

text \<open>The walk up the parent pointers; the number of allocated states bounds it.\<close>

fun findAncestor :: "nat \<Rightarrow> state_heap \<Rightarrow> state_ref option \<Rightarrow> state_ref \<Rightarrow> walker_error + state_ref option" where
  "findAncestor fuel h None target = Inr None"
| "findAncestor 0 h (Some cur) target = Inl WalkFuel"
| "findAncestor (Suc k) h (Some cur) target =
     (if cur = target then Inr (Some cur) else findAncestor k h (cs_Parent (hp_state h cur)) target)"

text \<open>
  \<^verbatim>\<open>SetOutOfBandState\<close> fills the temporary state of its caller and points the walker at it; here the
  temporary is a fresh state.
\<close>

definition SetOutOfBandState :: "ctx_store \<Rightarrow> state_heap \<Rightarrow> ParserWalker \<Rightarrow> state_ref option \<Rightarrow> int \<Rightarrow> ParserWalker option
    \<Rightarrow> walker_error + ParserWalker \<times> state_heap" where
  "SetOutOfBandState \<kappa> h w parent i other =
     (case (parent, other) of
        (Some parent, Some other) \<Rightarrow>
          if pw_Point other = None then Inl ErrOutOfBandArgs
          else then_step (findAncestor (hp_next h) h (pw_Point other) parent) (\<lambda>cur.
            case cur of
              None \<Rightarrow> Inl ErrParentNotOnPath
            | Some cur \<Rightarrow>
                then_step (outOfBandOperandOffset (map_option \<kappa> (pw_constContext other)) h cur i) (\<lambda>offset.
                  let (temp, h') = NewConstructState h;
                      h'' = upd_state temp (\<lambda>_. \<lparr>cs_ConstructorID = cs_ConstructorID (hp_state h cur),
                        cs_SectionID = cs_SectionID (hp_state h cur), cs_Constructor = cs_Constructor (hp_state h cur),
                        cs_Handle = zeroHandle, cs_Parent = None, cs_Children = [], cs_OperandIndex = i,
                        cs_Offset = offset, cs_Length = cs_Length (hp_state h cur)\<rparr>) h'
                  in Inr (w\<lparr>pw_Point := Some temp, pw_Depth := 0, pw_Breadcrumb := (pw_Breadcrumb w)[0 := 0]\<rparr>, h'')))
      | _ \<Rightarrow> Inl ErrOutOfBandArgs)"

definition CurrentSection :: "state_heap \<Rightarrow> ParserWalker \<Rightarrow> int option" where
  "CurrentSection h w = (case pw_Point w of None \<Rightarrow> None | Some p \<Rightarrow> SectionValue (Some (hp_state h p)))"

definition SetCurrentSection :: "state_heap \<Rightarrow> ParserWalker \<Rightarrow> int \<Rightarrow> walker_error + state_heap" where
  "SetCurrentSection h w i = (case pw_Point w of None \<Rightarrow> Inl ErrNoActiveState | Some p \<Rightarrow> Inr (SetSectionID p i h))"

definition lift_bits :: "bits_error + 'a \<Rightarrow> walker_error + 'a" where
  "lift_bits r = (case r of Inl e \<Rightarrow> Inl (ErrBits e) | Inr x \<Rightarrow> Inr x)"

definition GetInstructionBytes :: "ctx_store \<Rightarrow> state_heap \<Rightarrow> ParserWalker \<Rightarrow> int \<Rightarrow> int \<Rightarrow> walker_error + u64" where
  "GetInstructionBytes \<kappa> h w byteoff width =
     (case (pw_constContext w, pw_Point w) of
        (Some c, Some p) \<Rightarrow> lift_bits (packWindowBE (pc_InstructionBytes (\<kappa> c))
            (i64 (i64_of (cs_Offset (hp_state h p)) + byteoff)) width)
      | _ \<Rightarrow> Inl ErrNoInstructionState)"

definition GetInstructionBits :: "ctx_store \<Rightarrow> state_heap \<Rightarrow> ParserWalker \<Rightarrow> int \<Rightarrow> int \<Rightarrow> walker_error + u64" where
  "GetInstructionBits \<kappa> h w startBit size0 =
     (case (pw_constContext w, pw_Point w) of
        (Some c, Some p) \<Rightarrow> lift_bits (packBitsBE (pc_InstructionBytes (\<kappa> c))
            (i64_of (cs_Offset (hp_state h p))) startBit size0)
      | _ \<Rightarrow> Inl ErrNoInstructionState)"

definition GetContextBytes :: "ctx_store \<Rightarrow> ParserWalker \<Rightarrow> int \<Rightarrow> int \<Rightarrow> walker_error + u64" where
  "GetContextBytes \<kappa> w byteoff width =
     (case pw_constContext w of
        Some c \<Rightarrow> lift_bits (packContextBytesBE (pc_ContextWords (\<kappa> c)) byteoff width)
      | None \<Rightarrow> Inl ErrNoContext)"

definition GetContextBits :: "ctx_store \<Rightarrow> ParserWalker \<Rightarrow> int \<Rightarrow> int \<Rightarrow> walker_error + u64" where
  "GetContextBits \<kappa> w startBit size0 =
     (case pw_constContext w of
        Some c \<Rightarrow> lift_bits (packContextBitsBE (pc_ContextWords (\<kappa> c)) startBit size0)
      | None \<Rightarrow> Inl ErrNoContext)"

section \<open>The mutation walker\<close>

record ParserWalkerChange =
  ch_Walker :: "ParserWalker option"
  ch_commitReservations :: "(ContextCommitBoundary \<times> state_ref) list"

definition NewParserWalkerChange :: "ParserWalker option \<Rightarrow> ParserWalkerChange" where
  "NewParserWalkerChange w = \<lparr>ch_Walker = w, ch_commitReservations = []\<rparr>"

definition DeallocateState :: "ctx_store \<Rightarrow> ParserWalkerChange \<Rightarrow> walker_error + ParserWalkerChange" where
  "DeallocateState \<kappa> c =
     (case ch_Walker c of None \<Rightarrow> Inl ErrNoChange | Some w \<Rightarrow> Inr (c\<lparr>ch_Walker := Some (BaseState \<kappa> w)\<rparr>))"

text \<open>The state the mutation walker stands on.\<close>

definition change_point :: "ParserWalkerChange \<Rightarrow> (ParserWalker \<times> state_ref) option" where
  "change_point c = (case ch_Walker c of None \<Rightarrow> None
     | Some w \<Rightarrow> (case pw_Point w of None \<Rightarrow> None | Some p \<Rightarrow> Some (w, p)))"

definition AllocateOperand :: "state_heap \<Rightarrow> ParserWalkerChange \<Rightarrow> int
    \<Rightarrow> walker_error + state_ref option \<times> ParserWalkerChange \<times> state_heap" where
  "AllocateOperand h c i =
     (case change_point c of
        None \<Rightarrow> Inl ErrNoChange
      | Some (w, _) \<Rightarrow> then_step (PushOperand h w i) (\<lambda>(w, h). Inr (pw_Point w, c\<lparr>ch_Walker := Some w\<rparr>, h)))"

definition SetOffset :: "state_heap \<Rightarrow> ParserWalkerChange \<Rightarrow> u64 \<Rightarrow> walker_error + state_heap" where
  "SetOffset h c offset =
     (case change_point c of
        None \<Rightarrow> Inl ErrNoChange
      | Some (_, p) \<Rightarrow> Inr (upd_state p (\<lambda>s. s\<lparr>cs_Offset := offset\<rparr>) h))"

definition SetConstructor :: "state_heap \<Rightarrow> ParserWalkerChange \<Rightarrow> ConstructorBoundary \<Rightarrow> walker_error + state_heap" where
  "SetConstructor h c constructor =
     (case change_point c of
        None \<Rightarrow> Inl ErrNoChange
      | Some (_, p) \<Rightarrow> Inr (upd_state p (\<lambda>s. s\<lparr>cs_ConstructorID := cn_ConstructorID constructor\<rparr>)
          (ConstructState_SetConstructor p constructor h)))"

definition SetCurrentLength :: "state_heap \<Rightarrow> ParserWalkerChange \<Rightarrow> int \<Rightarrow> walker_error + state_heap" where
  "SetCurrentLength h c len =
     (case change_point c of
        None \<Rightarrow> Inl ErrNoChange
      | Some (_, p) \<Rightarrow> Inr (upd_state p (\<lambda>s. s\<lparr>cs_Length := len\<rparr>) h))"

text \<open>The recursion over the tree of states; its depth is bounded by the number of states.\<close>

fun currentStateEnd :: "nat \<Rightarrow> state_heap \<Rightarrow> state_ref option \<Rightarrow> walker_error + u64" where
  "currentStateEnd fuel h None = Inr 0"
| "currentStateEnd 0 h (Some s) = Inl WalkFuel"
| "currentStateEnd (Suc k) h (Some s) =
     loop_step (\<lambda>e child. then_step (currentStateEnd k h child) (\<lambda>childEnd. Inr (if childEnd > e then childEnd else e)))
       (cs_Offset (hp_state h s) + u64_of (cs_Length (hp_state h s))) (cs_Children (hp_state h s))"

definition CalcCurrentLength :: "state_heap \<Rightarrow> ParserWalkerChange \<Rightarrow> walker_error + int" where
  "CalcCurrentLength h c =
     (case change_point c of
        None \<Rightarrow> Inl ErrNoChange
      | Some (_, p) \<Rightarrow> then_step (currentStateEnd (hp_next h) h (Some p)) (\<lambda>e.
          if e < cs_Offset (hp_state h p) then Inl ErrLengthState
          else Inr (i64_of (e - cs_Offset (hp_state h p)))))"

definition ReserveCommit :: "ParserWalkerChange \<Rightarrow> ContextCommitBoundary \<Rightarrow> ParserWalkerChange" where
  "ReserveCommit c commit =
     (case change_point c of None \<Rightarrow> c
      | Some (_, p) \<Rightarrow> c\<lparr>ch_commitReservations := ch_commitReservations c @ [(commit, p)]\<rparr>)"

definition ApplyCommitReservations :: "ParserWalkerChange \<Rightarrow> ParserContext \<Rightarrow> walker_error + ParserContext" where
  "ApplyCommitReservations c ctx = loop_step (\<lambda>ctx (commit, p). AddCommit ctx commit p) ctx (ch_commitReservations c)"

definition CommitReservations :: "ParserWalkerChange \<Rightarrow> ContextCommitBoundary list" where
  "CommitReservations c = map fst (ch_commitReservations c)"

definition ClearCommitReservations :: "ParserWalkerChange \<Rightarrow> ParserWalkerChange" where
  "ClearCommitReservations c = c\<lparr>ch_commitReservations := []\<rparr>"

end
