(* ===== verification/Sla_WalkerLaws.thy ===== *)
theory Sla_WalkerLaws
  imports Sla_Walker
begin

text \<open>
  The shape of the state heap and what the walker keeps of it: parents and children point at each
  other, references grow along the tree, and the breadcrumb trail leads from the start of the walk
  to the current state.
\<close>

section \<open>The heap\<close>

definition links_ok :: "state_heap \<Rightarrow> state_ref \<Rightarrow> bool" where
  "links_ok h s \<longleftrightarrow> (\<forall>p. cs_Parent (hp_state h s) = Some p \<longrightarrow> p < s)
     \<and> (\<forall>i c. Child h s i = Some c \<longrightarrow> s < c \<and> c < hp_next h
          \<and> cs_Parent (hp_state h c) = Some s \<and> cs_OperandIndex (hp_state h c) = i)"

definition heap_ok :: "state_heap \<Rightarrow> bool" where
  "heap_ok h \<longleftrightarrow> (\<forall>s<hp_next h. links_ok h s)"

lemma heap_okD:
  assumes "heap_ok h" "s < hp_next h"
  shows "cs_Parent (hp_state h s) = Some p \<Longrightarrow> p < s"
    "Child h s i = Some c \<Longrightarrow> s < c \<and> c < hp_next h \<and> cs_Parent (hp_state h c) = Some s \<and> cs_OperandIndex (hp_state h c) = i"
  using assms unfolding heap_ok_def links_ok_def by blast+

text \<open>Writes that leave the links alone.\<close>

definition keeps_links :: "(ConstructState \<Rightarrow> ConstructState) \<Rightarrow> bool" where
  "keeps_links f \<longleftrightarrow> (\<forall>c. cs_Parent (f c) = cs_Parent c \<and> cs_Children (f c) = cs_Children c \<and> cs_OperandIndex (f c) = cs_OperandIndex c)"

lemma upd_state_simps [simp]:
  "hp_next (upd_state s f h) = hp_next h"
  "hp_state (upd_state s f h) t = (if t = s then f (hp_state h s) else hp_state h t)"
  by (simp_all add: upd_state_def)

lemma upd_state_links:
  assumes "keeps_links f"
  shows "Child (upd_state s f h) t i = Child h t i" "cs_Parent (hp_state (upd_state s f h) t) = cs_Parent (hp_state h t)"
    "heap_ok (upd_state s f h) = heap_ok h"
proof -
  have f: "cs_Parent (f c) = cs_Parent c" "cs_Children (f c) = cs_Children c" "cs_OperandIndex (f c) = cs_OperandIndex c" for c
    using assms by (simp_all add: keeps_links_def)
  show ch: "Child (upd_state s f h) t i = Child h t i" for t i by (simp add: Child_def f)
  show pa: "cs_Parent (hp_state (upd_state s f h) t) = cs_Parent (hp_state h t)" for t by (simp add: f)
  have "cs_OperandIndex (hp_state (upd_state s f h) t) = cs_OperandIndex (hp_state h t)" for t by (simp add: f)
  then show "heap_ok (upd_state s f h) = heap_ok h"
    unfolding heap_ok_def links_ok_def ch pa by (simp only: upd_state_simps(1))
qed

lemma NewConstructState_ok:
  assumes "heap_ok h" "NewConstructState h = (s, h')"
  shows "heap_ok h' \<and> s = hp_next h \<and> hp_next h' = Suc s \<and> (\<forall>t<hp_next h. hp_state h' t = hp_state h t)"
proof -
  have h': "s = hp_next h" "hp_next h' = Suc s" "hp_state h' = (hp_state h)(s := emptyState)"
    using assms(2) by (auto simp: NewConstructState_def)
  have "links_ok h' t" if t: "t < hp_next h'" for t
  proof (cases "t = s")
    case True
    have "Child h' s i = None" for i using h'(3) by (auto simp: Child_def emptyState_def)
    then show ?thesis using True h'(3) by (simp add: links_ok_def emptyState_def)
  next
    case False
    with t h' have "t < hp_next h" by simp
    note t = heap_okD [OF assms(1) this]
    have same: "hp_state h' u = hp_state h u" if "u < s" for u using that h'(3) by simp
    have "Child h' t i = Child h t i" for i using \<open>t < hp_next h\<close> h'(1) by (simp add: Child_def same)
    then show ?thesis using t \<open>t < hp_next h\<close> h'(1,2) by (auto simp: links_ok_def same intro: less_SucI)
  qed
  then show ?thesis using h' by (simp add: heap_ok_def)
qed

lemma Child_grow:
  "hp_state h' s = (hp_state h s)\<lparr>cs_Children := growChildren n (cs_Children (hp_state h s))\<rparr> \<Longrightarrow> Child h' s i = Child h s i"
  by (auto simp: Child_def growChildren_def nth_append)

text \<open>\<^verbatim>\<open>EnsureOperand\<close> keeps the shape, every existing link and every state.\<close>

lemma EnsureOperand_ok:
  assumes ok: "heap_ok h" and s: "s < hp_next h" and i: "0 \<le> i"
  obtains c h' where "EnsureOperand h s i = (Some c, h')" "heap_ok h'" "hp_next h \<le> hp_next h'" "c < hp_next h'"
    "Child h' s i = Some c" "\<And>t j d. t < hp_next h \<Longrightarrow> Child h t j = Some d \<Longrightarrow> Child h' t j = Some d"
    "\<And>t. t < hp_next h \<Longrightarrow> cs_Parent (hp_state h' t) = cs_Parent (hp_state h t)"
proof -
  define h1 where "h1 = upd_state s (\<lambda>c. c\<lparr>cs_Children := growChildren (nat i) (cs_Children c)\<rparr>) h"
  have len: "nat i < length (cs_Children (hp_state h1 s))" by (simp add: h1_def growChildren_def)
  have ch1: "Child h1 t j = Child h t j" for t j
    by (cases "t = s") (simp_all add: h1_def Child_grow [where h = h] Child_def [of _ t])
  have pa1: "cs_Parent (hp_state h1 t) = cs_Parent (hp_state h t)" "cs_OperandIndex (hp_state h1 t) = cs_OperandIndex (hp_state h t)"
    "hp_next h1 = hp_next h" for t by (simp_all add: h1_def)
  have ok1: "heap_ok h1" using ok unfolding heap_ok_def links_ok_def ch1 pa1 .
  show thesis
  proof (cases "cs_Children (hp_state h1 s) ! nat i")
    case (Some c)
    then have c: "Child h1 s i = Some c" using len i by (simp add: Child_def)
    have "EnsureOperand h s i = (Some c, h1)" using i Some by (simp add: EnsureOperand_def h1_def [symmetric] Let_def)
    then show thesis using that [of c h1] c ok1 heap_okD(2) [OF ok1 _ c] s pa1 ch1 by simp
  next
    case None
    define c where "c = hp_next h"
    define h2 where "h2 = \<lparr>hp_state = (hp_state h1)(c := emptyState), hp_next = Suc c\<rparr>"
    have n: "NewConstructState h1 = (c, h2)" by (simp add: NewConstructState_def h2_def c_def pa1)
    define h3 where "h3 = upd_state c (\<lambda>x. x\<lparr>cs_Parent := Some s, cs_OperandIndex := i\<rparr>) h2"
    define h4 where "h4 = upd_state s (\<lambda>x. x\<lparr>cs_Children := (cs_Children x)[nat i := Some c]\<rparr>) h3"
    have eq: "EnsureOperand h s i = (Some c, h4)"
      using i None n by (simp add: EnsureOperand_def h1_def [symmetric] Let_def h3_def h4_def)
    have sc: "s \<noteq> c" using s by (simp add: c_def)
    have st: "hp_state h4 t = (if t = c then emptyState\<lparr>cs_Parent := Some s, cs_OperandIndex := i\<rparr>
        else if t = s then (hp_state h1 s)\<lparr>cs_Children := (cs_Children (hp_state h1 s))[nat i := Some c]\<rparr> else hp_state h1 t)" for t
      using sc by (simp add: h4_def h3_def h2_def)
    have nx: "hp_next h4 = Suc c" by (simp add: h4_def h3_def h2_def)
    have ch: "Child h4 t j = (if t = c then None else if t = s \<and> j = i then Some c else Child h1 t j)" for t j
      using len i sc by (auto simp: Child_def st emptyState_def nth_list_update)
    have "links_ok h4 t" if "t < hp_next h4" for t
    proof (cases "t = c")
      case True
      then show ?thesis using s by (simp add: links_ok_def ch st c_def)
    next
      case False
      with that nx have t: "t < hp_next h1" by (simp add: c_def pa1)
      have "links_ok h1 t" using ok1 t by (simp add: heap_ok_def)
      moreover have "Child h1 t j \<noteq> Some c" for j using heap_okD(2) [OF ok1 t, of j c] by (auto simp: c_def pa1)
      ultimately show ?thesis using False sc t nx by (auto simp: links_ok_def ch st c_def pa1 intro: less_SucI)
    qed
    then have "heap_ok h4" by (simp add: heap_ok_def)
    moreover have "Child h1 s i = None" using None len i by (simp add: Child_def)
    ultimately show thesis
      using eq nx s by (intro that [of c h4]) (auto simp: ch ch1 st pa1 c_def)
  qed
qed

section \<open>The walk\<close>

text \<open>Following operand indices down from a state.\<close>

fun walk :: "state_heap \<Rightarrow> state_ref \<Rightarrow> int list \<Rightarrow> state_ref option" where
  "walk h s [] = Some s"
| "walk h s (i # is) = (case Child h s i of None \<Rightarrow> None | Some c \<Rightarrow> walk h c is)"

definition trail :: "ParserWalker \<Rightarrow> int list" where
  "trail w = take (nat (pw_Depth w)) (drop 1 (pw_Breadcrumb w))"

definition walker_ok :: "state_ref \<Rightarrow> state_heap \<Rightarrow> ParserWalker \<Rightarrow> bool" where
  "walker_ok base h w \<longleftrightarrow> heap_ok h \<and> base < hp_next h \<and> length (pw_Breadcrumb w) = walkerMaxDepth
     \<and> 0 \<le> pw_Depth w \<and> pw_Depth w < int walkerMaxDepth
     \<and> (\<exists>p. pw_Point w = Some p \<and> walk h base (trail w) = Some p)"

lemma walk_append: "walk h s (xs @ ys) = (case walk h s xs of None \<Rightarrow> None | Some t \<Rightarrow> walk h t ys)"
  by (induction h s xs rule: walk.induct) (auto split: option.splits)

lemma walk_valid: "heap_ok h \<Longrightarrow> s < hp_next h \<Longrightarrow> walk h s xs = Some t \<Longrightarrow> t < hp_next h"
  by (induction h s xs rule: walk.induct) (auto split: option.splits dest: heap_okD(2))

lemma walk_mono:
  assumes "heap_ok h" "\<And>t j d. t < hp_next h \<Longrightarrow> Child h t j = Some d \<Longrightarrow> Child h' t j = Some d"
  shows "s < hp_next h \<Longrightarrow> walk h s xs = Some t \<Longrightarrow> walk h' s xs = Some t"
proof (induction xs arbitrary: s)
  case (Cons i xs)
  then obtain c where c: "Child h s i = Some c" "walk h c xs = Some t" by (auto split: option.splits)
  then show ?case using Cons assms(2) heap_okD(2) [OF assms(1) Cons.prems(1) c(1)] by simp
qed simp

lemma trail_push:
  assumes "length (pw_Breadcrumb w) = walkerMaxDepth" "0 \<le> pw_Depth w" "pw_Depth w + 1 < int walkerMaxDepth"
    "pw_Depth w' = pw_Depth w + 1" "pw_Breadcrumb w' = (pw_Breadcrumb w)[nat (pw_Depth w + 1) := i]"
  shows "trail w' = trail w @ [i]"
proof -
  obtain d where d: "pw_Depth w = int d" using assms(2) nonneg_int_cases by blast
  have "nat (int d + 1) = Suc d" by simp
  then show ?thesis using assms d
    by (cases "pw_Breadcrumb w") (simp_all add: trail_def take_Suc_conv_app_nth take_update_cancel)
qed

lemma trail_pop:
  assumes "length (pw_Breadcrumb w) = walkerMaxDepth" "0 < pw_Depth w" "pw_Depth w < int walkerMaxDepth"
    "pw_Depth w' = pw_Depth w - 1" "pw_Breadcrumb w' = pw_Breadcrumb w"
  shows "trail w = trail w' @ [pw_Breadcrumb w ! nat (pw_Depth w)]"
proof -
  obtain d where d: "pw_Depth w = int (Suc d)" using assms(2) pos_int_cases gr0_conv_Suc by metis
  have "nat (1 + int d) = Suc d" by simp
  with d show ?thesis using assms
    by (cases "pw_Breadcrumb w") (simp_all add: trail_def take_Suc_conv_app_nth)
qed

lemma PushOperand_ok:
  assumes ok: "walker_ok base h w" and push: "PushOperand h w i = Inr (w', h')"
  shows "walker_ok base h' w' \<and> trail w' = trail w @ [i] \<and> PopOperand h' w' = w\<lparr>pw_Breadcrumb := pw_Breadcrumb w'\<rparr>
    \<and> (\<forall>xs t. walk h base xs = Some t \<longrightarrow> walk h' base xs = Some t)"
proof -
  obtain p where p: "pw_Point w = Some p" "walk h base (trail w) = Some p" "p < hp_next h"
    using ok walk_valid by (auto simp: walker_ok_def)
  have w: "heap_ok h" "base < hp_next h" "length (pw_Breadcrumb w) = walkerMaxDepth" "0 \<le> pw_Depth w"
    using ok by (auto simp: walker_ok_def)
  have depth: "pw_Depth w + 1 < int walkerMaxDepth" and i: "0 \<le> i"
    using push p(1) w(3) by (auto simp: PushOperand_def EnsureOperand_def not_le split: if_splits prod.splits option.splits)
  obtain c h1 where e: "EnsureOperand h p i = (Some c, h1)" "heap_ok h1" "hp_next h \<le> hp_next h1" "c < hp_next h1"
      "Child h1 p i = Some c" "\<And>t j d. t < hp_next h \<Longrightarrow> Child h t j = Some d \<Longrightarrow> Child h1 t j = Some d"
    using EnsureOperand_ok [OF w(1) p(3) i] by metis
  have h': "h' = h1" and w': "w' = w\<lparr>pw_Point := Some c, pw_Depth := pw_Depth w + 1,
      pw_Breadcrumb := (pw_Breadcrumb w)[nat (pw_Depth w + 1) := i]\<rparr>"
    using push p(1) depth w(3) e(1) by (auto simp: PushOperand_def)
  have tr: "trail w' = trail w @ [i]" using trail_push [OF w(3,4) depth] w' by simp
  have mono: "walk h' base xs = Some t" if "walk h base xs = Some t" for xs t
    unfolding h' by (rule walk_mono [OF w(1) e(6) w(2) that])
  have "walk h' base (trail w') = Some c" unfolding tr walk_append mono [OF p(2)] using e(5) h' by simp
  then have "walker_ok base h' w'" using e(2,3) w depth w' h' by (auto simp: walker_ok_def)
  moreover have "cs_Parent (hp_state h' c) = Some p" using heap_okD(2) [OF e(2) _ e(5)] p(3) e(3) h' by simp
  then have "PopOperand h' w' = w\<lparr>pw_Breadcrumb := pw_Breadcrumb w'\<rparr>"
    using w' w(4) p(1) by (cases w) (simp add: PopOperand_def)
  ultimately show ?thesis using tr mono by blast
qed

text \<open>A push keeps the parents and the constructors of the states that were there.\<close>

lemma EnsureOperand_keeps:
  assumes "heap_ok h" "s < hp_next h" "EnsureOperand h s i = (Some c, h')"
  shows "hp_next h \<le> hp_next h' \<and> (\<forall>t<hp_next h. cs_Constructor (hp_state h' t) = cs_Constructor (hp_state h t) \<and>
    cs_Parent (hp_state h' t) = cs_Parent (hp_state h t))"
  using assms by (auto simp: EnsureOperand_def NewConstructState_def Let_def split: if_split_asm option.split_asm)

lemma PushOperand_keeps:
  assumes "walker_ok base h w" "PushOperand h w i = Inr (w', h')"
  shows "hp_next h \<le> hp_next h' \<and> (\<forall>t<hp_next h. cs_Constructor (hp_state h' t) = cs_Constructor (hp_state h t) \<and>
    cs_Parent (hp_state h' t) = cs_Parent (hp_state h t))"
proof -
  obtain p where p: "pw_Point w = Some p" "walk h base (trail w) = Some p" "heap_ok h" "base < hp_next h"
    using assms(1) by (auto simp: walker_ok_def)
  obtain c where "EnsureOperand h p i = (Some c, h')"
    using assms(2) p(1) by (auto simp: PushOperand_def split: option.split_asm if_split_asm prod.split_asm)
  with EnsureOperand_keeps [OF p(3) walk_valid [OF p(3,4,2)]] show ?thesis by blast
qed

lemma PopOperand_ok:
  assumes ok: "walker_ok base h w" and d: "0 < pw_Depth w"
  shows "walker_ok base h (PopOperand h w)" "trail w = trail (PopOperand h w) @ [pw_Breadcrumb w ! nat (pw_Depth w)]"
proof -
  obtain p where p: "pw_Point w = Some p" "walk h base (trail w) = Some p" using ok by (auto simp: walker_ok_def)
  have pop: "PopOperand h w = w\<lparr>pw_Point := cs_Parent (hp_state h p), pw_Depth := pw_Depth w - 1\<rparr>"
    using p(1) d by (simp add: PopOperand_def)
  show tr: "trail w = trail (PopOperand h w) @ [pw_Breadcrumb w ! nat (pw_Depth w)]"
    using ok d pop by (intro trail_pop) (simp_all add: walker_ok_def)
  then obtain q where q: "walk h base (trail (PopOperand h w)) = Some q" "Child h q (pw_Breadcrumb w ! nat (pw_Depth w)) = Some p"
    using p(2) by (auto simp: walk_append split: option.splits)
  have "q < hp_next h" using q(1) ok walk_valid by (auto simp: walker_ok_def)
  then have "cs_Parent (hp_state h p) = Some q" using heap_okD(2) [OF _ _ q(2)] ok by (simp add: walker_ok_def)
  then show "walker_ok base h (PopOperand h w)"
    using ok d q(1) by (auto simp: walker_ok_def pop)
qed

text \<open>Writes to the current state through the mutation walker keep the shape.\<close>

lemma upd_state_walker_ok: "keeps_links f \<Longrightarrow> walker_ok base (upd_state s f h) w = walker_ok base h w"
proof -
  assume f: "keeps_links f"
  have "walk (upd_state s f h) t xs = walk h t xs" for t xs
    by (induction xs arbitrary: t) (simp_all add: upd_state_links(1) [OF f] split: option.splits)
  then show ?thesis by (simp add: walker_ok_def upd_state_links(3) [OF f])
qed

section \<open>The walk as a state machine\<close>

text \<open>
  The moves of a walker, and the writes \<^verbatim>\<open>ParserWalkerChange\<close> makes to the current state (\<open>c\<close> wraps the
  walker). A pop below the start of the walk would leave the tree and is no step.
\<close>

inductive walker_step :: "state_heap \<times> ParserWalker \<Rightarrow> state_heap \<times> ParserWalker \<Rightarrow> bool" where
  push: "PushOperand h w i = Inr (w', h') \<Longrightarrow> walker_step (h, w) (h', w')"
| pop: "0 < pw_Depth w \<Longrightarrow> walker_step (h, w) (h, PopOperand h w)"
| offset: "SetOffset h (NewParserWalkerChange (Some w)) off = Inr h' \<Longrightarrow> walker_step (h, w) (h', w)"
| constructor: "SetConstructor h (NewParserWalkerChange (Some w)) c = Inr h' \<Longrightarrow> walker_step (h, w) (h', w)"
| len: "SetCurrentLength h (NewParserWalkerChange (Some w)) n = Inr h' \<Longrightarrow> walker_step (h, w) (h', w)"
| section_id: "SetCurrentSection h w n = Inr h' \<Longrightarrow> walker_step (h, w) (h', w)"

inductive walker_reach :: "state_heap \<times> ParserWalker \<Rightarrow> state_heap \<times> ParserWalker \<Rightarrow> bool" for x where
  refl: "walker_reach x x"
| step: "walker_reach x y \<Longrightarrow> walker_step y z \<Longrightarrow> walker_reach x z"

lemmas change_defs = NewParserWalkerChange_def change_point_def SetOffset_def SetConstructor_def SetCurrentLength_def
  SetCurrentSection_def SetSectionID_def ConstructState_SetConstructor_def

lemma walker_step_ok:
  assumes "walker_step (h, w) (h', w')" "walker_ok base h w"
  shows "walker_ok base h' w'"
  using assms(1)
proof cases
  case push
  then show ?thesis using PushOperand_ok [OF assms(2)] by blast
next
  case pop
  then show ?thesis using PopOperand_ok(1) [OF assms(2)] by simp
next
  case (offset off)
  then show ?thesis using assms(2)
    by (auto simp: change_defs keeps_links_def upd_state_walker_ok split: option.splits)
next
  case (constructor c)
  then show ?thesis using assms(2)
    by (auto simp: change_defs keeps_links_def upd_state_walker_ok split: option.splits)
next
  case (len n)
  then show ?thesis using assms(2)
    by (auto simp: change_defs keeps_links_def upd_state_walker_ok split: option.splits)
next
  case (section_id n)
  then show ?thesis using assms(2)
    by (auto simp: change_defs keeps_links_def upd_state_walker_ok split: option.splits)
qed

lemma walker_reach_ok: "walker_reach (h, w) y \<Longrightarrow> walker_ok base h w \<Longrightarrow> walker_ok base (fst y) (snd y)"
  by (induction y rule: walker_reach.induct) (auto intro: walker_step_ok simp: split_paired_all)



section \<open>Walking up and measuring\<close>

text \<open>On a well-formed heap the walk up ends: a parent has a smaller reference than its child.\<close>

lemma findAncestor_ends:
  assumes "heap_ok h"
  shows "\<lbrakk>\<And>s. cur = Some s \<Longrightarrow> s < fuel; fuel \<le> hp_next h\<rbrakk> \<Longrightarrow> \<exists>r. findAncestor fuel h cur target = Inr r \<and> (r = None \<or> r = Some target)"
proof (induction fuel arbitrary: cur)
  case (Suc k)
  show ?case
  proof (cases cur)
    case (Some s)
    then have "s < hp_next h" using Suc.prems by simp
    then have "p < k" if "cs_Parent (hp_state h s) = Some p" for p
      using heap_okD(1) [OF assms _ that] Suc.prems(1) [OF Some] by simp
    then show ?thesis using Suc.IH [of "cs_Parent (hp_state h s)"] Suc.prems(2) Some by auto
  qed simp
next
  case 0
  then show ?case by (cases cur) auto
qed

text \<open>The states below a state, and the end of the bytes a state covers.\<close>

inductive below :: "state_heap \<Rightarrow> state_ref \<Rightarrow> state_ref \<Rightarrow> bool" for h where
  here: "below h s s"
| down: "Child h s i = Some c \<Longrightarrow> below h c t \<Longrightarrow> below h s t"

definition state_end :: "state_heap \<Rightarrow> state_ref \<Rightarrow> u64" where
  "state_end h s = cs_Offset (hp_state h s) + u64_of (cs_Length (hp_state h s))"

lemma children_Child:
  assumes "Some c \<in> set (cs_Children (hp_state h s))"
  obtains i where "Child h s i = Some c"
proof -
  obtain n where "n < length (cs_Children (hp_state h s))" "cs_Children (hp_state h s) ! n = Some c"
    using assms by (metis in_set_conv_nth)
  then have "Child h s (int n) = Some c" by (simp add: Child_def)
  then show thesis using that by blast
qed

lemma Child_children: "Child h s i = Some c \<Longrightarrow> Some c \<in> set (cs_Children (hp_state h s))"
  by (auto simp: Child_def split: if_splits) (metis nth_mem nat_less_iff not_le)

text \<open>The loop over the children takes the maximum of what they give.\<close>

lemma max_loop:
  fixes f :: "'a \<Rightarrow> 'e + u64"
  assumes "\<And>c. c \<in> set cs \<Longrightarrow> \<exists>v. f c = Inr v"
  shows "\<exists>m. loop_step (\<lambda>e c. then_step (f c) (\<lambda>v. Inr (if v > e then v else e))) e cs = Inr m
    \<and> e \<le> m \<and> (\<forall>c v. c \<in> set cs \<longrightarrow> f c = Inr v \<longrightarrow> v \<le> m) \<and> (m = e \<or> (\<exists>c\<in>set cs. f c = Inr m))"
  using assms
proof (induction cs arbitrary: e)
  case (Cons c cs)
  obtain v where v: "f c = Inr v" using Cons.prems by (meson list.set_intros(1))
  define e' where "e' = (if v > e then v else e)"
  obtain m where "loop_step (\<lambda>e c. then_step (f c) (\<lambda>v. Inr (if v > e then v else e))) e' cs = Inr m"
      "e' \<le> m" "\<forall>c v. c \<in> set cs \<longrightarrow> f c = Inr v \<longrightarrow> v \<le> m" "m = e' \<or> (\<exists>c\<in>set cs. f c = Inr m)"
    using Cons.IH [of e'] Cons.prems by auto
  then show ?case using v by (intro exI [of _ m]) (auto simp: e'_def split: if_splits)
qed simp

lemma currentStateEnd_max:
  assumes "heap_ok h"
  shows "\<lbrakk>s < hp_next h; hp_next h \<le> s + fuel\<rbrakk> \<Longrightarrow> \<exists>e. currentStateEnd fuel h (Some s) = Inr e
    \<and> (\<forall>t. below h s t \<longrightarrow> state_end h t \<le> e) \<and> (\<exists>t. below h s t \<and> e = state_end h t)"
proof (induction fuel arbitrary: s)
  case (Suc k)
  have child: "\<exists>e. currentStateEnd k h (Some c) = Inr e \<and> (\<forall>t. below h c t \<longrightarrow> state_end h t \<le> e) \<and> (\<exists>t. below h c t \<and> e = state_end h t)"
    if "Child h s i = Some c" for i c
    using Suc.IH [of c] Suc.prems heap_okD(2) [OF assms Suc.prems(1) that] by simp
  have total: "\<exists>v. currentStateEnd k h c = Inr v" if c: "c \<in> set (cs_Children (hp_state h s))" for c
  proof (cases c)
    case (Some d)
    then obtain i where "Child h s i = Some d" using c children_Child by metis
    then show ?thesis using child Some by blast
  qed simp
  obtain m where m: "currentStateEnd (Suc k) h (Some s) = Inr m" "state_end h s \<le> m"
      "\<And>c v. c \<in> set (cs_Children (hp_state h s)) \<Longrightarrow> currentStateEnd k h c = Inr v \<Longrightarrow> v \<le> m"
      "m = state_end h s \<or> (\<exists>c\<in>set (cs_Children (hp_state h s)). currentStateEnd k h c = Inr m)"
    using max_loop [of "cs_Children (hp_state h s)" "currentStateEnd k h" "state_end h s", OF total]
    by (auto simp: state_end_def)
  have "state_end h t \<le> m" if "below h s t" for t
    using that
  proof cases
    case (down i c)
    then show ?thesis using child [OF down(1)] m(3) [OF Child_children [OF down(1)]] by force
  qed (use m(2) in simp)
  moreover have "\<exists>t. below h s t \<and> m = state_end h t"
  proof (cases "m = state_end h s")
    case False
    then obtain c where c: "c \<in> set (cs_Children (hp_state h s))" "currentStateEnd k h c = Inr m" using m(4) by blast
    show ?thesis
    proof (cases c)
      case None
      then have "m = 0" using c(2) by simp
      then have "m = state_end h s" using m(2) by simp
      with False show ?thesis by simp
    next
      case (Some d)
      then obtain i where i: "Child h s i = Some d" using c(1) children_Child by metis
      then show ?thesis using child [OF i] c(2) Some below.down [OF i] by force
    qed
  qed (use below.here in blast)
  ultimately show ?case using m(1) by blast
qed simp

text \<open>
  C24: on a well-formed heap \<^verbatim>\<open>CalcCurrentLength\<close> ends, and the length it returns is the distance from
  the offset of the current state to the furthest end of any state in its subtree.
\<close>

theorem CalcCurrentLength_covers:
  assumes "heap_ok h" "change_point c = Some (w, p)" "p < hp_next h"
  shows "\<exists>e. (\<forall>t. below h p t \<longrightarrow> state_end h t \<le> e) \<and> (\<exists>t. below h p t \<and> e = state_end h t)
    \<and> CalcCurrentLength h c = (if e < cs_Offset (hp_state h p) then Inl ErrLengthState
        else Inr (i64_of (e - cs_Offset (hp_state h p))))"
  using currentStateEnd_max [OF assms(1,3), of "hp_next h"] assms(2)
  by (auto simp: CalcCurrentLength_def)

theorem CalcCurrentLength_covers_witness:
  "\<exists>e. CalcCurrentLength \<lparr>hp_state = \<lambda>_. emptyState\<lparr>cs_Offset := 2, cs_Length := 3\<rparr>, hp_next = 1\<rparr>
     \<lparr>ch_Walker = Some ((NewParserWalker None)\<lparr>pw_Point := Some 0\<rparr>), ch_commitReservations = []\<rparr> = Inr e"
proof -
  let ?h = "\<lparr>hp_state = \<lambda>_. emptyState\<lparr>cs_Offset := 2, cs_Length := 3\<rparr>, hp_next = 1\<rparr>"
  let ?c = "\<lparr>ch_Walker = Some ((NewParserWalker None)\<lparr>pw_Point := Some 0\<rparr>), ch_commitReservations = []\<rparr>"
  have h: "heap_ok ?h" by (auto simp: heap_ok_def links_ok_def Child_def emptyState_def)
  have c: "change_point ?c = Some ((NewParserWalker None)\<lparr>pw_Point := Some 0\<rparr>, 0)" by (simp add: change_point_def)
  have "state_end ?h 0 = 5" by (simp add: state_end_def emptyState_def u64_of_def)
  moreover have "below ?h 0 0" by (rule below.here)
  ultimately have "5 \<le> e" if "\<forall>t. below ?h 0 t \<longrightarrow> state_end ?h t \<le> e" for e :: u64 using that by metis
  moreover have "(2 :: u64) < 5" by simp
  ultimately have "\<not> e < 2" if "\<forall>t. below ?h 0 t \<longrightarrow> state_end ?h t \<le> e" for e :: u64
    using that by (meson leD order_less_le_trans order_less_asym)
  then show ?thesis using CalcCurrentLength_covers [OF h c] by (auto simp: emptyState_def)
qed

end
