(* ===== verification/Sla_Decision.thy ===== *)
theory Sla_Decision
  imports Sla_Walker
begin

text \<open>
  The two resolvers of a subtable's decision tree: \<^verbatim>\<open>pkg/sla/decision_resolve.go\<close>, which reads the
  instruction and the context through a parser walker, and the one at the end of \<^verbatim>\<open>translate.go\<close>,
  which reads them from byte slices. Both choose a constructor by testing bit fields down the tree
  and then the patterns of a leaf in order.
\<close>

datatype decision_error = ErrSubtableNil | ErrDecisionNil | ErrNoDecision | ErrWalker walker_error
  | ErrReader bits_error | ErrUnresolved Address | ErrChildIndex u64 | ErrConstructorMissing u64
  | ErrBlockMissing u32 | ErrPatternElement u32

definition constructorByID :: "SubtableBoundary \<Rightarrow> u64 \<Rightarrow> decision_error + ConstructorBoundary" where
  "constructorByID subtable i =
     (case List.find (\<lambda>c. cn_ConstructorID c = i) (st_Constructors subtable) of
        Some c \<Rightarrow> Inr c | None \<Rightarrow> Inl (ErrConstructorMissing i))"

text \<open>The loops over the children of an or-pattern and of a combined pattern.\<close>

primrec match_any :: "('a \<Rightarrow> 'e + bool) \<Rightarrow> 'a list \<Rightarrow> 'e + bool" where
  "match_any f [] = Inr False"
| "match_any f (x # xs) = then_step (f x) (\<lambda>m. if m then Inr True else match_any f xs)"

primrec match_all :: "('a \<Rightarrow> 'e + bool) \<Rightarrow> 'a list \<Rightarrow> 'e + bool" where
  "match_all f [] = Inr True"
| "match_all f (x # xs) = then_step (f x) (\<lambda>m. if \<not> m then Inr False else match_all f xs)"

lemma match_any_cong [fundef_cong]:
  "xs = ys \<Longrightarrow> (\<And>x. x \<in> set ys \<Longrightarrow> f x = g x) \<Longrightarrow> match_any f xs = match_any g ys"
  by (induction xs arbitrary: ys) (auto cong: if_cong)

lemma match_all_cong [fundef_cong]:
  "xs = ys \<Longrightarrow> (\<And>x. x \<in> set ys \<Longrightarrow> f x = g x) \<Longrightarrow> match_all f xs = match_all g ys"
  by (induction xs arbitrary: ys) (auto cong: if_cong)

text \<open>A child selected by its position is smaller than its node.\<close>

lemma child_size: "k < length children \<Longrightarrow> size (children ! k) < size (DecisionNode number ctx startBit size0 pairs children)"
proof -
  have "c \<in> set children \<Longrightarrow> size c < size (DecisionNode number ctx startBit size0 pairs children)" for c
    by (induction children) auto
  then show "k < length children \<Longrightarrow> ?thesis" by simp
qed

section \<open>Over a parser walker\<close>

text \<open>The loop of \<^verbatim>\<open>matchDecisionPatternBlock\<close> over the mask words.\<close>

fun matchWords :: "(int \<Rightarrow> int \<Rightarrow> walker_error + u64) \<Rightarrow> int \<Rightarrow> int \<Rightarrow> PatternMaskWordBoundary list \<Rightarrow> decision_error + bool" where
  "matchWords rd wordBytes offset [] = Inr True"
| "matchWords rd wordBytes offset (word # ws) =
     (case rd offset wordBytes of
        Inl e \<Rightarrow> Inl (ErrWalker e)
      | Inr data \<Rightarrow>
          if mw_Mask word AND data \<noteq> mw_Val word then Inr False
          else matchWords rd wordBytes (i64 (offset + wordBytes)) ws)"

definition matchDecisionPatternBlock ::
  "ctx_store \<Rightarrow> state_heap \<Rightarrow> PatternBlockBoundary \<Rightarrow> bool \<Rightarrow> ParserWalker \<Rightarrow> decision_error + bool" where
  "matchDecisionPatternBlock \<kappa> h block ctx w =
     (if pb_NonZeroSize block \<le> 0 then Inr (pb_NonZeroSize block = 0)
      else matchWords (if ctx then GetContextBytes \<kappa> w else GetInstructionBytes \<kappa> h w)
        (patternBlockWordBytes block) (pb_Offset block) (pb_MaskWords block))"

fun matchDecisionPattern :: "ctx_store \<Rightarrow> state_heap \<Rightarrow> ParserWalker \<Rightarrow> DisjointPatternBoundary \<Rightarrow> decision_error + bool" where
  "matchDecisionPattern \<kappa> h w (DisjointPattern i block children) =
     (if i = elemOrPat then match_any (matchDecisionPattern \<kappa> h w) children
      else if i = elemInstructPat then
        (case block of None \<Rightarrow> Inl (ErrBlockMissing i) | Some b \<Rightarrow> matchDecisionPatternBlock \<kappa> h b False w)
      else if i = elemContextPat then
        (case block of None \<Rightarrow> Inl (ErrBlockMissing i) | Some b \<Rightarrow> matchDecisionPatternBlock \<kappa> h b True w)
      else if i = elemCombinePat then match_all (matchDecisionPattern \<kappa> h w) children
      else Inl (ErrPatternElement i))"

definition matchOptPattern :: "(DisjointPatternBoundary \<Rightarrow> decision_error + bool) \<Rightarrow> DisjointPatternBoundary option
    \<Rightarrow> decision_error + bool" where
  "matchOptPattern m p = (case p of None \<Rightarrow> Inr True | Some p \<Rightarrow> m p)"

text \<open>The loop over the pairs of a leaf.\<close>

primrec firstPair :: "(DisjointPatternBoundary option \<Rightarrow> decision_error + bool) \<Rightarrow> (u64 \<Rightarrow> decision_error + 'c)
    \<Rightarrow> decision_error \<Rightarrow> DecisionPairBoundary list \<Rightarrow> decision_error + 'c" where
  "firstPair m get unresolved [] = Inl unresolved"
| "firstPair m get unresolved (pair # pairs) =
     then_step (m (dpr_Pattern pair)) (\<lambda>matched.
       if \<not> matched then firstPair m get unresolved pairs else get (dpr_ConstructorID pair))"

text \<open>
  The nil guards of \<^verbatim>\<open>ResolveDecisionNode\<close> repeat those of \<^verbatim>\<open>ResolveSubtableDecision\<close>, its only
  caller; a node, a subtable and a walker are values here.
\<close>

function ResolveDecisionNode :: "ctx_store \<Rightarrow> state_heap \<Rightarrow> SubtableBoundary \<Rightarrow> ParserWalker \<Rightarrow> DecisionNodeBoundary
    \<Rightarrow> decision_error + ConstructorBoundary" where
  "ResolveDecisionNode \<kappa> h subtable w (DecisionNode number ctx startBit size0 pairs children) =
     (if size0 = 0 then
        firstPair (matchOptPattern (matchDecisionPattern \<kappa> h w)) (constructorByID subtable) (ErrUnresolved (GetAddr \<kappa> w)) pairs
      else case (if ctx then GetContextBits \<kappa> w startBit size0 else GetInstructionBits \<kappa> h w startBit size0) of
        Inl e \<Rightarrow> Inl (ErrWalker e)
      | Inr v \<Rightarrow>
          if unat v < length children then ResolveDecisionNode \<kappa> h subtable w (children ! unat v)
          else Inl (ErrChildIndex v))"
  by pat_completeness auto

termination ResolveDecisionNode
  by (relation "measure (\<lambda>(_, _, _, _, n). size n)") (simp_all add: child_size del: DecisionNodeBoundary.size)

definition ResolveSubtableDecision :: "ctx_store \<Rightarrow> state_heap \<Rightarrow> SubtableBoundary option \<Rightarrow> ParserWalker option
    \<Rightarrow> decision_error + ConstructorBoundary" where
  "ResolveSubtableDecision \<kappa> h subtable walker =
     (case subtable of
        None \<Rightarrow> Inl ErrSubtableNil
      | Some s \<Rightarrow> (case walker of
          None \<Rightarrow> Inl (ErrWalker ErrWalkerNil)
        | Some w \<Rightarrow> (case st_Decision s of
            None \<Rightarrow> Inl ErrNoDecision
          | Some n \<Rightarrow> ResolveDecisionNode \<kappa> h s w n)))"

section \<open>Over byte slices\<close>

record MatchInput =
  mi_Instruction :: "u8 list"
  mi_InstructionOffset :: int
  mi_Context :: "u8 list"

definition selectData :: "bool \<Rightarrow> MatchInput \<Rightarrow> u8 list" where
  "selectData ctx input = (if ctx then mi_Context input else mi_Instruction input)"

definition selectBitBase :: "bool \<Rightarrow> MatchInput \<Rightarrow> int" where
  "selectBitBase ctx input = (if ctx then 0 else mi_InstructionOffset input)"

definition selectPatternData :: "u32 \<Rightarrow> MatchInput \<Rightarrow> u8 list" where
  "selectPatternData i input = (if i = elemContextPat then mi_Context input else mi_Instruction input)"

definition selectPatternBase :: "u32 \<Rightarrow> MatchInput \<Rightarrow> int" where
  "selectPatternBase i input = (if i = elemContextPat then 0 else mi_InstructionOffset input)"

primrec offsetsInside :: "int \<Rightarrow> int \<Rightarrow> PatternMaskWordBoundary list \<Rightarrow> bool" where
  "offsetsInside len off [] = True"
| "offsetsInside len off (word # ws) = (if off < 0 \<or> off > len then False else offsetsInside len (i64 (off + 8)) ws)"

primrec chunksMatch :: "u8 list \<Rightarrow> int \<Rightarrow> PatternMaskWordBoundary list \<Rightarrow> bool" where
  "chunksMatch data off [] = True"
| "chunksMatch data off (word # ws) =
     (if mw_Mask word AND readPackedBytesBigEndian data off 8 \<noteq> mw_Val word then False
      else chunksMatch data (i64 (off + 8)) ws)"

definition matchPatternBlock :: "PatternBlockBoundary \<Rightarrow> u8 list \<Rightarrow> int \<Rightarrow> bool" where
  "matchPatternBlock block data baseOffset =
     (if pb_NonZeroSize block \<le> 0 then pb_NonZeroSize block = 0
      else
        let off = i64 (baseOffset + pb_Offset block) in
        offsetsInside (int (length data)) off (pb_MaskWords block) \<and> chunksMatch data off (pb_MaskWords block))"

fun matchPattern :: "MatchInput \<Rightarrow> DisjointPatternBoundary \<Rightarrow> decision_error + bool" where
  "matchPattern input (DisjointPattern i block children) =
     (if i = elemOrPat then match_any (matchPattern input) children
      else if i = elemInstructPat \<or> i = elemContextPat then
        (case block of None \<Rightarrow> Inl (ErrBlockMissing i)
         | Some b \<Rightarrow> Inr (matchPatternBlock b (selectPatternData i input) (selectPatternBase i input)))
      else if i = elemCombinePat then match_all (matchPattern input) children
      else Inl (ErrPatternElement i))"

function resolveDecisionNode :: "SubtableBoundary \<Rightarrow> MatchInput \<Rightarrow> DecisionNodeBoundary \<Rightarrow> decision_error + ConstructorBoundary" where
  "resolveDecisionNode subtable input (DecisionNode number ctx startBit size0 pairs children) =
     (if size0 = 0 then
        firstPair (matchOptPattern (matchPattern input)) (constructorByID subtable) (ErrUnresolved invalidAddress) pairs
      else case extractBits (selectData ctx input) (selectBitBase ctx input) startBit size0 of
        Inl e \<Rightarrow> Inl (ErrReader e)
      | Inr v \<Rightarrow>
          if unat v < length children then resolveDecisionNode subtable input (children ! unat v)
          else Inl (ErrChildIndex v))"
  by pat_completeness auto

termination resolveDecisionNode
  by (relation "measure (\<lambda>(_, _, n). size n)") (simp_all add: child_size del: DecisionNodeBoundary.size)

definition ResolveConstructor :: "SubtableBoundary option \<Rightarrow> MatchInput \<Rightarrow> decision_error + ConstructorBoundary" where
  "ResolveConstructor subtable input =
     (case subtable of
        None \<Rightarrow> Inl ErrSubtableNil
      | Some s \<Rightarrow> (case st_Decision s of
          None \<Rightarrow> (case st_Constructors s of [c] \<Rightarrow> Inr c | _ \<Rightarrow> Inl ErrNoDecision)
        | Some n \<Rightarrow> resolveDecisionNode s input n))"

end
