(* ===== verification/Sla_DecisionLaws.thy ===== *)
theory Sla_DecisionLaws
  imports Sla_Decision
begin

text \<open>
  What the resolvers of a decision tree compute: the first rule of a flat list whose bit tests and
  pattern hold. Both resolvers are instances of one interface. A decoded subtable has only
  well-formed patterns and its constructors numbered by their position.
\<close>

section \<open>Rules of a tree\<close>

text \<open>
  The tree as a list of rules: a rule is a pair of a leaf together with the tests (context or
  instruction, first bit, number of bits, value) on the way to it.
\<close>

function tree_rules :: "DecisionNodeBoundary \<Rightarrow> ((bool \<times> int \<times> int \<times> nat) list \<times> DecisionPairBoundary) list" where
  "tree_rules (DecisionNode number ctx startBit size0 pairs children) =
     (if size0 = 0 then map (\<lambda>p. ([], p)) pairs
      else concat (map (\<lambda>k. map (\<lambda>(ts, p). ((ctx, startBit, size0, k) # ts, p)) (tree_rules (children ! k)))
             [0..<length children]))"
  by pat_completeness auto

termination by (relation "measure size") (simp_all add: child_size del: DecisionNodeBoundary.size)

definition tests_hold :: "(bool \<Rightarrow> int \<Rightarrow> int \<Rightarrow> decision_error + u64) \<Rightarrow> (bool \<times> int \<times> int \<times> nat) list \<Rightarrow> bool" where
  "tests_hold bits ts =
     list_all (\<lambda>(ctx, startBit, size0, k). case bits ctx startBit size0 of Inl _ \<Rightarrow> False | Inr v \<Rightarrow> unat v = k) ts"

lemma tests_hold_iff:
  "tests_hold bits ts \<longleftrightarrow> (\<forall>(ctx, startBit, size0, k) \<in> set ts. \<exists>v. bits ctx startBit size0 = Inr v \<and> unat v = k)"
proof -
  have "(case r of Inl _ \<Rightarrow> False | Inr v \<Rightarrow> unat v = k) \<longleftrightarrow> (\<exists>v. r = Inr v \<and> unat v = k)" for r :: "decision_error + u64" and k
    by (cases r) auto
  then show ?thesis by (simp add: tests_hold_def list_all_iff)
qed

definition rule_holds :: "(bool \<Rightarrow> int \<Rightarrow> int \<Rightarrow> decision_error + u64) \<Rightarrow> (DisjointPatternBoundary option \<Rightarrow> decision_error + bool)
    \<Rightarrow> (bool \<times> int \<times> int \<times> nat) list \<times> DecisionPairBoundary \<Rightarrow> bool" where
  "rule_holds bits test r \<longleftrightarrow> tests_hold bits (fst r) \<and> test (dpr_Pattern (snd r)) = Inr True"

lemma find_map: "List.find P (map f xs) = map_option f (List.find (P \<circ> f) xs)"
  by (induction xs) auto

lemma find_append: "List.find P (xs @ ys) = (case List.find P xs of None \<Rightarrow> List.find P ys | Some y \<Rightarrow> Some y)"
  by (induction xs) auto

lemma find_concat:
  assumes "i < n" "\<And>k. k < n \<Longrightarrow> k \<noteq> i \<Longrightarrow> List.find P (f k) = None"
  shows "List.find P (concat (map f [0..<n])) = List.find P (f i)"
  using assms
proof (induction n)
  case (Suc n)
  show ?case
  proof (cases "i = n")
    case True
    have "\<not> P x" if "k < n" "x \<in> set (f k)" for k x
      using Suc.prems(2) [of k] that True by (auto simp: find_None_iff)
    then have "List.find P (concat (map f [0..<n])) = None" by (auto simp: find_None_iff)
    then show ?thesis using True by (simp add: find_append)
  next
    case False
    then show ?thesis using Suc by (auto simp: find_append split: option.splits)
  qed
qed simp

lemma find_concat_None:
  assumes "\<And>k. k < n \<Longrightarrow> List.find P (f k) = None"
  shows "List.find P (concat (map f [0..<n])) = None"
  using assms by (auto simp: find_None_iff)

text \<open>The interface: a reader of bit fields, a pattern test, and a resolver that uses them.\<close>

locale decision_resolver =
  fixes bits :: "bool \<Rightarrow> int \<Rightarrow> int \<Rightarrow> decision_error + u64"
    and test :: "DisjointPatternBoundary option \<Rightarrow> decision_error + bool"
    and get :: "u64 \<Rightarrow> decision_error + 'c"
    and unresolved :: decision_error
    and resolve :: "DecisionNodeBoundary \<Rightarrow> decision_error + 'c"
  assumes leaf: "resolve (DecisionNode number ctx startBit 0 pairs children) = firstPair test get unresolved pairs"
    and node: "size0 \<noteq> 0 \<Longrightarrow> resolve (DecisionNode number ctx startBit size0 pairs children) =
      then_step (bits ctx startBit size0) (\<lambda>v. if unat v < length children then resolve (children ! unat v) else Inl (ErrChildIndex v))"
begin

lemma firstPair_find:
  assumes "\<And>p e. p \<in> set pairs \<Longrightarrow> test (dpr_Pattern p) \<noteq> Inl e"
  shows "firstPair test get unresolved pairs = (case List.find (\<lambda>p. test (dpr_Pattern p) = Inr True) pairs of
    Some p \<Rightarrow> get (dpr_ConstructorID p) | None \<Rightarrow> Inl unresolved)"
  using assms
proof (induction pairs)
  case (Cons p pairs)
  then obtain b where "test (dpr_Pattern p) = Inr b" by (metis list.set_intros(1) sum.exhaust)
  then show ?case using Cons by simp
qed simp

lemma firstPair_sound:
  "firstPair test get unresolved pairs = Inr c \<Longrightarrow>
    \<exists>p. List.find (\<lambda>p. test (dpr_Pattern p) = Inr True) pairs = Some p \<and> get (dpr_ConstructorID p) = Inr c"
  by (induction pairs) (auto simp: then_step_Inr split: if_splits)

text \<open>Only the rules of the selected child can hold.\<close>

lemma find_rules_node:
  assumes "size0 \<noteq> 0" "bits ctx startBit size0 = Inr v"
  shows "List.find (rule_holds bits test) (tree_rules (DecisionNode number ctx startBit size0 pairs children)) =
    (if unat v < length children
     then map_option (\<lambda>(ts, p). ((ctx, startBit, size0, unat v) # ts, p)) (List.find (rule_holds bits test) (tree_rules (children ! unat v)))
     else None)"
proof -
  let ?ext = "\<lambda>k (ts, p). ((ctx, startBit, size0, k :: nat) # ts, p :: DecisionPairBoundary)"
  let ?f = "\<lambda>k. map (?ext k) (tree_rules (children ! k))"
  have tests: "rule_holds bits test (?ext k r) \<longleftrightarrow> k = unat v \<and> rule_holds bits test r" for k r
    using assms(2) by (cases r) (auto simp: rule_holds_def tests_hold_iff)
  have other: "List.find (rule_holds bits test) (?f k) = None" if "k \<noteq> unat v" for k
    using that tests by (auto simp: find_None_iff simp del: split_paired_All)
  have same: "List.find (rule_holds bits test) (?f (unat v)) = map_option (?ext (unat v)) (List.find (rule_holds bits test) (tree_rules (children ! unat v)))"
  proof -
    have "rule_holds bits test \<circ> ?ext (unat v) = rule_holds bits test" using tests by (intro ext) (simp add: comp_def)
    then show ?thesis by (simp only: find_map)
  qed
  show ?thesis
  proof (cases "unat v < length children")
    case True
    then show ?thesis using find_concat [OF True other] same assms(1) by simp
  next
    case False
    then have "List.find (rule_holds bits test) (concat (map ?f [0..<length children])) = None"
      by (intro find_concat_None other) auto
    then show ?thesis using False assms(1) by simp
  qed
qed

text \<open>No rule of a node holds when its field cannot be read.\<close>

lemma find_rules_unread:
  assumes "size0 \<noteq> 0" "bits ctx startBit size0 = Inl e"
  shows "List.find (rule_holds bits test) (tree_rules (DecisionNode number ctx startBit size0 pairs children)) = None"
  using assms by (auto simp: find_None_iff rule_holds_def tests_hold_iff)

text \<open>A resolved constructor is the one of the first rule that holds.\<close>

lemma sound:
  "resolve n = Inr c \<Longrightarrow> \<exists>r. List.find (rule_holds bits test) (tree_rules n) = Some r \<and> get (dpr_ConstructorID (snd r)) = Inr c"
proof (induction n rule: tree_rules.induct)
  case (1 number ctx startBit size0 pairs children)
  show ?case
  proof (cases "size0 = 0")
    case True
    then obtain p where "List.find (\<lambda>p. test (dpr_Pattern p) = Inr True) pairs = Some p" "get (dpr_ConstructorID p) = Inr c"
      using "1.prems" firstPair_sound by (auto simp: leaf)
    then show ?thesis using True by (simp add: find_map comp_def rule_holds_def tests_hold_iff)
  next
    case False
    then obtain v where v: "bits ctx startBit size0 = Inr v" "unat v < length children" "resolve (children ! unat v) = Inr c"
      using "1.prems" by (auto simp: node then_step_Inr split: if_splits)
    then obtain r where "List.find (rule_holds bits test) (tree_rules (children ! unat v)) = Some r" "get (dpr_ConstructorID (snd r)) = Inr c"
      using "1.IH" [OF False, of "unat v"] by auto
    then show ?thesis unfolding find_rules_node [OF False v(1)] using v(2) by (cases r) simp
  qed
qed

text \<open>When no pattern test fails with an error, the first rule that holds decides.\<close>

lemma complete:
  "\<lbrakk>List.find (rule_holds bits test) (tree_rules n) = Some r; \<And>q e. q \<in> set (tree_rules n) \<Longrightarrow> test (dpr_Pattern (snd q)) \<noteq> Inl e\<rbrakk>
    \<Longrightarrow> resolve n = get (dpr_ConstructorID (snd r))"
proof (induction n arbitrary: r rule: tree_rules.induct)
  case (1 number ctx startBit size0 pairs children)
  show ?case
  proof (cases "size0 = 0")
    case True
    have ok: "test (dpr_Pattern p) \<noteq> Inl e" if "p \<in> set pairs" for p e
      using "1.prems"(2) [of "([], p)" e] True that by auto
    have "resolve (DecisionNode number ctx startBit size0 pairs children) =
        (case List.find (\<lambda>p. test (dpr_Pattern p) = Inr True) pairs of Some p \<Rightarrow> get (dpr_ConstructorID p) | None \<Rightarrow> Inl unresolved)"
      using firstPair_find [OF ok] True by (simp add: leaf)
    then show ?thesis using "1.prems"(1) True by (auto simp: find_map comp_def rule_holds_def tests_hold_iff)
  next
    case False
    then obtain v where v: "bits ctx startBit size0 = Inr v"
      using "1.prems"(1) find_rules_unread by (metis option.distinct(1) sum.exhaust)
    obtain r' where r': "unat v < length children" "List.find (rule_holds bits test) (tree_rules (children ! unat v)) = Some r'"
        "snd r = snd r'"
      using "1.prems"(1) unfolding find_rules_node [OF False v] by (auto split: if_splits)
    have "test (dpr_Pattern (snd q)) \<noteq> Inl e" if "q \<in> set (tree_rules (children ! unat v))" for q e
      using "1.prems"(2) [of "((ctx, startBit, size0, unat v) # fst q, snd q)" e] that r'(1) False by force
    then show ?thesis using False v r' "1.IH" [OF False _ r'(2)] by (simp add: node)
  qed
qed

text \<open>What an error says: no rule holds, a pattern test failed, or the chosen constructor is missing.\<close>

lemma firstPair_error:
  "firstPair test get unresolved pairs = Inl e \<Longrightarrow>
    (e = unresolved \<and> List.find (\<lambda>p. test (dpr_Pattern p) = Inr True) pairs = None) \<or>
    (\<exists>p \<in> set pairs. test (dpr_Pattern p) = Inl e) \<or>
    (\<exists>p. List.find (\<lambda>p. test (dpr_Pattern p) = Inr True) pairs = Some p \<and> get (dpr_ConstructorID p) = Inl e)"
  by (induction pairs) (auto simp: then_step_Inl split: if_splits)

lemma error:
  "resolve n = Inl e \<Longrightarrow>
    ((e = unresolved \<or> (\<exists>v. e = ErrChildIndex v) \<or> (\<exists>ctx startBit size0. bits ctx startBit size0 = Inl e)) \<and>
      List.find (rule_holds bits test) (tree_rules n) = None) \<or>
    (\<exists>q \<in> set (tree_rules n). test (dpr_Pattern (snd q)) = Inl e) \<or>
    (\<exists>r. List.find (rule_holds bits test) (tree_rules n) = Some r \<and> get (dpr_ConstructorID (snd r)) = Inl e)"
proof (induction n rule: tree_rules.induct)
  case (1 number ctx startBit size0 pairs children)
  show ?case
  proof (cases "size0 = 0")
    case True
    have "rule_holds bits test \<circ> (\<lambda>p. ([], p)) = (\<lambda>p. test (dpr_Pattern p) = Inr True)"
      by (simp add: comp_def rule_holds_def tests_hold_iff)
    then show ?thesis using firstPair_error [of pairs e] "1.prems" True by (auto simp: leaf find_map)
  next
    case False
    show ?thesis
    proof (cases "bits ctx startBit size0")
      case (Inl b)
      then show ?thesis using "1.prems" False find_rules_unread [OF False Inl] by (auto simp: node)
    next
      case (Inr v)
      show ?thesis
      proof (cases "unat v < length children")
        case True
        then have "resolve (children ! unat v) = Inl e" using "1.prems" False Inr by (simp add: node)
        moreover have "\<exists>q \<in> set (tree_rules (DecisionNode number ctx startBit size0 pairs children)). snd q = snd r"
          if "r \<in> set (tree_rules (children ! unat v))" for r
          using that True False by (intro bexI [of _ "((ctx, startBit, size0, unat v) # fst r, snd r)"]) force+
        ultimately show ?thesis using "1.IH" [OF False, of "unat v"] True unfolding find_rules_node [OF False Inr]
          by (fastforce simp: case_prod_beta)
      next
        case False': False
        then show ?thesis using "1.prems" Inr False unfolding find_rules_node [OF False Inr] by (auto simp: node)
      qed
    qed
  qed
qed

end

section \<open>The two resolvers\<close>

definition walker_bits :: "ctx_store \<Rightarrow> state_heap \<Rightarrow> ParserWalker \<Rightarrow> bool \<Rightarrow> int \<Rightarrow> int \<Rightarrow> decision_error + u64" where
  "walker_bits \<kappa> h w ctx startBit size0 =
     (case (if ctx then GetContextBits \<kappa> w startBit size0 else GetInstructionBits \<kappa> h w startBit size0) of
        Inl e \<Rightarrow> Inl (ErrWalker e) | Inr v \<Rightarrow> Inr v)"

definition input_bits :: "MatchInput \<Rightarrow> bool \<Rightarrow> int \<Rightarrow> int \<Rightarrow> decision_error + u64" where
  "input_bits input ctx startBit size0 =
     (case extractBits (selectData ctx input) (selectBitBase ctx input) startBit size0 of
        Inl e \<Rightarrow> Inl (ErrReader e) | Inr v \<Rightarrow> Inr v)"

interpretation walker_resolver: decision_resolver "walker_bits \<kappa> h w" "matchOptPattern (matchDecisionPattern \<kappa> h w)"
    "constructorByID subtable" "ErrUnresolved (GetAddr \<kappa> w)" "ResolveDecisionNode \<kappa> h subtable w"
  by unfold_locales (simp_all add: walker_bits_def split: sum.splits)

interpretation input_resolver: decision_resolver "input_bits input" "matchOptPattern (matchPattern input)"
    "constructorByID subtable" "ErrUnresolved invalidAddress" "resolveDecisionNode subtable input"
  by unfold_locales (simp_all add: input_bits_def split: sum.splits)

section \<open>Decoded subtables\<close>

text \<open>A decoded pattern has a block where the resolvers read one, and no other elements.\<close>

fun pattern_ok :: "DisjointPatternBoundary \<Rightarrow> bool" where
  "pattern_ok (DisjointPattern i block children) =
     (if i = elemOrPat \<or> i = elemCombinePat then \<forall>c \<in> set children. pattern_ok c
      else (i = elemInstructPat \<or> i = elemContextPat) \<and> block \<noteq> None)"

definition rule_ok :: "(bool \<times> int \<times> int \<times> nat) list \<times> DecisionPairBoundary \<Rightarrow> bool" where
  "rule_ok r \<longleftrightarrow> (\<forall>p. dpr_Pattern (snd r) = Some p \<longrightarrow> pattern_ok p)"

lemma decodeDisjointPattern_ok: "decodeDisjointPattern elem = Inr p \<Longrightarrow> pattern_ok p"
proof (induction elem arbitrary: p rule: decodeDisjointPattern.induct)
  case (1 i attrs children)
  show ?case
  proof (cases "i = elemCombinePat")
    case True
    then obtain subs where "append_step decodeDisjointPattern children = Inr subs" "p = DisjointPattern i None subs"
      using "1.prems" by (auto simp: then_step_Inr)
    then show ?thesis using "1.IH" True by (auto dest: append_step_set)
  next
    case False
    then show ?thesis using "1.prems" by (auto simp: then_step_Inr split: if_splits list.splits)
  qed
qed

lemma decodePatternTree_ok: "decodePatternTree elem = Inr p \<Longrightarrow> pattern_ok p"
proof (cases "el_ID elem = elemOrPat")
  case True
  assume "decodePatternTree elem = Inr p"
  then obtain subs where subs: "append_step decodeDisjointPattern (el_Children elem) = Inr subs" and p: "p = DisjointPattern elemOrPat None subs"
    using True by (auto simp: decodePatternTree_def then_step_Inr)
  have "pattern_ok q" if "q \<in> set subs" for q
    using append_step_set [OF subs that] by (auto intro: decodeDisjointPattern_ok)
  then show ?thesis unfolding p by simp
qed (simp add: decodePatternTree_def decodeDisjointPattern_ok)

lemma decodeDecisionPair_ok: "decodeDecisionPair elem = Inr pair \<Longrightarrow> rule_ok (ts, pair)"
  by (cases "el_Children elem") (auto simp: decodeDecisionPair_def rule_ok_def then_step_Inr intro: decodePatternTree_ok)

lemma decodeDecisionNode_ok: "decodeDecisionNode elem = Inr n \<Longrightarrow> r \<in> set (tree_rules n) \<Longrightarrow> rule_ok r"
proof (induction elem arbitrary: n r rule: decodeDecisionNode.induct)
  case (1 i attrs children)
  then obtain number ctx startBit size0 pairs nodes where
    loop: "loop_step (\<lambda>acc child. decodeDecisionChild decodeDecisionNode acc child) ([], []) children = Inr (pairs, nodes)"
    and n: "n = DecisionNode number ctx startBit size0 pairs nodes"
    by (auto simp: then_step_Inr)
  let ?P = "\<lambda>(pairs, nodes). (\<forall>p \<in> set pairs. rule_ok ([], p)) \<and> (\<forall>n \<in> set nodes. \<forall>r \<in> set (tree_rules n). rule_ok r)"
  have "?P (pairs, nodes)"
  proof (rule loop_step_invariant [where P = ?P, OF loop])
    fix acc child acc' assume "child \<in> set children" "?P acc" "decodeDecisionChild decodeDecisionNode acc child = Inr acc'"
    then show "?P acc'" using "1.IH" decodeDecisionPair_ok
      by (auto simp: decodeDecisionChild_def then_step_Inr split: if_splits prod.splits)
  qed simp
  moreover have "rule_ok (t # ts, p)" if "rule_ok (ts, p)" for t ts p using that by (simp add: rule_ok_def)
  ultimately show ?case using "1.prems"(2) unfolding n by (fastforce split: if_splits)
qed

definition subtable_ok :: "SubtableBoundary \<Rightarrow> bool" where
  "subtable_ok sub \<longleftrightarrow>
     (\<forall>k < length (st_Constructors sub). cn_ConstructorID (st_Constructors sub ! k) = of_nat k)
     \<and> (\<forall>n. st_Decision sub = Some n \<longrightarrow> (\<forall>r \<in> set (tree_rules n). rule_ok r))"

lemma decodeSubtable_ok: "decodeSubtable elem = Inr sub \<Longrightarrow> subtable_ok sub"
proof -
  assume "decodeSubtable elem = Inr sub"
  then obtain count where
    loop: "loop_step decodeSubtableChild \<lparr>st_ConstructorCount = count, st_Constructors = [], st_Decision = None\<rparr> (el_Children elem) = Inr sub"
    by (auto simp: decodeSubtable_def then_step_Inr)
  show ?thesis
  proof (rule loop_step_invariant [where P = subtable_ok, OF loop])
    fix s child s' assume "subtable_ok s" "decodeSubtableChild s child = Inr s'"
    then show "subtable_ok s'" using decodeDecisionNode_ok
      by (auto simp: decodeSubtableChild_def subtable_ok_def then_step_Inr nth_append less_Suc_eq split: if_splits)
  qed (simp add: subtable_ok_def)
qed

text \<open>Constructor numbers are positions, so the search by number is an indexed access.\<close>

lemma find_first_nth:
  assumes "k < length xs" "P (xs ! k)" "\<And>j. j < k \<Longrightarrow> \<not> P (xs ! j)"
  shows "List.find P xs = Some (xs ! k)"
  using assms by (auto simp: find_Some_iff)

lemma constructorByID_nth:
  assumes "subtable_ok sub"
  shows "constructorByID sub i = (if unat i < length (st_Constructors sub) then Inr (st_Constructors sub ! unat i) else Inl (ErrConstructorMissing i))"
proof -
  let ?cs = "st_Constructors sub"
  have num: "cn_ConstructorID (?cs ! k) = i \<longleftrightarrow> k mod 2 ^ 64 = unat i" if "k < length ?cs" for k
    using assms that by (simp add: subtable_ok_def word_unat_eq_iff unat_of_nat take_bit_eq_mod)
  show ?thesis
  proof (cases "unat i < length ?cs")
    case True
    have "unat i < 2 ^ 64" using unsigned_less [of i] by simp
    then have "List.find (\<lambda>c. cn_ConstructorID c = i) ?cs = Some (?cs ! unat i)"
      using True num by (intro find_first_nth) auto
    then show ?thesis using True by (simp add: constructorByID_def)
  next
    case False
    have "cn_ConstructorID (?cs ! k) \<noteq> i" if "k < length ?cs" for k
    proof -
      have "k mod 2 ^ 64 \<le> k" by simp
      then show ?thesis using num [OF that] False that by linarith
    qed
    then have "List.find (\<lambda>c. cn_ConstructorID c = i) ?cs = None" by (auto simp: find_None_iff in_set_conv_nth)
    then show ?thesis using False by (simp add: constructorByID_def)
  qed
qed

section \<open>Pattern tests\<close>

lemma match_any_Inl: "match_any f xs = Inl e \<Longrightarrow> \<exists>x \<in> set xs. f x = Inl e"
  by (induction xs) (auto simp: then_step_Inl split: if_splits)

lemma match_all_Inl: "match_all f xs = Inl e \<Longrightarrow> \<exists>x \<in> set xs. f x = Inl e"
  by (induction xs) (auto simp: then_step_Inl split: if_splits)

lemma matchPattern_total: "pattern_ok p \<Longrightarrow> matchPattern input p \<noteq> Inl e"
  by (induction input p rule: matchPattern.induct) (auto dest: match_any_Inl match_all_Inl split: if_splits)

lemma matchWords_error: "matchWords rd wordBytes offset ws = Inl e \<Longrightarrow> \<exists>we. e = ErrWalker we"
  by (induction ws arbitrary: offset) (auto split: sum.splits if_splits)

lemma matchDecisionPattern_error: "pattern_ok p \<Longrightarrow> matchDecisionPattern \<kappa> h w p = Inl e \<Longrightarrow> \<exists>we. e = ErrWalker we"
  by (induction \<kappa> h w p rule: matchDecisionPattern.induct)
    (auto simp: matchDecisionPatternBlock_def dest: match_any_Inl match_all_Inl matchWords_error split: if_splits option.splits)

lemma matchOptPattern_Inl: "matchOptPattern m p = Inl e \<longleftrightarrow> (\<exists>q. p = Some q \<and> m q = Inl e)"
  by (auto simp: matchOptPattern_def split: option.splits)

section \<open>Resolution in a decoded subtable\<close>


text \<open>
  A subtable of two constructors: the first bit of the instruction selects a leaf; the second leaf
  has a pattern of one byte.
\<close>

definition sample_subtable :: packedElement where
  "sample_subtable =
     (let num = \<lambda>i n. (new_attr i)\<lparr>at_Type := attributeValueInt, at_Int := n\<rparr>;
          uns = \<lambda>i n. (new_attr i)\<lparr>at_Type := attributeValueUint, at_Uint := n\<rparr>;
          constructor = PackedElement elemConstructor
            [uns attrParent 1, num attrFirst 0, num attrLength 1, num attrSource 0, num attrLine 7] [];
          decision = \<lambda>sz cs. PackedElement elemDecision
            [num attrNumber 0, new_attr attrContext, num attrStartBit 0, num attrSize sz] cs;
          pat = PackedElement elemInstructPat [] [PackedElement elemPatBlock [num attrOff 0, num attrNonZero 1]
            [PackedElement elemMaskWord [uns attrMask 0xff00000000000000, uns attrVal 0x8100000000000000] []]]
      in PackedElement elemSubtableSym [num attrNumCT 2]
        [constructor, constructor,
         decision 1 [decision 0 [PackedElement elemPair [num attrID 0] []],
                     decision 0 [PackedElement elemPair [num attrID 1] [pat]]]])"


text \<open>
  C22: In a subtable read by \<^verbatim>\<open>decodeSubtable\<close>, \<^verbatim>\<open>ResolveSubtableDecision\<close> ends on every walker with the
  constructor at the position the first rule that holds names, or with an error that says why there is
  none: the bytes cannot be read, no rule holds, or the rule's constructor number is past the last one. It
  never reports a missing pattern block or an unknown pattern element.
\<close>

theorem ResolveSubtableDecision_outcome:
  assumes decoded: "decodeSubtable elem = Inr sub" and tree: "st_Decision sub = Some n"
  shows "let first = List.find (rule_holds (walker_bits \<kappa> h w) (matchOptPattern (matchDecisionPattern \<kappa> h w))) (tree_rules n) in
    case ResolveSubtableDecision \<kappa> h (Some sub) (Some w) of
      Inr c \<Rightarrow> \<exists>ts p. first = Some (ts, p) \<and> unat (dpr_ConstructorID p) < length (st_Constructors sub)
        \<and> c = st_Constructors sub ! unat (dpr_ConstructorID p)
    | Inl e \<Rightarrow> (\<exists>we. e = ErrWalker we)
        \<or> (e = ErrUnresolved (GetAddr \<kappa> w) \<or> (\<exists>v. e = ErrChildIndex v)) \<and> first = None
        \<or> (\<exists>ts p. first = Some (ts, p) \<and> length (st_Constructors sub) \<le> unat (dpr_ConstructorID p)
            \<and> e = ErrConstructorMissing (dpr_ConstructorID p))"
proof -
  note ok = decodeSubtable_ok [OF decoded]
  have resolve: "ResolveSubtableDecision \<kappa> h (Some sub) (Some w) = ResolveDecisionNode \<kappa> h sub w n"
    using tree by (simp add: ResolveSubtableDecision_def)
  have test: "\<exists>we. e = ErrWalker we"
    if "q \<in> set (tree_rules n)" "matchOptPattern (matchDecisionPattern \<kappa> h w) (dpr_Pattern (snd q)) = Inl e" for q e
    using ok tree that matchDecisionPattern_error unfolding subtable_ok_def rule_ok_def matchOptPattern_Inl by blast
  have bits: "\<exists>we. e = ErrWalker we" if "walker_bits \<kappa> h w ctx startBit size0 = Inl e" for ctx startBit size0 e
    using that by (auto simp: walker_bits_def split: sum.splits)
  show ?thesis
  proof (cases "ResolveDecisionNode \<kappa> h sub w n")
    case (Inl e)
    then show ?thesis using walker_resolver.error [OF Inl] test bits constructorByID_nth [OF ok]
      unfolding resolve Let_def by (fastforce split: if_splits)
  next
    case (Inr c)
    then show ?thesis using walker_resolver.sound [OF Inr] constructorByID_nth [OF ok]
      unfolding resolve Let_def by (fastforce split: if_splits)
  qed
qed

theorem ResolveSubtableDecision_outcome_witness:
  "\<exists>c. ResolveSubtableDecision (\<lambda>_. (fst (NewParserContext invalidAddress None \<lparr>hp_state = \<lambda>_. emptyState, hp_next = 0\<rparr>))\<lparr>pc_InstructionBytes := [0x81, 0, 0, 0, 0, 0, 0, 0]\<rparr>)
      \<lparr>hp_state = \<lambda>_. emptyState, hp_next = 1\<rparr> (Some (projr (decodeSubtable sample_subtable)))
      (Some ((NewParserWalker (Some 0))\<lparr>pw_Point := Some 0\<rparr>)) = Inr c \<and> cn_ConstructorID c = 1"
proof -
  let ?sub = "projr (decodeSubtable sample_subtable)"
    and ?k = "\<lambda>_ :: ctx_ref. (fst (NewParserContext invalidAddress None \<lparr>hp_state = \<lambda>_. emptyState, hp_next = 0\<rparr>))\<lparr>pc_InstructionBytes := [0x81, 0, 0, 0, 0, 0, 0, 0]\<rparr>"
    and ?h = "\<lparr>hp_state = \<lambda>_. emptyState, hp_next = 1\<rparr> :: state_heap"
    and ?w = "(NewParserWalker (Some 0))\<lparr>pw_Point := Some 0\<rparr>"
  have dec: "decodeSubtable sample_subtable = Inr ?sub" and tree: "st_Decision ?sub = Some (the (st_Decision ?sub))"
    by code_simp+
  have "\<not> isl (ResolveSubtableDecision ?k ?h (Some ?sub) (Some ?w))" by code_simp
  moreover have "case List.find (rule_holds (walker_bits ?k ?h ?w) (matchOptPattern (matchDecisionPattern ?k ?h ?w))) (tree_rules (the (st_Decision ?sub))) of
      None \<Rightarrow> False | Some (ts, p) \<Rightarrow> dpr_ConstructorID p = 1"
    by code_simp
  moreover have "cn_ConstructorID (st_Constructors ?sub ! 1) = 1" by code_simp
  ultimately show ?thesis using ResolveSubtableDecision_outcome [OF dec tree, of ?k ?h ?w]
    unfolding Let_def by (auto split: option.splits sum.splits)
qed

text \<open>
  The two resolvers read the words of a pattern block differently: over a walker in units of four
  bytes when the words fit in 32 bits, over byte slices always in units of eight.
\<close>

lemma block_word_size_differs:
  "\<exists>block bytes w \<kappa> h. pc_InstructionBytes (\<kappa> (the (pw_constContext w))) = bytes
     \<and> matchDecisionPatternBlock \<kappa> h block False w = Inr True \<and> \<not> matchPatternBlock block bytes 0"
proof -
  let ?block = "\<lparr>pb_Offset = 0, pb_NonZeroSize = 1, pb_MaskWords = [\<lparr>mw_Mask = 0xff000000, mw_Val = 0x12000000\<rparr>]\<rparr>"
    and ?k = "\<lambda>_ :: ctx_ref. (fst (NewParserContext invalidAddress None \<lparr>hp_state = \<lambda>_. emptyState, hp_next = 0\<rparr>))\<lparr>pc_InstructionBytes := [0x12, 0, 0, 0]\<rparr>"
    and ?h = "\<lparr>hp_state = \<lambda>_. emptyState, hp_next = 1\<rparr> :: state_heap"
    and ?w = "(NewParserWalker (Some 0))\<lparr>pw_Point := Some 0\<rparr>"
  have "pc_InstructionBytes (?k (the (pw_constContext ?w))) = [0x12, 0, 0, 0]" by simp
  moreover have "matchDecisionPatternBlock ?k ?h ?block False ?w = Inr True" by code_simp
  moreover have "\<not> matchPatternBlock ?block [0x12, 0, 0, 0] 0" by code_simp
  ultimately show ?thesis by (intro exI conjI)
qed

end
