(* ===== verification/Sla_RawBuild.thy ===== *)
theory Sla_RawBuild
  imports Sla_Templates
begin

text \<open>
  The raw p-code staging of \<^verbatim>\<open>pkg/sla/discache.go\<close> (\<^verbatim>\<open>rawBuildState\<close>) with the value types of
  \<^verbatim>\<open>pkg/pcode/rawop.go\<close> and \<^verbatim>\<open>varnode.go\<close>. The inputs and the output of an issued operation are
  views into a shared varnode pool that moves when it grows, so the pool's backing arrays are an
  explicit store: a slice is an array reference, a first index and a length; its capacity is the
  rest of the array. The other slices of the state have one owner and are lists.
\<close>

section \<open>Raw operations\<close>

record SeqNum =
  sq_Address :: Address
  sq_Time :: u64
  sq_Order :: u64

text \<open>\<^verbatim>\<open>pcode.VarnodeData\<close>.\<close>

record RawVarnode =
  rv_Space :: "space_ref option"
  rv_Offset :: u64
  rv_Size :: u32

record RawOp =
  ro_SeqNum :: SeqNum
  ro_OpCode :: u16
  ro_Output :: "RawVarnode option"
  ro_Inputs :: "RawVarnode list"

definition zeroVarnode :: RawVarnode where
  "zeroVarnode = \<lparr>rv_Space = None, rv_Offset = 0, rv_Size = 0\<rparr>"

section \<open>Staging state\<close>

record vn_slice =
  sl_array :: nat
  sl_start :: nat
  sl_len :: nat

text \<open>An issued operation: a nil slice of inputs or output pointer is \<^const>\<open>None\<close>.\<close>

record IssuedOp =
  io_SeqNum :: SeqNum
  io_OpCode :: u16
  io_Output :: "(nat \<times> nat) option"
  io_Inputs :: "vn_slice option"

record rawBuildIssuedRef =
  ir_inputStart :: int
  ir_inputCount :: int
  ir_hasOutput :: bool
  ir_outputSlot :: int

record rawBuildRelativeRef =
  rr_varnodeSlot :: int
  rr_callingIndex :: u64

record rawBuildState =
  rb_arrays :: "nat \<Rightarrow> RawVarnode list"
  rb_next :: nat
  rb_issued :: "IssuedOp list"
  rb_refs :: "rawBuildIssuedRef list"
  rb_varnodes :: vn_slice
  rb_labelRefs :: "rawBuildRelativeRef list"
  rb_labels :: "u64 list"
  rb_resolveDone :: bool

datatype raw_error = ErrNegativeCount | ErrShapeMismatch | ErrInputEscaped | ErrOutputEscaped
  | ErrLabelRange | ErrSlotRange | ErrLabelMissing u64 | ErrLabelSize | ErrLabelOverflow
  | ErrNoRawOps | ErrNoFirstInput | ErrFirstOpIndex | ErrRawBuildMissing | ErrRawBuildUnresolved
  | ErrRawAddress space_error | ErrSink

abbreviation "rawBuildLabelUnset \<equiv> (- 1 :: u64)"

abbreviation "defaultVarnodePoolSize \<equiv> (600 :: int)"

definition pool_cap :: "rawBuildState \<Rightarrow> int" where
  "pool_cap s = int (length (rb_arrays s (sl_array (rb_varnodes s)))) - int (sl_start (rb_varnodes s))"

definition pool_len :: "rawBuildState \<Rightarrow> int" where
  "pool_len s = int (sl_len (rb_varnodes s))"

text \<open>\<^verbatim>\<open>make\<close> of a new backing array, and an assignment to an element of the pool.\<close>

definition new_array :: "RawVarnode list \<Rightarrow> rawBuildState \<Rightarrow> nat \<times> rawBuildState" where
  "new_array xs s = (rb_next s, s\<lparr>rb_arrays := (rb_arrays s)(rb_next s := xs), rb_next := Suc (rb_next s)\<rparr>)"

definition pool_get :: "rawBuildState \<Rightarrow> int \<Rightarrow> RawVarnode" where
  "pool_get s i = rb_arrays s (sl_array (rb_varnodes s)) ! (sl_start (rb_varnodes s) + nat i)"

definition pool_set :: "int \<Rightarrow> RawVarnode \<Rightarrow> rawBuildState \<Rightarrow> rawBuildState" where
  "pool_set i v s =
     (let a = sl_array (rb_varnodes s) in
      s\<lparr>rb_arrays := (rb_arrays s)(a := (rb_arrays s a)[sl_start (rb_varnodes s) + nat i := v])\<rparr>)"

definition zeroRawBuildState :: rawBuildState where
  "zeroRawBuildState = \<lparr>rb_arrays = (\<lambda>_. []), rb_next = 1, rb_issued = [], rb_refs = [],
     rb_varnodes = \<lparr>sl_array = 0, sl_start = 0, sl_len = 0\<rparr>, rb_labelRefs = [], rb_labels = [], rb_resolveDone = False\<rparr>"

definition rb_reset :: "int \<Rightarrow> rawBuildState \<Rightarrow> rawBuildState" where
  "rb_reset capacity s =
     (let capacity = (if capacity < 0 then 0 else capacity);
          s = s\<lparr>rb_issued := [], rb_refs := [], rb_labelRefs := [], rb_labels := []\<rparr>;
          varnodeCapacity = i64 (capacity * 3);
          varnodeCapacity = (if varnodeCapacity < defaultVarnodePoolSize then defaultVarnodePoolSize else varnodeCapacity);
          s = (if pool_cap s < varnodeCapacity then
                 (let (a, s) = new_array (replicate (nat varnodeCapacity) zeroVarnode) s in
                  s\<lparr>rb_varnodes := \<lparr>sl_array = a, sl_start = 0, sl_len = 0\<rparr>\<rparr>)
               else s\<lparr>rb_varnodes := (rb_varnodes s)\<lparr>sl_len := 0\<rparr>\<rparr>)
      in s\<lparr>rb_resolveDone := False\<rparr>)"

definition newRawBuildState :: "int \<Rightarrow> rawBuildState" where
  "newRawBuildState capacity = rb_reset capacity zeroRawBuildState"

definition markUnresolved :: "rawBuildState \<Rightarrow> rawBuildState" where
  "markUnresolved s = s\<lparr>rb_resolveDone := False\<rparr>"

section \<open>The varnode pool\<close>

text \<open>One iteration of the loop of \<^verbatim>\<open>rebindIssuedAfterExpand\<close>, for the operation at an index.\<close>

definition rebindIssued :: "nat \<Rightarrow> rawBuildState \<Rightarrow> (raw_error + unit) \<times> rawBuildState" where
  "rebindIssued i s =
     (let ref = rb_refs s ! i; end0 = i64 (ir_inputStart ref + ir_inputCount ref) in
      if ir_inputCount ref > 0 \<and> (ir_inputStart ref < 0 \<or> end0 < ir_inputStart ref \<or> end0 > pool_len s)
      then (Inl ErrInputEscaped, s)
      else
        let s = (if ir_inputCount ref > 0 then
              s\<lparr>rb_issued := (rb_issued s)[i := (rb_issued s ! i)\<lparr>io_Inputs := Some \<lparr>sl_array = sl_array (rb_varnodes s),
                  sl_start = sl_start (rb_varnodes s) + nat (ir_inputStart ref), sl_len = nat (ir_inputCount ref)\<rparr>\<rparr>]\<rparr>
              else s)
        in if ir_hasOutput ref then
             (if ir_outputSlot ref < 0 \<or> ir_outputSlot ref \<ge> pool_len s then (Inl ErrOutputEscaped, s)
              else (Inr (), s\<lparr>rb_issued := (rb_issued s)[i := (rb_issued s ! i)\<lparr>io_Output :=
                     Some (sl_array (rb_varnodes s), sl_start (rb_varnodes s) + nat (ir_outputSlot ref))\<rparr>]\<rparr>))
           else (Inr (), s\<lparr>rb_issued := (rb_issued s)[i := (rb_issued s ! i)\<lparr>io_Output := None\<rparr>]\<rparr>))"

definition rebindIssuedAfterExpand :: "int \<Rightarrow> rawBuildState \<Rightarrow> (raw_error + unit) \<times> rawBuildState" where
  "rebindIssuedAfterExpand oldLen s =
     (if oldLen = 0 \<or> rb_issued s = [] then (Inr (), s)
      else if length (rb_refs s) \<noteq> length (rb_issued s) then (Inl ErrShapeMismatch, s)
      else loop_st rebindIssued [0..<length (rb_issued s)] s)"

definition ensureVarnodeCapacity :: "int \<Rightarrow> rawBuildState \<Rightarrow> (raw_error + unit) \<times> rawBuildState" where
  "ensureVarnodeCapacity extra s =
     (if extra \<le> 0 then (Inr (), s)
      else
        let need = i64 (pool_len s + extra) in
        if need \<le> pool_cap s then (Inr (), s)
        else
          let curCap = pool_cap s;
              increase = i64 (need - curCap);
              increase = (if increase < 100 then 100 else increase);
              newCap = i64 (curCap + increase);
              newCap = (if newCap < need then need else newCap);
              v = rb_varnodes s;
              old = take (sl_len v) (drop (sl_start v) (rb_arrays s (sl_array v)));
              (a, s) = new_array (old @ replicate (nat newCap - sl_len v) zeroVarnode) s
          in rebindIssuedAfterExpand (int (sl_len v)) (s\<lparr>rb_varnodes := \<lparr>sl_array = a, sl_start = 0, sl_len = sl_len v\<rparr>\<rparr>))"

definition allocateVarnodes :: "int \<Rightarrow> rawBuildState \<Rightarrow> (raw_error + int) \<times> rawBuildState" where
  "allocateVarnodes count s =
     (if count < 0 then (Inl ErrNegativeCount, s)
      else
        let start = pool_len s in
        if count = 0 then (Inr start, s)
        else then_st (ensureVarnodeCapacity count s) (\<lambda>_ s.
          (Inr start, s\<lparr>rb_varnodes := (rb_varnodes s)\<lparr>sl_len := nat (start + count)\<rparr>\<rparr>)))"

definition allocateInstruction :: "rawBuildState \<Rightarrow> nat \<times> rawBuildState" where
  "allocateInstruction s =
     (length (rb_issued s),
      s\<lparr>rb_issued := rb_issued s @ [\<lparr>io_SeqNum = \<lparr>sq_Address = \<lparr>ad_Space = None, ad_Offset = 0\<rparr>, sq_Time = 0, sq_Order = 0\<rparr>,
            io_OpCode = 0, io_Output = None, io_Inputs = None\<rparr>],
        rb_refs := rb_refs s @ [\<lparr>ir_inputStart = 0, ir_inputCount = 0, ir_hasOutput = False, ir_outputSlot = 0\<rparr>]\<rparr>)"

text \<open>The \<^verbatim>\<open>copy\<close> of the inputs into the pool.\<close>

definition copyInputs :: "int \<Rightarrow> RawVarnode list \<Rightarrow> rawBuildState \<Rightarrow> rawBuildState" where
  "copyInputs start vs s = fold (\<lambda>(k, v). pool_set (start + int k) v) (enumerate 0 vs) s"

definition appendIssued :: "RawOp \<Rightarrow> rawBuildState \<Rightarrow> (raw_error + unit) \<times> rawBuildState" where
  "appendIssued op s =
     (let inputCount = int (length (ro_Inputs op));
          total = (if ro_Output op \<noteq> None then inputCount + 1 else inputCount)
      in then_st (allocateVarnodes total s) (\<lambda>start s.
        let s = copyInputs start (ro_Inputs op) s;
            (idx, s) = allocateInstruction s;
            v = rb_varnodes s;
            outputSlot = start + inputCount;
            s = (case ro_Output op of None \<Rightarrow> s | Some out \<Rightarrow> pool_set outputSlot out s);
            issued = \<lparr>io_SeqNum = ro_SeqNum op, io_OpCode = ro_OpCode op,
              io_Output = (if ro_Output op \<noteq> None then Some (sl_array v, sl_start v + nat outputSlot) else None),
              io_Inputs = (if inputCount > 0
                then Some \<lparr>sl_array = sl_array v, sl_start = sl_start v + nat start, sl_len = length (ro_Inputs op)\<rparr> else None)\<rparr>;
            ref = \<lparr>ir_inputStart = start, ir_inputCount = inputCount, ir_hasOutput = (ro_Output op \<noteq> None),
              ir_outputSlot = (if ro_Output op \<noteq> None then outputSlot else 0)\<rparr>
        in (Inr (), s\<lparr>rb_issued := (rb_issued s)[idx := issued], rb_refs := (rb_refs s)[idx := ref]\<rparr>)))"

section \<open>Labels\<close>

definition addLabel :: "u64 \<Rightarrow> u64 \<Rightarrow> rawBuildState \<Rightarrow> (raw_error + unit) \<times> rawBuildState" where
  "addLabel labelID opIndex s =
     (if labelID > 0x7fffffffffffffff then (Inl ErrLabelRange, s)
      else
        let labels = rb_labels s @ replicate (Suc (unat labelID) - length (rb_labels s)) rawBuildLabelUnset
        in (Inr (), s\<lparr>rb_labels := labels[unat labelID := opIndex]\<rparr>))"

definition addLabelRef :: "int \<Rightarrow> u64 \<Rightarrow> rawBuildState \<Rightarrow> (raw_error + unit) \<times> rawBuildState" where
  "addLabelRef varnodeSlot callingIndex s =
     (if varnodeSlot < 0 \<or> varnodeSlot \<ge> pool_len s then (Inl ErrSlotRange, s)
      else (Inr (), s\<lparr>rb_labelRefs := rb_labelRefs s @ [\<lparr>rr_varnodeSlot = varnodeSlot, rr_callingIndex = callingIndex\<rparr>]\<rparr>))"

definition labelMask :: "u32 \<Rightarrow> raw_error + u64" where
  "labelMask sz =
     (if sz = 0 then Inl ErrLabelSize
      else if sz \<ge> 8 then Inr (- 1)
      else Inr (push_bit (unat (sz * 8)) 1 - 1))"

definition resolveRelative :: "rawBuildRelativeRef \<Rightarrow> rawBuildState \<Rightarrow> (raw_error + unit) \<times> rawBuildState" where
  "resolveRelative ref s =
     (if rr_varnodeSlot ref < 0 \<or> rr_varnodeSlot ref \<ge> pool_len s then (Inl ErrSlotRange, s)
      else
        let ptr = pool_get s (rr_varnodeSlot ref); i = rv_Offset ptr in
        if i > 0x7fffffffffffffff then (Inl ErrLabelRange, s)
        else if unat i \<ge> length (rb_labels s) \<or> rb_labels s ! unat i = rawBuildLabelUnset then (Inl (ErrLabelMissing i), s)
        else case labelMask (rv_Size ptr) of
          Inl e \<Rightarrow> (Inl e, s)
        | Inr m \<Rightarrow> (Inr (), pool_set (rr_varnodeSlot ref) (ptr\<lparr>rv_Offset := (rb_labels s ! unat i - rr_callingIndex ref) AND m\<rparr>) s))"

definition resolveRelatives :: "rawBuildState \<Rightarrow> (raw_error + unit) \<times> rawBuildState" where
  "resolveRelatives s = loop_st resolveRelative (rb_labelRefs s) s"

section \<open>Copies\<close>

text \<open>\<^verbatim>\<open>cloneRawOp\<close> of an issued operation: the views are read through the store.\<close>

definition cloneRawOp :: "rawBuildState \<Rightarrow> IssuedOp \<Rightarrow> RawOp" where
  "cloneRawOp s op =
     \<lparr>ro_SeqNum = io_SeqNum op, ro_OpCode = io_OpCode op,
      ro_Output = map_option (\<lambda>(a, i). rb_arrays s a ! i) (io_Output op),
      ro_Inputs = (case io_Inputs op of None \<Rightarrow> []
        | Some sl \<Rightarrow> take (sl_len sl) (drop (sl_start sl) (rb_arrays s (sl_array sl))))\<rparr>"

definition cloneRawOps :: "rawBuildState \<Rightarrow> RawOp list" where
  "cloneRawOps s = map (cloneRawOp s) (rb_issued s)"

end
