(* ===== verification/Sla_Discache.thy ===== *)
theory Sla_Discache
  imports Sla_Walker Sla_RawBuild
begin

text \<open>
  \<^verbatim>\<open>pkg/sla/discache.go\<close>: the disassembly cache. It keeps parser contexts by address (an explicit
  table and a pool of recycled contexts behind a hash table), the emitted raw operations by
  address, and the staging state of one raw build. Contexts are references into a store that a
  \<open>cache_world\<close> carries with the heap of construct states. The mutex (every method runs to its end)
  and the guards against a nil receiver are not modelled: a cache is a value.
\<close>

record cache_world =
  cw_ctx :: ctx_store
  cw_next :: ctx_ref
  cw_heap :: state_heap

record DisassemblyCache =
  dc_contexts :: "Address \<Rightarrow> ctx_ref option"
  dc_rawOps :: "Address \<Rightarrow> RawOp list option"
  dc_rawBuild :: "rawBuildState option"
  dc_rawBuildAddr :: Address
  dc_rawBuildActive :: bool
  dc_parserList :: "ctx_ref option list"
  dc_parserHash :: "ctx_ref option list"
  dc_parserNext :: nat
  dc_parserMask :: u64
  dc_pinnedCtx :: "ctx_ref option"

abbreviation "defaultParserContextReuse \<equiv> (8 :: int)"
abbreviation "defaultParserContextWindow \<equiv> (256 :: int)"

section \<open>Parser contexts\<close>

text \<open>The doubling loop of \<^verbatim>\<open>roundUpPow2\<close> with at most \<open>fuel\<close> iterations; \<^const>\<open>None\<close> when they do not suffice.\<close>

fun doubleUntil :: "nat \<Rightarrow> int \<Rightarrow> int \<Rightarrow> int option" where
  "doubleUntil fuel v n =
     (if n < v then (case fuel of 0 \<Rightarrow> None | Suc fuel \<Rightarrow> doubleUntil fuel v (i64 (push_bit 1 n))) else Some n)"

declare doubleUntil.simps [simp del]

definition roundUpPow2 :: "int \<Rightarrow> int option" where
  "roundUpPow2 v = (if v \<le> 1 then Some 1 else doubleUntil 64 v 1)"

definition initializeParserReuseLocked :: "int \<Rightarrow> int \<Rightarrow> DisassemblyCache \<Rightarrow> DisassemblyCache option" where
  "initializeParserReuseLocked reuse window c =
     (let reuse = (if reuse < 1 then 1 else reuse);
          window = (if window < 1 then 1 else window)
      in case roundUpPow2 window of
           None \<Rightarrow> None
         | Some window \<Rightarrow> Some (c\<lparr>dc_parserList := replicate (nat reuse) None, dc_parserHash := replicate (nat window) None,
             dc_parserMask := u64_of (window - 1), dc_parserNext := 0\<rparr>))"

definition emptyDisassemblyCache :: DisassemblyCache where
  "emptyDisassemblyCache = \<lparr>dc_contexts = (\<lambda>_. None), dc_rawOps = (\<lambda>_. None), dc_rawBuild = None,
     dc_rawBuildAddr = invalidAddress, dc_rawBuildActive = False, dc_parserList = [], dc_parserHash = [],
     dc_parserNext = 0, dc_parserMask = 0, dc_pinnedCtx = None\<rparr>"

definition NewDisassemblyCache :: "DisassemblyCache option" where
  "NewDisassemblyCache = initializeParserReuseLocked defaultParserContextReuse defaultParserContextWindow emptyDisassemblyCache"

definition SetParserContext :: "Address \<Rightarrow> ctx_ref \<Rightarrow> DisassemblyCache \<Rightarrow> DisassemblyCache" where
  "SetParserContext addr ctx c = c\<lparr>dc_contexts := (dc_contexts c)(addr := Some ctx)\<rparr>"

definition hashIndexLocked :: "DisassemblyCache \<Rightarrow> Address \<Rightarrow> u64" where
  "hashIndexLocked c addr = (if dc_parserHash c = [] then 0 else ad_Offset addr AND dc_parserMask c)"

definition parserContextFromHashLocked :: "cache_world \<Rightarrow> DisassemblyCache \<Rightarrow> Address \<Rightarrow> ctx_ref option" where
  "parserContextFromHashLocked w c addr =
     (if dc_parserHash c = [] then None
      else case dc_parserHash c ! unat (hashIndexLocked c addr) of
        None \<Rightarrow> None
      | Some candidate \<Rightarrow> if pc_Addr (cw_ctx w candidate) \<noteq> addr then None else Some candidate)"

definition GetParserContext :: "cache_world \<Rightarrow> DisassemblyCache \<Rightarrow> Address \<Rightarrow> ctx_ref option" where
  "GetParserContext w c addr =
     (case dc_contexts c addr of Some ctx \<Rightarrow> Some ctx | None \<Rightarrow> parserContextFromHashLocked w c addr)"

definition deleteParserContextFromHashLocked :: "cache_world \<Rightarrow> Address \<Rightarrow> DisassemblyCache \<Rightarrow> bool \<times> DisassemblyCache" where
  "deleteParserContextFromHashLocked w addr c =
     (case parserContextFromHashLocked w c addr of
        None \<Rightarrow> (False, c)
      | Some _ \<Rightarrow> (True, c\<lparr>dc_parserHash := (dc_parserHash c)[unat (hashIndexLocked c addr) := None]\<rparr>))"

definition DeleteParserContext :: "cache_world \<Rightarrow> Address \<Rightarrow> DisassemblyCache \<Rightarrow> bool \<times> DisassemblyCache" where
  "DeleteParserContext w addr c =
     (let okMap = (dc_contexts c addr \<noteq> None);
          (okHash, c) = deleteParserContextFromHashLocked w addr (c\<lparr>dc_contexts := (dc_contexts c)(addr := None)\<rparr>)
      in (okMap \<or> okHash, c))"

definition HasParserContext :: "cache_world \<Rightarrow> DisassemblyCache \<Rightarrow> Address \<Rightarrow> bool" where
  "HasParserContext w c addr = (GetParserContext w c addr \<noteq> None)"

definition upd_ctx :: "ctx_ref \<Rightarrow> ParserContext \<Rightarrow> cache_world \<Rightarrow> cache_world" where
  "upd_ctx r ctx w = w\<lparr>cw_ctx := (cw_ctx w)(r := ctx)\<rparr>"

text \<open>\<^verbatim>\<open>if ctx.GetConstSpace() == nil && constSpace != nil { ctx.Initialize(constSpace) }\<close>\<close>

definition initializeOnce :: "ctx_ref \<Rightarrow> space_ref option \<Rightarrow> cache_world \<Rightarrow> cache_world" where
  "initializeOnce r constSpace w =
     (if pc_ConstSpace (cw_ctx w r) = None \<and> constSpace \<noteq> None then
        (let (ctx, h) = ParserContext_Initialize (cw_ctx w r) constSpace (cw_heap w)
         in (upd_ctx r ctx w)\<lparr>cw_heap := h\<rparr>)
      else w)"

fun skipPinned :: "DisassemblyCache \<Rightarrow> nat \<Rightarrow> nat \<Rightarrow> nat" where
  "skipPinned c 0 slot = slot"
| "skipPinned c (Suc n) slot =
     (if dc_pinnedCtx c = None \<or> dc_parserList c ! slot \<noteq> dc_pinnedCtx c then slot
      else skipPinned c n (if Suc slot \<ge> length (dc_parserList c) then 0 else Suc slot))"

definition nextReuseSlotLocked :: "DisassemblyCache \<Rightarrow> nat \<times> DisassemblyCache" where
  "nextReuseSlotLocked c =
     (let slot = skipPinned c (length (dc_parserList c)) (dc_parserNext c)
      in (slot, c\<lparr>dc_parserNext := (if Suc slot \<ge> length (dc_parserList c) then 0 else Suc slot)\<rparr>))"

text \<open>A recycled context: new address, state and tree; the rest is kept.\<close>

definition recycleContext :: "ctx_ref \<Rightarrow> Address \<Rightarrow> space_ref option \<Rightarrow> cache_world \<Rightarrow> cache_world" where
  "recycleContext r addr constSpace w =
     (let ctx = SetParserState (SetN2addr (SetAddr (cw_ctx w r) addr) invalidAddress) ParseStateUninitialized;
          (base, h) = NewConstructState (cw_heap w)
      in initializeOnce r constSpace ((upd_ctx r (ctx\<lparr>pc_BaseState := Some base\<rparr>) w)\<lparr>cw_heap := h\<rparr>))"

definition allocContext :: "Address \<Rightarrow> space_ref option \<Rightarrow> cache_world \<Rightarrow> ctx_ref \<times> cache_world" where
  "allocContext addr constSpace w =
     (let (ctx, h) = NewParserContext addr constSpace (cw_heap w)
      in (cw_next w, (upd_ctx (cw_next w) ctx w)\<lparr>cw_next := Suc (cw_next w), cw_heap := h\<rparr>))"

text \<open>The lazy initialization of the pool always ends: the default window is below the bound of \<open>roundUpPow2\<close>.\<close>

definition ensureParserReuse :: "DisassemblyCache \<Rightarrow> DisassemblyCache" where
  "ensureParserReuse c =
     (if dc_parserList c = [] \<or> dc_parserHash c = [] then
        (case initializeParserReuseLocked defaultParserContextReuse defaultParserContextWindow c of None \<Rightarrow> c | Some c \<Rightarrow> c)
      else c)"

definition ObtainParserContext :: "Address \<Rightarrow> space_ref option \<Rightarrow> DisassemblyCache \<times> cache_world \<Rightarrow> ctx_ref \<times> DisassemblyCache \<times> cache_world" where
  "ObtainParserContext addr constSpace cw =
     (case cw of (c, w) \<Rightarrow>
      case dc_contexts c addr of
        Some ctx \<Rightarrow> (ctx, c, initializeOnce ctx constSpace w)
      | None \<Rightarrow>
          let c = ensureParserReuse c in
          case parserContextFromHashLocked w c addr of
            Some hit \<Rightarrow> (hit, c, initializeOnce hit constSpace w)
          | None \<Rightarrow>
              let (slot, c) = nextReuseSlotLocked c;
                  (ctx, w) = (case dc_parserList c ! slot of
                      None \<Rightarrow> allocContext addr constSpace w
                    | Some r \<Rightarrow> (r, recycleContext r addr constSpace w))
              in (ctx, c\<lparr>dc_parserList := (dc_parserList c)[slot := Some ctx],
                         dc_parserHash := (dc_parserHash c)[unat (hashIndexLocked c addr) := Some ctx]\<rparr>, w))"

definition PinContext :: "ctx_ref option \<Rightarrow> DisassemblyCache \<Rightarrow> ctx_ref option \<times> DisassemblyCache" where
  "PinContext ctx c = (dc_pinnedCtx c, c\<lparr>dc_pinnedCtx := ctx\<rparr>)"

definition UnpinContext :: "ctx_ref option \<Rightarrow> DisassemblyCache \<Rightarrow> DisassemblyCache" where
  "UnpinContext prev c = c\<lparr>dc_pinnedCtx := prev\<rparr>"

definition Cache_SetParserState :: "Address \<Rightarrow> ParseState \<Rightarrow> DisassemblyCache \<Rightarrow> cache_world \<Rightarrow> cache_world option" where
  "Cache_SetParserState addr state c w =
     (case GetParserContext w c addr of
        None \<Rightarrow> None
      | Some r \<Rightarrow> Some (upd_ctx r (SetParserState (cw_ctx w r) state) w))"

definition GetPcodeParserContext :: "cache_world \<Rightarrow> DisassemblyCache \<Rightarrow> Address \<Rightarrow> ctx_ref option" where
  "GetPcodeParserContext w c addr =
     (case GetParserContext w c addr of
        None \<Rightarrow> None
      | Some r \<Rightarrow> if pc_ParserState (cw_ctx w r) \<noteq> ParseStatePcode then None else Some r)"

definition HasPcodeParserContext :: "cache_world \<Rightarrow> DisassemblyCache \<Rightarrow> Address \<Rightarrow> bool" where
  "HasPcodeParserContext w c addr = (GetPcodeParserContext w c addr \<noteq> None)"

definition RequirePcodeParserContext :: "cache_world \<Rightarrow> DisassemblyCache \<Rightarrow> Address \<Rightarrow> unit + ctx_ref" where
  "RequirePcodeParserContext w c addr = (case GetPcodeParserContext w c addr of None \<Rightarrow> Inl () | Some r \<Rightarrow> Inr r)"

section \<open>Emitted operations\<close>

definition SetRawOps :: "Address \<Rightarrow> RawOp list \<Rightarrow> DisassemblyCache \<Rightarrow> DisassemblyCache" where
  "SetRawOps addr ops c = c\<lparr>dc_rawOps := (dc_rawOps c)(addr := Some ops)\<rparr>"

definition GetRawOps :: "DisassemblyCache \<Rightarrow> Address \<Rightarrow> RawOp list option" where
  "GetRawOps c addr = dc_rawOps c addr"

definition DeleteRawOps :: "Address \<Rightarrow> DisassemblyCache \<Rightarrow> bool \<times> DisassemblyCache" where
  "DeleteRawOps addr c = (dc_rawOps c addr \<noteq> None, c\<lparr>dc_rawOps := (dc_rawOps c)(addr := None)\<rparr>)"

section \<open>Raw builds\<close>

definition activateRawBuildLocked :: "Address \<Rightarrow> rawBuildState \<Rightarrow> DisassemblyCache \<Rightarrow> DisassemblyCache" where
  "activateRawBuildLocked addr s c = c\<lparr>dc_rawBuild := Some s, dc_rawBuildAddr := addr, dc_rawBuildActive := True\<rparr>"

definition deactivateRawBuildLocked :: "rawBuildState \<Rightarrow> DisassemblyCache \<Rightarrow> DisassemblyCache" where
  "deactivateRawBuildLocked s c =
     c\<lparr>dc_rawBuild := Some (rb_reset 0 s), dc_rawBuildActive := False, dc_rawBuildAddr := invalidAddress\<rparr>"

definition rawBuildStateLocked :: "DisassemblyCache \<Rightarrow> Address \<Rightarrow> raw_error + rawBuildState" where
  "rawBuildStateLocked c addr =
     (if \<not> dc_rawBuildActive c then Inl ErrRawBuildMissing
      else case dc_rawBuild c of
        None \<Rightarrow> Inl ErrRawBuildMissing
      | Some s \<Rightarrow> if dc_rawBuildAddr c \<noteq> addr then Inl ErrRawBuildMissing else Inr s)"

text \<open>An operation on the staging state of the build for an address, which lives in the cache.\<close>

definition on_build :: "Address \<Rightarrow> (rawBuildState \<Rightarrow> (raw_error + 'a) \<times> rawBuildState) \<Rightarrow> DisassemblyCache
    \<Rightarrow> (raw_error + 'a) \<times> DisassemblyCache" where
  "on_build addr f c =
     (case rawBuildStateLocked c addr of
        Inl e \<Rightarrow> (Inl e, c)
      | Inr s \<Rightarrow> (case f s of (r, s) \<Rightarrow> (r, c\<lparr>dc_rawBuild := Some s\<rparr>)))"

definition BeginRawBuild :: "space_store \<Rightarrow> Address \<Rightarrow> int \<Rightarrow> DisassemblyCache \<Rightarrow> (raw_error + unit) \<times> DisassemblyCache" where
  "BeginRawBuild \<sigma> addr capacity c =
     (case Address_Validate \<sigma> addr of
        Some e \<Rightarrow> (Inl (ErrRawAddress e), c)
      | None \<Rightarrow>
          let capacity = (if capacity < 0 then 0 else capacity);
              s = (case dc_rawBuild c of None \<Rightarrow> newRawBuildState capacity | Some s \<Rightarrow> rb_reset capacity s);
              c = activateRawBuildLocked addr s c
          in (Inr (), c\<lparr>dc_rawOps := (dc_rawOps c)(addr := None)\<rparr>))"

definition RawBuildLength :: "DisassemblyCache \<Rightarrow> Address \<Rightarrow> raw_error + u64" where
  "RawBuildLength c addr =
     (case rawBuildStateLocked c addr of Inl e \<Rightarrow> Inl e | Inr s \<Rightarrow> Inr (of_nat (length (rb_issued s))))"

definition addLabelBase :: "u64 \<Rightarrow> u64 \<Rightarrow> raw_error + u64" where
  "addLabelBase labelID labelBase = (if - 1 - labelBase < labelID then Inl ErrLabelOverflow else Inr (labelBase + labelID))"

text \<open>The template has a relative branch target as first input.\<close>

definition hasRelative :: "OpTplBoundary \<Rightarrow> bool" where
  "hasRelative source = (case ot_Inputs source of [] \<Rightarrow> False | v # _ \<Rightarrow> cb_Kind (vt_Offset v) = ConstKindRelative)"

definition relativeLabel :: "OpTplBoundary \<Rightarrow> RawOp list \<Rightarrow> u64 \<Rightarrow> raw_error + u64" where
  "relativeLabel source lowered labelBase =
     (if \<not> hasRelative source then Inr 0
      else case lowered of
        [] \<Rightarrow> Inl ErrNoRawOps
      | op # _ \<Rightarrow>
          if ro_Inputs op = [] then Inl ErrNoFirstInput
          else addLabelBase (cb_Value (vt_Offset (hd (ot_Inputs source)))) labelBase)"

text \<open>The part of \<^verbatim>\<open>AppendRawBuild\<close> under the lock.\<close>

definition appendLowered :: "OpTplBoundary \<Rightarrow> RawOp list \<Rightarrow> u64 \<Rightarrow> rawBuildState \<Rightarrow> (raw_error + unit) \<times> rawBuildState" where
  "appendLowered source lowered labelRefID s =
     (let firstOpIndex = length (rb_issued s) in
      then_st (loop_st appendIssued lowered s) (\<lambda>_ s.
        let s = markUnresolved s in
        if \<not> hasRelative source then (Inr (), s)
        else if firstOpIndex \<ge> length (rb_refs s) then (Inl ErrFirstOpIndex, s)
        else
          let firstRef = rb_refs s ! firstOpIndex; slot = ir_inputStart firstRef in
          if ir_inputCount firstRef \<le> 0 then (Inl ErrNoFirstInput, s)
          else if slot < 0 \<or> slot \<ge> pool_len s then (Inl ErrSlotRange, s)
          else then_st (addLabelRef slot (of_nat firstOpIndex) s) (\<lambda>_ s.
            (Inr (), pool_set slot ((pool_get s slot)\<lparr>rv_Offset := labelRefID\<rparr>) s))))"

definition AppendRawBuild :: "Address \<Rightarrow> OpTplBoundary \<Rightarrow> RawOp list \<Rightarrow> u64 \<Rightarrow> DisassemblyCache \<Rightarrow> (raw_error + unit) \<times> DisassemblyCache" where
  "AppendRawBuild addr source lowered labelBase c =
     (case relativeLabel source lowered labelBase of
        Inl e \<Rightarrow> (Inl e, c)
      | Inr labelRefID \<Rightarrow> on_build addr (appendLowered source lowered labelRefID) c)"

definition AddRawBuildLabel :: "Address \<Rightarrow> u64 \<Rightarrow> DisassemblyCache \<Rightarrow> (raw_error + unit) \<times> DisassemblyCache" where
  "AddRawBuildLabel addr labelID =
     on_build addr (\<lambda>s. then_st (addLabel labelID (of_nat (length (rb_issued s))) s) (\<lambda>_ s. (Inr (), markUnresolved s)))"

definition resolveRawBuildLocked :: "rawBuildState \<Rightarrow> (raw_error + unit) \<times> rawBuildState" where
  "resolveRawBuildLocked s =
     (if rb_resolveDone s then (Inr (), s)
      else then_st (resolveRelatives s) (\<lambda>_ s. (Inr (), s\<lparr>rb_resolveDone := True\<rparr>)))"

definition ResolveRawBuild :: "Address \<Rightarrow> DisassemblyCache \<Rightarrow> (raw_error + unit) \<times> DisassemblyCache" where
  "ResolveRawBuild addr = on_build addr resolveRawBuildLocked"

text \<open>
  The sink is a function on its own state; the operations it is given are copies. A failure of the
  sink leaves the staging state as it was.
\<close>

definition EmitRawBuildTo :: "('k \<Rightarrow> RawOp \<Rightarrow> unit + 'k) \<Rightarrow> 'k \<Rightarrow> Address \<Rightarrow> DisassemblyCache \<Rightarrow> (raw_error + 'k) \<times> DisassemblyCache" where
  "EmitRawBuildTo sink k addr c =
     (case rawBuildStateLocked c addr of
        Inl e \<Rightarrow> (Inl e, c)
      | Inr s \<Rightarrow>
          if \<not> rb_resolveDone s then (Inl ErrRawBuildUnresolved, c)
          else case loop_step sink k (cloneRawOps s) of
            Inl _ \<Rightarrow> (Inl ErrSink, c)
          | Inr k \<Rightarrow> (Inr k, deactivateRawBuildLocked s (c\<lparr>dc_rawOps := (dc_rawOps c)(addr := Some (cloneRawOps s))\<rparr>)))"

definition CancelRawBuild :: "Address \<Rightarrow> DisassemblyCache \<Rightarrow> bool \<times> DisassemblyCache" where
  "CancelRawBuild addr c =
     (case rawBuildStateLocked c addr of Inl _ \<Rightarrow> (False, c) | Inr s \<Rightarrow> (True, deactivateRawBuildLocked s c))"

end
