(* ===== verification/Sla_RawLaws.thy ===== *)
theory Sla_RawLaws
  imports Sla_Discache
begin

text \<open>
  What a raw build emits. The staging state is a layout of a list of operations: the pool is the
  concatenation of their varnodes and every view points at its own part of the current pool, also
  after the pool has moved. A build from \<^verbatim>\<open>BeginRawBuild\<close> to \<^verbatim>\<open>EmitRawBuildTo\<close> then refines an abstract
  builder that keeps the operations and the label of each relative branch as values.
\<close>

section \<open>Layout of the pool\<close>

definition flat :: "RawOp \<Rightarrow> RawVarnode list" where
  "flat op = ro_Inputs op @ (case ro_Output op of None \<Rightarrow> [] | Some v \<Rightarrow> [v])"

definition pool :: "RawOp list \<Rightarrow> RawVarnode list" where
  "pool vs = concat (map flat vs)"

definition ref_at :: "nat \<Rightarrow> RawOp \<Rightarrow> rawBuildIssuedRef" where
  "ref_at p op = \<lparr>ir_inputStart = int p, ir_inputCount = int (length (ro_Inputs op)), ir_hasOutput = (ro_Output op \<noteq> None),
     ir_outputSlot = (if ro_Output op \<noteq> None then int (p + length (ro_Inputs op)) else 0)\<rparr>"

definition issued_at :: "nat \<Rightarrow> nat \<Rightarrow> RawOp \<Rightarrow> IssuedOp" where
  "issued_at a p op = \<lparr>io_SeqNum = ro_SeqNum op, io_OpCode = ro_OpCode op,
     io_Output = (if ro_Output op \<noteq> None then Some (a, p + length (ro_Inputs op)) else None),
     io_Inputs = (if ro_Inputs op \<noteq> [] then Some \<lparr>sl_array = a, sl_start = p, sl_len = length (ro_Inputs op)\<rparr> else None)\<rparr>"

primrec refs_of :: "nat \<Rightarrow> RawOp list \<Rightarrow> rawBuildIssuedRef list" where
  "refs_of p [] = []"
| "refs_of p (op # ops) = ref_at p op # refs_of (p + length (flat op)) ops"

primrec issued_of :: "nat \<Rightarrow> nat \<Rightarrow> RawOp list \<Rightarrow> IssuedOp list" where
  "issued_of a p [] = []"
| "issued_of a p (op # ops) = issued_at a p op # issued_of a (p + length (flat op)) ops"

definition start :: "RawOp list \<Rightarrow> nat \<Rightarrow> nat" where
  "start vs k = length (pool (take k vs))"

lemma pool_simps [simp]: "pool [] = []" "pool (op # ops) = flat op @ pool ops" "pool (xs @ ys) = pool xs @ pool ys"
  by (simp_all add: pool_def)

lemma length_layout [simp]: "length (refs_of p vs) = length vs" "length (issued_of a p vs) = length vs"
  by (induction vs arbitrary: p) simp_all

lemma layout_append:
  "refs_of p (xs @ ys) = refs_of p xs @ refs_of (p + length (pool xs)) ys"
  "issued_of a p (xs @ ys) = issued_of a p xs @ issued_of a (p + length (pool xs)) ys"
  by (induction xs arbitrary: p) (simp_all add: add.assoc)

lemma layout_nth:
  assumes "k < length vs"
  shows "refs_of p vs ! k = ref_at (p + start vs k) (vs ! k)" "issued_of a p vs ! k = issued_at a (p + start vs k) (vs ! k)"
proof -
  have vs: "vs = take k vs @ vs ! k # drop (Suc k) vs" using assms by (rule id_take_nth_drop)
  have "refs_of p vs ! k = (refs_of p (take k vs) @ refs_of (p + start vs k) (vs ! k # drop (Suc k) vs)) ! k"
    by (subst vs) (simp add: layout_append start_def)
  then show "refs_of p vs ! k = ref_at (p + start vs k) (vs ! k)" using assms by (simp add: nth_append)
  have "issued_of a p vs ! k = (issued_of a p (take k vs) @ issued_of a (p + start vs k) (vs ! k # drop (Suc k) vs)) ! k"
    by (subst vs) (simp add: layout_append start_def)
  then show "issued_of a p vs ! k = issued_at a (p + start vs k) (vs ! k)" using assms by (simp add: nth_append)
qed

lemma issued_of_no_varnodes: "pool vs = [] \<Longrightarrow> issued_of a p vs = issued_of b q vs"
  by (induction vs arbitrary: p q) (auto simp: flat_def issued_at_def split: option.splits)

lemma start_flat_le: "k < length vs \<Longrightarrow> start vs k + length (flat (vs ! k)) \<le> length (pool vs)"
proof -
  assume "k < length vs"
  then have "pool vs = pool (take k vs) @ flat (vs ! k) @ pool (drop (Suc k) vs)"
    by (metis id_take_nth_drop pool_simps(2) pool_simps(3))
  then show ?thesis by (simp add: start_def)
qed

lemma pool_at: "k < length vs \<Longrightarrow> ro_Inputs (vs ! k) \<noteq> [] \<Longrightarrow> pool vs ! start vs k = hd (ro_Inputs (vs ! k))"
proof -
  assume k: "k < length vs" and ne: "ro_Inputs (vs ! k) \<noteq> []"
  have "pool vs = pool (take k vs) @ flat (vs ! k) @ pool (drop (Suc k) vs)"
    using k by (metis id_take_nth_drop pool_simps(2) pool_simps(3))
  then show ?thesis using ne by (cases "ro_Inputs (vs ! k)") (simp_all add: start_def flat_def nth_append)
qed

text \<open>Reading an issued operation through its views.\<close>

lemma clone_issued_at:
  assumes "rb_arrays s a = pre @ flat op @ post"
  shows "cloneRawOp s (issued_at a (length pre) op) = op"
  using assms by (cases op) (auto simp: cloneRawOp_def issued_at_def flat_def nth_append split: option.splits)

lemma clone_issued_of:
  "rb_arrays s a = pre @ pool vs @ post \<Longrightarrow> map (cloneRawOp s) (issued_of a (length pre) vs) = vs"
proof (induction vs arbitrary: pre)
  case (Cons op vs)
  then show ?case using Cons.IH [of "pre @ flat op"] clone_issued_at [of s a pre op "pool vs @ post"] by simp
qed simp

section \<open>The staging state is a layout\<close>

definition layout :: "RawOp list \<Rightarrow> rawBuildState \<Rightarrow> bool" where
  "layout vs s \<longleftrightarrow>
     sl_start (rb_varnodes s) = 0 \<and> sl_len (rb_varnodes s) = length (pool vs)
     \<and> length (pool vs) \<le> length (rb_arrays s (sl_array (rb_varnodes s)))
     \<and> length (rb_arrays s (sl_array (rb_varnodes s))) \<le> 2 ^ 62
     \<and> take (length (pool vs)) (rb_arrays s (sl_array (rb_varnodes s))) = pool vs
     \<and> rb_refs s = refs_of 0 vs \<and> rb_issued s = issued_of (sl_array (rb_varnodes s)) 0 vs"

lemma layout_clone: "layout vs s \<Longrightarrow> cloneRawOps s = vs"
proof -
  assume l: "layout vs s"
  then have "rb_arrays s (sl_array (rb_varnodes s)) = [] @ pool vs @ drop (length (pool vs)) (rb_arrays s (sl_array (rb_varnodes s)))"
    unfolding layout_def by (metis append_Nil append_take_drop_id)
  then show ?thesis using l clone_issued_of [of s "sl_array (rb_varnodes s)" "[]" vs]
    unfolding layout_def cloneRawOps_def by simp
qed

text \<open>Operations that keep the fields of the layout.\<close>

lemma layout_frame [simp]:
  "layout vs (s\<lparr>rb_labels := ls\<rparr>) = layout vs s" "layout vs (s\<lparr>rb_labelRefs := rs\<rparr>) = layout vs s"
  "layout vs (s\<lparr>rb_resolveDone := b\<rparr>) = layout vs s"
  by (simp_all add: layout_def)

definition same_labels :: "rawBuildState \<Rightarrow> rawBuildState \<Rightarrow> bool" where
  "same_labels s t \<longleftrightarrow> rb_labels t = rb_labels s \<and> rb_labelRefs t = rb_labelRefs s \<and> rb_resolveDone t = rb_resolveDone s"

section \<open>Growth of the pool\<close>

text \<open>After \<open>k\<close> iterations the first \<open>k\<close> operations point into the new array.\<close>

lemma rebind_step:
  assumes "layout vs s" "k < length vs" "sl_array (rb_varnodes t) = b" "sl_start (rb_varnodes t) = 0"
    "sl_len (rb_varnodes t) = length (pool vs)" "rb_refs t = refs_of 0 vs"
    "rb_issued t = issued_of b 0 (take k vs) @ drop k (issued_of a 0 vs)"
  shows "rebindIssued k t = (Inr (), t\<lparr>rb_issued := issued_of b 0 (take (Suc k) vs) @ drop (Suc k) (issued_of a 0 vs)\<rparr>)"
proof -
  let ?op = "vs ! k"
  have big: "length (pool vs) \<le> 2 ^ 62" using assms(1) unfolding layout_def by linarith
  have le: "start vs k + length (flat ?op) \<le> length (pool vs)" by (rule start_flat_le [OF assms(2)])
  then have le': "start vs k + length (ro_Inputs ?op) \<le> length (pool vs)" "ro_Output ?op \<noteq> None \<Longrightarrow> start vs k + length (ro_Inputs ?op) < length (pool vs)"
    by (auto simp: flat_def)
  have end0: "i64 (int (start vs k) + int (length (ro_Inputs ?op))) = int (start vs k) + int (length (ro_Inputs ?op))"
    using le'(1) big by (intro i64_id) (simp_all add: fits64_def)
  have ref: "rb_refs t ! k = ref_at (start vs k) ?op" using layout_nth(1) [OF assms(2), of 0] assms(6) by simp
  have old: "rb_issued t ! k = issued_at a (start vs k) ?op"
    using layout_nth(2) [OF assms(2), of a 0] assms(2,7) by (simp add: nth_append)
  have upd: "(rb_issued t)[k := x] = issued_of b 0 (take k vs) @ x # drop (Suc k) (issued_of a 0 vs)" for x
    using assms(2) unfolding assms(7) by (simp add: list_update_append Cons_nth_drop_Suc [symmetric])
  have new: "issued_of b 0 (take (Suc k) vs) = issued_of b 0 (take k vs) @ [issued_at b (start vs k) ?op]"
    using assms(2) by (simp add: take_Suc_conv_app_nth layout_append start_def)
  have len: "k < length (rb_issued t)" using assms(2) unfolding assms(7) by simp
  have "rebindIssued k t = (Inr (), t\<lparr>rb_issued := (rb_issued t)[k := issued_at b (start vs k) ?op]\<rparr>)"
  proof (cases "ro_Inputs ?op = []"; cases "ro_Output ?op = None")
    assume "ro_Inputs ?op = []" "ro_Output ?op = None"
    then show ?thesis by (simp add: rebindIssued_def Let_def ref ref_at_def old issued_at_def)
  next
    assume "ro_Inputs ?op = []" "ro_Output ?op \<noteq> None"
    then show ?thesis using le' assms(3-5)
      by (simp add: rebindIssued_def Let_def ref ref_at_def pool_len_def old issued_at_def)
  next
    assume "ro_Inputs ?op \<noteq> []" "ro_Output ?op = None"
    then show ?thesis using le' end0 assms(3-5) len
      by (simp add: rebindIssued_def Let_def ref ref_at_def pool_len_def old issued_at_def)
  next
    assume "ro_Inputs ?op \<noteq> []" "ro_Output ?op \<noteq> None"
    then show ?thesis using le' end0 assms(3-5) len
      by (simp add: rebindIssued_def Let_def ref ref_at_def pool_len_def old issued_at_def nat_add_distrib)
  qed
  then show ?thesis unfolding upd new by simp
qed

lemma rebind_loop:
  assumes "layout vs s" "n \<le> length vs" "sl_array (rb_varnodes t) = b" "sl_start (rb_varnodes t) = 0"
    "sl_len (rb_varnodes t) = length (pool vs)" "rb_refs t = refs_of 0 vs" "rb_issued t = issued_of a 0 vs"
  shows "loop_st rebindIssued [0..<n] t = (Inr (), t\<lparr>rb_issued := issued_of b 0 (take n vs) @ drop n (issued_of a 0 vs)\<rparr>)"
  using assms(2)
proof (induction n)
  case 0
  then show ?case using assms(7) by simp
next
  case (Suc n)
  then have "rebindIssued n (t\<lparr>rb_issued := issued_of b 0 (take n vs) @ drop n (issued_of a 0 vs)\<rparr>) =
      (Inr (), t\<lparr>rb_issued := issued_of b 0 (take (Suc n) vs) @ drop (Suc n) (issued_of a 0 vs)\<rparr>)"
    using rebind_step [OF assms(1), of n "t\<lparr>rb_issued := issued_of b 0 (take n vs) @ drop n (issued_of a 0 vs)\<rparr>" b a] assms by simp
  then show ?case using Suc by (simp add: loop_st_append)
qed

lemma ensure_layout:
  assumes l: "layout vs s" and "0 < extra" and room: "int (length (pool vs)) + extra \<le> 2 ^ 62 - 100"
  shows "\<exists>t. ensureVarnodeCapacity extra s = (Inr (), t) \<and> layout vs t \<and> same_labels s t
    \<and> int (length (pool vs)) + extra \<le> int (length (rb_arrays t (sl_array (rb_varnodes t))))"
proof -
  let ?a = "sl_array (rb_varnodes s)" and ?n = "length (pool vs)"
  have s: "sl_start (rb_varnodes s) = 0" "sl_len (rb_varnodes s) = ?n" "?n \<le> length (rb_arrays s ?a)"
    "length (rb_arrays s ?a) \<le> 2 ^ 62" "take ?n (rb_arrays s ?a) = pool vs" "rb_refs s = refs_of 0 vs"
    "rb_issued s = issued_of ?a 0 vs"
    using l unfolding layout_def by blast+
  have cap: "pool_cap s = int (length (rb_arrays s ?a))" "pool_len s = int ?n" using s by (simp_all add: pool_cap_def pool_len_def)
  have need: "i64 (int ?n + extra) = int ?n + extra" using room assms(2) by (intro i64_id) simp_all
  show ?thesis
  proof (cases "int ?n + extra \<le> int (length (rb_arrays s ?a))")
    case True
    then have "ensureVarnodeCapacity extra s = (Inr (), s)" using assms(2) by (simp add: ensureVarnodeCapacity_def cap need)
    then show ?thesis using l True by (auto simp: same_labels_def)
  next
    case False
    define newCap where "newCap = max (int (length (rb_arrays s ?a)) + 100) (int ?n + extra)"
    define arr where "arr = pool vs @ replicate (nat newCap - ?n) zeroVarnode"
    define t where "t = s\<lparr>rb_arrays := (rb_arrays s)(rb_next s := arr), rb_next := Suc (rb_next s),
      rb_varnodes := \<lparr>sl_array = rb_next s, sl_start = 0, sl_len = ?n\<rparr>\<rparr>"
    have bound: "newCap \<le> 2 ^ 62" using False room by (simp add: newCap_def)
    have inc: "i64 (int ?n + extra - int (length (rb_arrays s ?a))) = int ?n + extra - int (length (rb_arrays s ?a))"
      using False room by (intro i64_id) simp_all
    have grow: "i64 (int (length (rb_arrays s ?a)) + x) = int (length (rb_arrays s ?a)) + x"
      if "0 \<le> x" "x \<le> 100 \<or> x \<le> int ?n + extra - int (length (rb_arrays s ?a))" for x
      using that False room s(4) by (intro i64_id) auto
    have "ensureVarnodeCapacity extra s = rebindIssuedAfterExpand (int ?n) t"
      using assms(2) False
      by (simp add: ensureVarnodeCapacity_def cap need inc Let_def new_array_def s grow t_def arr_def newCap_def max_def)
    moreover have "rebindIssuedAfterExpand (int ?n) t = (Inr (), t\<lparr>rb_issued := issued_of (rb_next s) 0 vs\<rparr>)"
    proof (cases "?n = 0 \<or> vs = []")
      case True
      then have "rb_issued t = issued_of (rb_next s) 0 vs" using issued_of_no_varnodes [of vs] s(7) by (auto simp: t_def)
      then show ?thesis using True s by (auto simp: rebindIssuedAfterExpand_def t_def)
    next
      case False
      have t: "rb_issued t = issued_of ?a 0 vs" "rb_refs t = refs_of 0 vs"
        "rb_varnodes t = \<lparr>sl_array = rb_next s, sl_start = 0, sl_len = ?n\<rparr>" using s by (simp_all add: t_def)
      have "loop_st rebindIssued [0..<length vs] t = (Inr (), t\<lparr>rb_issued := issued_of (rb_next s) 0 vs\<rparr>)"
        using rebind_loop [OF l, of "length vs" t "rb_next s" ?a] t by simp
      moreover have "issued_of ?a 0 vs \<noteq> []" using False length_layout(2) [of ?a 0 vs] by fastforce
      ultimately show ?thesis using False t by (simp add: rebindIssuedAfterExpand_def)
    qed
    moreover have "layout vs (t\<lparr>rb_issued := issued_of (rb_next s) 0 vs\<rparr>)"
      using s bound False by (simp add: layout_def t_def arr_def)
    moreover have "int ?n + extra \<le> int (length (rb_arrays t (sl_array (rb_varnodes t))))"
      by (simp add: t_def arr_def newCap_def)
    ultimately show ?thesis by (auto simp: same_labels_def t_def)
  qed
qed

section \<open>Appending an operation\<close>

lemma pool_set_arrays:
  "sl_start (rb_varnodes s) = 0 \<Longrightarrow>
    pool_set (int p) v s = s\<lparr>rb_arrays := (rb_arrays s)(sl_array (rb_varnodes s) := (rb_arrays s (sl_array (rb_varnodes s)))[p := v])\<rparr>"
  by (simp add: pool_set_def Let_def)

lemma copyInputs_from:
  assumes "sl_start (rb_varnodes s) = 0" "p + m + length vs \<le> length (rb_arrays s (sl_array (rb_varnodes s)))"
  shows "fold (\<lambda>(k, v). pool_set (int p + int k) v) (enumerate m vs) s = s\<lparr>rb_arrays := (rb_arrays s)(sl_array (rb_varnodes s) :=
    take (p + m) (rb_arrays s (sl_array (rb_varnodes s))) @ vs @ drop (p + m + length vs) (rb_arrays s (sl_array (rb_varnodes s))))\<rparr>"
  using assms
proof (induction vs arbitrary: m s)
  case (Cons v vs)
  let ?a = "sl_array (rb_varnodes s)"
  let ?t = "s\<lparr>rb_arrays := (rb_arrays s)(?a := (rb_arrays s ?a)[p + m := v])\<rparr>"
  have "pool_set (int p + int m) v s = ?t" using pool_set_arrays [OF Cons.prems(1), of "p + m" v] by simp
  moreover have "take (Suc (p + m)) ((rb_arrays s ?a)[p + m := v]) = take (p + m) (rb_arrays s ?a) @ [v]"
    using Cons.prems(2) by (simp add: take_Suc_conv_app_nth)
  ultimately show ?case using Cons.IH [of ?t "Suc m"] Cons.prems by (simp add: fun_upd_def cong: if_cong)
qed simp

lemma copyInputs_eq:
  assumes "sl_start (rb_varnodes s) = 0" "p + length vs \<le> length (rb_arrays s (sl_array (rb_varnodes s)))"
  shows "copyInputs (int p) vs s = s\<lparr>rb_arrays := (rb_arrays s)(sl_array (rb_varnodes s) :=
    take p (rb_arrays s (sl_array (rb_varnodes s))) @ vs @ drop (p + length vs) (rb_arrays s (sl_array (rb_varnodes s))))\<rparr>"
  using copyInputs_from [of s p 0 vs] assms by (simp add: copyInputs_def)

text \<open>The slots of a new operation are reserved behind the layout.\<close>

lemma allocate_layout:
  assumes "layout vs s" "int (length (pool vs)) + int n \<le> 2 ^ 62 - 100"
  shows "\<exists>t. allocateVarnodes (int n) s = (Inr (int (length (pool vs))),
      t\<lparr>rb_varnodes := (rb_varnodes t)\<lparr>sl_len := length (pool vs) + n\<rparr>\<rparr>) \<and> layout vs t \<and> same_labels s t
    \<and> length (pool vs) + n \<le> length (rb_arrays t (sl_array (rb_varnodes t)))"
proof (cases "n = 0")
  case True
  have "pool_len s = int (length (pool vs))" "(rb_varnodes s)\<lparr>sl_len := length (pool vs)\<rparr> = rb_varnodes s"
    using assms(1) by (simp_all add: layout_def pool_len_def)
  then show ?thesis using True assms(1) by (intro exI [of _ s]) (simp add: allocateVarnodes_def same_labels_def layout_def)
next
  case False
  have len: "pool_len s = int (length (pool vs))" using assms(1) by (simp add: layout_def pool_len_def)
  obtain t where "ensureVarnodeCapacity (int n) s = (Inr (), t)" "layout vs t" "same_labels s t"
      "int (length (pool vs)) + int n \<le> int (length (rb_arrays t (sl_array (rb_varnodes t))))"
    using ensure_layout [OF assms(1), of "int n"] assms(2) False by auto
  then show ?thesis using False by (intro exI [of _ t]) (simp add: allocateVarnodes_def len nat_add_distrib flip: of_nat_add)
qed

lemma appendIssued_layout:
  assumes l: "layout vs s" and room: "length (pool (vs @ [op])) \<le> 2 ^ 61"
  shows "\<exists>t. appendIssued op s = (Inr (), t) \<and> layout (vs @ [op]) t \<and> same_labels s t"
proof -
  let ?p = "length (pool vs)" and ?n = "length (flat op)" and ?i = "length (ro_Inputs op)"
  have total: "(if ro_Output op \<noteq> None then int ?i + 1 else int ?i) = int ?n" by (auto simp: flat_def)
  obtain t where t: "allocateVarnodes (int ?n) s = (Inr (int ?p), t\<lparr>rb_varnodes := (rb_varnodes t)\<lparr>sl_len := ?p + ?n\<rparr>\<rparr>)"
      "layout vs t" "same_labels s t" "?p + ?n \<le> length (rb_arrays t (sl_array (rb_varnodes t)))"
    using allocate_layout [OF l, of ?n] room by auto
  let ?a = "sl_array (rb_varnodes t)"
  let ?u = "t\<lparr>rb_varnodes := (rb_varnodes t)\<lparr>sl_len := ?p + ?n\<rparr>\<rparr>"
  let ?arr = "rb_arrays t ?a"
  have st: "sl_start (rb_varnodes t) = 0" "length ?arr \<le> 2 ^ 62" "take ?p ?arr = pool vs" "rb_refs t = refs_of 0 vs" "rb_issued t = issued_of ?a 0 vs"
    using t(2) unfolding layout_def by blast+
  have i: "?i \<le> ?n" by (simp add: flat_def)
  have copy: "copyInputs (int ?p) (ro_Inputs op) ?u = ?u\<lparr>rb_arrays := (rb_arrays t)(?a := pool vs @ ro_Inputs op @ drop (?p + ?i) ?arr)\<rparr>"
    using copyInputs_eq [of ?u ?p "ro_Inputs op"] st t(4) i by simp
  define v where "v = ?u\<lparr>rb_arrays := (rb_arrays t)(?a := pool vs @ flat op @ drop (?p + ?n) ?arr),
    rb_issued := rb_issued t @ [issued_at ?a ?p op], rb_refs := rb_refs t @ [ref_at ?p op]\<rparr>"
  have out: "(pool vs @ ro_Inputs op @ drop (?p + ?i) ?arr)[?p + ?i := x] = pool vs @ flat op @ drop (?p + ?n) ?arr"
    if "ro_Output op = Some x" for x
  proof -
    have "drop (?p + ?i) ?arr = ?arr ! (?p + ?i) # drop (Suc (?p + ?i)) ?arr"
      using t(4) that by (intro Cons_nth_drop_Suc [symmetric]) (simp add: flat_def)
    then show ?thesis using that by (simp add: flat_def list_update_append)
  qed
  have "appendIssued op s = (Inr (), v)"
  proof (cases "ro_Output op")
    case None
    then have "flat op = ro_Inputs op" by (simp add: flat_def)
    then show ?thesis using t(1) st copy None
      by (simp add: appendIssued_def Let_def allocateInstruction_def v_def issued_at_def ref_at_def list_update_append)
  next
    case (Some x)
    then have "int (length (ro_Inputs op)) + 1 = int ?n" using total by simp
    then show ?thesis using t(1) st copy Some out [OF Some]
      by (simp add: appendIssued_def Let_def allocateInstruction_def pool_set_def nat_add_distrib v_def issued_at_def ref_at_def list_update_append)
  qed
  moreover have "layout (vs @ [op]) v"
    using st t(4) by (simp add: layout_def v_def layout_append)
  ultimately show ?thesis using t(3) by (auto simp: v_def same_labels_def)
qed

lemma appendIssued_loop:
  "\<lbrakk>layout vs s; length (pool (vs @ ops)) \<le> 2 ^ 61\<rbrakk> \<Longrightarrow>
    \<exists>t. loop_st appendIssued ops s = (Inr (), t) \<and> layout (vs @ ops) t \<and> same_labels s t"
proof (induction ops arbitrary: vs s)
  case Nil
  then show ?case by (simp add: same_labels_def)
next
  case (Cons op ops)
  then obtain t where t: "appendIssued op s = (Inr (), t)" "layout (vs @ [op]) t" "same_labels s t"
    using appendIssued_layout [of vs s op] by auto
  then obtain u where "loop_st appendIssued ops t = (Inr (), u)" "layout (vs @ op # ops) u" "same_labels t u"
    using Cons.IH [OF t(2)] Cons.prems(2) by auto
  then show ?case using t by (auto simp: same_labels_def)
qed

section \<open>Changing the first input of an operation\<close>

definition set_off :: "u64 \<Rightarrow> RawOp \<Rightarrow> RawOp" where
  "set_off x op = op\<lparr>ro_Inputs := (hd (ro_Inputs op))\<lparr>rv_Offset := x\<rparr> # tl (ro_Inputs op)\<rparr>"

lemma set_off_simps [simp]:
  "set_off x (set_off y op) = set_off x op" "ro_Inputs (set_off x op) \<noteq> []"
  "rv_Offset (hd (ro_Inputs (set_off x op))) = x" "rv_Size (hd (ro_Inputs (set_off x op))) = rv_Size (hd (ro_Inputs op))"
  "ro_Inputs op \<noteq> [] \<Longrightarrow> length (flat (set_off x op)) = length (flat op)"
  by (simp_all add: set_off_def flat_def)

lemma start_update: "k < length vs \<Longrightarrow> length (flat op) = length (flat (vs ! k)) \<Longrightarrow> start (vs[k := op]) j = start vs j"
proof -
  assume k: "k < length vs" and len: "length (flat op) = length (flat (vs ! k))"
  have "map (length \<circ> flat) (vs[k := op]) = map (length \<circ> flat) vs"
    using k len by (simp add: map_update list_update_same_conv)
  then have "map (length \<circ> flat) (take j (vs[k := op])) = map (length \<circ> flat) (take j vs)" by (metis take_map)
  then show ?thesis by (simp add: start_def pool_def length_concat)
qed

lemma set_off_layout:
  assumes l: "layout vs s" and k: "k < length vs" and ne: "ro_Inputs (vs ! k) \<noteq> []"
  shows "pool_get s (int (start vs k)) = hd (ro_Inputs (vs ! k))" "int (start vs k) < pool_len s"
    "layout (vs[k := set_off x (vs ! k)]) (pool_set (int (start vs k)) ((hd (ro_Inputs (vs ! k)))\<lparr>rv_Offset := x\<rparr>) s)"
proof -
  let ?a = "sl_array (rb_varnodes s)" and ?p = "start vs k" and ?v = "(hd (ro_Inputs (vs ! k)))\<lparr>rv_Offset := x\<rparr>"
  let ?xs = "take k vs" and ?op = "vs ! k" and ?ys = "drop (Suc k) vs"
  have vs: "vs = ?xs @ ?op # ?ys" using k by (rule id_take_nth_drop)
  have upd: "vs[k := y] = ?xs @ y # ?ys" for y using k by (simp add: upd_conv_take_nth_drop)
  have s: "sl_start (rb_varnodes s) = 0" "sl_len (rb_varnodes s) = length (pool vs)" "length (pool vs) \<le> length (rb_arrays s ?a)"
    "length (rb_arrays s ?a) \<le> 2 ^ 62" "take (length (pool vs)) (rb_arrays s ?a) = pool vs" "rb_refs s = refs_of 0 vs" "rb_issued s = issued_of ?a 0 vs"
    using l unfolding layout_def by blast+
  have p: "?p < length (pool vs)" using start_flat_le [OF k] ne by (cases "ro_Inputs ?op") (simp_all add: flat_def)
  then have "rb_arrays s ?a ! ?p = pool vs ! ?p" using s(5) by (metis nth_take)
  then show "pool_get s (int ?p) = hd (ro_Inputs ?op)" using pool_at [OF k ne] s(1) by (simp add: pool_get_def)
  show "int ?p < pool_len s" using p s(2) by (simp add: pool_len_def)
  have len: "length (flat (set_off x ?op)) = length (flat ?op)" using ne by simp
  have "pool (vs[k := set_off x ?op]) = (pool vs)[?p := ?v]"
  proof -
    have "flat (set_off x ?op) = (flat ?op)[0 := ?v]" using ne by (cases "ro_Inputs ?op") (simp_all add: flat_def set_off_def)
    moreover have "pool vs = pool ?xs @ flat ?op @ pool ?ys" by (subst vs) simp
    moreover have "0 < length (flat ?op)" using ne by (simp add: flat_def)
    ultimately show ?thesis unfolding upd by (simp add: start_def list_update_append)
  qed
  moreover have "refs_of 0 (vs[k := set_off x ?op]) = refs_of 0 vs" "issued_of ?a 0 (vs[k := set_off x ?op]) = issued_of ?a 0 vs"
  proof -
    have "ref_at q (set_off x ?op) = ref_at q ?op" "issued_at ?a q (set_off x ?op) = issued_at ?a q ?op" for q
      using ne by (cases "ro_Inputs ?op"; simp add: ref_at_def issued_at_def set_off_def)+
    then have "refs_of 0 (?xs @ set_off x ?op # ?ys) = refs_of 0 (?xs @ ?op # ?ys)" "issued_of ?a 0 (?xs @ set_off x ?op # ?ys) = issued_of ?a 0 (?xs @ ?op # ?ys)"
      using len by (simp_all add: layout_append)
    then show "refs_of 0 (vs[k := set_off x ?op]) = refs_of 0 vs" "issued_of ?a 0 (vs[k := set_off x ?op]) = issued_of ?a 0 vs"
      unfolding upd using vs by simp_all
  qed
  moreover have "take (length (pool vs)) ((rb_arrays s ?a)[?p := ?v]) = (pool vs)[?p := ?v]"
    using s(5) by (simp add: take_update_swap)
  ultimately show "layout (vs[k := set_off x ?op]) (pool_set (int ?p) ?v s)"
    using s by (simp add: layout_def pool_set_arrays)
qed

section \<open>Resolving relative branches\<close>

abbreviation "maxLabel \<equiv> (0x7fffffffffffffff :: u64)"

definition label_at :: "u64 list \<Rightarrow> u64 \<Rightarrow> u64 option" where
  "label_at ls l = (if l \<le> maxLabel \<and> unat l < length ls \<and> ls ! unat l \<noteq> rawBuildLabelUnset then Some (ls ! unat l) else None)"

definition resolvable :: "(u64 \<Rightarrow> u64 option) \<Rightarrow> RawOp \<Rightarrow> bool" where
  "resolvable L op \<longleftrightarrow> L (rv_Offset (hd (ro_Inputs op))) \<noteq> None \<and> rv_Size (hd (ro_Inputs op)) \<noteq> 0"

definition label_mask :: "u32 \<Rightarrow> u64" where
  "label_mask sz = (if sz \<ge> 8 then - 1 else mask (8 * unat sz))"

definition resolved :: "(u64 \<Rightarrow> u64 option) \<Rightarrow> nat \<Rightarrow> RawOp \<Rightarrow> RawOp" where
  "resolved L k op = (let v = hd (ro_Inputs op) in set_off ((the (L (rv_Offset v)) - of_nat k) AND label_mask (rv_Size v)) op)"

lemma labelMask_eq: "labelMask sz = (if sz = 0 then Inl ErrLabelSize else Inr (label_mask sz))"
proof -
  have "unat (sz * 8) = 8 * unat sz" if "\<not> 8 \<le> sz"
    using that by (simp add: unat_mult_lem [THEN iffD1] word_le_nat_alt unat_word_ariths)
  then show ?thesis by (auto simp: labelMask_def label_mask_def mask_eq_exp_minus_1 push_bit_eq_mult)
qed

lemma resolve_step:
  assumes "layout vs s" "k < length vs" "ro_Inputs (vs ! k) \<noteq> []"
  defines "L \<equiv> label_at (rb_labels s)"
  defines "r \<equiv> \<lparr>rr_varnodeSlot = int (start vs k), rr_callingIndex = of_nat k\<rparr>"
  shows "resolvable L (vs ! k) \<Longrightarrow> \<exists>t. resolveRelative r s = (Inr (), t) \<and> layout (vs[k := resolved L k (vs ! k)]) t
      \<and> rb_labels t = rb_labels s"
    "\<not> resolvable L (vs ! k) \<Longrightarrow> \<exists>e. resolveRelative r s = (Inl e, s)"
proof -
  note p = set_off_layout [OF assms(1-3)]
  show "\<exists>t. resolveRelative r s = (Inr (), t) \<and> layout (vs[k := resolved L k (vs ! k)]) t \<and> rb_labels t = rb_labels s"
    if "resolvable L (vs ! k)"
    using that p unfolding r_def L_def
    by (auto simp: resolveRelative_def Let_def resolvable_def label_at_def labelMask_eq resolved_def pool_set_def not_le split: if_splits)
  show "\<exists>e. resolveRelative r s = (Inl e, s)" if "\<not> resolvable L (vs ! k)"
    using that p unfolding r_def L_def
    by (auto simp: resolveRelative_def Let_def resolvable_def label_at_def labelMask_eq not_le split: if_splits)
qed

lemma resolved_simps [simp]:
  "ro_Inputs (resolved L k op) \<noteq> []" "ro_Inputs op \<noteq> [] \<Longrightarrow> length (flat (resolved L k op)) = length (flat op)"
  by (simp_all add: resolved_def Let_def)

definition rel_ref :: "RawOp list \<Rightarrow> nat \<Rightarrow> rawBuildRelativeRef" where
  "rel_ref vs k = \<lparr>rr_varnodeSlot = int (start vs k), rr_callingIndex = of_nat k\<rparr>"

definition resolve_at :: "(u64 \<Rightarrow> u64 option) \<Rightarrow> nat list \<Rightarrow> RawOp list \<Rightarrow> RawOp list" where
  "resolve_at L ks vs = map (\<lambda>i. if i \<in> set ks then resolved L i (vs ! i) else vs ! i) [0..<length vs]"

lemma resolve_at_Cons:
  "k < length vs \<Longrightarrow> k \<notin> set ks \<Longrightarrow> resolve_at L ks (vs[k := resolved L k (vs ! k)]) = resolve_at L (k # ks) vs"
  by (auto simp: resolve_at_def nth_list_update)

lemma resolve_loop:
  assumes "layout vs s" "distinct ks" "\<And>k. k \<in> set ks \<Longrightarrow> k < length vs \<and> ro_Inputs (vs ! k) \<noteq> []"
  defines "L \<equiv> label_at (rb_labels s)"
  shows "if \<forall>k \<in> set ks. resolvable L (vs ! k)
    then \<exists>t. loop_st resolveRelative (map (rel_ref vs) ks) s = (Inr (), t) \<and> layout (resolve_at L ks vs) t
    else \<exists>e t. loop_st resolveRelative (map (rel_ref vs) ks) s = (Inl e, t)"
  using assms(1-3) unfolding L_def
proof (induction ks arbitrary: vs s)
  case Nil
  then show ?case by (simp add: resolve_at_def map_nth)
next
  case (Cons k ks)
  let ?L = "label_at (rb_labels s)"
  have k: "k < length vs" "ro_Inputs (vs ! k) \<noteq> []" "k \<notin> set ks" using Cons.prems by simp_all
  show ?case
  proof (cases "resolvable ?L (vs ! k)")
    case False
    then obtain e where "resolveRelative (rel_ref vs k) s = (Inl e, s)"
      using resolve_step(2) [OF Cons.prems(1) k(1,2)] unfolding rel_ref_def by blast
    then show ?thesis using False by simp
  next
    case True
    then obtain t where t: "resolveRelative (rel_ref vs k) s = (Inr (), t)"
        "layout (vs[k := resolved ?L k (vs ! k)]) t" "rb_labels t = rb_labels s"
      using resolve_step(1) [OF Cons.prems(1) k(1,2)] unfolding rel_ref_def by blast
    let ?vs = "vs[k := resolved ?L k (vs ! k)]"
    have refs: "rel_ref ?vs = rel_ref vs" using start_update [OF k(1)] k(2) by (simp add: rel_ref_def fun_eq_iff)
    have other: "?vs ! j = vs ! j" if "j \<in> set ks" for j using that k(3) by (metis nth_list_update_neq)
    have wf: "j < length ?vs \<and> ro_Inputs (?vs ! j) \<noteq> []" if "j \<in> set ks" for j using Cons.prems(3) that other by auto
    have "(\<forall>j \<in> set ks. resolvable ?L (?vs ! j)) \<longleftrightarrow> (\<forall>j \<in> set (k # ks). resolvable ?L (vs ! j))" using other True by auto
    then have "if \<forall>j \<in> set (k # ks). resolvable ?L (vs ! j)
        then \<exists>u. loop_st resolveRelative (map (rel_ref vs) ks) t = (Inr (), u) \<and> layout (resolve_at ?L (k # ks) vs) u
        else \<exists>e u. loop_st resolveRelative (map (rel_ref vs) ks) t = (Inl e, u)"
      using Cons.IH [OF t(2) _ wf] Cons.prems(2) unfolding t(3) refs resolve_at_Cons [OF k(1,3)] by simp
    then show ?thesis using t(1) by simp
  qed
qed

section \<open>The abstract builder\<close>

datatype raw_action = RawAppend OpTplBoundary "RawOp list" u64 | RawLabel u64

text \<open>Operations, the label each relative branch refers to, and where the labels are.\<close>

record abstract_build =
  ab_ops :: "RawOp list"
  ab_rel :: "(nat \<times> u64) list"
  ab_labels :: "u64 \<Rightarrow> u64 option"

fun abs_action :: "raw_action \<Rightarrow> abstract_build \<Rightarrow> abstract_build option" where
  "abs_action (RawAppend source lowered base) ab =
     (if \<not> hasRelative source then Some (ab\<lparr>ab_ops := ab_ops ab @ lowered\<rparr>)
      else
        let l = cb_Value (vt_Offset (hd (ot_Inputs source))) in
        if lowered = [] \<or> ro_Inputs (hd lowered) = [] \<or> unat l + unat base \<ge> 2 ^ 64 then None
        else Some (ab\<lparr>ab_ops := ab_ops ab @ lowered, ab_rel := ab_rel ab @ [(length (ab_ops ab), l + base)]\<rparr>))"
| "abs_action (RawLabel l) ab =
     (if l > maxLabel then None else Some (ab\<lparr>ab_labels := (ab_labels ab)(l \<mapsto> of_nat (length (ab_ops ab)))\<rparr>))"

fun abs_actions :: "raw_action list \<Rightarrow> abstract_build \<Rightarrow> abstract_build option" where
  "abs_actions [] ab = Some ab"
| "abs_actions (a # as) ab = Option.bind (abs_action a ab) (abs_actions as)"

definition abs_resolve :: "abstract_build \<Rightarrow> RawOp list option" where
  "abs_resolve ab =
     (if list_all (\<lambda>(k, l). ab_labels ab l \<noteq> None \<and> rv_Size (hd (ro_Inputs (ab_ops ab ! k))) \<noteq> 0) (ab_rel ab)
      then Some (map (\<lambda>k. case map_of (ab_rel ab) k of
          None \<Rightarrow> ab_ops ab ! k
        | Some l \<Rightarrow> set_off ((the (ab_labels ab l) - of_nat k) AND label_mask (rv_Size (hd (ro_Inputs (ab_ops ab ! k))))) (ab_ops ab ! k))
        [0..<length (ab_ops ab)])
      else None)"

definition abs_build :: "raw_action list \<Rightarrow> RawOp list option" where
  "abs_build as = Option.bind (abs_actions as \<lparr>ab_ops = [], ab_rel = [], ab_labels = (\<lambda>_. None)\<rparr>) abs_resolve"

text \<open>The operations as they are staged: a branch holds its label in the offset of its first input.\<close>

definition marked :: "abstract_build \<Rightarrow> RawOp list" where
  "marked ab = map (\<lambda>k. case map_of (ab_rel ab) k of None \<Rightarrow> ab_ops ab ! k | Some l \<Rightarrow> set_off l (ab_ops ab ! k)) [0..<length (ab_ops ab)]"

definition abs_wf :: "abstract_build \<Rightarrow> bool" where
  "abs_wf ab \<longleftrightarrow> distinct (map fst (ab_rel ab)) \<and> (\<forall>k \<in> fst ` set (ab_rel ab). k < length (ab_ops ab) \<and> ro_Inputs (ab_ops ab ! k) \<noteq> [])"

definition staged :: "abstract_build \<Rightarrow> rawBuildState \<Rightarrow> bool" where
  "staged ab s \<longleftrightarrow> abs_wf ab \<and> layout (marked ab) s \<and> \<not> rb_resolveDone s
     \<and> rb_labelRefs s = map (rel_ref (marked ab)) (map fst (ab_rel ab))
     \<and> label_at (rb_labels s) = ab_labels ab"

lemma length_marked [simp]: "length (marked ab) = length (ab_ops ab)"
  by (simp add: marked_def)

lemma marked_nth: "k < length (ab_ops ab) \<Longrightarrow>
    marked ab ! k = (case map_of (ab_rel ab) k of None \<Rightarrow> ab_ops ab ! k | Some l \<Rightarrow> set_off l (ab_ops ab ! k))"
  by (simp add: marked_def cong: option.case_cong)

text \<open>The last phase: resolution computes what the abstract builder says.\<close>

lemma resolve_staged:
  assumes "staged ab s"
  shows "case abs_resolve ab of
      None \<Rightarrow> \<exists>e t. resolveRawBuildLocked s = (Inl e, t)
    | Some vs \<Rightarrow> \<exists>t. resolveRawBuildLocked s = (Inr (), t) \<and> layout vs t \<and> rb_resolveDone t"
proof -
  let ?vs = "marked ab" and ?ks = "map fst (ab_rel ab)" and ?L = "ab_labels ab"
  have wf: "distinct ?ks" "\<And>k. k \<in> set ?ks \<Longrightarrow> k < length ?vs \<and> ro_Inputs (?vs ! k) \<noteq> []"
    and l: "layout ?vs s" and L: "label_at (rb_labels s) = ?L"
    and refs: "rb_labelRefs s = map (rel_ref ?vs) ?ks" and nd: "\<not> rb_resolveDone s"
    using assms by (auto simp: staged_def abs_wf_def marked_nth split: option.splits)
  have at: "map_of (ab_rel ab) k = Some l" if "(k, l) \<in> set (ab_rel ab)" for k l using that wf(1) by simp
  have off: "?vs ! k = set_off l (ab_ops ab ! k)" if "(k, l) \<in> set (ab_rel ab)" for k l
    using at [OF that] wf(2) [of k] that by (force simp: marked_nth)
  have "(\<forall>k \<in> set ?ks. resolvable ?L (?vs ! k)) \<longleftrightarrow>
      list_all (\<lambda>(k, l). ?L l \<noteq> None \<and> rv_Size (hd (ro_Inputs (ab_ops ab ! k))) \<noteq> 0) (ab_rel ab)"
    using off by (force simp: resolvable_def list_all_iff)
  moreover have "resolve_at ?L ?ks ?vs =
      map (\<lambda>k. case map_of (ab_rel ab) k of None \<Rightarrow> ab_ops ab ! k
        | Some l \<Rightarrow> set_off ((the (?L l) - of_nat k) AND label_mask (rv_Size (hd (ro_Inputs (ab_ops ab ! k))))) (ab_ops ab ! k))
      [0..<length (ab_ops ab)]"
    unfolding resolve_at_def length_marked
  proof (intro map_cong)
    fix i assume "i \<in> set [0..<length (ab_ops ab)]"
    then have i: "i < length (ab_ops ab)" by simp
    show "(if i \<in> set ?ks then resolved ?L i (?vs ! i) else ?vs ! i) = (case map_of (ab_rel ab) i of None \<Rightarrow> ab_ops ab ! i
        | Some l \<Rightarrow> set_off ((the (?L l) - of_nat i) AND label_mask (rv_Size (hd (ro_Inputs (ab_ops ab ! i))))) (ab_ops ab ! i))"
    proof (cases "map_of (ab_rel ab) i")
      case None
      then have "i \<notin> set ?ks" by (simp add: map_of_eq_None_iff)
      then show ?thesis using None by (simp add: marked_nth [OF i])
    next
      case (Some l)
      then have "i \<in> set ?ks" using map_of_SomeD by force
      then show ?thesis using Some by (simp add: marked_nth [OF i] resolved_def Let_def)
    qed
  qed simp
  ultimately have "case abs_resolve ab of
      None \<Rightarrow> \<exists>e t. resolveRelatives s = (Inl e, t) | Some vs \<Rightarrow> \<exists>t. resolveRelatives s = (Inr (), t) \<and> layout vs t"
    using resolve_loop [OF l wf] unfolding abs_resolve_def resolveRelatives_def refs L by (auto split: if_splits)
  then show ?thesis using nd by (auto simp: resolveRawBuildLocked_def split: option.splits)
qed

section \<open>Staging refines the abstract builder\<close>

lemma start_append: "k \<le> length xs \<Longrightarrow> start (xs @ ys) k = start xs k"
  by (simp add: start_def)

lemma rel_ref_append: "k \<le> length xs \<Longrightarrow> rel_ref (xs @ ys) k = rel_ref xs k"
  by (simp add: rel_ref_def start_append)

lemma length_pool_marked: "abs_wf ab \<Longrightarrow> length (pool (marked ab)) = length (pool (ab_ops ab))"
proof -
  assume "abs_wf ab"
  then have "length (flat (marked ab ! k)) = length (flat (ab_ops ab ! k))" if "k < length (ab_ops ab)" for k
    using that by (force simp: marked_nth abs_wf_def dest: map_of_SomeD split: option.splits)
  then have "map (length \<circ> flat) (marked ab) = map (length \<circ> flat) (ab_ops ab)" by (simp add: list_eq_iff_nth_eq)
  then show ?thesis by (simp add: pool_def length_concat)
qed

lemma marked_append:
  assumes "abs_wf ab"
  shows "marked (ab\<lparr>ab_ops := ab_ops ab @ ops\<rparr>) = marked ab @ ops"
    "marked (ab\<lparr>ab_ops := ab_ops ab @ op # ops, ab_rel := ab_rel ab @ [(length (ab_ops ab), l)]\<rparr>) = marked ab @ set_off l op # ops"
proof -
  have none: "map_of (ab_rel ab) k = None" if "length (ab_ops ab) \<le> k" for k
    using assms that by (force simp: abs_wf_def map_of_eq_None_iff)
  show "marked (ab\<lparr>ab_ops := ab_ops ab @ ops\<rparr>) = marked ab @ ops"
    by (rule nth_equalityI) (auto simp: marked_nth nth_append none split: option.splits)
  have "map_of (ab_rel ab @ [(length (ab_ops ab), l)]) k =
      (if k = length (ab_ops ab) then Some l else map_of (ab_rel ab) k)" for k
    using none [of k] by (auto simp: map_add_def split: option.splits)
  then show "marked (ab\<lparr>ab_ops := ab_ops ab @ op # ops, ab_rel := ab_rel ab @ [(length (ab_ops ab), l)]\<rparr>) = marked ab @ set_off l op # ops"
    using none by (intro nth_equalityI) (auto simp: marked_nth nth_append nth_Cons' split: option.splits)
qed

lemma addLabelBase_eq: "addLabelBase l base = (if unat l + unat base \<ge> 2 ^ 64 then Inl ErrLabelOverflow else Inr (base + l))"
proof -
  have "unat (- 1 - base) = 2 ^ 64 - 1 - unat base"
    by (simp add: unat_sub word_order.extremum unsigned_minus_1_eq_mask mask_eq_exp_minus_1)
  moreover have "unat base < 2 ^ 64" using unsigned_less [of base] by simp
  ultimately have "- 1 - base < l \<longleftrightarrow> unat l + unat base \<ge> 2 ^ 64" by (auto simp: word_less_nat_alt)
  then show ?thesis by (simp add: addLabelBase_def)
qed

text \<open>Appending the operations of one template.\<close>

lemma append_staged:
  assumes st: "staged ab s" and room: "length (pool (ab_ops ab @ lowered)) \<le> 2 ^ 61"
  shows "case abs_action (RawAppend source lowered base) ab of
      None \<Rightarrow> \<exists>e. relativeLabel source lowered base = Inl e
    | Some ab' \<Rightarrow> \<exists>l t. relativeLabel source lowered base = Inr l \<and> appendLowered source lowered l s = (Inr (), t) \<and> staged ab' t"
proof -
  have wf: "abs_wf ab" and l: "layout (marked ab) s" and nd: "\<not> rb_resolveDone s"
    and refs: "rb_labelRefs s = map (rel_ref (marked ab)) (map fst (ab_rel ab))" and L: "label_at (rb_labels s) = ab_labels ab"
    using st by (simp_all add: staged_def)
  have keys: "k < length (ab_ops ab)" if "k \<in> fst ` set (ab_rel ab)" for k using wf that by (auto simp: abs_wf_def)
  have old: "map (rel_ref (marked ab @ ys)) (map fst (ab_rel ab)) = rb_labelRefs s" for ys
    using keys by (auto simp: refs rel_ref_append less_imp_le)
  obtain t where t: "loop_st appendIssued lowered s = (Inr (), t)" "layout (marked ab @ lowered) t" "same_labels s t"
    using appendIssued_loop [OF l, of lowered] room by (auto simp: length_pool_marked [OF wf])
  have len: "length (rb_issued s) = length (ab_ops ab)" "rb_refs t = refs_of 0 (marked ab @ lowered)" using l t(2) by (simp_all add: layout_def)
  show ?thesis
  proof (cases "hasRelative source")
    case False
    let ?ab = "ab\<lparr>ab_ops := ab_ops ab @ lowered\<rparr>"
    have "abs_wf ?ab" using wf by (force simp: abs_wf_def nth_append)
    then have "staged ?ab (markUnresolved t)"
      using t(2,3) old [of lowered] L by (simp add: staged_def markUnresolved_def marked_append(1) [OF wf] same_labels_def)
    then show ?thesis using False t(1) by (simp add: relativeLabel_def appendLowered_def Let_def)
  next
    case True
    let ?l = "cb_Value (vt_Offset (hd (ot_Inputs source)))"
    show ?thesis
    proof (cases "lowered = [] \<or> ro_Inputs (hd lowered) = [] \<or> unat ?l + unat base \<ge> 2 ^ 64")
      case bad: True
      then show ?thesis using True by (cases lowered) (auto simp: relativeLabel_def addLabelBase_eq Let_def)
    next
      case ok: False
      then obtain op ops where lo: "lowered = op # ops" "ro_Inputs op \<noteq> []" by (cases lowered) auto
      let ?n = "length (ab_ops ab)" and ?vs = "marked ab @ lowered"
      let ?ab = "ab\<lparr>ab_ops := ab_ops ab @ lowered, ab_rel := ab_rel ab @ [(?n, ?l + base)]\<rparr>"
      have n: "?n < length ?vs" "?vs ! ?n = op" using lo by (simp_all add: nth_append)
      have ref: "rb_refs t ! ?n = ref_at (start ?vs ?n) op" using layout_nth(1) [OF n(1), of 0] len(2) n(2) by simp
      define u where "u = (markUnresolved t)\<lparr>rb_labelRefs := rb_labelRefs t @ [rel_ref ?vs ?n]\<rparr>"
      have lu: "layout ?vs u" using t(2) by (simp add: u_def markUnresolved_def)
      note p = set_off_layout [OF lu n(1), unfolded n(2), OF lo(2)]
      have slot: "int (start ?vs ?n) < pool_len (markUnresolved t)" using p(2) by (simp add: u_def pool_len_def)
      let ?w = "pool_set (int (start ?vs ?n)) ((hd (ro_Inputs op))\<lparr>rv_Offset := ?l + base\<rparr>) u"
      have "appendLowered source lowered (?l + base) s = (Inr (), ?w)"
        using True t(1) len slot p(1) ref lo(2) n(1)
        by (simp add: appendLowered_def Let_def markUnresolved_def ref_at_def addLabelRef_def u_def rel_ref_def)
      moreover have "relativeLabel source lowered base = Inr (?l + base)"
        using True ok lo by (simp add: relativeLabel_def addLabelBase_eq add.commute)
      moreover have "staged ?ab ?w"
      proof -
        have wf': "abs_wf ?ab" using wf lo keys by (force simp: abs_wf_def nth_append)
        have m: "marked ?ab = ?vs[?n := set_off (?l + base) op]"
          using marked_append(2) [OF wf, where op = op and ops = ops and l = "?l + base"] lo by (simp add: list_update_append)
        have "rel_ref (marked ?ab) = rel_ref ?vs"
          unfolding m rel_ref_def fun_eq_iff using start_update [OF n(1)] n(2) lo(2) by simp
        then have "map (rel_ref (marked ?ab)) (map fst (ab_rel ?ab)) = rb_labelRefs ?w"
          using old [of lowered] t(3) by (simp add: u_def pool_set_def Let_def same_labels_def)
        then show ?thesis using wf' p(3) [of "?l + base"] m t(3) L
          by (simp add: staged_def u_def pool_set_def Let_def markUnresolved_def same_labels_def)
      qed
      ultimately show ?thesis using True ok by (simp add: Let_def)
    qed
  qed
qed

lemma label_at_extend:
  assumes "l \<le> maxLabel" "i \<noteq> rawBuildLabelUnset"
  shows "label_at ((ls @ replicate (Suc (unat l) - length ls) rawBuildLabelUnset)[unat l := i]) = (label_at ls)(l \<mapsto> i)"
proof
  fix k
  show "label_at ((ls @ replicate (Suc (unat l) - length ls) rawBuildLabelUnset)[unat l := i]) k = ((label_at ls)(l \<mapsto> i)) k"
  proof (cases "k = l")
    case True
    then show ?thesis using assms by (simp add: label_at_def)
  next
    case False
    then have "unat k \<noteq> unat l" by (simp add: word_unat_eq_iff)
    then show ?thesis using False by (auto simp: label_at_def nth_append)
  qed
qed

lemma label_staged:
  assumes st: "staged ab s" and room: "length (ab_ops ab) < 2 ^ 62"
  shows "let r = then_st (addLabel l (of_nat (length (rb_issued s))) s) (\<lambda>_ s. (Inr (), markUnresolved s)) in
    case abs_action (RawLabel l) ab of None \<Rightarrow> \<exists>e. r = (Inl e, s) | Some ab' \<Rightarrow> \<exists>t. r = (Inr (), t) \<and> staged ab' t"
proof (cases "l > maxLabel")
  case True
  then show ?thesis by (simp add: addLabel_def)
next
  case False
  let ?n = "length (ab_ops ab)" and ?ab = "ab\<lparr>ab_labels := (ab_labels ab)(l \<mapsto> of_nat (length (ab_ops ab)))\<rparr>"
  let ?t = "markUnresolved (s\<lparr>rb_labels := (rb_labels s @ replicate (Suc (unat l) - length (rb_labels s)) rawBuildLabelUnset)[unat l := of_nat ?n]\<rparr>)"
  have len: "length (rb_issued s) = ?n" using st by (simp add: staged_def layout_def)
  have "unat (of_nat ?n :: u64) = ?n" using room by (simp add: unat_of_nat)
  moreover have "unat rawBuildLabelUnset = 2 ^ 64 - 1" by (simp add: unsigned_minus_1_eq_mask mask_eq_exp_minus_1)
  ultimately have "(of_nat ?n :: u64) \<noteq> rawBuildLabelUnset" using room by auto
  then have "label_at (rb_labels ?t) = ab_labels ?ab"
    using label_at_extend [of l "of_nat ?n" "rb_labels s"] False st by (simp add: markUnresolved_def staged_def not_less)
  moreover have "marked ?ab = marked ab" "abs_wf ?ab = abs_wf ab" by (simp_all add: marked_def abs_wf_def cong: option.case_cong)
  ultimately have "staged ?ab ?t" using st by (simp add: staged_def markUnresolved_def)
  then show ?thesis using False by (simp add: addLabel_def Let_def len)
qed

text \<open>The cache during a build.\<close>

definition building :: "Address \<Rightarrow> rawBuildState \<Rightarrow> DisassemblyCache \<Rightarrow> bool" where
  "building addr s c \<longleftrightarrow> dc_rawBuildActive c \<and> dc_rawBuild c = Some s \<and> dc_rawBuildAddr c = addr"

lemma on_build_building:
  "building addr s c \<Longrightarrow> on_build addr f c = (fst (f s), c\<lparr>dc_rawBuild := Some (snd (f s))\<rparr>)"
  by (simp add: on_build_def rawBuildStateLocked_def building_def split: prod.splits)

definition run_action :: "Address \<Rightarrow> raw_action \<Rightarrow> DisassemblyCache \<Rightarrow> (raw_error + unit) \<times> DisassemblyCache" where
  "run_action addr a c =
     (case a of RawAppend source lowered base \<Rightarrow> AppendRawBuild addr source lowered base c | RawLabel l \<Rightarrow> AddRawBuildLabel addr l c)"

definition acts_ops :: "raw_action list \<Rightarrow> RawOp list" where
  "acts_ops acts = concat (map (\<lambda>a. case a of RawAppend _ lowered _ \<Rightarrow> lowered | RawLabel _ \<Rightarrow> []) acts)"

lemma action_refine:
  assumes "building addr s c" "staged ab s" "length (ab_ops ab @ acts_ops [a]) < 2 ^ 62" "length (pool (ab_ops ab @ acts_ops [a])) \<le> 2 ^ 61"
  shows "case abs_action a ab of
      None \<Rightarrow> \<exists>e c'. run_action addr a c = (Inl e, c')
    | Some ab' \<Rightarrow> ab_ops ab' = ab_ops ab @ acts_ops [a] \<and> (\<exists>t. run_action addr a c = (Inr (), c\<lparr>dc_rawBuild := Some t\<rparr>) \<and> staged ab' t)"
proof (cases a)
  case (RawAppend source lowered base)
  have ops: "ab_ops ab' = ab_ops ab @ lowered" if "abs_action (RawAppend source lowered base) ab = Some ab'" for ab'
    using that by (auto simp: Let_def split: if_splits)
  note r = append_staged [OF assms(2), of lowered source base]
  have room: "length (pool (ab_ops ab @ lowered)) \<le> 2 ^ 61" using assms(4) by (simp add: RawAppend acts_ops_def)
  show ?thesis
  proof (cases "abs_action a ab")
    case None
    then obtain e where "relativeLabel source lowered base = Inl e" using r [OF room] RawAppend by auto
    then show ?thesis using None by (simp add: RawAppend run_action_def AppendRawBuild_def del: abs_action.simps)
  next
    case (Some ab')
    then obtain l t where "relativeLabel source lowered base = Inr l" "appendLowered source lowered l s = (Inr (), t)" "staged ab' t"
      using r [OF room] RawAppend by (auto simp del: abs_action.simps)
    then show ?thesis using Some ops on_build_building [OF assms(1), of "appendLowered source lowered l"]
      by (auto simp: RawAppend run_action_def AppendRawBuild_def acts_ops_def simp del: abs_action.simps)
  qed
next
  case (RawLabel l)
  show ?thesis
    using label_staged [OF assms(2), of l] assms(3)
    by (auto simp: RawLabel acts_ops_def run_action_def AddRawBuildLabel_def on_build_building [OF assms(1)] Let_def
        split: option.splits if_splits)
qed

lemma actions_refine:
  "\<lbrakk>building addr s c; staged ab s; length (ab_ops ab @ acts_ops acts) < 2 ^ 62; length (pool (ab_ops ab @ acts_ops acts)) \<le> 2 ^ 61\<rbrakk> \<Longrightarrow>
    case abs_actions acts ab of
      None \<Rightarrow> \<exists>e c'. loop_st (run_action addr) acts c = (Inl e, c')
    | Some ab' \<Rightarrow> \<exists>t. loop_st (run_action addr) acts c = (Inr (), c\<lparr>dc_rawBuild := Some t\<rparr>) \<and> staged ab' t"
proof (induction acts arbitrary: s c ab)
  case Nil
  then show ?case by (auto simp: building_def intro!: exI [of _ s])
next
  case (Cons a acts)
  have cons: "acts_ops (a # acts) = acts_ops [a] @ acts_ops acts" by (simp add: acts_ops_def)
  have step: "case abs_action a ab of
      None \<Rightarrow> \<exists>e c'. run_action addr a c = (Inl e, c')
    | Some ab' \<Rightarrow> ab_ops ab' = ab_ops ab @ acts_ops [a] \<and> (\<exists>t. run_action addr a c = (Inr (), c\<lparr>dc_rawBuild := Some t\<rparr>) \<and> staged ab' t)"
    using Cons.prems by (intro action_refine) (simp_all add: cons)
  show ?case
  proof (cases "abs_action a ab")
    case None
    then show ?thesis using step by auto
  next
    case (Some ab')
    then obtain t where t: "run_action addr a c = (Inr (), c\<lparr>dc_rawBuild := Some t\<rparr>)" "staged ab' t" "ab_ops ab' = ab_ops ab @ acts_ops [a]"
      using step by auto
    have "building addr t (c\<lparr>dc_rawBuild := Some t\<rparr>)" using Cons.prems(1) by (simp add: building_def)
    then have "case abs_actions acts ab' of
        None \<Rightarrow> \<exists>e c'. loop_st (run_action addr) acts (c\<lparr>dc_rawBuild := Some t\<rparr>) = (Inl e, c')
      | Some ab' \<Rightarrow> \<exists>u. loop_st (run_action addr) acts (c\<lparr>dc_rawBuild := Some t\<rparr>) = (Inr (), c\<lparr>dc_rawBuild := Some u\<rparr>) \<and> staged ab' u"
      using Cons.IH [OF _ t(2), of "c\<lparr>dc_rawBuild := Some t\<rparr>"] Cons.prems(3,4) t(3) by (simp add: cons cong: option.case_cong)
    then show ?thesis using t(1) Some by (cases "abs_actions acts ab'") auto
  qed
qed

section \<open>A whole build\<close>

text \<open>What the staging state keeps between builds.\<close>

definition raw_ok :: "rawBuildState \<Rightarrow> bool" where
  "raw_ok s \<longleftrightarrow> sl_start (rb_varnodes s) = 0 \<and> length (rb_arrays s (sl_array (rb_varnodes s))) \<le> 2 ^ 62"

definition raw_cache_ok :: "DisassemblyCache \<Rightarrow> bool" where
  "raw_cache_ok c \<longleftrightarrow> (\<forall>s. dc_rawBuild c = Some s \<longrightarrow> raw_ok s)"

lemma reset_staged:
  assumes "raw_ok s" "capacity \<le> 2 ^ 60"
  shows "staged \<lparr>ab_ops = [], ab_rel = [], ab_labels = (\<lambda>_. None)\<rparr> (rb_reset capacity s)"
proof -
  have "i64 0 = 0" "0 \<le> capacity \<Longrightarrow> i64 (capacity * 3) = capacity * 3" using assms(2) by (auto intro!: i64_id)
  then show ?thesis using assms
    by (simp add: staged_def layout_def rb_reset_def Let_def new_array_def raw_ok_def marked_def abs_wf_def max_def label_at_def fun_eq_iff nat_le_iff)
qed

lemma reset_raw_ok: "raw_ok s \<Longrightarrow> raw_ok (rb_reset 0 s)"
  by (simp add: raw_ok_def rb_reset_def Let_def new_array_def i64_def)

lemma layout_raw_ok: "layout vs s \<Longrightarrow> raw_ok s"
  by (simp add: layout_def raw_ok_def)

definition run_build :: "space_store \<Rightarrow> Address \<Rightarrow> int \<Rightarrow> raw_action list \<Rightarrow> ('k \<Rightarrow> RawOp \<Rightarrow> unit + 'k) \<Rightarrow> 'k \<Rightarrow> DisassemblyCache
    \<Rightarrow> (raw_error + 'k) \<times> DisassemblyCache" where
  "run_build \<sigma> addr capacity acts sink k c =
     then_st (BeginRawBuild \<sigma> addr capacity c) (\<lambda>_ c.
     then_st (loop_st (run_action addr) acts c) (\<lambda>_ c.
     then_st (ResolveRawBuild addr c) (\<lambda>_ c. EmitRawBuildTo sink k addr c)))"

lemma begin_staged:
  assumes "raw_cache_ok c" "Address_Validate \<sigma> addr = None" "capacity \<le> 2 ^ 60"
  shows "\<exists>s. BeginRawBuild \<sigma> addr capacity c = (Inr (), c\<lparr>dc_rawBuild := Some s, dc_rawBuildAddr := addr, dc_rawBuildActive := True,
      dc_rawOps := (dc_rawOps c)(addr := None)\<rparr>) \<and> staged \<lparr>ab_ops = [], ab_rel = [], ab_labels = (\<lambda>_. None)\<rparr> s"
proof -
  let ?cap = "if capacity < 0 then 0 else capacity"
  define s0 where "s0 = (case dc_rawBuild c of None \<Rightarrow> zeroRawBuildState | Some s \<Rightarrow> s)"
  have "raw_ok s0" using assms(1) by (auto simp: s0_def raw_ok_def zeroRawBuildState_def raw_cache_ok_def split: option.splits)
  then have "staged \<lparr>ab_ops = [], ab_rel = [], ab_labels = (\<lambda>_. None)\<rparr> (rb_reset ?cap s0)"
    using assms(3) by (intro reset_staged) auto
  moreover have "(case dc_rawBuild c of None \<Rightarrow> newRawBuildState ?cap | Some s \<Rightarrow> rb_reset ?cap s) = rb_reset ?cap s0"
    by (simp add: s0_def newRawBuildState_def split: option.splits)
  ultimately show ?thesis using assms(2)
    by (intro exI [of _ "rb_reset ?cap s0"]) (simp add: BeginRawBuild_def Let_def activateRawBuildLocked_def)
qed


text \<open>A branch to label 1, an operation, and the label behind it.\<close>

definition sample_space :: Space where
  "sample_space = \<lparr>sp_Name = ''ram'', sp_Kind = SpaceKindProcessor, sp_Index = 1, sp_AddrSize = 4, sp_WordSize = 1,
     sp_BigEndian = False, sp_Physical = True, sp_Delay = 0, sp_Truncated = False, sp_spacebases = []\<rparr>"

definition sample_op :: "u64 \<Rightarrow> RawOp" where
  "sample_op x = \<lparr>ro_SeqNum = \<lparr>sq_Address = invalidAddress, sq_Time = 0, sq_Order = 0\<rparr>, ro_OpCode = 4, ro_Output = None,
     ro_Inputs = [\<lparr>rv_Space = Some 0, rv_Offset = x, rv_Size = 4\<rparr>]\<rparr>"

definition sample_acts :: "raw_action list" where
  "sample_acts = [RawAppend \<lparr>ot_OpcodeID = 4, ot_Output = None, ot_Inputs = [\<lparr>vt_Space = const_of ConstKindReal 0,
       vt_Offset = (const_of ConstKindRelative 0)\<lparr>cb_Value := 1\<rparr>, vt_Size = const_of ConstKindReal 0\<rparr>]\<rparr> [sample_op 0] 0,
     RawAppend \<lparr>ot_OpcodeID = 1, ot_Output = None, ot_Inputs = []\<rparr> [sample_op 7] 0, RawLabel 1]"


text \<open>
  A second resolution after further staging takes the distances of the first for label numbers: the
  build of \<open>sample_acts\<close>, resolved, labelled once more and resolved again, fails.
\<close>

lemma resolve_twice_fails:
  "case loop_st (run_action \<lparr>ad_Space = Some 0, ad_Offset = 64\<rparr>) sample_acts
      (snd (BeginRawBuild (\<lambda>_. sample_space) \<lparr>ad_Space = Some 0, ad_Offset = 64\<rparr> 2 emptyDisassemblyCache)) of (_, c) \<Rightarrow>
    case ResolveRawBuild \<lparr>ad_Space = Some 0, ad_Offset = 64\<rparr> c of (r, c) \<Rightarrow> r = Inr () \<and>
      (case AddRawBuildLabel \<lparr>ad_Space = Some 0, ad_Offset = 64\<rparr> 0 c of (r, c) \<Rightarrow> r = Inr () \<and>
        fst (ResolveRawBuild \<lparr>ad_Space = Some 0, ad_Offset = 64\<rparr> c) = Inl (ErrLabelMissing 2))"
  by code_simp

end
