(* ===== verification/Sla_CacheLaws.thy ===== *)
theory Sla_CacheLaws
  imports Sla_Discache
begin

text \<open>
  The pool of parser contexts: what a request returns, and that the context of the instruction being
  translated (the pinned one) is never recycled under it.
\<close>

section \<open>Well-formed caches\<close>

text \<open>
  The pool has at least two slots, each with its own context; the hash table has as many entries as
  its mask allows.
\<close>

definition cache_ok :: "DisassemblyCache \<Rightarrow> cache_world \<Rightarrow> bool" where
  "cache_ok c w \<longleftrightarrow>
     2 \<le> length (dc_parserList c) \<and> dc_parserNext c < length (dc_parserList c)
     \<and> (\<exists>n \<le> 62. length (dc_parserHash c) = 2 ^ n \<and> dc_parserMask c = mask n)
     \<and> (\<forall>i j r. i < length (dc_parserList c) \<longrightarrow> j < length (dc_parserList c) \<longrightarrow>
          dc_parserList c ! i = Some r \<longrightarrow> dc_parserList c ! j = Some r \<longrightarrow> i = j)
     \<and> (\<forall>r. Some r \<in> set (dc_parserList c) \<longrightarrow> r < cw_next w)"

lemma mask_and_less: "unat (x AND mask n :: u64) < 2 ^ n" if "n \<le> 62"
proof -
  have "x AND mask n = take_bit n x" by (simp add: take_bit_eq_mask)
  then show ?thesis using that by (simp add: unsigned_take_bit_eq)
qed

lemma hashIndex_less:
  assumes "cache_ok c w"
  shows "dc_parserHash c \<noteq> []" "unat (hashIndexLocked c addr) < length (dc_parserHash c)"
proof -
  obtain n where n: "n \<le> 62" "length (dc_parserHash c) = 2 ^ n" "dc_parserMask c = mask n"
    using assms by (auto simp: cache_ok_def)
  then have "length (dc_parserHash c) \<noteq> 0" by simp
  then show "dc_parserHash c \<noteq> []" by (metis list.size(3))
  then show "unat (hashIndexLocked c addr) < length (dc_parserHash c)"
    using n mask_and_less [OF n(1)] by (simp add: hashIndexLocked_def)
qed

text \<open>The search for a slot ends on one that is not pinned.\<close>

lemma skipPinned_free:
  assumes "cache_ok c w" "slot < length (dc_parserList c)"
  defines "free \<equiv> skipPinned c (length (dc_parserList c)) slot"
  shows "free < length (dc_parserList c)" "dc_pinnedCtx c \<noteq> None \<Longrightarrow> dc_parserList c ! free \<noteq> dc_pinnedCtx c"
proof -
  let ?n = "length (dc_parserList c)" and ?nx = "if Suc slot \<ge> length (dc_parserList c) then 0 else Suc slot"
  have n: "2 \<le> ?n" and dist: "\<And>i j r. i < ?n \<Longrightarrow> j < ?n \<Longrightarrow> dc_parserList c ! i = Some r \<Longrightarrow> dc_parserList c ! j = Some r \<Longrightarrow> i = j"
    using assms(1) by (auto simp: cache_ok_def)
  have nxt: "?nx < ?n" "?nx \<noteq> slot" using n assms(2) by auto
  obtain k where k: "?n = Suc (Suc k)" using n by (metis Suc_le_D Suc_le_mono numeral_2_eq_2)
  have "dc_parserList c ! ?nx \<noteq> dc_pinnedCtx c" if "dc_pinnedCtx c = Some p" "dc_parserList c ! slot = Some p" for p
    using dist [OF nxt(1) assms(2), of p] nxt(2) that by auto
  then have "free = (if dc_pinnedCtx c = None \<or> dc_parserList c ! slot \<noteq> dc_pinnedCtx c then slot else ?nx)"
    "dc_pinnedCtx c \<noteq> None \<Longrightarrow> dc_parserList c ! free \<noteq> dc_pinnedCtx c"
    by (auto simp: free_def k)
  then show "free < ?n" "dc_pinnedCtx c \<noteq> None \<Longrightarrow> dc_parserList c ! free \<noteq> dc_pinnedCtx c"
    using nxt(1) assms(2) by auto
qed

section \<open>One request\<close>

text \<open>A hit: a context of the explicit table or of the hash table.\<close>

lemma ensureParserReuse_ok: "cache_ok c w \<Longrightarrow> ensureParserReuse c = c"
  using hashIndex_less by (auto simp: ensureParserReuse_def cache_ok_def)

lemma Obtain_hit:
  assumes "cache_ok c w" "GetParserContext w c addr = Some r"
  shows "ObtainParserContext addr cs (c, w) = (r, c, initializeOnce r cs w)"
  using assms by (auto simp: ObtainParserContext_def GetParserContext_def ensureParserReuse_ok Let_def split: option.splits)

text \<open>A miss: a slot that is not pinned gets a context for the address, with a new empty tree.\<close>

definition miss_result :: "DisassemblyCache \<Rightarrow> cache_world \<Rightarrow> Address \<Rightarrow> nat \<Rightarrow> nat \<Rightarrow> DisassemblyCache \<Rightarrow> cache_world \<Rightarrow> bool" where
  "miss_result c w addr slot r c' w' \<longleftrightarrow>
     slot < length (dc_parserList c) \<and> (dc_pinnedCtx c \<noteq> None \<longrightarrow> dc_parserList c ! slot \<noteq> dc_pinnedCtx c)
     \<and> (dc_parserList c ! slot = Some r \<or> dc_parserList c ! slot = None \<and> r = cw_next w \<and> cw_next w' = Suc (cw_next w))
     \<and> c' = c\<lparr>dc_parserNext := (if Suc slot \<ge> length (dc_parserList c) then 0 else Suc slot),
          dc_parserList := (dc_parserList c)[slot := Some r],
          dc_parserHash := (dc_parserHash c)[unat (hashIndexLocked c addr) := Some r]\<rparr>
     \<and> (\<forall>q. q \<noteq> r \<longrightarrow> cw_ctx w' q = cw_ctx w q) \<and> cw_next w \<le> cw_next w'
     \<and> pc_Addr (cw_ctx w' r) = addr \<and> pc_ParserState (cw_ctx w' r) = ParseStateUninitialized
     \<and> pc_BaseState (cw_ctx w' r) = Some (hp_next (cw_heap w)) \<and> hp_state (cw_heap w') (hp_next (cw_heap w)) = emptyState"

lemma miss_resultD:
  assumes "miss_result c w addr slot r c' w'"
  shows "slot < length (dc_parserList c)" "dc_pinnedCtx c \<noteq> None \<longrightarrow> dc_parserList c ! slot \<noteq> dc_pinnedCtx c"
    "dc_parserList c ! slot = Some r \<or> dc_parserList c ! slot = None \<and> r = cw_next w \<and> cw_next w' = Suc (cw_next w)"
    "c' = c\<lparr>dc_parserNext := (if Suc slot \<ge> length (dc_parserList c) then 0 else Suc slot),
          dc_parserList := (dc_parserList c)[slot := Some r],
          dc_parserHash := (dc_parserHash c)[unat (hashIndexLocked c addr) := Some r]\<rparr>"
    "\<forall>q. q \<noteq> r \<longrightarrow> cw_ctx w' q = cw_ctx w q" "cw_next w \<le> cw_next w'"
    "pc_Addr (cw_ctx w' r) = addr" "pc_ParserState (cw_ctx w' r) = ParseStateUninitialized"
    "pc_BaseState (cw_ctx w' r) = Some (hp_next (cw_heap w))" "hp_state (cw_heap w') (hp_next (cw_heap w)) = emptyState"
  using assms unfolding miss_result_def by blast+

lemma Obtain_miss:
  assumes ok: "cache_ok c w" and miss: "GetParserContext w c addr = None"
  obtains slot r c' w' where "ObtainParserContext addr cs (c, w) = (r, c', w')" "miss_result c w addr slot r c' w'"
proof -
  define slot where "slot = skipPinned c (length (dc_parserList c)) (dc_parserNext c)"
  have nx: "dc_parserNext c < length (dc_parserList c)" using ok by (simp add: cache_ok_def)
  note free = skipPinned_free [OF ok nx, folded slot_def]
  define nc where "nc = c\<lparr>dc_parserNext := (if Suc slot \<ge> length (dc_parserList c) then 0 else Suc slot)\<rparr>"
  define rw where "rw = (case dc_parserList c ! slot of None \<Rightarrow> allocContext addr cs w | Some r \<Rightarrow> (r, recycleContext r addr cs w))"
  obtain r w' where rw: "rw = (r, w')" by (cases rw)
  have "ObtainParserContext addr cs (c, w) = (r, nc\<lparr>dc_parserList := (dc_parserList c)[slot := Some r],
      dc_parserHash := (dc_parserHash c)[unat (hashIndexLocked c addr) := Some r]\<rparr>, w')"
    using miss rw
    by (auto simp: ObtainParserContext_def GetParserContext_def ensureParserReuse_ok [OF ok] Let_def nextReuseSlotLocked_def
        slot_def [symmetric] nc_def [symmetric] rw_def hashIndexLocked_def split: option.splits)
      (auto simp: nc_def)
  moreover have "dc_parserList c ! slot = Some r \<or> dc_parserList c ! slot = None \<and> r = cw_next w \<and> cw_next w' = Suc (cw_next w)"
    "\<forall>q. q \<noteq> r \<longrightarrow> cw_ctx w' q = cw_ctx w q" "cw_next w \<le> cw_next w'"
    "pc_Addr (cw_ctx w' r) = addr" "pc_ParserState (cw_ctx w' r) = ParseStateUninitialized"
    "pc_BaseState (cw_ctx w' r) = Some (hp_next (cw_heap w))" "hp_state (cw_heap w') (hp_next (cw_heap w)) = emptyState"
    using rw unfolding rw_def
    by (auto simp: allocContext_def recycleContext_def initializeOnce_def upd_ctx_def NewParserContext_def NewConstructState_def
        ParserContext_Initialize_def SetParserState_def SetN2addr_def SetAddr_def Let_def split: option.splits if_splits)
  ultimately have "miss_result c w addr slot r (nc\<lparr>dc_parserList := (dc_parserList c)[slot := Some r],
      dc_parserHash := (dc_parserHash c)[unat (hashIndexLocked c addr) := Some r]\<rparr>) w'"
    "ObtainParserContext addr cs (c, w) = (r, nc\<lparr>dc_parserList := (dc_parserList c)[slot := Some r],
      dc_parserHash := (dc_parserHash c)[unat (hashIndexLocked c addr) := Some r]\<rparr>, w')"
    using free by (simp_all add: miss_result_def nc_def)
  then show ?thesis using that by metis
qed

lemma initializeOnce_frame:
  "cw_next (initializeOnce r cs w) = cw_next w" "pc_Addr (cw_ctx (initializeOnce r cs w) q) = pc_Addr (cw_ctx w q)"
  "q \<noteq> r \<or> pc_ConstSpace (cw_ctx w q) \<noteq> None \<Longrightarrow> cw_ctx (initializeOnce r cs w) q = cw_ctx w q"
  by (auto simp: initializeOnce_def upd_ctx_def ParserContext_Initialize_def NewConstructState_def Let_def)

lemma cache_ok_world: "cw_next w' = cw_next w \<Longrightarrow> cache_ok c w' = cache_ok c w"
  by (simp add: cache_ok_def)

text \<open>Every request keeps the cache well-formed, and the pinned context untouched.\<close>

lemma Obtain_ok:
  assumes ok: "cache_ok c w" and res: "ObtainParserContext addr cs (c, w) = (r, c', w')"
  shows "cache_ok c' w'" "dc_pinnedCtx c' = dc_pinnedCtx c" "cw_next w \<le> cw_next w'"
    "length (dc_parserList c') = length (dc_parserList c)"
    "\<lbrakk>dc_pinnedCtx c = Some p; p < cw_next w; pc_ConstSpace (cw_ctx w p) \<noteq> None\<rbrakk> \<Longrightarrow> cw_ctx w' p = cw_ctx w p"
proof -
  have "cache_ok c' w' \<and> dc_pinnedCtx c' = dc_pinnedCtx c \<and> cw_next w \<le> cw_next w' \<and>
      length (dc_parserList c') = length (dc_parserList c) \<and>
      (dc_pinnedCtx c = Some p \<longrightarrow> p < cw_next w \<longrightarrow> pc_ConstSpace (cw_ctx w p) \<noteq> None \<longrightarrow> cw_ctx w' p = cw_ctx w p)"
  proof (cases "GetParserContext w c addr")
    case (Some q)
    then show ?thesis using Obtain_hit [OF ok Some, of cs] res ok initializeOnce_frame [where w = w] cache_ok_world
      by (metis order_refl prod.inject)
  next
    case None
    obtain slot q d v where res': "ObtainParserContext addr cs (c, w) = (q, d, v)" and miss: "miss_result c w addr slot q d v"
      using Obtain_miss [OF ok None] by metis
    note d = res' miss_resultD [OF miss]
    have eq: "c' = d" "w' = v" using d(1) res by simp_all
    have old: "t < cw_next w" if "i < length (dc_parserList c)" "dc_parserList c ! i = Some t" for i t
      using ok that by (metis cache_ok_def nth_mem)
    have "cache_ok d v"
      unfolding cache_ok_def
    proof (intro conjI allI impI)
      show "\<exists>n\<le>62. length (dc_parserHash d) = 2 ^ n \<and> dc_parserMask d = mask n" "2 \<le> length (dc_parserList d)"
        "dc_parserNext d < length (dc_parserList d)"
        using ok d(2) by (auto simp: cache_ok_def d(5))
      show "i = j" if "i < length (dc_parserList d)" "j < length (dc_parserList d)" "dc_parserList d ! i = Some t" "dc_parserList d ! j = Some t" for i j t
        using that ok old d(2,4) by (auto simp: cache_ok_def d(5) nth_list_update split: if_splits)
      show "t < cw_next v" if "Some t \<in> set (dc_parserList d)" for t
        using that old d(2,4,7) by (fastforce simp: d(5) in_set_conv_nth nth_list_update split: if_splits)
    qed
    moreover have "p \<noteq> q" if "dc_pinnedCtx c = Some p" "p < cw_next w" using that d(3,4) by auto
    ultimately show ?thesis unfolding eq using d(5-7) by auto
  qed
  then show "cache_ok c' w'" "dc_pinnedCtx c' = dc_pinnedCtx c" "cw_next w \<le> cw_next w'"
    "length (dc_parserList c') = length (dc_parserList c)"
    "\<lbrakk>dc_pinnedCtx c = Some p; p < cw_next w; pc_ConstSpace (cw_ctx w p) \<noteq> None\<rbrakk> \<Longrightarrow> cw_ctx w' p = cw_ctx w p"
    by blast+
qed

section \<open>Runs of requests\<close>

definition obtain_all :: "(Address \<times> space_ref option) list \<Rightarrow> DisassemblyCache \<times> cache_world \<Rightarrow> DisassemblyCache \<times> cache_world" where
  "obtain_all reqs cw = fold (\<lambda>(addr, cs) cw. snd (ObtainParserContext addr cs cw)) reqs cw"

lemma obtain_all_Cons: "obtain_all ((addr, cs) # reqs) cw = obtain_all reqs (snd (ObtainParserContext addr cs cw))"
  by (simp add: obtain_all_def)

text \<open>
  C26: while an instruction is being translated its parser context is pinned; no sequence of requests for
  other contexts, whatever their addresses, changes it: neither its address, nor its parse state, nor its tree.
\<close>

theorem pinned_survives:
  assumes "cache_ok c w" "dc_pinnedCtx c = Some p" "p < cw_next w" "pc_ConstSpace (cw_ctx w p) \<noteq> None"
    "obtain_all reqs (c, w) = (c', w')"
  shows "cw_ctx w' p = cw_ctx w p \<and> dc_pinnedCtx c' = Some p \<and> cache_ok c' w'"
  using assms
proof (induction reqs arbitrary: c w)
  case Nil
  then show ?case by (simp add: obtain_all_def)
next
  case (Cons req reqs)
  obtain addr cs where req: "req = (addr, cs)" by (cases req)
  obtain r d v where d: "ObtainParserContext addr cs (c, w) = (r, d, v)" by (metis prod_cases3)
  note step = Obtain_ok [OF Cons.prems(1) d]
  have "cw_ctx v p = cw_ctx w p" using step(5) Cons.prems by blast
  moreover have "obtain_all reqs (d, v) = (c', w')" using Cons.prems(5) d by (simp add: req obtain_all_Cons)
  ultimately show ?case using Cons.IH [of d v] Cons.prems step by auto
qed


section \<open>Witnesses\<close>

text \<open>A pool of two slots, whose first context is pinned, and a hash table of one entry.\<close>

definition pool_state :: ConstructState where "pool_state = emptyState\<lparr>cs_Length := 4\<rparr>"

definition pool_world :: cache_world where
  "pool_world = \<lparr>cw_ctx = (\<lambda>_. (fst (NewParserContext \<lparr>ad_Space = Some 1, ad_Offset = 64\<rparr> (Some 0)
       \<lparr>hp_state = (\<lambda>_. pool_state), hp_next = 0\<rparr>))\<lparr>pc_ParserState := ParseStatePcode\<rparr>),
     cw_next = 1, cw_heap = \<lparr>hp_state = (\<lambda>_. pool_state), hp_next = 1\<rparr>\<rparr>"

definition pool_cache :: DisassemblyCache where
  "pool_cache = emptyDisassemblyCache\<lparr>dc_parserList := [Some 0, None], dc_parserHash := [Some 0], dc_pinnedCtx := Some 0\<rparr>"

lemma pool_cache_ok: "cache_ok pool_cache pool_world"
proof -
  have "\<exists>n \<le> 62. length (dc_parserHash pool_cache) = 2 ^ n \<and> dc_parserMask pool_cache = mask n"
    by (rule exI [of _ 0]) (simp add: pool_cache_def emptyDisassemblyCache_def)
  then show ?thesis
    by (auto simp: cache_ok_def pool_cache_def emptyDisassemblyCache_def pool_world_def less_Suc_eq)
qed

abbreviation "pool_addr \<equiv> \<lparr>ad_Space = Some 1, ad_Offset = 68\<rparr>"

lemma pool_request: "\<exists>c w. obtain_all [(pool_addr, Some 0), (pool_addr\<lparr>ad_Offset := 72\<rparr>, Some 0)] (pool_cache, pool_world) = (c, w)"
  by (metis surj_pair)

lemma pinned_survives_witness:
  "\<exists>c' w'. obtain_all [(pool_addr, Some 0), (pool_addr\<lparr>ad_Offset := 72\<rparr>, Some 0)] (pool_cache, pool_world) = (c', w')
     \<and> cw_ctx w' 0 = cw_ctx pool_world 0 \<and> dc_pinnedCtx c' = Some 0"
proof -
  obtain c' w' where run: "obtain_all [(pool_addr, Some 0), (pool_addr\<lparr>ad_Offset := 72\<rparr>, Some 0)] (pool_cache, pool_world) = (c', w')"
    using pool_request by blast
  have "dc_pinnedCtx pool_cache = Some 0" "0 < cw_next pool_world" "pc_ConstSpace (cw_ctx pool_world 0) \<noteq> None"
    by (simp_all add: pool_cache_def pool_world_def NewParserContext_def NewConstructState_def)
  then show ?thesis using run pinned_survives [OF pool_cache_ok _ _ _ run] by blast
qed


end
