(* ===== verification/Sla_Patexpr.thy ===== *)
theory Sla_Patexpr
  imports Sla_Walker
begin

text \<open>
  \<^verbatim>\<open>pkg/sla/patexpr.go\<close>: the value of a pattern expression at the position of a walker. The
  evaluation reads the tree of states and the parser contexts; it changes a context only by
  remembering \<^verbatim>\<open>inst_next2\<close>, so the store of contexts is threaded through it. The texts of errors and
  the normalization of wrapped errors, which keeps their kind, are not modelled.

  An operand expression is evaluated by evaluating its defining expression out of band, at a
  temporary state. The code does not bound that recursion; \<open>fuel\<close> counts how often it is entered,
  and \<open>PatFuel\<close> stands for exhausting the stack.
\<close>

datatype pat_error = ErrPatAttr sla_error | ErrPatWalker walker_error | ErrPatBits bits_error
  | ErrPatNoSpace | ErrPatNoState | ErrPatWindow | ErrPatChildren u32 | ErrPatElement u32 | ErrPatWidth
  | ErrPatOutOfBand walker_error | ErrPatOperand int | ErrPatHook | PanicDivide | PatFuel

text \<open>The operand hook of the caller: \<open>None\<close> when there is none, and as a result when it declines.\<close>

type_synonym operand_hook = "(PatternExprBoundary \<Rightarrow> ParserWalker \<Rightarrow> int \<Rightarrow> pat_error + int option) option"

definition exprAttrSlice :: "(u32 \<times> packedAttribute) list \<Rightarrow> packedAttribute list" where
  "exprAttrSlice attrs = map snd attrs"

definition pat_attr :: "sla_error + 'a \<Rightarrow> pat_error + 'a" where
  "pat_attr r = (case r of Inl e \<Rightarrow> Inl (ErrPatAttr e) | Inr x \<Rightarrow> Inr x)"

definition pat_bits :: "bits_error + 'a \<Rightarrow> pat_error + 'a" where
  "pat_bits r = (case r of Inl e \<Rightarrow> Inl (ErrPatBits e) | Inr x \<Rightarrow> Inr x)"

definition pat_walker :: "walker_error + 'a \<Rightarrow> pat_error + 'a" where
  "pat_walker r = (case r of Inl e \<Rightarrow> Inl (ErrPatWalker e) | Inr x \<Rightarrow> Inr x)"

definition evalConstantValue :: "(u32 \<times> packedAttribute) list \<Rightarrow> pat_error + int" where
  "evalConstantValue attrs = pat_attr (requiredIntAttr (exprAttrSlice attrs) attrVal)"

section \<open>Instruction addresses\<close>

definition byteOffsetToAddressValue :: "space_store \<Rightarrow> u64 \<Rightarrow> space_ref \<Rightarrow> int" where
  "byteOffsetToAddressValue \<sigma> offset space =
     (if sp_WordSize (\<sigma> space) \<le> 1 then i64_of offset else i64_of (offset div ucast (sp_WordSize (\<sigma> space))))"

definition addressValue :: "space_store \<Rightarrow> Address \<Rightarrow> pat_error + int" where
  "addressValue \<sigma> addr =
     (case ad_Space addr of
        None \<Rightarrow> Inl ErrPatNoSpace
      | Some space \<Rightarrow> Inr (byteOffsetToAddressValue \<sigma> (ad_Offset addr) space))"

definition evalStartInstructionValue :: "space_store \<Rightarrow> ctx_store \<Rightarrow> ParserWalker \<Rightarrow> pat_error + int" where
  "evalStartInstructionValue \<sigma> \<kappa> w = addressValue \<sigma> (GetAddr \<kappa> w)"

definition evalEndInstructionValue :: "space_store \<Rightarrow> ctx_store \<Rightarrow> ParserWalker \<Rightarrow> pat_error + int" where
  "evalEndInstructionValue \<sigma> \<kappa> w = addressValue \<sigma> (GetNaddr \<kappa> w)"

definition evalNext2InstructionValue :: "space_store \<Rightarrow> ParserWalker \<Rightarrow> ctx_store \<Rightarrow> (pat_error + int) \<times> ctx_store" where
  "evalNext2InstructionValue \<sigma> w \<kappa> = (let (addr, \<kappa>) = Walker_GetN2addr \<kappa> w in (addressValue \<sigma> addr, \<kappa>))"

section \<open>Token and context fields\<close>

text \<open>
  The sizes are \<^verbatim>\<open>int\<close>s that wrap around: for the widest window the code accepts, the little-endian
  loop starts at the largest \<^verbatim>\<open>int\<close> and panics at its first index.
\<close>

definition getPatternInstructionBytes :: "ctx_store \<Rightarrow> state_heap \<Rightarrow> ParserWalker \<Rightarrow> int \<Rightarrow> int \<Rightarrow> bool \<Rightarrow> pat_error + u64" where
  "getPatternInstructionBytes \<kappa> h w bytestart byteend bigendian =
     (case (pw_constContext w, pw_Point w) of
        (Some c, Some p) \<Rightarrow>
          if bytestart < 0 \<or> byteend < bytestart then Inl ErrPatWindow
          else
            let size0 = i64 (byteend - bytestart + 1);
                data = pc_InstructionBytes (\<kappa> c);
                base = i64 (i64_of (cs_Offset (hp_state h p)) + bytestart)
            in if base < 0 \<or> i64 (base + size0) > int (length data) then Inl ErrPatWindow
               else if size0 > 8 then Inl ErrPatWidth
               else pat_bits (if bigendian then packBytes data base (nat size0) 0
                 else packBytesDown data base (nat (i64 (size0 - 1) + 1)) 0)
      | _ \<Rightarrow> Inl ErrPatNoState)"

definition getPatternContextBytes :: "ctx_store \<Rightarrow> ParserWalker \<Rightarrow> int \<Rightarrow> int \<Rightarrow> pat_error + u64" where
  "getPatternContextBytes \<kappa> w bytestart byteend =
     (if bytestart < 0 \<or> byteend < bytestart then Inl ErrPatWindow
      else
        let size0 = i64 (byteend - bytestart + 1)
        in if size0 > 8 then Inl ErrPatWidth else pat_walker (GetContextBytes \<kappa> w bytestart size0))"

text \<open>\<^verbatim>\<open>raw >>= uint(shift)\<close> and the extension of the field of bits \<open>first\<close> to \<open>last\<close>.\<close>

definition shiftField :: "u64 \<Rightarrow> int \<Rightarrow> int \<Rightarrow> int \<Rightarrow> bool \<Rightarrow> pat_error + int" where
  "shiftField raw shift bitstart bitend signbit =
     pat_bits (extendPatternValue (shr raw (u64_of shift)) (i64 (bitend - bitstart + 1)) signbit)"

definition evalTokenField :: "ctx_store \<Rightarrow> state_heap \<Rightarrow> (u32 \<times> packedAttribute) list \<Rightarrow> ParserWalker \<Rightarrow> pat_error + int" where
  "evalTokenField \<kappa> h attrs0 w =
     (if pw_constContext w = None \<or> pw_Point w = None then Inl ErrPatNoState
      else
        let attrs = exprAttrSlice attrs0 in
        then_step (pat_attr (requiredBoolAttr attrs attrBigEndian)) (\<lambda>bigendian.
        then_step (pat_attr (requiredBoolAttr attrs attrSignBit)) (\<lambda>signbit.
        then_step (pat_attr (requiredIntAttr attrs attrStartBit)) (\<lambda>bitstart.
        then_step (pat_attr (requiredIntAttr attrs attrEndBit)) (\<lambda>bitend.
        then_step (pat_attr (requiredIntAttr attrs attrStartByte)) (\<lambda>bytestart.
        then_step (pat_attr (requiredIntAttr attrs attrEndByte)) (\<lambda>byteend.
        then_step (pat_attr (requiredIntAttr attrs attrShift)) (\<lambda>shift.
        then_step (getPatternInstructionBytes \<kappa> h w bytestart byteend bigendian) (\<lambda>raw.
          shiftField raw shift bitstart bitend signbit)))))))))"

definition evalContextField :: "ctx_store \<Rightarrow> (u32 \<times> packedAttribute) list \<Rightarrow> ParserWalker \<Rightarrow> pat_error + int" where
  "evalContextField \<kappa> attrs0 w =
     (if pw_constContext w = None then Inl ErrPatNoState
      else
        let attrs = exprAttrSlice attrs0 in
        then_step (pat_attr (requiredBoolAttr attrs attrSignBit)) (\<lambda>signbit.
        then_step (pat_attr (requiredIntAttr attrs attrStartBit)) (\<lambda>startbit.
        then_step (pat_attr (requiredIntAttr attrs attrEndBit)) (\<lambda>endbit.
        then_step (pat_attr (requiredIntAttr attrs attrStartByte)) (\<lambda>startbyte.
        then_step (pat_attr (requiredIntAttr attrs attrEndByte)) (\<lambda>endbyte.
        then_step (pat_attr (requiredIntAttr attrs attrShift)) (\<lambda>shift.
        then_step (getPatternContextBytes \<kappa> w startbyte endbyte) (\<lambda>raw.
          shiftField raw shift startbit endbit signbit))))))))"

section \<open>Operands\<close>

text \<open>The walk up to the nearest state with a constructor; the number of states bounds it.\<close>

fun nearestState :: "nat \<Rightarrow> state_heap \<Rightarrow> state_ref option \<Rightarrow> walker_error + state_ref option" where
  "nearestState fuel h None = Inr None"
| "nearestState 0 h (Some s) = Inl WalkFuel"
| "nearestState (Suc k) h (Some s) =
     (if cs_Constructor (hp_state h s) \<noteq> None then Inr (Some s) else nearestState k h (cs_Parent (hp_state h s)))"

definition nearestConstructorState :: "state_heap \<Rightarrow> ParserWalker \<Rightarrow> walker_error + state_ref option" where
  "nearestConstructorState h w = nearestState (hp_next h) h (pw_Point w)"

text \<open>The expression that defines an operand.\<close>

definition operandPattern :: "SymbolTableBoundary option \<Rightarrow> OperandSymbolBoundary \<Rightarrow> PatternExprBoundary option" where
  "operandPattern symbols operand =
     (if op_DefiningExpression operand = None \<and> op_HasDefiningSymbolID operand then
        (case FindSymbol symbols (op_DefiningSymbolID operand) of
           None \<Rightarrow> None
         | Some defsym \<Rightarrow> (case Option.bind (bd_Context (sy_Body defsym)) cs_Pattern of
             Some p \<Rightarrow> ps_Expression p
           | None \<Rightarrow> Option.bind (bd_Pattern (sy_Body defsym)) ps_Expression))
      else op_DefiningExpression operand)"

text \<open>
  \<^verbatim>\<open>evalOperandValueAuto\<close> up to its recursive call: the operand is not handled, its value is zero,
  or it is the value of an expression at a walker on a temporary state, which is dropped after.
\<close>

datatype operand_target = OperandDeclined | OperandZero | OperandExpr PatternExprBoundary ParserWalker state_heap

definition evalOperandValueAuto :: "ctx_store \<Rightarrow> state_heap \<Rightarrow> int \<Rightarrow> ParserWalker \<Rightarrow> pat_error + operand_target" where
  "evalOperandValueAuto \<kappa> h i w =
     (case pw_constContext w of
        None \<Rightarrow> Inr OperandDeclined
      | Some c \<Rightarrow>
          if pc_Symbols (\<kappa> c) = None then Inr OperandDeclined
          else then_step (pat_walker (nearestConstructorState h w)) (\<lambda>st.
            case st of
              None \<Rightarrow> Inr OperandDeclined
            | Some s \<Rightarrow> (case FindOperandForConstructor (pc_Symbols (\<kappa> c)) (cs_Constructor (hp_state h s)) i of
                None \<Rightarrow> Inr OperandDeclined
              | Some operand \<Rightarrow> (case operandPattern (pc_Symbols (\<kappa> c)) operand of
                  None \<Rightarrow> Inr OperandZero
                | Some pattern \<Rightarrow> (case SetOutOfBandState \<kappa> h (NewParserWalker (Some c)) (Some s) i (Some w) of
                    Inl e \<Rightarrow> Inl (ErrPatOutOfBand e)
                  | Inr (w, h) \<Rightarrow> Inr (OperandExpr pattern w h))))))"

text \<open>The rest of \<^verbatim>\<open>evalOperandValue\<close>, when the operand was not handled.\<close>

definition hookOperandValue :: "operand_hook \<Rightarrow> PatternExprBoundary \<Rightarrow> ParserWalker \<Rightarrow> int \<Rightarrow> pat_error + int" where
  "hookOperandValue hook expr w i =
     (case hook of
        None \<Rightarrow> Inl (ErrPatOperand i)
      | Some f \<Rightarrow> then_step (f expr w i) (\<lambda>r. case r of None \<Rightarrow> Inl (ErrPatOperand i) | Some v \<Rightarrow> Inr v))"

section \<open>The evaluator\<close>

definition binary_op :: "u32 \<Rightarrow> (int \<Rightarrow> int \<Rightarrow> pat_error + int) option" where
  "binary_op i =
     (if i = elemPlusExp then Some (\<lambda>l r. Inr (i64 (l + r)))
      else if i = elemSubExp then Some (\<lambda>l r. Inr (i64 (l - r)))
      else if i = elemMultExp then Some (\<lambda>l r. Inr (i64 (l * r)))
      else if i = elemLShiftExp then Some (\<lambda>l r. Inr (i64_of (shl (u64_of l) (u64_of r))))
      else if i = elemRShiftExp then Some (\<lambda>l r. Inr (sar l (u64_of r)))
      else if i = elemAndExp then Some (\<lambda>l r. Inr (l AND r))
      else if i = elemOrExp then Some (\<lambda>l r. Inr (l OR r))
      else if i = elemXorExp then Some (\<lambda>l r. Inr (l XOR r))
      else if i = elemDivExp then Some (\<lambda>l r. if r = 0 then Inl PanicDivide else Inr (quo64 l r))
      else None)"

definition unary_op :: "u32 \<Rightarrow> (int \<Rightarrow> int) option" where
  "unary_op i =
     (if i = elemMinusExp then Some (\<lambda>v. i64 (- v))
      else if i = elemNotExp then Some (\<lambda>v. NOT v)
      else None)"

function GetPatternExpressionValue :: "nat \<Rightarrow> operand_hook \<Rightarrow> space_store \<Rightarrow> state_heap \<Rightarrow> PatternExprBoundary \<Rightarrow> ParserWalker
    \<Rightarrow> ctx_store \<Rightarrow> (pat_error + int) \<times> ctx_store" where
  "GetPatternExpressionValue fuel hook \<sigma> h (PatternExpr i attrs children) w \<kappa> =
     (if i = elemIntB then (evalConstantValue attrs, \<kappa>)
      else if i = elemStartExp then (evalStartInstructionValue \<sigma> \<kappa> w, \<kappa>)
      else if i = elemEndExp then (evalEndInstructionValue \<sigma> \<kappa> w, \<kappa>)
      else if i = elemNext2Exp then evalNext2InstructionValue \<sigma> w \<kappa>
      else if i = elemTokenField then (evalTokenField \<kappa> h attrs w, \<kappa>)
      else if i = elemContextField then (evalContextField \<kappa> attrs w, \<kappa>)
      else if i = elemOperandExp then
        (case requiredIntAttr (exprAttrSlice attrs) attrIndex of
           Inl e \<Rightarrow> (Inl (ErrPatAttr e), \<kappa>)
         | Inr k \<Rightarrow> (case evalOperandValueAuto \<kappa> h k w of
             Inl e \<Rightarrow> (Inl e, \<kappa>)
           | Inr OperandZero \<Rightarrow> (Inr 0, \<kappa>)
           | Inr OperandDeclined \<Rightarrow> (hookOperandValue hook (PatternExpr i attrs children) w k, \<kappa>)
           | Inr (OperandExpr p w' h') \<Rightarrow> (case fuel of
               0 \<Rightarrow> (Inl PatFuel, \<kappa>)
             | Suc fuel \<Rightarrow> GetPatternExpressionValue fuel hook \<sigma> h' p w' \<kappa>)))
      else case binary_op i of
        Some f \<Rightarrow> (case children of
          [l, r] \<Rightarrow> then_st (GetPatternExpressionValue fuel hook \<sigma> h l w \<kappa>) (\<lambda>x \<kappa>.
            then_st (GetPatternExpressionValue fuel hook \<sigma> h r w \<kappa>) (\<lambda>y \<kappa>. (f x y, \<kappa>)))
        | _ \<Rightarrow> (Inl (ErrPatChildren i), \<kappa>))
      | None \<Rightarrow> (case unary_op i of
          Some f \<Rightarrow> (case children of
            [c] \<Rightarrow> then_st (GetPatternExpressionValue fuel hook \<sigma> h c w \<kappa>) (\<lambda>x \<kappa>. (Inr (f x), \<kappa>))
          | _ \<Rightarrow> (Inl (ErrPatChildren i), \<kappa>))
        | None \<Rightarrow> (Inl (ErrPatElement i), \<kappa>)))"
  by pat_completeness auto

termination GetPatternExpressionValue
  by (relation "measures [\<lambda>(fuel, _). fuel, \<lambda>(_, _, _, _, e, _). size e]") auto

declare GetPatternExpressionValue.simps [simp del]

end
