(* ===== verification/Sla_PatField.thy ===== *)
theory Sla_PatField
  imports Sla_Patexpr
begin

text \<open>
  The values of the token fields of pattern expressions, against the bits of the instruction.
\<close>

section \<open>Token fields\<close>

text \<open>
  The bytes of a token, in the order of significance of its endianness.
\<close>

definition token_bytes :: "u8 list \<Rightarrow> nat \<Rightarrow> nat \<Rightarrow> bool \<Rightarrow> u8 list" where
  "token_bytes data base n bigendian =
     (let window = take n (drop base data) in if bigendian then window else rev window)"

lemma go_index_nth: "i < length xs \<Longrightarrow> go_index xs (int i) = Inr (xs ! i)"
  by (simp add: go_index_def)

lemma packBytesDown_fold:
  "base + n \<le> length data \<Longrightarrow> packBytesDown data (int base) n acc =
     Inr (fold (\<lambda>b acc. push_bit 8 acc OR ucast b) (rev (take n (drop base data))) acc)"
proof (induction n arbitrary: acc)
  case (Suc n)
  have "go_index data (int base + int n) = Inr (data ! (base + n))"
    using go_index_nth [of "base + n" data] Suc.prems by simp
  moreover have "take (Suc n) (drop base data) = take n (drop base data) @ [data ! (base + n)]"
    using Suc.prems by (simp add: take_Suc_conv_app_nth)
  ultimately show ?case using Suc.prems Suc.IH by simp
qed simp

lemma packBytes_fold:
  "base + n \<le> length data \<Longrightarrow> length data < 2 ^ 63 \<Longrightarrow> packBytes data (int base) n acc =
     Inr (fold (\<lambda>b acc. push_bit 8 acc OR ucast b) (take n (drop base data)) acc)"
proof (induction n arbitrary: base acc)
  case (Suc n)
  have "i64 (int base + 1) = int (Suc base)" using Suc.prems by (simp add: i64_id)
  moreover have "take (Suc n) (drop base data) = data ! base # take n (drop (Suc base) data)"
    using Suc.prems by (metis Cons_nth_drop_Suc Suc_leD add_Suc_right le_add1 less_le_trans less_Suc_eq_le take_Suc_Cons)
  ultimately show ?case using Suc.prems Suc.IH [of "Suc base"] by (simp add: go_index_nth)
qed simp

lemma fold_bytes_field:
  fixes bs :: "u8 list"
  assumes "length bs \<le> 8"
  shows "fold (\<lambda>b acc. push_bit 8 acc OR ucast b) bs 0 = bit_field (be_bit 8 bs) 0 (8 * length bs)"
proof -
  have n: "length bs < 2 ^ 63" using assms by simp
  have "packBytes bs (int 0) (length bs) 0 = Inr (readPackedLoop bs (int 0) (length bs) 0)"
    using n by (intro packBytes_read) simp_all
  then have "fold (\<lambda>b acc. push_bit 8 acc OR ucast b) bs 0 = readPackedLoop bs 0 (length bs) 0"
    using packBytes_fold [of 0 "length bs" bs 0] n by simp
  also have "\<dots> = bit_field (be_bit 8 bs) 0 (8 * length bs)"
    using readPacked_field [of 0 "length bs" bs] assms by (cases "bs = []") (auto simp: readPackedBytesBigEndian_def bit_field_def)
  finally show ?thesis .
qed

lemma getPatternInstructionBytes_field:
  assumes "pw_constContext w = Some c" "pw_Point w = Some p"
    and "base = unat (cs_Offset (hp_state h p)) + bytestart" "bytestart \<le> byteend" "byteend < bytestart + 8"
    and "base + (byteend - bytestart) < length (pc_InstructionBytes (\<kappa> c))" "length (pc_InstructionBytes (\<kappa> c)) < 2 ^ 62"
  shows "getPatternInstructionBytes \<kappa> h w (int bytestart) (int byteend) bigendian =
    Inr (bit_field (be_bit 8 (token_bytes (pc_InstructionBytes (\<kappa> c)) base (byteend + 1 - bytestart) bigendian)) 0
      (8 * (byteend + 1 - bytestart)))"
proof -
  define n where "n = byteend + 1 - bytestart"
  have n: "0 < n" "n \<le> 8" "base + n \<le> length (pc_InstructionBytes (\<kappa> c))" using assms(4-6) by (auto simp: n_def)
  have small: "unat (cs_Offset (hp_state h p)) < 2 ^ 62" using assms(3,6,7) by linarith
  have "u64_of (int (unat (cs_Offset (hp_state h p)))) = cs_Offset (hp_state h p)" by (simp add: u64_of_def)
  then have "i64_of (cs_Offset (hp_state h p)) = i64 (int (unat (cs_Offset (hp_state h p))))"
    by (metis i64_of_u64_of)
  also have "\<dots> = int (unat (cs_Offset (hp_state h p)))"
  proof -
    have "i64 (int k) = int k" if "k < 2 ^ 62" for k using that by (intro i64_id) auto
    then show ?thesis using small by blast
  qed
  finally have off: "i64_of (cs_Offset (hp_state h p)) = int (unat (cs_Offset (hp_state h p)))" .
  have "i64_of (cs_Offset (hp_state h p)) + int bytestart = int base" by (simp only: off assms(3) of_nat_add)
  then have base: "i64 (i64_of (cs_Offset (hp_state h p)) + int bytestart) = int base"
    using assms(6,7) by (simp add: i64_id)
  have size0: "i64 (int byteend - int bytestart + 1) = int n"
    using assms(4) n(2) by (simp add: i64_id n_def)
  have low: "nat (i64 (int n - 1) + 1) = n" "i64 (int base + int n) = int base + int n"
    using n assms(7) by (simp_all add: i64_id)
  have len: "length (token_bytes (pc_InstructionBytes (\<kappa> c)) base n bigendian) = n"
    using n by (simp add: token_bytes_def Let_def)
  have "pat_bits (if bigendian then packBytes (pc_InstructionBytes (\<kappa> c)) (int base) (nat (int n)) 0
      else packBytesDown (pc_InstructionBytes (\<kappa> c)) (int base) (nat (i64 (int n - 1) + 1)) 0) =
    Inr (bit_field (be_bit 8 (token_bytes (pc_InstructionBytes (\<kappa> c)) base n bigendian)) 0 (8 * n))"
    using packBytes_fold [OF n(3), of 0] packBytesDown_fold [OF n(3), of 0] assms(7) n(2) len low(1)
      fold_bytes_field [of "token_bytes (pc_InstructionBytes (\<kappa> c)) base n bigendian"]
    by (cases bigendian) (simp_all add: pat_bits_def token_bytes_def Let_def)
  moreover have "byteend + 1 - bytestart = n" by (simp add: n_def)
  ultimately show ?thesis
    using assms(1,2,4) n low(2) by (simp add: getPatternInstructionBytes_def base size0)
qed

text \<open>The attributes a token field is read with.\<close>

record token_field =
  tf_BigEndian :: bool
  tf_SignBit :: bool
  tf_StartBit :: nat
  tf_EndBit :: nat
  tf_StartByte :: nat
  tf_EndByte :: nat
  tf_Shift :: nat

definition token_attrs :: "(u32 \<times> packedAttribute) list \<Rightarrow> token_field \<Rightarrow> bool" where
  "token_attrs attrs f \<longleftrightarrow>
     requiredBoolAttr (exprAttrSlice attrs) attrBigEndian = Inr (tf_BigEndian f)
     \<and> requiredBoolAttr (exprAttrSlice attrs) attrSignBit = Inr (tf_SignBit f)
     \<and> requiredIntAttr (exprAttrSlice attrs) attrStartBit = Inr (int (tf_StartBit f))
     \<and> requiredIntAttr (exprAttrSlice attrs) attrEndBit = Inr (int (tf_EndBit f))
     \<and> requiredIntAttr (exprAttrSlice attrs) attrStartByte = Inr (int (tf_StartByte f))
     \<and> requiredIntAttr (exprAttrSlice attrs) attrEndByte = Inr (int (tf_EndByte f))
     \<and> requiredIntAttr (exprAttrSlice attrs) attrShift = Inr (int (tf_Shift f))"

text \<open>A field of at most 8 bytes and 64 bits that lies inside the token.\<close>

definition token_shape :: "token_field \<Rightarrow> bool" where
  "token_shape f \<longleftrightarrow> tf_StartBit f \<le> tf_EndBit f \<and> tf_EndBit f < tf_StartBit f + 64
     \<and> tf_StartByte f \<le> tf_EndByte f \<and> tf_EndByte f < tf_StartByte f + 8 \<and> tf_Shift f \<le> 64"

text \<open>The bits of the field in the token, and the value they stand for.\<close>

definition token_value :: "u8 list \<Rightarrow> nat \<Rightarrow> token_field \<Rightarrow> int" where
  "token_value data offset f =
     (let n = tf_EndByte f + 1 - tf_StartByte f;
          width = tf_EndBit f + 1 - tf_StartBit f;
          token = bit_field (be_bit 8 (token_bytes data (offset + tf_StartByte f) n (tf_BigEndian f))) 0 (8 * n)
      in (if tf_SignBit f \<or> width = 64 then signed_take_bit (width - 1) else take_bit width)
           (drop_bit (tf_Shift f) (uint token)))"

text \<open>
  C28: the value of a token field is the field of bits it names, cut out of the bytes of its
  token in their endianness, with the sign extended where the field is signed; the walker is on any
  state whose offset leaves the token inside the instruction bytes.
\<close>

theorem token_field_value:
  assumes "token_attrs attrs f" "token_shape f" "pw_constContext w = Some c" "pw_Point w = Some p"
    and "unat (cs_Offset (hp_state h p)) + tf_EndByte f < length (pc_InstructionBytes (\<kappa> c))"
      "length (pc_InstructionBytes (\<kappa> c)) < 2 ^ 62"
  shows "GetPatternExpressionValue fuel hook \<sigma> h (PatternExpr elemTokenField attrs children) w \<kappa> =
    (Inr (token_value (pc_InstructionBytes (\<kappa> c)) (unat (cs_Offset (hp_state h p))) f), \<kappa>)"
proof -
  define width where "width = tf_EndBit f + 1 - tf_StartBit f"
  have width: "i64 (int (tf_EndBit f) - int (tf_StartBit f) + 1) = int width" "0 < width" "width \<le> 64"
    using assms(2) by (auto simp: width_def token_shape_def i64_id)
  define T where "T = bit_field (be_bit 8 (token_bytes (pc_InstructionBytes (\<kappa> c)) (unat (cs_Offset (hp_state h p)) + tf_StartByte f)
      (tf_EndByte f + 1 - tf_StartByte f) (tf_BigEndian f))) 0 (8 * (tf_EndByte f + 1 - tf_StartByte f))"
  have raw: "getPatternInstructionBytes \<kappa> h w (int (tf_StartByte f)) (int (tf_EndByte f)) (tf_BigEndian f) = Inr T"
    using assms(2,5,6) unfolding T_def
    by (intro getPatternInstructionBytes_field [OF assms(3,4) refl]) (auto simp: token_shape_def)
  have "shr T (u64_of (int (tf_Shift f))) = drop_bit (tf_Shift f) T"
    using shr_nat [of "int (tf_Shift f)"] assms(2) by (simp add: token_shape_def)
  moreover have "uint (drop_bit (tf_Shift f) T) = drop_bit (tf_Shift f) (uint T)"
    by (simp add: unsigned_drop_bit_eq bintr_uint)
  moreover have "evalTokenField \<kappa> h attrs w = pat_bits (extendPatternValue (shr T (u64_of (int (tf_Shift f)))) (int width) (tf_SignBit f))"
    using assms(1,3,4) raw
    by (simp only: evalTokenField_def token_attrs_def pat_attr_def shiftField_def width(1) Let_def then_step_simps
        sum.case option.distinct simp_thms if_False)
  moreover have "token_value (pc_InstructionBytes (\<kappa> c)) (unat (cs_Offset (hp_state h p))) f =
      (if tf_SignBit f \<or> width = 64 then signed_take_bit (width - 1) (drop_bit (tf_Shift f) (uint T))
       else take_bit width (drop_bit (tf_Shift f) (uint T)))"
    by (simp only: token_value_def Let_def T_def width_def split: if_split) simp
  ultimately have "evalTokenField \<kappa> h attrs w =
      Inr (token_value (pc_InstructionBytes (\<kappa> c)) (unat (cs_Offset (hp_state h p))) f)"
    using extendPatternValue_value [OF width(2,3)] by (simp only: pat_bits_def sum.case)
  then show ?thesis by (simp add: GetPatternExpressionValue.simps)
qed

text \<open>
  The 5 signed bits from bit 3 of the little-endian halfword at the second byte of the instruction:
  \<^verbatim>\<open>0xf18a\<close> shifted by 3 ends in \<^verbatim>\<open>10001\<close>.
\<close>

definition halfword_field :: token_field where
  "halfword_field = \<lparr>tf_BigEndian = False, tf_SignBit = True, tf_StartBit = 3, tf_EndBit = 7, tf_StartByte = 0, tf_EndByte = 1,
     tf_Shift = 3\<rparr>"

definition halfword_attrs :: "(u32 \<times> packedAttribute) list" where
  "halfword_attrs =
     (let num = (\<lambda>i v. (i, (new_attr i)\<lparr>at_Type := attributeValueInt, at_Int := v\<rparr>)) in
      [(attrBigEndian, new_attr attrBigEndian), (attrSignBit, (new_attr attrSignBit)\<lparr>at_Bool := True\<rparr>),
       num attrStartBit 3, num attrEndBit 7, num attrStartByte 0, num attrEndByte 1, num attrShift 3])"

definition halfword_heap :: state_heap where
  "halfword_heap = \<lparr>hp_state = (\<lambda>_. emptyState\<lparr>cs_Offset := 1\<rparr>), hp_next = 1\<rparr>"

definition halfword_context :: ctx_store where
  "halfword_context = (\<lambda>_. (fst (NewParserContext invalidAddress None halfword_heap))\<lparr>pc_InstructionBytes := [0x0f, 0x8a, 0xf1]\<rparr>)"

lemma token_field_value_witness:
  "GetPatternExpressionValue 0 None (\<lambda>_. undefined) halfword_heap (PatternExpr elemTokenField halfword_attrs [])
     ((NewParserWalker (Some 0))\<lparr>pw_Point := Some 0\<rparr>) halfword_context = (Inr (- 15), halfword_context)"
proof -
  have attrs: "token_attrs halfword_attrs halfword_field" by code_simp
  have "token_value [0x0f, 0x8a, 0xf1] 1 halfword_field = - 15" by code_simp
  then show ?thesis
    using token_field_value [OF attrs, of "(NewParserWalker (Some 0))\<lparr>pw_Point := Some 0\<rparr>" 0 0 halfword_heap halfword_context 0 None
        "\<lambda>_. undefined" "[]"]
    by (simp add: token_shape_def halfword_field_def halfword_heap_def halfword_context_def NewParserWalker_def)
qed

end
