(* ===== verification/Sla_PatLaws.thy ===== *)
theory Sla_PatLaws
  imports Sla_Patexpr
begin

text \<open>
  The type of the results of pattern expressions, and when their evaluation ends.
\<close>

section \<open>The results are 64-bit integers\<close>

text \<open>Expressions as the decoder produces them: known elements, attributes that are \<^verbatim>\<open>int64\<close>s.\<close>

fun expr_typed :: "PatternExprBoundary \<Rightarrow> bool" where
  "expr_typed (PatternExpr i attrs children) \<longleftrightarrow>
     isPatternExpressionElement i \<and> (\<forall>a \<in> set attrs. fits64 (at_Int (snd a))) \<and> (\<forall>c \<in> set children. expr_typed c)"

definition opt_typed :: "PatternExprBoundary option \<Rightarrow> bool" where
  "opt_typed e \<longleftrightarrow> (\<forall>x. e = Some x \<longrightarrow> expr_typed x)"

definition symbol_typed :: "SymbolBoundary \<Rightarrow> bool" where
  "symbol_typed s \<longleftrightarrow>
     (\<forall>operand. bd_Operand (sy_Body s) = Some operand \<longrightarrow> opt_typed (op_DefiningExpression operand))
     \<and> (\<forall>c p. bd_Context (sy_Body s) = Some c \<longrightarrow> cs_Pattern c = Some p \<longrightarrow> opt_typed (ps_Expression p))
     \<and> (\<forall>p. bd_Pattern (sy_Body s) = Some p \<longrightarrow> opt_typed (ps_Expression p))"

definition contexts_typed :: "ctx_store \<Rightarrow> bool" where
  "contexts_typed \<kappa> \<longleftrightarrow> (\<forall>c t. pc_Symbols (\<kappa> c) = Some t \<longrightarrow> (\<forall>s \<in> set (tb_Symbols t). symbol_typed s))"

definition hook_typed :: "operand_hook \<Rightarrow> bool" where
  "hook_typed hook \<longleftrightarrow> (\<forall>f. hook = Some f \<longrightarrow>
     (\<forall>e w i. (\<forall>v. f e w i = Inr (Some v) \<longrightarrow> fits64 v) \<and> (\<forall>j. f e w i \<noteq> Inl (ErrPatElement j))))"

definition value_typed :: "pat_error + int \<Rightarrow> bool" where
  "value_typed r \<longleftrightarrow> (\<forall>v. r = Inr v \<longrightarrow> fits64 v) \<and> (\<forall>j. r \<noteq> Inl (ErrPatElement j))"

lemma value_typed_simps [simp]:
  "value_typed (Inr v) \<longleftrightarrow> fits64 v" "value_typed (Inl e) \<longleftrightarrow> (\<forall>j. e \<noteq> ErrPatElement j)"
  by (auto simp: value_typed_def)

lemma fits64_i64 [simp]: "fits64 (i64 x)"
proof -
  have "- (2 ^ 63) \<le> signed_take_bit 63 x" and "signed_take_bit 63 x < 2 ^ 63"
    by (rule signed_take_bit_int_greater_eq_minus_exp, rule signed_take_bit_int_less_exp)
  then show ?thesis by (simp add: i64_def fits64_def)
qed

lemma fits64_iff: "fits64 x \<longleftrightarrow> i64 x = x"
  using fits64_i64 [of x] by (auto simp: fits64_def i64_id)

lemma fits64_i64_of [simp]: "fits64 (i64_of x)"
  using sint_greater_eq [of x] sint_less [of x] by (simp add: fits64_def i64_of_def)

text \<open>A number fits when its bits from the sign bit on are all equal.\<close>

lemma fits64_bits: "fits64 x \<longleftrightarrow> (\<forall>n. n > 63 \<longrightarrow> bit x n = bit x 63)"
proof -
  have "i64 x = x \<longleftrightarrow> (\<forall>n. bit x (min 63 n) = bit x n)"
    by (simp add: bit_eq_iff i64_def bit_simps)
  moreover have "(\<forall>n. bit x (min 63 n) = bit x n) \<longleftrightarrow> (\<forall>n. n > 63 \<longrightarrow> bit x n = bit x 63)"
    by (metis linorder_not_less min.absorb2 min.commute min.strict_order_iff min_def)
  ultimately show ?thesis by (simp only: fits64_iff)
qed

lemma fits64_bitwise:
  "fits64 x \<Longrightarrow> fits64 y \<Longrightarrow> fits64 (x AND y)" "fits64 x \<Longrightarrow> fits64 y \<Longrightarrow> fits64 (x OR y)"
  "fits64 x \<Longrightarrow> fits64 y \<Longrightarrow> fits64 (x XOR y)" "fits64 x \<Longrightarrow> fits64 (NOT x)"
  by (simp_all add: fits64_bits bit_simps)

lemma fits64_sar: "fits64 x \<Longrightarrow> fits64 (sar x n)"
proof -
  assume x: "fits64 x"
  have "bit x m = bit x 63" if "m \<ge> 63" for m
    using x that by (cases "m = 63") (auto simp: fits64_bits)
  then have "bit x (unat n + k) = bit x (unat n + 63)" if "k > 63" for k
    using that by (metis le_add2 less_imp_le order_trans)
  then show ?thesis by (simp add: fits64_bits sar_def bit_simps)
qed

section \<open>An induction principle\<close>

text \<open>The value of an expression whose evaluation involves no other expression and no change of the contexts.\<close>

definition leaf_value :: "operand_hook \<Rightarrow> space_store \<Rightarrow> state_heap \<Rightarrow> PatternExprBoundary \<Rightarrow> ParserWalker \<Rightarrow> ctx_store
    \<Rightarrow> (pat_error + int) option" where
  "leaf_value hook \<sigma> h e w \<kappa> =
     (let i = pe_ElementID e; attrs = pe_Attrs e; n = length (pe_Children e) in
      if i = elemIntB then Some (evalConstantValue attrs)
      else if i = elemStartExp then Some (evalStartInstructionValue \<sigma> \<kappa> w)
      else if i = elemEndExp then Some (evalEndInstructionValue \<sigma> \<kappa> w)
      else if i = elemNext2Exp then None
      else if i = elemTokenField then Some (evalTokenField \<kappa> h attrs w)
      else if i = elemContextField then Some (evalContextField \<kappa> attrs w)
      else if i = elemOperandExp then
        (case requiredIntAttr (exprAttrSlice attrs) attrIndex of
           Inl e \<Rightarrow> Some (Inl (ErrPatAttr e))
         | Inr k \<Rightarrow> (case evalOperandValueAuto \<kappa> h k w of
             Inl e \<Rightarrow> Some (Inl e)
           | Inr OperandZero \<Rightarrow> Some (Inr 0)
           | Inr OperandDeclined \<Rightarrow> Some (hookOperandValue hook e w k)
           | Inr (OperandExpr p w' h') \<Rightarrow> None))
      else if binary_op i \<noteq> None then (if n = 2 then None else Some (Inl (ErrPatChildren i)))
      else if unary_op i \<noteq> None then (if n = 1 then None else Some (Inl (ErrPatChildren i)))
      else Some (Inl (ErrPatElement i)))"

text \<open>The operand expression an expression stands for.\<close>

definition operand_expr :: "ctx_store \<Rightarrow> state_heap \<Rightarrow> PatternExprBoundary \<Rightarrow> ParserWalker \<Rightarrow> int \<Rightarrow> PatternExprBoundary
    \<Rightarrow> ParserWalker \<Rightarrow> state_heap \<Rightarrow> bool" where
  "operand_expr \<kappa> h e w k p w' h' \<longleftrightarrow> pe_ElementID e = elemOperandExp
     \<and> requiredIntAttr (exprAttrSlice (pe_Attrs e)) attrIndex = Inr k \<and> evalOperandValueAuto \<kappa> h k w = Inr (OperandExpr p w' h')"

lemma binary_op_leaf [simp]:
  "binary_op elemIntB = None" "binary_op elemStartExp = None" "binary_op elemEndExp = None" "binary_op elemNext2Exp = None"
  "binary_op elemTokenField = None" "binary_op elemContextField = None" "binary_op elemOperandExp = None"
  by (simp_all add: binary_op_def)

lemma unary_op_leaf [simp]:
  "unary_op elemIntB = None" "unary_op elemStartExp = None" "unary_op elemEndExp = None" "unary_op elemNext2Exp = None"
  "unary_op elemTokenField = None" "unary_op elemContextField = None" "unary_op elemOperandExp = None"
  by (simp_all add: unary_op_def)

text \<open>The evaluation, one rule per form.\<close>

lemma eval_leaf: "leaf_value hook \<sigma> h e w \<kappa> = Some r \<Longrightarrow> GetPatternExpressionValue fuel hook \<sigma> h e w \<kappa> = (r, \<kappa>)"
  by (cases e) (auto simp: leaf_value_def GetPatternExpressionValue.simps Let_def
    split: if_split_asm sum.splits operand_target.splits option.splits list.splits)

lemma eval_next2: "GetPatternExpressionValue fuel hook \<sigma> h (PatternExpr elemNext2Exp attrs children) w \<kappa> = evalNext2InstructionValue \<sigma> w \<kappa>"
  by (simp add: GetPatternExpressionValue.simps)

lemma eval_operand: "operand_expr \<kappa> h e w k p w' h' \<Longrightarrow> GetPatternExpressionValue fuel hook \<sigma> h e w \<kappa> =
    (case fuel of 0 \<Rightarrow> (Inl PatFuel, \<kappa>) | Suc fuel \<Rightarrow> GetPatternExpressionValue fuel hook \<sigma> h' p w' \<kappa>)"
  by (cases e) (simp add: operand_expr_def GetPatternExpressionValue.simps)

lemma eval_binary: "binary_op i = Some f \<Longrightarrow> GetPatternExpressionValue fuel hook \<sigma> h (PatternExpr i attrs [l, r]) w \<kappa> =
    then_st (GetPatternExpressionValue fuel hook \<sigma> h l w \<kappa>) (\<lambda>x \<kappa>.
      then_st (GetPatternExpressionValue fuel hook \<sigma> h r w \<kappa>) (\<lambda>y \<kappa>. (f x y, \<kappa>)))"
  by (subst GetPatternExpressionValue.simps) (auto simp del: GetPatternExpressionValue.simps)

lemma eval_unary: "binary_op i = None \<Longrightarrow> unary_op i = Some f \<Longrightarrow> GetPatternExpressionValue fuel hook \<sigma> h (PatternExpr i attrs [c]) w \<kappa> =
    then_st (GetPatternExpressionValue fuel hook \<sigma> h c w \<kappa>) (\<lambda>x \<kappa>. (Inr (f x), \<kappa>))"
  by (subst GetPatternExpressionValue.simps) auto

lemma expr_cases [case_names leaf next2 operand binary unary]:
  obtains (leaf) r where "leaf_value hook \<sigma> h e w \<kappa> = Some r"
  | (next2) attrs children where "e = PatternExpr elemNext2Exp attrs children"
  | (operand) k p w' h' where "operand_expr \<kappa> h e w k p w' h'"
  | (binary) i f attrs l r where "e = PatternExpr i attrs [l, r]" "binary_op i = Some f"
  | (unary) i f attrs c where "e = PatternExpr i attrs [c]" "binary_op i = None" "unary_op i = Some f"
proof (cases "leaf_value hook \<sigma> h e w \<kappa>")
  case None
  obtain i attrs children where e: "e = PatternExpr i attrs children" by (cases e)
  consider "i = elemNext2Exp" | "i = elemOperandExp" | "binary_op i \<noteq> None" "length children = 2"
    | "binary_op i = None" "unary_op i \<noteq> None" "length children = 1"
    using None by (auto simp: leaf_value_def e Let_def split: if_split_asm)
  then show ?thesis
  proof cases
    case 1 then show ?thesis using next2 e by simp
  next
    case 2 then show ?thesis using operand None
      by (auto simp: leaf_value_def operand_expr_def e split: sum.splits operand_target.splits)
  next
    case 3 then show ?thesis using binary e by (auto simp: numeral_2_eq_2 length_Suc_conv)
  next
    case 4 then show ?thesis using unary e by (auto simp: length_Suc_conv)
  qed
qed (use leaf in blast)

lemma eval_induct [case_names leaf next2 stop operand binary unary]:
  assumes leaf: "\<And>fuel h e w \<kappa> r. leaf_value hook \<sigma> h e w \<kappa> = Some r \<Longrightarrow> P fuel h e w \<kappa>"
    and next2: "\<And>fuel h attrs children w \<kappa>. P fuel h (PatternExpr elemNext2Exp attrs children) w \<kappa>"
    and stop: "\<And>h e w \<kappa> k p w' h'. operand_expr \<kappa> h e w k p w' h' \<Longrightarrow> P 0 h e w \<kappa>"
    and operand: "\<And>fuel h e w \<kappa> k p w' h'. operand_expr \<kappa> h e w k p w' h' \<Longrightarrow> P fuel h' p w' \<kappa> \<Longrightarrow> P (Suc fuel) h e w \<kappa>"
    and binary: "\<And>fuel h i f attrs l r w \<kappa>. binary_op i = Some f \<Longrightarrow> P fuel h l w \<kappa> \<Longrightarrow> (\<And>\<kappa>'. P fuel h r w \<kappa>')
      \<Longrightarrow> P fuel h (PatternExpr i attrs [l, r]) w \<kappa>"
    and unary: "\<And>fuel h i f attrs c w \<kappa>. binary_op i = None \<Longrightarrow> unary_op i = Some f \<Longrightarrow> P fuel h c w \<kappa>
      \<Longrightarrow> P fuel h (PatternExpr i attrs [c]) w \<kappa>"
  shows "P fuel h e w \<kappa>"
proof -
  have step: "P fuel h e w \<kappa>"
    if "\<And>k p w' h'. operand_expr \<kappa> h e w k p w' h' \<Longrightarrow> P fuel h e w \<kappa>" "\<And>c \<kappa>'. c \<in> set (pe_Children e) \<Longrightarrow> P fuel h c w \<kappa>'"
    for fuel h e w \<kappa>
    by (cases rule: expr_cases [of hook \<sigma> h e w \<kappa>]) (use that leaf next2 binary unary in auto)
  have zero: "P 0 h e w \<kappa>" for h e w \<kappa>
    by (induction e arbitrary: w \<kappa>) (rule step, use stop in auto)
  have "P (Suc fuel) h e w \<kappa>" if "\<And>h e w \<kappa>. P fuel h e w \<kappa>" for fuel h e w \<kappa>
    by (induction e arbitrary: w \<kappa>) (rule step, use that operand in auto)
  then show ?thesis using zero by (induction fuel arbitrary: h e w \<kappa>) auto
qed

section \<open>The type of a value\<close>

text \<open>Evaluation changes nothing of a context but the remembered \<^verbatim>\<open>inst_next2\<close>.\<close>

lemma GetN2addr_keeps [simp]: "pc_Symbols (snd (GetN2addr ctx)) = pc_Symbols ctx" "pc_BaseState (snd (GetN2addr ctx)) = pc_BaseState ctx"
  by (auto simp: GetN2addr_def split: option.splits prod.splits)

lemma evalNext2_keeps:
  assumes "\<And>ctx. g (snd (GetN2addr ctx)) = g ctx"
  shows "g (snd (evalNext2InstructionValue \<sigma> w \<kappa>) c) = g (\<kappa> c)"
proof -
  have "g (snd (Walker_GetN2addr \<kappa> w) c) = g (\<kappa> c)"
    using assms by (auto simp: Walker_GetN2addr_def Let_def split: option.splits prod.splits) (metis snd_conv)
  then show ?thesis by (auto simp: evalNext2InstructionValue_def split: prod.splits)
qed

lemma snd_then_st: "P (snd r) \<Longrightarrow> (\<And>x s. r = (Inr x, s) \<Longrightarrow> P (snd (f x s))) \<Longrightarrow> P (snd (then_st r f))"
  by (cases r; cases "fst r") auto

lemma eval_keeps:
  assumes "\<And>ctx. g (snd (GetN2addr ctx)) = g ctx"
  shows "g (snd (GetPatternExpressionValue fuel hook \<sigma> h e w \<kappa>) c) = g (\<kappa> c)"
proof (induction fuel h e w \<kappa> rule: eval_induct [where hook = hook and \<sigma> = \<sigma>])
  case (binary fuel h i f attrs l r w \<kappa>)
  then show ?case by (auto simp: eval_binary intro!: snd_then_st [where P = "\<lambda>s. g (s c) = _"] dest: arg_cong [of _ _ snd])
    (metis snd_conv)+
next
  case (unary fuel h i f attrs e w \<kappa>)
  then show ?case by (auto simp: eval_unary intro!: snd_then_st [where P = "\<lambda>s. g (s c) = _"])
qed (simp_all add: eval_leaf eval_next2 eval_operand evalNext2_keeps [where g = g, OF assms])

lemmas eval_symbols = eval_keeps [where g = pc_Symbols, OF GetN2addr_keeps(1)]
lemmas eval_base = eval_keeps [where g = pc_BaseState, OF GetN2addr_keeps(2)]

text \<open>The leaves.\<close>

lemma value_typed_step:
  "(\<And>j. r \<noteq> Inl (ErrPatElement j)) \<Longrightarrow> (\<And>x. r = Inr x \<Longrightarrow> value_typed (f x)) \<Longrightarrow> value_typed (then_step r f)"
  by (cases r) auto

lemma lifted_errors [simp]:
  "pat_attr r \<noteq> Inl (ErrPatElement j)" "pat_bits s \<noteq> Inl (ErrPatElement j)" "pat_walker t \<noteq> Inl (ErrPatElement j)"
  by (auto simp: pat_attr_def pat_bits_def pat_walker_def split: sum.splits)

lemma requiredIntAttr_fits:
  "requiredIntAttr (exprAttrSlice attrs) i = Inr v \<Longrightarrow> \<forall>a \<in> set attrs. fits64 (at_Int (snd a)) \<Longrightarrow> fits64 v"
  by (auto simp: requiredIntAttr_def findAttr_def exprAttrSlice_def find_Some_iff
      split: option.splits attributeValueType.splits if_splits)

lemma shiftField_typed: "value_typed (shiftField raw shift b e signbit)"
  by (auto simp: shiftField_def extendPatternValue_def pat_bits_def Let_def split: sum.splits if_splits)

lemma addressValue_typed: "value_typed (addressValue \<sigma> addr)"
  by (auto simp: addressValue_def byteOffsetToAddressValue_def split: option.splits)

lemma evalOperandValueAuto_errors: "evalOperandValueAuto \<kappa> h k w \<noteq> Inl (ErrPatElement j)"
  by (auto simp: evalOperandValueAuto_def then_step_Inl split: option.splits sum.splits)

lemma window_errors [simp]:
  "getPatternInstructionBytes \<kappa> h w a b e \<noteq> Inl (ErrPatElement j)" "getPatternContextBytes \<kappa> w a b \<noteq> Inl (ErrPatElement j)"
  by (auto simp: getPatternInstructionBytes_def getPatternContextBytes_def Let_def split: option.splits)

lemma element_op: "isPatternExpressionElement i \<Longrightarrow> binary_op i = None \<Longrightarrow> unary_op i = None \<Longrightarrow>
    i \<in> {elemIntB, elemStartExp, elemEndExp, elemNext2Exp, elemTokenField, elemContextField, elemOperandExp}"
  by (auto simp: isPatternExpressionElement_def binary_op_def unary_op_def split: if_splits)

lemma leaf_op: "leaf_value hook \<sigma> h (PatternExpr i attrs children) w \<kappa> = Some r \<Longrightarrow> binary_op i \<noteq> None \<or> unary_op i \<noteq> None
    \<Longrightarrow> r = Inl (ErrPatChildren i)"
  by (auto simp: leaf_value_def Let_def split: if_split_asm)

lemma leaf_typed:
  assumes "expr_typed e" "hook_typed hook" "leaf_value hook \<sigma> h e w \<kappa> = Some r"
  shows "value_typed r"
proof -
  obtain i attrs children where e: "e = PatternExpr i attrs children" by (cases e)
  have t: "isPatternExpressionElement i" "\<forall>a \<in> set attrs. fits64 (at_Int (snd a))" using assms(1) by (simp_all add: e)
  have const: "value_typed (evalConstantValue attrs)"
    using requiredIntAttr_fits [OF _ t(2)] by (auto simp: evalConstantValue_def pat_attr_def split: sum.splits)
  have fields: "value_typed (evalTokenField \<kappa> h attrs w)" "value_typed (evalContextField \<kappa> attrs w)"
    by (simp_all add: evalTokenField_def evalContextField_def value_typed_step shiftField_typed Let_def)
  have hook: "value_typed (hookOperandValue hook e w k)" for k
    using assms(2) by (auto simp: hookOperandValue_def hook_typed_def intro!: value_typed_step split: option.splits)
  consider "binary_op i \<noteq> None \<or> unary_op i \<noteq> None"
    | "i \<in> {elemIntB, elemStartExp, elemEndExp, elemNext2Exp, elemTokenField, elemContextField}" | "i = elemOperandExp"
    using element_op [OF t(1)] by blast
  then show ?thesis
  proof cases
    case 1
    then show ?thesis using leaf_op [OF assms(3) [unfolded e]] by simp
  next
    case 2
    then show ?thesis using assms(3) const fields
      by (auto simp: leaf_value_def e evalStartInstructionValue_def evalEndInstructionValue_def addressValue_typed)
  next
    case 3
    then show ?thesis using assms(3) hook evalOperandValueAuto_errors [of \<kappa> h _ w]
      by (auto simp: leaf_value_def e fits64_def split: sum.splits operand_target.splits)
  qed
qed

lemma binary_op_typed: "binary_op i = Some f \<Longrightarrow> fits64 x \<Longrightarrow> fits64 y \<Longrightarrow> value_typed (f x y)"
  by (auto simp: binary_op_def fits64_bitwise fits64_sar quo64_def split: if_splits)

lemma unary_op_typed: "unary_op i = Some f \<Longrightarrow> fits64 x \<Longrightarrow> fits64 (f x)"
  by (auto simp: unary_op_def fits64_bitwise split: if_splits)

lemma operand_expr_cases:
  assumes "evalOperandValueAuto \<kappa> h k w = Inr (OperandExpr p w' h')"
  obtains c t s operand where "pw_constContext w = Some c" "pc_Symbols (\<kappa> c) = Some t" "nearestConstructorState h w = Inr (Some s)"
    "FindOperandForConstructor (Some t) (cs_Constructor (hp_state h s)) k = Some operand"
    "operandPattern (Some t) operand = Some p" "SetOutOfBandState \<kappa> h (NewParserWalker (Some c)) (Some s) k (Some w) = Inr (w', h')"
  using assms
  by (auto simp: evalOperandValueAuto_def then_step_def pat_walker_def split: option.split_asm sum.split_asm if_split_asm)

lemma find_mem: "List.find P xs = Some x \<Longrightarrow> x \<in> set xs"
  by (metis find_Some_iff nth_mem)

lemma operand_pattern_typed:
  assumes "contexts_typed \<kappa>" "evalOperandValueAuto \<kappa> h k w = Inr (OperandExpr p w' h')"
  shows "expr_typed p"
proof -
  obtain c t s operand where t: "pc_Symbols (\<kappa> c) = Some t" "operandPattern (Some t) operand = Some p"
      "FindOperandForConstructor (Some t) (cs_Constructor (hp_state h s)) k = Some operand"
    using operand_expr_cases [OF assms(2)] by metis
  have typed: "x \<in> set (tb_Symbols t) \<Longrightarrow> symbol_typed x" for x using assms(1) t(1) by (simp add: contexts_typed_def)
  obtain i x where x: "List.find (\<lambda>s. sy_ID s = i) (tb_Symbols t) = Some x" "bd_Operand (sy_Body x) = Some operand"
    using t(3) by (auto simp: FindOperandForConstructor_def FindOperandSymbol_def FindSymbol_def split: option.splits if_splits)
  show ?thesis
  proof (cases "op_DefiningExpression operand = None \<and> op_HasDefiningSymbolID operand")
    case True
    then obtain d where d: "d \<in> set (tb_Symbols t)" "(case Option.bind (bd_Context (sy_Body d)) cs_Pattern of
        Some q \<Rightarrow> ps_Expression q | None \<Rightarrow> Option.bind (bd_Pattern (sy_Body d)) ps_Expression) = Some p"
      using t(2) find_mem by (force simp: operandPattern_def FindSymbol_def split: option.splits)
    then show ?thesis using typed [OF d(1)]
      by (auto simp: symbol_typed_def opt_typed_def bind_eq_Some_conv split: option.splits)
  next
    case False
    then show ?thesis using t(2) typed [OF find_mem [OF x(1)]] x(2)
      by (auto simp: operandPattern_def symbol_typed_def opt_typed_def split: if_split_asm)
  qed
qed

lemma eval_typed:
  "\<lbrakk>expr_typed e; hook_typed hook; contexts_typed \<kappa>\<rbrakk> \<Longrightarrow> value_typed (fst (GetPatternExpressionValue fuel hook \<sigma> h e w \<kappa>))"
proof (induction fuel h e w \<kappa> rule: eval_induct [where hook = hook and \<sigma> = \<sigma>])
  case (leaf fuel h e w \<kappa> r)
  then show ?case using leaf_typed by (simp add: eval_leaf)
next
  case (next2 fuel h attrs children w \<kappa>)
  then show ?case by (simp add: eval_next2 evalNext2InstructionValue_def addressValue_typed split: prod.splits)
next
  case (stop h e w \<kappa> k p w' h')
  then show ?case by (simp add: eval_operand)
next
  case (operand fuel h e w \<kappa> k p w' h')
  have "expr_typed p" using operand_pattern_typed operand(1,5) unfolding operand_expr_def by blast
  then show ?case using operand by (simp add: eval_operand [OF operand(1)])
next
  case (binary fuel h i f attrs l r w \<kappa>)
  have l: "value_typed (fst (GetPatternExpressionValue fuel hook \<sigma> h l w \<kappa>))" using binary by simp
  have "contexts_typed (snd (GetPatternExpressionValue fuel hook \<sigma> h l w \<kappa>))"
    using binary(6) by (simp add: contexts_typed_def eval_symbols)
  then have r: "value_typed (fst (GetPatternExpressionValue fuel hook \<sigma> h r w (snd (GetPatternExpressionValue fuel hook \<sigma> h l w \<kappa>))))"
    using binary by simp
  show ?case using l r binary_op_typed [OF binary(1)]
    by (auto simp: eval_binary [OF binary(1)] then_st_def split: prod.splits sum.splits)
next
  case (unary fuel h i f attrs c w \<kappa>)
  then have "value_typed (fst (GetPatternExpressionValue fuel hook \<sigma> h c w \<kappa>))" by simp
  then show ?case using unary_op_typed [OF unary(2)]
    by (auto simp: eval_unary [OF unary(1,2)] then_st_def split: prod.splits sum.splits)
qed

section \<open>What the decoder produces is typed\<close>

fun elem_typed :: "packedElement \<Rightarrow> bool" where
  "elem_typed (PackedElement i attrs children) \<longleftrightarrow> (\<forall>a \<in> set attrs. fits64 (at_Int a)) \<and> (\<forall>c \<in> set children. elem_typed c)"

lemma parseAttributeValue_typed: "parseAttributeValue ident p = Inr (a, q) \<Longrightarrow> fits64 (at_Int a)"
  by (auto simp: parseAttributeValue_def Let_def new_attr_def then_step_Inr fits64_def [of 0] split: if_split_asm)

lemma parseAttrs_typed: "parseAttrs k p = Inr (attrs, q) \<Longrightarrow> a \<in> set attrs \<Longrightarrow> fits64 (at_Int a)"
  by (induction k p arbitrary: attrs q a rule: parseAttrs.induct)
    (auto simp: then_step_Inr parseAttribute_def dest: parseAttributeValue_typed split: if_split_asm)

lemma parse_elem_typed:
  "parseElement k p = Inr (e, q) \<Longrightarrow> elem_typed e" "parseChildren k i p = Inr (es, q) \<Longrightarrow> c \<in> set es \<Longrightarrow> elem_typed c"
  by (induction k p and k i p arbitrary: e q and es q c rule: parseElement_parseChildren.induct)
    (auto simp: then_step_Inr split: if_split_asm dest: parseAttrs_typed)

lemma parsePackedElement_typed: "parsePackedElement data = Inr root \<Longrightarrow> elem_typed root"
  by (auto simp: parsePackedElement_def then_step_Inr simp del: parseElement.simps dest: parse_elem_typed(1) split: if_split_asm)

lemma copyAttrMap_range: "a \<in> set (copyAttrMap attrs) \<Longrightarrow> snd a \<in> set attrs"
proof -
  have "a \<in> set (fold (\<lambda>attr m. AList.update (at_ID attr) attr m) attrs m) \<Longrightarrow> snd a \<in> set attrs \<or> a \<in> set m" for m
  proof (induction attrs arbitrary: m)
    case (Cons x xs)
    have "b \<in> set (AList.update k v m) \<Longrightarrow> b = (k, v) \<or> b \<in> set m" for b k v by (induction m) (auto split: if_split_asm)
    then show ?case using Cons by fastforce
  qed simp
  then show "a \<in> set (copyAttrMap attrs) \<Longrightarrow> snd a \<in> set attrs" by (fastforce simp: copyAttrMap_def)
qed

lemma decodePatternExpression_typed: "decodePatternExpression elem = Inr e \<Longrightarrow> elem_typed elem \<Longrightarrow> expr_typed e"
proof (induction elem arbitrary: e rule: decodePatternExpression.induct)
  case (1 i attrs children)
  then obtain subs where subs: "append_step decodePatternExpression children = Inr subs" "e = PatternExpr i (copyAttrMap attrs) subs"
      "isPatternExpressionElement i"
    by (auto simp: then_step_Inr split: if_split_asm)
  have "expr_typed c" if "c \<in> set subs" for c
    using append_step_set [OF subs(1) that] 1 subs(3) by auto
  then show ?case using 1(3) subs copyAttrMap_range by auto
qed

lemma decode_opt_typed: "decodePatternExpression elem = Inr e \<Longrightarrow> elem_typed elem \<Longrightarrow> opt_typed (Some e)"
  using decodePatternExpression_typed by (simp add: opt_typed_def)

lemma decodePatternSymbolBody_typed:
  assumes "decodePatternSymbolBody elem = Inr p" "elem_typed elem"
  shows "opt_typed (ps_Expression p)"
proof -
  obtain i attrs children where e: "elem = PackedElement i attrs children" by (cases elem)
  have builtin: "opt_typed None" "opt_typed (Some (PatternExpr elemStartExp [] []))" "opt_typed (Some (PatternExpr elemEndExp [] []))"
      "opt_typed (Some (PatternExpr elemNext2Exp [] []))"
    by (simp_all add: opt_typed_def isPatternExpressionElement_def)
  have table: "loop_step decodePatternTable r xs = Inr q \<Longrightarrow> ps_Expression q = ps_Expression r" for r xs q
    by (induction xs arbitrary: r) (fastforce simp: then_step_Inr decodePatternTable_def split: if_split_asm option.split_asm)+
  show ?thesis
  proof (cases children)
    case Nil
    then show ?thesis using assms(1) builtin by (auto simp: decodePatternSymbolBody_def e Let_def)
  next
    case (Cons c rest)
    then have "elem_typed c" using assms(2) by (simp add: e)
    then show ?thesis using assms(1) Cons builtin decode_opt_typed table
      by (fastforce simp: decodePatternSymbolBody_def e Let_def split: sum.split_asm)
  qed
qed

lemma decodeOperandSymbolBody_typed:
  "decodeOperandSymbolBody elem = Inr operand \<Longrightarrow> elem_typed elem \<Longrightarrow> opt_typed (op_DefiningExpression operand)"
  using decode_opt_typed
  by (cases elem) (auto simp: decodeOperandSymbolBody_def then_step_def Let_def opt_typed_def
    split: sum.split_asm option.split_asm list.split_asm if_split_asm)

lemma no_body_typed: "symbol_typed s" if "sy_Body s = no_body"
  using that by (simp add: symbol_typed_def no_body_def)

lemma decodeSymbolBody_typed:
  "decodeSymbolBody elem = Inr body \<Longrightarrow> elem_typed elem \<Longrightarrow> symbol_typed (s\<lparr>sy_BodyElement := i, sy_Body := body\<rparr>)"
  by (auto simp: decodeSymbolBody_def symbol_typed_def no_body_def Let_def then_step_Inr decodeContextSymbolBody_def opt_typed_def [of None]
    intro: decodeOperandSymbolBody_typed decodePatternSymbolBody_typed split: if_split_asm prod.split_asm)
    (rule decodePatternSymbolBody_typed)

lemma decodeSymbolTable_typed:
  assumes "decodeSymbolTable root = Inr t" "elem_typed root" "s \<in> set (tb_Symbols t)"
  shows "symbol_typed s"
proof -
  obtain tableElem where te: "findChild root elemSymbolTable = Inr tableElem"
    using assms(1) by (auto simp: decodeSymbolTable_def then_step_Inr)
  then have "tableElem \<in> set (el_Children root)"
    by (auto simp: findChild_def split: option.split_asm dest: find_mem)
  then have "elem_typed tableElem" using assms(2) by (cases root) auto
  then have child: "elem_typed c" if "c \<in> set (el_Children tableElem)" for c using that by (cases tableElem) auto
  obtain headers n m where headers: "append_step decodeSymbolHeader (take n (drop m (el_Children tableElem))) = Inr headers"
      and syms: "loop_step attachBody headers (drop (m + n) (el_Children tableElem)) = Inr (tb_Symbols t)"
    using assms(1) te by (auto simp: decodeSymbolTable_def then_step_Inr Let_def split: if_split_asm)
  have "\<forall>x \<in> set (tb_Symbols t). symbol_typed x"
  proof (rule loop_step_invariant [OF syms])
    show "\<forall>x \<in> set headers. symbol_typed x"
    proof
      fix x assume "x \<in> set headers"
      then obtain c where "decodeSymbolHeader c = Inr x" using append_step_set [OF headers] by blast
      then have "sy_Body x = no_body" by (auto simp: decodeSymbolHeader_def then_step_Inr)
      then show "symbol_typed x" by (rule no_body_typed)
    qed
  next
    fix syms c syms'
    assume c: "c \<in> set (drop (m + n) (el_Children tableElem))" and typed: "\<forall>x \<in> set syms. symbol_typed x"
      and step: "attachBody syms c = Inr syms'"
    obtain k body where "decodeSymbolBody c = Inr body" "syms' = syms[k := (syms ! k)\<lparr>sy_BodyElement := el_ID c, sy_Body := body\<rparr>]"
      using step by (auto simp: attachBody_def then_step_Inr Let_def split: option.split_asm if_split_asm)
    then show "\<forall>x \<in> set syms'. symbol_typed x"
      using typed decodeSymbolBody_typed [of c body, where s = "syms ! k"] child [OF in_set_dropD [OF c]]
      by (auto dest: set_update_subset_insert [THEN subsetD])
  qed
  then show ?thesis using assms(3) by blast
qed

definition decoded_contexts :: "ctx_store \<Rightarrow> bool" where
  "decoded_contexts \<kappa> \<longleftrightarrow> (\<forall>c t. pc_Symbols (\<kappa> c) = Some t \<longrightarrow>
     (\<exists>data root. parsePackedElement data = Inr root \<and> decodeSymbolTable root = Inr t))"

text \<open>
  C29: with expressions and symbol tables that were decoded from packed streams, and an operand hook
  that respects it, the value of a pattern expression is a 64-bit integer, and no evaluation meets an
  element it does not know.
\<close>

theorem pattern_value_typed:
  assumes "parsePackedElement data = Inr elem" "decodePatternExpression elem = Inr e" "decoded_contexts \<kappa>" "hook_typed hook"
  shows "value_typed (fst (GetPatternExpressionValue fuel hook \<sigma> h e w \<kappa>))"
proof -
  have "contexts_typed \<kappa>"
    using assms(3) decodeSymbolTable_typed parsePackedElement_typed
    by (auto simp: contexts_typed_def decoded_contexts_def) metis
  then show ?thesis
    using eval_typed assms parsePackedElement_typed decodePatternExpression_typed by blast
qed

lemma pattern_value_typed_witness:
  "\<exists>elem e. parsePackedElement [0x60, 0xBA, 0xC2, 0x21, 0x85, 0xA0, 0xBA] = Inr elem \<and> decodePatternExpression elem = Inr e
     \<and> (\<forall>\<sigma> h. value_typed (fst (GetPatternExpressionValue 1 None \<sigma> h e (NewParserWalker None)
         (\<lambda>_. fst (NewParserContext invalidAddress None h)))))"
proof -
  let ?data = "[0x60, 0xBA, 0xC2, 0x21, 0x85, 0xA0, 0xBA] :: u8 list"
  let ?elem = "PackedElement 58 [(new_attr 2)\<lparr>at_Type := attributeValueInt, at_Int := 5\<rparr>] []"
  have parse: "parsePackedElement ?data = Inr ?elem"
    by code_simp
  have decode: "decodePatternExpression ?elem = Inr (PatternExpr 58 [(2, (new_attr 2)\<lparr>at_Type := attributeValueInt, at_Int := 5\<rparr>)] [])"
    by (simp add: isPatternExpressionElement_def copyAttrMap_def new_attr_def)
  show ?thesis
    using pattern_value_typed [OF parse decode] parse decode by (auto simp: decoded_contexts_def hook_typed_def NewParserContext_def NewConstructState_def)
qed

end
