(* ===== verification/Sla_PatTotal.thy ===== *)
theory Sla_PatTotal
  imports Sla_PatLaws
begin

text \<open>
  When the evaluation of a pattern expression ends: the operands of the constructor must not refer
  to each other in a circle. The code relies on it without checking it.
\<close>

section \<open>The state an operand is evaluated at\<close>

text \<open>The constructor of the nearest state above a walker.\<close>

definition constructor_at :: "state_heap \<Rightarrow> ParserWalker \<Rightarrow> ConstructorBoundary option" where
  "constructor_at h w =
     (case nearestConstructorState h w of Inr (Some s) \<Rightarrow> cs_Constructor (hp_state h s) | _ \<Rightarrow> None)"

lemma findAncestor_found: "findAncestor k h p target = Inr (Some s) \<Longrightarrow> s = target"
  by (induction k h p target rule: findAncestor.induct) (auto split: if_splits)

text \<open>The temporary state has the constructor of the parent.\<close>

lemma SetOutOfBandState_point:
  assumes "SetOutOfBandState \<kappa> h w (Some s) i (Some other) = Inr (w', h')"
  shows "pw_Point w' = Some (hp_next h)" "pw_constContext w' = pw_constContext w" "hp_next h' = Suc (hp_next h)"
    "cs_Constructor (hp_state h' (hp_next h)) = cs_Constructor (hp_state h s)"
    "cs_Parent (hp_state h' (hp_next h)) = None"
proof -
  obtain cur offset where cur: "findAncestor (hp_next h) h (pw_Point other) s = Inr (Some cur)"
      "outOfBandOperandOffset (map_option \<kappa> (pw_constContext other)) h cur i = Inr offset"
    using assms by (auto simp: SetOutOfBandState_def then_step_Inr split: option.split_asm if_split_asm)
  then have "cur = s" using findAncestor_found by blast
  then show "pw_Point w' = Some (hp_next h)" "pw_constContext w' = pw_constContext w" "hp_next h' = Suc (hp_next h)"
    "cs_Constructor (hp_state h' (hp_next h)) = cs_Constructor (hp_state h s)" "cs_Parent (hp_state h' (hp_next h)) = None"
    using assms cur by (auto simp: SetOutOfBandState_def NewConstructState_def upd_state_def Let_def split: if_split_asm)
qed

lemma nearestState_constructor: "nearestState k h p = Inr (Some s) \<Longrightarrow> cs_Constructor (hp_state h s) \<noteq> None"
  by (induction k h p rule: nearestState.induct) (auto split: if_splits)

lemma operand_expr_state:
  assumes "evalOperandValueAuto \<kappa> h k w = Inr (OperandExpr p w' h')"
  obtains c t ct operand where "pw_constContext w = Some c" "pw_constContext w' = Some c" "pc_Symbols (\<kappa> c) = Some t"
    "constructor_at h w = Some ct" "constructor_at h' w' = Some ct"
    "FindOperandForConstructor (Some t) (Some ct) k = Some operand" "operandPattern (Some t) operand = Some p"
proof -
  obtain c t s operand where s: "pw_constContext w = Some c" "pc_Symbols (\<kappa> c) = Some t"
      "nearestConstructorState h w = Inr (Some s)"
      "FindOperandForConstructor (Some t) (cs_Constructor (hp_state h s)) k = Some operand" "operandPattern (Some t) operand = Some p"
      "SetOutOfBandState \<kappa> h (NewParserWalker (Some c)) (Some s) k (Some w) = Inr (w', h')"
    using operand_expr_cases [OF assms] by metis
  obtain ct where ct: "cs_Constructor (hp_state h s) = Some ct"
    using nearestState_constructor s(3) by (fastforce simp: nearestConstructorState_def)
  note p = SetOutOfBandState_point [OF s(6)]
  have "nearestConstructorState h' w' = Inr (Some (hp_next h))"
    using p ct by (simp add: nearestConstructorState_def)
  then have "constructor_at h' w' = Some ct" using p ct by (simp add: constructor_at_def)
  moreover have "constructor_at h w = Some ct" using s(3) ct by (simp add: constructor_at_def)
  moreover have "pw_constContext w' = Some c" using p(2) by (simp add: NewParserWalker_def)
  ultimately show ?thesis using that s ct by metis
qed

section \<open>Acyclic operands\<close>

text \<open>The operands an expression refers to.\<close>

fun operand_refs :: "PatternExprBoundary \<Rightarrow> int set" where
  "operand_refs (PatternExpr i attrs children) =
     (if i = elemOperandExp then {k. requiredIntAttr (exprAttrSlice attrs) attrIndex = Inr k} else {})
     \<union> (\<Union>c \<in> set children. operand_refs c)"

text \<open>A rank of the operands of a constructor that decreases from an operand to those its expression refers to.\<close>

definition operands_ranked :: "SymbolTableBoundary \<Rightarrow> ConstructorBoundary \<Rightarrow> (int \<Rightarrow> nat) \<Rightarrow> bool" where
  "operands_ranked t ct rank \<longleftrightarrow>
     (\<forall>i operand p. FindOperandForConstructor (Some t) (Some ct) i = Some operand \<longrightarrow> operandPattern (Some t) operand = Some p \<longrightarrow>
       (\<forall>k \<in> operand_refs p. rank k < rank i))"

definition hook_ends :: "operand_hook \<Rightarrow> bool" where
  "hook_ends hook \<longleftrightarrow> (\<forall>f e w i. hook = Some f \<longrightarrow> f e w i \<noteq> Inl PatFuel)"

lemma lifted_ends [simp]:
  "pat_attr r \<noteq> Inl PatFuel" "pat_bits s \<noteq> Inl PatFuel" "pat_walker t \<noteq> Inl PatFuel"
  by (auto simp: pat_attr_def pat_bits_def pat_walker_def split: sum.splits)

lemma then_step_ends: "r \<noteq> Inl PatFuel \<Longrightarrow> (\<And>x. r = Inr x \<Longrightarrow> f x \<noteq> Inl PatFuel) \<Longrightarrow> then_step r f \<noteq> Inl PatFuel"
  by (cases r) auto

lemma window_ends [simp]:
  "getPatternInstructionBytes \<kappa> h w a b e \<noteq> Inl PatFuel" "getPatternContextBytes \<kappa> w a b \<noteq> Inl PatFuel"
  "shiftField raw s a b signbit \<noteq> Inl PatFuel" "addressValue \<sigma> addr \<noteq> Inl PatFuel"
  "evalOperandValueAuto \<kappa> h k w \<noteq> Inl PatFuel" "evalConstantValue attrs \<noteq> Inl PatFuel"
  by (auto simp: getPatternInstructionBytes_def getPatternContextBytes_def shiftField_def addressValue_def evalConstantValue_def
      evalOperandValueAuto_def Let_def then_step_Inl split: option.splits sum.splits)

lemma field_ends [simp]: "evalTokenField \<kappa> h attrs w \<noteq> Inl PatFuel" "evalContextField \<kappa> attrs w \<noteq> Inl PatFuel"
  by (simp_all add: evalTokenField_def evalContextField_def Let_def then_step_ends)

lemma leaf_ends:
  assumes "hook_ends hook" "leaf_value hook \<sigma> h e w \<kappa> = Some r"
  shows "r \<noteq> Inl PatFuel"
proof -
  have "hookOperandValue hook e w k \<noteq> Inl PatFuel" for k
    using assms(1) by (auto simp: hookOperandValue_def hook_ends_def then_step_Inl split: option.splits)
  then show ?thesis
    using assms(2)
    by (auto simp: leaf_value_def Let_def evalStartInstructionValue_def evalEndInstructionValue_def
        split: if_split_asm sum.split_asm operand_target.split_asm)
qed

text \<open>With fuel above the ranks of its operands, an evaluation ends, and more fuel changes nothing.\<close>

lemma ranked_eval:
  assumes "hook_ends hook" "m \<ge> fuel"
    "\<forall>c t ct. pw_constContext w = Some c \<longrightarrow> pc_Symbols (\<kappa> c) = Some t \<longrightarrow> constructor_at h w = Some ct \<longrightarrow>
       operands_ranked t ct rank \<and> (\<forall>k \<in> operand_refs e. rank k < fuel)"
  shows "fst (GetPatternExpressionValue fuel hook \<sigma> h e w \<kappa>) \<noteq> Inl PatFuel
    \<and> GetPatternExpressionValue m hook \<sigma> h e w \<kappa> = GetPatternExpressionValue fuel hook \<sigma> h e w \<kappa>"
  using assms(2,3)
proof (induction fuel h e w \<kappa> arbitrary: m rule: eval_induct [where hook = hook and \<sigma> = \<sigma>])
  case (leaf fuel h e w \<kappa> r)
  then show ?case using leaf_ends [OF assms(1)] by (simp add: eval_leaf)
next
  case (next2 fuel h attrs children w \<kappa>)
  then show ?case by (simp add: eval_next2 evalNext2InstructionValue_def split: prod.splits)
next
  case (stop h e w \<kappa> k p w' h')
  then show ?case by (cases e) (auto simp: operand_expr_def elim!: operand_expr_state)
next
  case (operand fuel h e w \<kappa> k p w' h')
  obtain n where m: "m = Suc n" "n \<ge> fuel" using operand.prems(1) by (cases m) auto
  obtain c t ct operand where st: "pw_constContext w = Some c" "pw_constContext w' = Some c" "pc_Symbols (\<kappa> c) = Some t"
    "constructor_at h w = Some ct" "constructor_at h' w' = Some ct"
    "FindOperandForConstructor (Some t) (Some ct) k = Some operand" "operandPattern (Some t) operand = Some p"
    using operand_expr_state operand.hyps unfolding operand_expr_def by metis
  have k: "k \<in> operand_refs e" using operand.hyps by (cases e) (auto simp: operand_expr_def)
  have "operands_ranked t ct rank" "rank k < Suc fuel" using operand.prems(2) st k by blast+
  then have "\<forall>j \<in> operand_refs p. rank j < fuel" using st(6,7) unfolding operands_ranked_def by fastforce
  then show ?case
    using operand.IH [OF m(2)] st \<open>operands_ranked t ct rank\<close> by (simp add: eval_operand [OF operand.hyps] m)
next
  case (binary fuel h i f attrs l r w \<kappa>)
  have f: "f x y \<noteq> Inl PatFuel" for x y using binary.hyps by (auto simp: binary_op_def split: if_split_asm)
  have l: "fst (GetPatternExpressionValue fuel hook \<sigma> h l w \<kappa>) \<noteq> Inl PatFuel
      \<and> GetPatternExpressionValue m hook \<sigma> h l w \<kappa> = GetPatternExpressionValue fuel hook \<sigma> h l w \<kappa>"
    using binary.prems by (intro binary.IH(1)) auto
  define \<kappa>' where "\<kappa>' = snd (GetPatternExpressionValue fuel hook \<sigma> h l w \<kappa>)"
  have "fst (GetPatternExpressionValue fuel hook \<sigma> h r w \<kappa>') \<noteq> Inl PatFuel
      \<and> GetPatternExpressionValue m hook \<sigma> h r w \<kappa>' = GetPatternExpressionValue fuel hook \<sigma> h r w \<kappa>'"
    using binary.prems by (intro binary.IH(2)) (auto simp: \<kappa>'_def eval_symbols)
  then show ?case using l f
    by (auto simp: eval_binary [OF binary.hyps] then_st_def \<kappa>'_def split: prod.splits sum.splits)
next
  case (unary fuel h i f attrs c w \<kappa>)
  have "fst (GetPatternExpressionValue fuel hook \<sigma> h c w \<kappa>) \<noteq> Inl PatFuel
      \<and> GetPatternExpressionValue m hook \<sigma> h c w \<kappa> = GetPatternExpressionValue fuel hook \<sigma> h c w \<kappa>"
    using unary.prems by (intro unary.IH) auto
  then show ?case by (auto simp: eval_unary [OF unary.hyps] then_st_def split: prod.splits sum.splits)
qed

text \<open>
  C30: where the operands of the constructor at hand do not refer to each other in a circle, the
  evaluation of a pattern expression ends: a nesting of operand evaluations as deep as the rank of
  its operands is enough, and a larger budget gives the same value and the same contexts.
\<close>

theorem pattern_evaluation_ends:
  assumes "hook_ends hook" "pw_constContext w = Some c" "pc_Symbols (\<kappa> c) = Some t" "constructor_at h w = Some ct"
    "operands_ranked t ct rank" "\<forall>k \<in> operand_refs e. rank k < n" "n \<le> fuel"
  shows "fst (GetPatternExpressionValue fuel hook \<sigma> h e w \<kappa>) \<noteq> Inl PatFuel
    \<and> GetPatternExpressionValue fuel hook \<sigma> h e w \<kappa> = GetPatternExpressionValue n hook \<sigma> h e w \<kappa>"
  using ranked_eval [OF assms(1,7), of w \<kappa> h rank e \<sigma>] assms by auto

section \<open>An operand that refers to itself\<close>

lemma nearest_ancestor: "nearestState k h p = Inr (Some s) \<Longrightarrow> findAncestor k h p s = Inr (Some s)"
  by (induction k h p rule: nearestState.induct) (auto split: if_splits)

lemma self_operand_step:
  assumes "pw_constContext w = Some c" "pc_Symbols (\<kappa> c) = Some t" "nearestConstructorState h w = Inr (Some s)"
    "cs_Constructor (hp_state h s) = Some ct" "0 \<le> i64_of (cs_Offset (hp_state h s))"
    "FindOperandForConstructor (Some t) (Some ct) i = Some operand" "operandPattern (Some t) operand = Some p"
    "op_OffsetBase operand < 0" "op_RelativeOffset operand = 0"
  shows "\<exists>w' h' s'. evalOperandValueAuto \<kappa> h i w = Inr (OperandExpr p w' h') \<and> pw_constContext w' = Some c
    \<and> nearestConstructorState h' w' = Inr (Some s') \<and> cs_Constructor (hp_state h' s') = Some ct
    \<and> 0 \<le> i64_of (cs_Offset (hp_state h' s'))"
proof -
  have anc: "findAncestor (hp_next h) h (pw_Point w) s = Inr (Some s)" "pw_Point w \<noteq> None"
    using nearest_ancestor assms(3) by (auto simp: nearestConstructorState_def) (cases "pw_Point w"; simp)
  have "i64 (i64_of (cs_Offset (hp_state h s))) = i64_of (cs_Offset (hp_state h s))"
    using fits64_i64_of fits64_iff by blast
  then have off: "outOfBandOperandOffset (Some (\<kappa> c)) h s i = Inr (cs_Offset (hp_state h s))"
    using assms(2,4-9) by (simp add: outOfBandOperandOffset_def findOutOfBandOperandBoundary_def Let_def u64_of_def i64_of_def)
  obtain w' h' where out: "SetOutOfBandState \<kappa> h (NewParserWalker (Some c)) (Some s) i (Some w) = Inr (w', h')"
      "cs_Offset (hp_state h' (hp_next h)) = cs_Offset (hp_state h s)"
    using anc off assms(1) by (simp add: SetOutOfBandState_def NewConstructState_def upd_state_def Let_def)
  note p = SetOutOfBandState_point [OF out(1)]
  have "nearestConstructorState h' w' = Inr (Some (hp_next h))" using p assms(4) by (simp add: nearestConstructorState_def)
  moreover have "evalOperandValueAuto \<kappa> h i w = Inr (OperandExpr p w' h')"
    using assms out(1) by (simp add: evalOperandValueAuto_def pat_walker_def)
  moreover have "pw_constContext w' = Some c" using p(2) by (simp add: NewParserWalker_def)
  moreover have "cs_Constructor (hp_state h' (hp_next h)) = Some ct" using p(4) assms(4) by simp
  moreover have "0 \<le> i64_of (cs_Offset (hp_state h' (hp_next h)))" using assms(5) out(2) by simp
  ultimately show ?thesis by blast
qed


section \<open>Witnesses\<close>

text \<open>A constructor with one operand, and a walker on its state.\<close>

definition int_attr :: "u32 \<Rightarrow> int \<Rightarrow> u32 \<times> packedAttribute" where
  "int_attr i v = (i, (new_attr i)\<lparr>at_Type := attributeValueInt, at_Int := v\<rparr>)"

definition one_operand :: "PatternExprBoundary \<Rightarrow> SymbolTableBoundary" where
  "one_operand e = \<lparr>tb_Scopes = [], tb_Symbols = [\<lparr>sy_Name = [], sy_ID = 7, sy_ScopeID = 0, sy_HeaderElement = elemOperandSymHead,
     sy_BodyElement = elemOperandSym, sy_Body = no_body\<lparr>bd_Operand := Some \<lparr>op_Index = 0, op_RelativeOffset = 0, op_OffsetBase = -1,
       op_MinimumLength = 1, op_CodeAddress = False, op_DefiningSymbolID = 0, op_HasDefiningSymbolID = False,
       op_LocalExpression = None, op_DefiningExpression = Some e\<rparr>\<rparr>\<rparr>]\<rparr>"

definition one_constructor :: ConstructorBoundary where
  "one_constructor = \<lparr>cn_ConstructorID = 0, cn_ParentSymbolID = 0, cn_FirstWhitespace = 0, cn_FlowThruIndex = -1, cn_MinimumLength = 1,
     cn_SourceFileIndex = 0, cn_LineNumber = 0, cn_OperandSymbolIDs = [7], cn_PrintPieces = [], cn_ContextOps = [],
     cn_ContextCommits = [], cn_MainSection = None, cn_NamedSections = []\<rparr>"

definition one_spaces :: space_store where
  "one_spaces = (\<lambda>_. \<lparr>sp_Name = ''ram'', sp_Kind = SpaceKindProcessor, sp_Index = 1, sp_AddrSize = 4, sp_WordSize = 1, sp_BigEndian = False,
     sp_Physical = True, sp_Delay = 1, sp_Truncated = False, sp_spacebases = []\<rparr>)"

definition one_heap :: state_heap where
  "one_heap = \<lparr>hp_state = (\<lambda>_. emptyState\<lparr>cs_Constructor := Some one_constructor, cs_Offset := 2\<rparr>), hp_next = 1\<rparr>"

definition one_context :: "PatternExprBoundary \<Rightarrow> ctx_store" where
  "one_context e = (\<lambda>_. (fst (NewParserContext invalidAddress None one_heap))\<lparr>pc_Symbols := Some (one_operand e)\<rparr>)"

definition one_walker :: ParserWalker where
  "one_walker = (NewParserWalker (Some 0))\<lparr>pw_Point := Some 0\<rparr>"

abbreviation "operand_zero \<equiv> PatternExpr elemOperandExp [int_attr attrIndex 0] []"
abbreviation "constant_five \<equiv> PatternExpr elemIntB [int_attr attrVal 5] []"

lemma one_setup:
  "pw_constContext one_walker = Some 0" "pc_Symbols (one_context e 0) = Some (one_operand e)"
  "nearestConstructorState one_heap one_walker = Inr (Some 0)" "constructor_at one_heap one_walker = Some one_constructor"
  "cs_Constructor (hp_state one_heap 0) = Some one_constructor" "0 \<le> i64_of (cs_Offset (hp_state one_heap 0))"
  by (simp_all add: one_walker_def NewParserWalker_def one_context_def nearestConstructorState_def one_heap_def constructor_at_def i64_of_def)

lemma one_find: "FindOperandForConstructor (Some (one_operand e)) (Some one_constructor) i = Some operand \<longleftrightarrow>
    i = 0 \<and> operand = the (bd_Operand (sy_Body (hd (tb_Symbols (one_operand e)))))"
  by (auto simp: FindOperandForConstructor_def FindOperandSymbol_def FindSymbol_def one_operand_def one_constructor_def)

lemma one_pattern: "operandPattern t (the (bd_Operand (sy_Body (hd (tb_Symbols (one_operand e)))))) = Some e"
  by (simp add: operandPattern_def one_operand_def)

lemma int_attr_read: "requiredIntAttr (exprAttrSlice [int_attr i v]) i = Inr v"
  by (simp add: requiredIntAttr_def exprAttrSlice_def int_attr_def findAttr_def new_attr_def)

lemma pattern_evaluation_ends_witness:
  "fst (GetPatternExpressionValue 9 None one_spaces one_heap operand_zero one_walker (one_context constant_five)) \<noteq> Inl PatFuel"
proof -
  have rk: "operands_ranked (one_operand constant_five) one_constructor (\<lambda>_. 0)"
    using one_pattern [of _ constant_five] by (auto simp: operands_ranked_def one_find)
  show ?thesis
    by (rule pattern_evaluation_ends [where \<kappa> = "one_context constant_five" and n = 1 and rank = "\<lambda>_. 0", OF _ one_setup(1,2,4), THEN conjunct1])
      (use rk in \<open>simp_all add: hook_ends_def\<close>)
qed


end
