(* ===== verification/Sla_Runtime.thy ===== *)
theory Sla_Runtime
  imports Sla_Walker
begin

text \<open>
  \<^verbatim>\<open>pkg/sla/runtime.go\<close>: the values of the constants and handles of a p-code template at the
  instruction being translated. Spaces are references into a store; the parent handle, a pointer to
  the handle of a construct state, is a reference to that state. A Go map from space indexes is an
  association list; its spaces are not nil.
\<close>

datatype fix_error = ErrNextUnset | ErrNext2Unset | ErrFlowRefUnset | ErrFlowDestUnset | ErrCurSpaceUnset
  | ErrNotScalar ConstKind | ErrNotSpace ConstKind | ErrNotSpaceFill ConstKind | ErrSpaceSelector int
  | ErrSelector int | ErrHandleRange int | ErrHandleNoSpace int | ErrHandleNoTemp int | ErrSpaceUnknown int
  | ErrSizeRange u64 | ErrSpaceFirst

record RuntimeContext =
  rc_Instruction :: Address
  rc_CurrentSpace :: "space_ref option"
  rc_ConstantSpace :: "space_ref option"
  rc_Next :: Address
  rc_HasNext :: bool
  rc_Next2 :: Address
  rc_HasNext2 :: bool
  rc_Ref :: Address
  rc_HasRef :: bool
  rc_Dest :: Address
  rc_HasDest :: bool
  rc_SpacesByIndex :: "(int \<times> space_ref) list"
  rc_Handles :: "FixedHandle list"
  rc_ParentHandle :: "state_ref option"

abbreviation "handleFieldSpace \<equiv> (0 :: int)"
abbreviation "handleFieldOffset \<equiv> (1 :: int)"
abbreviation "handleFieldSize \<equiv> (2 :: int)"
abbreviation "handleFieldOffsetPlus \<equiv> (3 :: int)"

definition handle :: "RuntimeContext \<Rightarrow> int \<Rightarrow> fix_error + FixedHandle" where
  "handle ctx i =
     (if i < 0 \<or> i \<ge> int (length (rc_Handles ctx)) then Inl (ErrHandleRange i) else Inr (rc_Handles ctx ! nat i))"

definition spaceByIndex :: "RuntimeContext \<Rightarrow> int \<Rightarrow> fix_error + space_ref" where
  "spaceByIndex ctx i =
     (case map_of (rc_SpacesByIndex ctx) i of None \<Rightarrow> Inl (ErrSpaceUnknown i) | Some s \<Rightarrow> Inr s)"

definition addressToByte :: "space_store \<Rightarrow> u64 \<Rightarrow> space_ref option \<Rightarrow> u64" where
  "addressToByte \<sigma> v space =
     (case space of None \<Rightarrow> v | Some s \<Rightarrow> if sp_WordSize (\<sigma> s) \<le> 1 then v else v * ucast (sp_WordSize (\<sigma> s)))"

definition wrapSpaceOffset :: "space_store \<Rightarrow> space_ref option \<Rightarrow> u64 \<Rightarrow> u64" where
  "wrapSpaceOffset \<sigma> space off =
     (case space of
        None \<Rightarrow> off
      | Some s \<Rightarrow>
          if sp_AddrSize (\<sigma> s) \<ge> 8 then off
          else
            let m = push_bit (unat (8 * sp_AddrSize (\<sigma> s))) 1 * ucast (sp_WordSize (\<sigma> s))
            in if m = 0 then off else off mod m)"

section \<open>Constants\<close>

text \<open>The offset of a handle, or of the temporary that holds a dynamic one.\<close>

definition handleValue :: "FixedHandle \<Rightarrow> u64" where
  "handleValue hand = (if fh_OffsetSpace hand = None then fh_OffsetOffset hand else fh_TempOffset hand)"

definition fixHandleSelector :: "space_store \<Rightarrow> ConstBoundary \<Rightarrow> RuntimeContext \<Rightarrow> fix_error + u64" where
  "fixHandleSelector \<sigma> c ctx =
     then_step (handle ctx (cb_HandleIndex c)) (\<lambda>hand.
       if cb_Selector c = handleFieldSpace then
         (if fh_OffsetSpace hand = None then
            (case fh_Space hand of
               None \<Rightarrow> Inl (ErrHandleNoSpace (cb_HandleIndex c)) | Some s \<Rightarrow> Inr (ucast (sp_Index (\<sigma> s))))
          else
            (case fh_TempSpace hand of
               None \<Rightarrow> Inl (ErrHandleNoTemp (cb_HandleIndex c)) | Some s \<Rightarrow> Inr (ucast (sp_Index (\<sigma> s)))))
       else if cb_Selector c = handleFieldOffset then Inr (handleValue hand)
       else if cb_Selector c = handleFieldSize then Inr (ucast (fh_Size hand))
       else if cb_Selector c = handleFieldOffsetPlus then
         (if fh_Space hand \<noteq> rc_ConstantSpace ctx then Inr (handleValue hand + (cb_Plus c AND 0xffff))
          else Inr (shr (handleValue hand) (8 * shr (cb_Plus c) 16)))
       else Inl (ErrSelector (cb_Selector c)))"

text \<open>The address size of an address's space, when both are there.\<close>

definition addrSizeOf :: "space_store \<Rightarrow> bool \<Rightarrow> Address \<Rightarrow> u64 option" where
  "addrSizeOf \<sigma> has addr =
     (if has then map_option (\<lambda>s. ucast (sp_AddrSize (\<sigma> s))) (ad_Space addr) else None)"

primrec fixConstScalar_kind :: "ConstKind \<Rightarrow> space_store \<Rightarrow> ConstBoundary \<Rightarrow> RuntimeContext \<Rightarrow> fix_error + u64" where
  "fixConstScalar_kind ConstKindStart \<sigma> c ctx = Inr (ad_Offset (rc_Instruction ctx))"
| "fixConstScalar_kind ConstKindNext \<sigma> c ctx =
     (if \<not> rc_HasNext ctx then Inl ErrNextUnset else Inr (ad_Offset (rc_Next ctx)))"
| "fixConstScalar_kind ConstKindNext2 \<sigma> c ctx =
     (if \<not> rc_HasNext2 ctx then Inl ErrNext2Unset else Inr (ad_Offset (rc_Next2 ctx)))"
| "fixConstScalar_kind ConstKindFlowRef \<sigma> c ctx =
     (if \<not> rc_HasRef ctx then Inl ErrFlowRefUnset else Inr (ad_Offset (rc_Ref ctx)))"
| "fixConstScalar_kind ConstKindFlowRefSize \<sigma> c ctx =
     (case addrSizeOf \<sigma> (rc_HasRef ctx) (rc_Ref ctx) of None \<Rightarrow> Inl ErrFlowRefUnset | Some v \<Rightarrow> Inr v)"
| "fixConstScalar_kind ConstKindFlowDest \<sigma> c ctx =
     (if \<not> rc_HasDest ctx then Inl ErrFlowDestUnset else Inr (ad_Offset (rc_Dest ctx)))"
| "fixConstScalar_kind ConstKindFlowDestSize \<sigma> c ctx =
     (case addrSizeOf \<sigma> (rc_HasDest ctx) (rc_Dest ctx) of None \<Rightarrow> Inl ErrFlowDestUnset | Some v \<Rightarrow> Inr v)"
| "fixConstScalar_kind ConstKindCurSpaceSize \<sigma> c ctx =
     (case rc_CurrentSpace ctx of None \<Rightarrow> Inl ErrCurSpaceUnset | Some s \<Rightarrow> Inr (ucast (sp_AddrSize (\<sigma> s))))"
| "fixConstScalar_kind ConstKindCurSpace \<sigma> c ctx =
     (case rc_CurrentSpace ctx of None \<Rightarrow> Inl ErrCurSpaceUnset | Some s \<Rightarrow> Inr (ucast (sp_Index (\<sigma> s))))"
| "fixConstScalar_kind ConstKindHandle \<sigma> c ctx = fixHandleSelector \<sigma> c ctx"
| "fixConstScalar_kind ConstKindRelative \<sigma> c ctx = Inr (cb_Value c)"
| "fixConstScalar_kind ConstKindReal \<sigma> c ctx = Inr (cb_Value c)"
| "fixConstScalar_kind ConstKindSpaceID \<sigma> c ctx =
     then_step (spaceByIndex ctx (cb_SpaceIndex c)) (\<lambda>s. Inr (ucast (sp_Index (\<sigma> s))))"

definition fixConstScalar :: "space_store \<Rightarrow> ConstBoundary \<Rightarrow> RuntimeContext \<Rightarrow> fix_error + u64" where
  "fixConstScalar \<sigma> c ctx = fixConstScalar_kind (cb_Kind c) \<sigma> c ctx"

definition fixConstSpace :: "ConstBoundary \<Rightarrow> RuntimeContext \<Rightarrow> fix_error + space_ref option" where
  "fixConstSpace c ctx =
     (case cb_Kind c of
        ConstKindCurSpace \<Rightarrow> if rc_CurrentSpace ctx = None then Inl ErrCurSpaceUnset else Inr (rc_CurrentSpace ctx)
      | ConstKindHandle \<Rightarrow> then_step (handle ctx (cb_HandleIndex c)) (\<lambda>hand.
          if cb_Selector c = handleFieldSpace then
            Inr (if fh_OffsetSpace hand = None then fh_Space hand else fh_TempSpace hand)
          else Inl (ErrSpaceSelector (cb_Selector c)))
      | ConstKindSpaceID \<Rightarrow> then_step (spaceByIndex ctx (cb_SpaceIndex c)) (\<lambda>s. Inr (Some s))
      | ConstKindFlowRef \<Rightarrow>
          if \<not> rc_HasRef ctx \<or> ad_Space (rc_Ref ctx) = None then Inl ErrFlowRefUnset else Inr (ad_Space (rc_Ref ctx))
      | k \<Rightarrow> Inl (ErrNotSpace k))"

section \<open>Handles\<close>

definition fillFixedHandleSpace :: "FixedHandle \<Rightarrow> ConstBoundary \<Rightarrow> RuntimeContext \<Rightarrow> fix_error + FixedHandle" where
  "fillFixedHandleSpace hand c ctx =
     (case cb_Kind c of
        ConstKindCurSpace \<Rightarrow>
          if rc_CurrentSpace ctx = None then Inl ErrCurSpaceUnset else Inr (hand\<lparr>fh_Space := rc_CurrentSpace ctx\<rparr>)
      | ConstKindHandle \<Rightarrow> then_step (handle ctx (cb_HandleIndex c)) (\<lambda>other.
          if cb_Selector c = handleFieldSpace then Inr (hand\<lparr>fh_Space := fh_Space other\<rparr>)
          else Inl (ErrSpaceSelector (cb_Selector c)))
      | ConstKindSpaceID \<Rightarrow> then_step (spaceByIndex ctx (cb_SpaceIndex c)) (\<lambda>s. Inr (hand\<lparr>fh_Space := Some s\<rparr>))
      | k \<Rightarrow> Inl (ErrNotSpaceFill k))"

definition fillFixedHandleOffset :: "space_store \<Rightarrow> FixedHandle \<Rightarrow> ConstBoundary \<Rightarrow> RuntimeContext \<Rightarrow> fix_error + FixedHandle" where
  "fillFixedHandleOffset \<sigma> hand c ctx =
     (if cb_Kind c = ConstKindHandle then
        then_step (handle ctx (cb_HandleIndex c)) (\<lambda>other.
          Inr (hand\<lparr>fh_OffsetSpace := fh_OffsetSpace other, fh_OffsetOffset := fh_OffsetOffset other,
                 fh_OffsetSize := fh_OffsetSize other, fh_TempSpace := fh_TempSpace other, fh_TempOffset := fh_TempOffset other\<rparr>))
      else if fh_Space hand = None then Inl ErrSpaceFirst
      else then_step (fixConstScalar \<sigma> c ctx) (\<lambda>v.
        Inr (hand\<lparr>fh_OffsetSpace := None, fh_OffsetOffset := wrapSpaceOffset \<sigma> (fh_Space hand) v\<rparr>)))"

text \<open>\<^verbatim>\<open>if v > uint64(^uint32(0))\<close>: a size that is not a \<^verbatim>\<open>uint32\<close>.\<close>

definition fixSize :: "space_store \<Rightarrow> ConstBoundary \<Rightarrow> RuntimeContext \<Rightarrow> fix_error + u32" where
  "fixSize \<sigma> c ctx =
     then_step (fixConstScalar \<sigma> c ctx) (\<lambda>v. if v > 0xffffffff then Inl (ErrSizeRange v) else Inr (ucast v))"

definition ResolveHandleTpl :: "space_store \<Rightarrow> HandleTplBoundary \<Rightarrow> RuntimeContext \<Rightarrow> fix_error + FixedHandle" where
  "ResolveHandleTpl \<sigma> tpl ctx =
     (if cb_Kind (ht_PtrSpace tpl) = ConstKindReal then
        then_step (fillFixedHandleSpace zeroHandle (ht_Space tpl) ctx) (\<lambda>hand.
        then_step (fixSize \<sigma> (ht_Size tpl) ctx) (\<lambda>size0.
        fillFixedHandleOffset \<sigma> (hand\<lparr>fh_Size := size0\<rparr>) (ht_PtrOffset tpl) ctx))
      else
        then_step (fixConstSpace (ht_Space tpl) ctx) (\<lambda>space.
        then_step (fixSize \<sigma> (ht_Size tpl) ctx) (\<lambda>size0.
        then_step (fixConstScalar \<sigma> (ht_PtrOffset tpl) ctx) (\<lambda>offset.
        then_step (fixConstSpace (ht_PtrSpace tpl) ctx) (\<lambda>offsetSpace.
          let hand = zeroHandle\<lparr>fh_Space := space, fh_Size := size0, fh_OffsetSpace := offsetSpace, fh_OffsetOffset := offset\<rparr> in
          if (case offsetSpace of None \<Rightarrow> False | Some s \<Rightarrow> IsConstant (\<sigma> s)) then
            Inr (hand\<lparr>fh_OffsetSpace := None, fh_OffsetOffset := wrapSpaceOffset \<sigma> space (addressToByte \<sigma> offset space)\<rparr>)
          else
            then_step (fixSize \<sigma> (ht_PtrSize tpl) ctx) (\<lambda>ptrSize.
            then_step (fixConstSpace (ht_TempSpace tpl) ctx) (\<lambda>tempSpace.
            then_step (fixConstScalar \<sigma> (ht_TempOffset tpl) ctx) (\<lambda>tempOffset.
              Inr (hand\<lparr>fh_OffsetSize := ptrSize, fh_TempSpace := tempSpace, fh_TempOffset := tempOffset\<rparr>)))))))))"

definition ResolveConstructorResult :: "space_store \<Rightarrow> ConstructTplBoundary \<Rightarrow> RuntimeContext \<Rightarrow> fix_error + FixedHandle option" where
  "ResolveConstructorResult \<sigma> tpl ctx =
     (case ct_Result tpl of
        None \<Rightarrow> Inr None
      | Some r \<Rightarrow> then_step (ResolveHandleTpl \<sigma> r ctx) (\<lambda>hand. Inr (Some hand)))"

definition PropagateConstructorResult :: "space_store \<Rightarrow> ConstructTplBoundary \<Rightarrow> RuntimeContext \<Rightarrow> state_heap \<Rightarrow> fix_error + state_heap" where
  "PropagateConstructorResult \<sigma> tpl ctx h =
     (case (rc_ParentHandle ctx, ct_Result tpl) of
        (Some p, Some r) \<Rightarrow> then_step (ResolveHandleTpl \<sigma> r ctx) (\<lambda>hand. Inr (upd_state p (\<lambda>s. s\<lparr>cs_Handle := hand\<rparr>) h))
      | _ \<Rightarrow> Inr h)"

end
