(* ===== verification/Sla_Lower.thy ===== *)
theory Sla_Lower
  imports Sla_Runtime Sla_RawBuild
begin

text \<open>
  \<^verbatim>\<open>pkg/sla/lower.go\<close>: the lowering of the operations of a p-code template to raw operations, with the
  validity tests of \<^verbatim>\<open>pkg/pcode/rawop.go\<close> and \<^verbatim>\<open>varnode.go\<close>. A dynamic varnode becomes a load before
  the operation or a store behind it. The callbacks for the control directives are parameters
  with a state of their own; they are given beside the context instead of inside it.
\<close>

datatype varnode_invalid = ErrVarnodeNilSpace | ErrVarnodeSpace space_error | ErrVarnodeZeroSize
datatype raw_invalid = ErrSeqAddress space_error | ErrOpcodeRequired | ErrOutputInvalid varnode_invalid
  | ErrInputInvalid varnode_invalid

datatype lower_error = ErrFix fix_error | ErrLowerInstruction space_error | ErrNoEmissionAddress | ErrOpcodeRange int
  | ErrDirectiveHook u16 | ErrLabelInputs | ErrLabelHook | ErrDynamicVarnode | ErrLoweredSize u64
  | ErrHandleSpaces | ErrHandlePointerSize | ErrDynamicSelector int | ErrNoUniqueSpace | ErrNoConstantSpace
  | ErrRawInvalid raw_invalid | ErrCallback

section \<open>Validity of raw operations\<close>

definition VarnodeData_Validate :: "space_store \<Rightarrow> RawVarnode \<Rightarrow> varnode_invalid option" where
  "VarnodeData_Validate \<sigma> v =
     (case rv_Space v of
        None \<Rightarrow> Some ErrVarnodeNilSpace
      | Some s \<Rightarrow> (case Space_Validate (\<sigma> s) of
          Some e \<Rightarrow> Some (ErrVarnodeSpace e)
        | None \<Rightarrow> if rv_Size v = 0 then Some ErrVarnodeZeroSize else None))"

definition SeqNum_Validate :: "space_store \<Rightarrow> SeqNum \<Rightarrow> space_error option" where
  "SeqNum_Validate \<sigma> s = Address_Validate \<sigma> (sq_Address s)"

primrec first_invalid :: "('a \<Rightarrow> 'e option) \<Rightarrow> 'a list \<Rightarrow> 'e option" where
  "first_invalid f [] = None"
| "first_invalid f (x # xs) = (case f x of None \<Rightarrow> first_invalid f xs | Some e \<Rightarrow> Some e)"

definition RawOp_Validate :: "space_store \<Rightarrow> RawOp \<Rightarrow> raw_invalid option" where
  "RawOp_Validate \<sigma> op =
     (case SeqNum_Validate \<sigma> (ro_SeqNum op) of
        Some e \<Rightarrow> Some (ErrSeqAddress e)
      | None \<Rightarrow>
          if ro_OpCode op = 0 then Some ErrOpcodeRequired
          else case Option.bind (ro_Output op) (VarnodeData_Validate \<sigma>) of
            Some e \<Rightarrow> Some (ErrOutputInvalid e)
          | None \<Rightarrow> map_option ErrInputInvalid (first_invalid (VarnodeData_Validate \<sigma>) (ro_Inputs op)))"

section \<open>The lowering context\<close>

record HandleReference =
  hr_Space :: "space_ref option"
  hr_Size :: u32
  hr_OffsetSpace :: "space_ref option"
  hr_Offset :: u64
  hr_OffsetSize :: u32
  hr_TempSpace :: "space_ref option"
  hr_TempOffset :: u64

record LoweringContext =
  lc_Instruction :: Address
  lc_RootInstruction :: Address
  lc_CurrentSpace :: "space_ref option"
  lc_ConstantSpace :: "space_ref option"
  lc_UniqueSpace :: "space_ref option"
  lc_UniqueBase :: u64
  lc_UniqueMask :: u64
  lc_NextOffset :: u64
  lc_HasNext :: bool
  lc_Next2Offset :: u64
  lc_HasNext2 :: bool
  lc_SpacesByIndex :: "(int \<times> space_ref) list"
  lc_Handles :: "HandleReference list"
  lc_LabelBase :: u64

record 'k DirectiveHooks =
  dh_OnLabel :: "(u64 \<Rightarrow> 'k \<Rightarrow> (lower_error + unit) \<times> 'k) option"
  dh_OnBuild :: "(OpTplBoundary \<Rightarrow> int \<Rightarrow> LoweringContext \<Rightarrow> 'k \<Rightarrow> (lower_error + RawOp list) \<times> 'k) option"
  dh_OnDelaySlot :: "(OpTplBoundary \<Rightarrow> LoweringContext \<Rightarrow> 'k \<Rightarrow> (lower_error + RawOp list) \<times> 'k) option"
  dh_OnCrossBuild :: "(OpTplBoundary \<Rightarrow> LoweringContext \<Rightarrow> 'k \<Rightarrow> (lower_error + RawOp list) \<times> 'k) option"

text \<open>
  \<^verbatim>\<open>NewLoweringContext\<close> is given the references of the decoded spaces, and one for the constant space it allocates.
\<close>

definition constantSpace :: Space where
  "constantSpace = \<lparr>sp_Name = ''const'', sp_Kind = SpaceKindConstant, sp_Index = - 1, sp_AddrSize = 8, sp_WordSize = 1,
     sp_BigEndian = False, sp_Physical = False, sp_Delay = 0, sp_Truncated = False, sp_spacebases = []\<rparr>"

definition registerSpace :: "Metadata \<Rightarrow> Space \<times> space_ref \<Rightarrow> LoweringContext \<Rightarrow> LoweringContext" where
  "registerSpace metadata sr ctx =
     (case sr of (space, r) \<Rightarrow>
      let ctx = ctx\<lparr>lc_SpacesByIndex := AList.update (uint (sp_Index space)) r (lc_SpacesByIndex ctx)\<rparr>;
          ctx = (if lc_UniqueSpace ctx = None \<and> sp_Kind space = SpaceKindUnique then ctx\<lparr>lc_UniqueSpace := Some r\<rparr> else ctx)
      in if lc_CurrentSpace ctx = None \<and> sp_Name space = go_string (md_DefaultSpace metadata)
         then ctx\<lparr>lc_CurrentSpace := Some r\<rparr> else ctx)"

definition NewLoweringContext :: "space_store \<Rightarrow> space_ref \<Rightarrow> (Metadata \<times> space_ref list) option \<Rightarrow> Address \<Rightarrow> LoweringContext \<times> space_store" where
  "NewLoweringContext \<sigma> fresh metadata instruction =
     (let ctx = \<lparr>lc_Instruction = instruction, lc_RootInstruction = instruction, lc_CurrentSpace = None, lc_ConstantSpace = None,
            lc_UniqueSpace = None, lc_UniqueBase = 0, lc_UniqueMask = 0, lc_NextOffset = 0, lc_HasNext = False,
            lc_Next2Offset = 0, lc_HasNext2 = False, lc_SpacesByIndex = [], lc_Handles = [], lc_LabelBase = 0\<rparr>;
          ctx = (case metadata of
              None \<Rightarrow> ctx
            | Some (md, refs) \<Rightarrow> fold (registerSpace md) (zip (md_Spaces md) refs)
                (ctx\<lparr>lc_UniqueBase := md_UniqueBase md, lc_UniqueMask := md_UniqueMask md\<rparr>));
          ctx = (case ad_Space instruction of
              None \<Rightarrow> ctx
            | Some s \<Rightarrow> ctx\<lparr>lc_CurrentSpace := Some s,
                lc_SpacesByIndex := AList.update (uint (sp_Index (\<sigma> s))) s (lc_SpacesByIndex ctx)\<rparr>)
      in (ctx\<lparr>lc_ConstantSpace := Some fresh\<rparr>, \<sigma>(fresh := constantSpace)))"

definition fixedHandleOf :: "HandleReference \<Rightarrow> FixedHandle" where
  "fixedHandleOf r = \<lparr>fh_Space = hr_Space r, fh_Size = hr_Size r, fh_OffsetSpace = hr_OffsetSpace r, fh_OffsetOffset = hr_Offset r,
     fh_OffsetSize = hr_OffsetSize r, fh_TempSpace = hr_TempSpace r, fh_TempOffset = hr_TempOffset r\<rparr>"

definition RuntimeContextFromLowering :: "LoweringContext \<Rightarrow> RuntimeContext" where
  "RuntimeContextFromLowering ctx =
     (let at = (\<lambda>has off. if lc_CurrentSpace ctx \<noteq> None \<and> has
            then \<lparr>ad_Space = lc_CurrentSpace ctx, ad_Offset = off\<rparr> else invalidAddress)
      in \<lparr>rc_Instruction = lc_Instruction ctx, rc_CurrentSpace = lc_CurrentSpace ctx, rc_ConstantSpace = lc_ConstantSpace ctx,
          rc_Next = at (lc_HasNext ctx) (lc_NextOffset ctx), rc_HasNext = lc_HasNext ctx,
          rc_Next2 = at (lc_HasNext2 ctx) (lc_Next2Offset ctx), rc_HasNext2 = lc_HasNext2 ctx,
          rc_Ref = invalidAddress, rc_HasRef = False, rc_Dest = invalidAddress, rc_HasDest = False,
          rc_SpacesByIndex = lc_SpacesByIndex ctx, rc_Handles = map fixedHandleOf (lc_Handles ctx), rc_ParentHandle = None\<rparr>)"

definition lift_fix :: "fix_error + 'a \<Rightarrow> lower_error + 'a" where
  "lift_fix r = (case r of Inl e \<Rightarrow> Inl (ErrFix e) | Inr x \<Rightarrow> Inr x)"

definition lowerSpaceConst :: "ConstBoundary \<Rightarrow> LoweringContext \<Rightarrow> lower_error + space_ref option" where
  "lowerSpaceConst c ctx = lift_fix (fixConstSpace c (RuntimeContextFromLowering ctx))"

definition lowerOffsetConst :: "space_store \<Rightarrow> ConstBoundary \<Rightarrow> LoweringContext \<Rightarrow> lower_error + u64" where
  "lowerOffsetConst \<sigma> c ctx = lift_fix (fixConstScalar \<sigma> c (RuntimeContextFromLowering ctx))"

definition lowerScalarConst :: "space_store \<Rightarrow> ConstBoundary \<Rightarrow> LoweringContext \<Rightarrow> lower_error + u64" where
  "lowerScalarConst \<sigma> c ctx = lift_fix (fixConstScalar \<sigma> c (RuntimeContextFromLowering ctx))"

section \<open>Varnodes\<close>

definition calcMask :: "u32 \<Rightarrow> u64" where
  "calcMask size0 = (if size0 \<ge> 8 then - 1 else push_bit (unat (size0 * 8)) 1 - 1)"

text \<open>Tests on a possibly nil space.\<close>

definition constant_space :: "space_store \<Rightarrow> space_ref option \<Rightarrow> bool" where
  "constant_space \<sigma> s = (case s of None \<Rightarrow> False | Some s \<Rightarrow> IsConstant (\<sigma> s))"

definition unique_space :: "space_store \<Rightarrow> space_ref option \<Rightarrow> bool" where
  "unique_space \<sigma> s = (case s of None \<Rightarrow> False | Some s \<Rightarrow> sp_Kind (\<sigma> s) = SpaceKindUnique)"

definition lowerVarnodeTplConcrete :: "space_store \<Rightarrow> VarnodeTplBoundary \<Rightarrow> LoweringContext \<Rightarrow> lower_error + RawVarnode" where
  "lowerVarnodeTplConcrete \<sigma> vn ctx =
     then_step (lowerSpaceConst (vt_Space vn) ctx) (\<lambda>space.
     then_step (lowerOffsetConst \<sigma> (vt_Offset vn) ctx) (\<lambda>offset.
     then_step (lowerScalarConst \<sigma> (vt_Size vn) ctx) (\<lambda>size0.
       if size0 = 0 \<or> size0 > 0xffffffff then Inl (ErrLoweredSize size0)
       else
         let offset = (if space = None then offset
             else if constant_space \<sigma> space then offset AND calcMask (ucast size0)
             else if \<not> unique_space \<sigma> space then wrapSpaceOffset \<sigma> space offset
             else offset)
         in Inr \<lparr>rv_Space = space, rv_Offset = offset, rv_Size = ucast size0\<rparr>)))"

definition isDynamicVarnodeTpl :: "VarnodeTplBoundary \<Rightarrow> LoweringContext \<Rightarrow> lower_error + bool" where
  "isDynamicVarnodeTpl vn ctx =
     (if cb_Kind (vt_Offset vn) \<noteq> ConstKindHandle then Inr False
      else then_step (lift_fix (handle (RuntimeContextFromLowering ctx) (cb_HandleIndex (vt_Offset vn)))) (\<lambda>hand.
        Inr (fh_OffsetSpace hand \<noteq> None)))"

definition lowerVarnodeTpl :: "space_store \<Rightarrow> VarnodeTplBoundary \<Rightarrow> LoweringContext \<Rightarrow> lower_error + RawVarnode" where
  "lowerVarnodeTpl \<sigma> vn ctx =
     then_step (isDynamicVarnodeTpl vn ctx) (\<lambda>dynamic.
       if dynamic then Inl ErrDynamicVarnode else lowerVarnodeTplConcrete \<sigma> vn ctx)"

section \<open>Dynamic varnodes\<close>

definition dynamicHandleForVarnode :: "VarnodeTplBoundary \<Rightarrow> LoweringContext \<Rightarrow> lower_error + HandleReference option" where
  "dynamicHandleForVarnode vn ctx =
     (if cb_Kind (vt_Offset vn) \<noteq> ConstKindHandle then Inr None
      else
        let i = cb_HandleIndex (vt_Offset vn) in
        if i < 0 \<or> i \<ge> int (length (lc_Handles ctx)) then Inl (ErrFix (ErrHandleRange i))
        else
          let hand = lc_Handles ctx ! nat i in
          if hr_OffsetSpace hand = None then Inr None else Inr (Some hand))"

text \<open>The low 16 bits of the displacement; \<^verbatim>\<open>None\<close> when the selector has none.\<close>

definition dynamicOffsetPlusLow16 :: "VarnodeTplBoundary \<Rightarrow> u64 option" where
  "dynamicOffsetPlusLow16 vn =
     (if cb_Selector (vt_Offset vn) \<noteq> handleFieldOffsetPlus then None else Some (cb_Plus (vt_Offset vn) AND 0xffff))"

definition dynamicUniqueOffset :: "LoweringContext \<Rightarrow> u64" where
  "dynamicUniqueOffset ctx = push_bit 8 (ad_Offset (lc_Instruction ctx) AND lc_UniqueMask ctx)"

definition runtimeBitrangeEAOffset :: "LoweringContext \<Rightarrow> u64" where
  "runtimeBitrangeEAOffset ctx = lc_UniqueBase ctx + 0x100"

definition applyDynamicUniqueOffset :: "space_store \<Rightarrow> RawVarnode \<Rightarrow> LoweringContext \<Rightarrow> RawVarnode" where
  "applyDynamicUniqueOffset \<sigma> vn ctx =
     (if unique_space \<sigma> (rv_Space vn) then vn\<lparr>rv_Offset := rv_Offset vn OR dynamicUniqueOffset ctx\<rparr> else vn)"

definition lowerDynamicSpaceSelector :: "space_store \<Rightarrow> LoweringContext \<Rightarrow> space_ref option \<Rightarrow> lower_error + RawVarnode" where
  "lowerDynamicSpaceSelector \<sigma> ctx targetSpace =
     (if lc_ConstantSpace ctx = None then Inl ErrNoConstantSpace
      else case targetSpace of
        None \<Rightarrow> Inl ErrHandleSpaces
      | Some s \<Rightarrow> Inr \<lparr>rv_Space = lc_ConstantSpace ctx, rv_Offset = ucast (sp_Index (\<sigma> s)), rv_Size = 8\<rparr>)"

definition lowerDynamicPointerVarnode :: "space_store \<Rightarrow> VarnodeTplBoundary \<Rightarrow> LoweringContext \<Rightarrow> HandleReference
    \<Rightarrow> lower_error + RawVarnode \<times> RawVarnode" where
  "lowerDynamicPointerVarnode \<sigma> vn ctx hand =
     (if hr_Space hand = None \<or> hr_OffsetSpace hand = None then Inl ErrHandleSpaces
      else if hr_OffsetSize hand = 0 then Inl ErrHandlePointerSize
      else if cb_Selector (vt_Offset vn) \<noteq> handleFieldOffset \<and> cb_Selector (vt_Offset vn) \<noteq> handleFieldOffsetPlus then
        Inl (ErrDynamicSelector (cb_Selector (vt_Offset vn)))
      else
        let m = calcMask (hr_OffsetSize hand);
            ptrOffset = (if constant_space \<sigma> (hr_OffsetSpace hand) then
                (case dynamicOffsetPlusLow16 vn of
                   None \<Rightarrow> hr_Offset hand AND m
                 | Some low16 \<Rightarrow> if low16 \<noteq> 0 then ((hr_Offset hand AND m) + low16) AND m else hr_Offset hand AND m)
              else if unique_space \<sigma> (hr_OffsetSpace hand) then hr_Offset hand OR dynamicUniqueOffset ctx
              else wrapSpaceOffset \<sigma> (hr_OffsetSpace hand) (hr_Offset hand));
            pointer = \<lparr>rv_Space = hr_OffsetSpace hand, rv_Offset = ptrOffset, rv_Size = hr_OffsetSize hand\<rparr>
        in then_step (lowerDynamicSpaceSelector \<sigma> ctx (hr_Space hand)) (\<lambda>selector. Inr (pointer, selector)))"

text \<open>The unique space with the smallest index; the order in which Go ranges over the map does not matter.\<close>

definition smaller_unique :: "space_store \<Rightarrow> int \<times> space_ref \<Rightarrow> (int \<times> space_ref) option \<Rightarrow> (int \<times> space_ref) option" where
  "smaller_unique \<sigma> entry best =
     (if sp_Kind (\<sigma> (snd entry)) \<noteq> SpaceKindUnique then best
      else case best of None \<Rightarrow> Some entry | Some b \<Rightarrow> if fst entry < fst b then Some entry else best)"

definition runtimeUniqueSpace :: "space_store \<Rightarrow> LoweringContext \<Rightarrow> space_ref option" where
  "runtimeUniqueSpace \<sigma> ctx =
     (if lc_UniqueSpace ctx \<noteq> None then lc_UniqueSpace ctx
      else map_option snd (fold (smaller_unique \<sigma>) (lc_SpacesByIndex ctx) None))"

definition zeroSeqNum :: SeqNum where
  "zeroSeqNum = \<lparr>sq_Address = invalidAddress, sq_Time = 0, sq_Order = 0\<rparr>"

abbreviation "opLOAD \<equiv> (2 :: u16)"
abbreviation "opSTORE \<equiv> (3 :: u16)"
abbreviation "opINT_ADD \<equiv> (19 :: u16)"

definition lowerDynamicPointerAddOps :: "space_store \<Rightarrow> VarnodeTplBoundary \<Rightarrow> LoweringContext \<Rightarrow> HandleReference \<Rightarrow> RawVarnode
    \<Rightarrow> lower_error + RawOp list \<times> RawVarnode" where
  "lowerDynamicPointerAddOps \<sigma> vn ctx hand pointer =
     (case dynamicOffsetPlusLow16 vn of
        None \<Rightarrow> Inr ([], pointer)
      | Some low16 \<Rightarrow>
          if low16 = 0 then Inr ([], pointer)
          else if hr_OffsetSpace hand = None then Inl ErrHandleSpaces
          else if constant_space \<sigma> (hr_OffsetSpace hand) then Inr ([], pointer)
          else case runtimeUniqueSpace \<sigma> ctx of
            None \<Rightarrow> Inl ErrNoUniqueSpace
          | Some uniqueSpace \<Rightarrow>
              if lc_ConstantSpace ctx = None then Inl ErrNoConstantSpace
              else
                let runtimeTemp = \<lparr>rv_Space = Some uniqueSpace, rv_Offset = runtimeBitrangeEAOffset ctx, rv_Size = rv_Size pointer\<rparr>;
                    addImmediate = \<lparr>rv_Space = lc_ConstantSpace ctx, rv_Offset = low16, rv_Size = rv_Size pointer\<rparr>
                in Inr ([\<lparr>ro_SeqNum = zeroSeqNum, ro_OpCode = opINT_ADD, ro_Output = Some runtimeTemp,
                          ro_Inputs = [pointer, addImmediate]\<rparr>], runtimeTemp))"

text \<open>The varnode an operation uses, the operations before it and those behind it.\<close>

definition lowerVarnodeForOp :: "space_store \<Rightarrow> VarnodeTplBoundary \<Rightarrow> LoweringContext \<Rightarrow> bool
    \<Rightarrow> lower_error + RawVarnode \<times> RawOp list \<times> RawOp list" where
  "lowerVarnodeForOp \<sigma> vn ctx asOutput =
     then_step (dynamicHandleForVarnode vn ctx) (\<lambda>dynamic.
     case dynamic of
       None \<Rightarrow> then_step (lowerVarnodeTplConcrete \<sigma> vn ctx) (\<lambda>out. Inr (out, [], []))
     | Some hand \<Rightarrow>
         then_step (lowerVarnodeTplConcrete \<sigma> vn ctx) (\<lambda>out.
         let temp = applyDynamicUniqueOffset \<sigma> out ctx in
         then_step (lowerDynamicPointerVarnode \<sigma> vn ctx hand) (\<lambda>(pointer, selector).
         then_step (lowerDynamicPointerAddOps \<sigma> vn ctx hand pointer) (\<lambda>(addOps, pointer).
           if asOutput then
             Inr (temp, [], addOps @ [\<lparr>ro_SeqNum = zeroSeqNum, ro_OpCode = opSTORE, ro_Output = None, ro_Inputs = [selector, pointer, temp]\<rparr>])
           else
             Inr (temp, addOps @ [\<lparr>ro_SeqNum = zeroSeqNum, ro_OpCode = opLOAD, ro_Output = Some temp, ro_Inputs = [selector, pointer]\<rparr>], [])))))"

definition pointerWordSize :: "space_store \<Rightarrow> LoweringContext \<Rightarrow> u32" where
  "pointerWordSize \<sigma> ctx =
     (let pick = (\<lambda>s d. case s of None \<Rightarrow> d | Some s \<Rightarrow> if sp_AddrSize (\<sigma> s) > 0 then ucast (sp_AddrSize (\<sigma> s)) else d)
      in pick (ad_Space (lc_Instruction ctx)) (pick (lc_CurrentSpace ctx) 8))"

section \<open>Operations\<close>

definition rawEmissionAddress :: "space_store \<Rightarrow> LoweringContext \<Rightarrow> lower_error + Address" where
  "rawEmissionAddress \<sigma> ctx =
     (if Address_Validate \<sigma> (lc_RootInstruction ctx) = None then Inr (lc_RootInstruction ctx)
      else if Address_Validate \<sigma> (lc_Instruction ctx) = None then Inr (lc_Instruction ctx)
      else Inl ErrNoEmissionAddress)"

text \<open>The directives are the opcodes MULTIEQUAL, INDIRECT, PTRADD and PTRSUB, after conversion to \<^verbatim>\<open>OpCode\<close>.\<close>

datatype directive = DirectiveBuild | DirectiveDelaySlot | DirectiveLabel | DirectiveCrossBuild

definition specialDirective :: "int \<Rightarrow> directive option" where
  "specialDirective i =
     (let opc = (word_of_int i :: u16) in
      if opc = 60 then Some DirectiveBuild
      else if opc = 61 then Some DirectiveDelaySlot
      else if opc = 65 then Some DirectiveLabel
      else if opc = 66 then Some DirectiveCrossBuild
      else None)"

definition lowerOpcode :: "int \<Rightarrow> lower_error + u16" where
  "lowerOpcode i =
     (if specialDirective i \<noteq> None then Inl (ErrOpcodeRange i)
      else if i \<le> 0 \<or> i > 75 then Inl (ErrOpcodeRange i)
      else Inr (word_of_int i))"

definition lowerLabelDirective :: "space_store \<Rightarrow> 'k DirectiveHooks \<Rightarrow> OpTplBoundary \<Rightarrow> LoweringContext \<Rightarrow> 'k
    \<Rightarrow> (lower_error + RawOp list) \<times> 'k" where
  "lowerLabelDirective \<sigma> hooks op ctx k =
     (case ot_Inputs op of
        [v] \<Rightarrow> (case dh_OnLabel hooks of
          None \<Rightarrow> (Inl ErrLabelHook, k)
        | Some onLabel \<Rightarrow> (case lowerScalarConst \<sigma> (vt_Offset v) ctx of
            Inl e \<Rightarrow> (Inl e, k)
          | Inr labelIndex \<Rightarrow> then_st (onLabel (lc_LabelBase ctx + labelIndex) k) (\<lambda>_ k. (Inr [], k))))
      | _ \<Rightarrow> (Inl ErrLabelInputs, k))"

definition lowerDirective :: "space_store \<Rightarrow> 'k DirectiveHooks \<Rightarrow> directive \<Rightarrow> OpTplBoundary \<Rightarrow> LoweringContext \<Rightarrow> int \<Rightarrow> 'k
    \<Rightarrow> (lower_error + RawOp list) \<times> 'k" where
  "lowerDirective \<sigma> hooks d op ctx sectionID k =
     (case d of
        DirectiveLabel \<Rightarrow> lowerLabelDirective \<sigma> hooks op ctx k
      | DirectiveBuild \<Rightarrow> (case dh_OnBuild hooks of
          None \<Rightarrow> (Inl (ErrDirectiveHook 60), k) | Some f \<Rightarrow> f op sectionID ctx k)
      | DirectiveDelaySlot \<Rightarrow> (case dh_OnDelaySlot hooks of
          None \<Rightarrow> (Inl (ErrDirectiveHook 61), k) | Some f \<Rightarrow> f op ctx k)
      | DirectiveCrossBuild \<Rightarrow> (case dh_OnCrossBuild hooks of
          None \<Rightarrow> (Inl (ErrDirectiveHook 66), k) | Some f \<Rightarrow> f op ctx k))"

text \<open>The loop over the inputs: the lowered varnodes and the operations before the main one.\<close>

primrec lowerInputs :: "space_store \<Rightarrow> LoweringContext \<Rightarrow> VarnodeTplBoundary list \<Rightarrow> lower_error + RawVarnode list \<times> RawOp list" where
  "lowerInputs \<sigma> ctx [] = Inr ([], [])"
| "lowerInputs \<sigma> ctx (input # inputs) =
     then_step (lowerVarnodeForOp \<sigma> input ctx False) (\<lambda>(lowered, pre, _).
     then_step (lowerInputs \<sigma> ctx inputs) (\<lambda>(vs, pres). Inr (lowered # vs, pre @ pres)))"

text \<open>The loop that stamps every operation with the emission address and its position.\<close>

definition stampOps :: "Address \<Rightarrow> u64 \<Rightarrow> RawOp list \<Rightarrow> RawOp list" where
  "stampOps addr order ops =
     map (\<lambda>(i, op). op\<lparr>ro_SeqNum := \<lparr>sq_Address = addr, sq_Time = order + of_nat i, sq_Order = order + of_nat i\<rparr>\<rparr>)
       (enumerate 0 ops)"

definition lowerRawOp :: "space_store \<Rightarrow> OpTplBoundary \<Rightarrow> LoweringContext \<Rightarrow> u64 \<Rightarrow> lower_error + RawOp list" where
  "lowerRawOp \<sigma> op ctx order =
     then_step (rawEmissionAddress \<sigma> ctx) (\<lambda>emitAddr.
     then_step (lowerOpcode (ot_OpcodeID op)) (\<lambda>opcode.
     then_step (case ot_Output op of
         None \<Rightarrow> Inr (None, [], [])
       | Some out \<Rightarrow> then_step (lowerVarnodeForOp \<sigma> out ctx True) (\<lambda>(v, pre, post). Inr (Some v, pre, post))) (\<lambda>(output, pre, post).
     then_step (lowerInputs \<sigma> ctx (ot_Inputs op)) (\<lambda>(inputs, pres).
       Inr (stampOps emitAddr order
         (pre @ pres @ [\<lparr>ro_SeqNum = zeroSeqNum, ro_OpCode = opcode, ro_Output = output, ro_Inputs = inputs\<rparr>] @ post))))))"

definition lowerOpTpl :: "space_store \<Rightarrow> 'k DirectiveHooks \<Rightarrow> OpTplBoundary \<Rightarrow> LoweringContext \<Rightarrow> int \<Rightarrow> u64 \<Rightarrow> 'k
    \<Rightarrow> (lower_error + RawOp list) \<times> 'k" where
  "lowerOpTpl \<sigma> hooks op ctx sectionID order k =
     (case specialDirective (ot_OpcodeID op) of
        Some d \<Rightarrow> lowerDirective \<sigma> hooks d op ctx sectionID k
      | None \<Rightarrow> (lowerRawOp \<sigma> op ctx order, k))"

primrec lowerOps :: "space_store \<Rightarrow> 'k DirectiveHooks \<Rightarrow> LoweringContext \<Rightarrow> int \<Rightarrow> OpTplBoundary list \<Rightarrow> u64 \<Rightarrow> 'k
    \<Rightarrow> (lower_error + RawOp list) \<times> 'k" where
  "lowerOps \<sigma> hooks ctx sectionID [] order k = (Inr [], k)"
| "lowerOps \<sigma> hooks ctx sectionID (op # ops) order k =
     then_st (lowerOpTpl \<sigma> hooks op ctx sectionID order k) (\<lambda>lowered k.
       case first_invalid (RawOp_Validate \<sigma>) lowered of
         Some e \<Rightarrow> (Inl (ErrRawInvalid e), k)
       | None \<Rightarrow> then_st (lowerOps \<sigma> hooks ctx sectionID ops (order + of_nat (length lowered)) k) (\<lambda>rest k.
           (Inr (lowered @ rest), k)))"

definition LowerConstructTpl :: "space_store \<Rightarrow> 'k DirectiveHooks \<Rightarrow> ConstructTplBoundary \<Rightarrow> LoweringContext \<Rightarrow> 'k
    \<Rightarrow> (lower_error + RawOp list) \<times> 'k" where
  "LowerConstructTpl \<sigma> hooks tpl ctx k =
     (case Address_Validate \<sigma> (lc_Instruction ctx) of
        Some e \<Rightarrow> (Inl (ErrLowerInstruction e), k)
      | None \<Rightarrow> lowerOps \<sigma> hooks ctx (case ct_SectionID tpl of None \<Rightarrow> -1 | Some s \<Rightarrow> s) (ct_Ops tpl) 0 k)"

end
