(* ===== verification/Sla_LowerLaws.thy ===== *)
theory Sla_LowerLaws
  imports Sla_Lower
begin

text \<open>
  Lowering: every operand fits its space and its size, the operations are numbered in order at the
  emission address, and a dynamic operand is read and written through its pointer.
\<close>

section \<open>Operands fit\<close>

text \<open>
  What a varnode of the outv promises: a size, a constant that fits into it, and an offset inside
  its space when that is narrower than 64 bits and not the unique space.
\<close>

definition operand_fits :: "space_store \<Rightarrow> RawVarnode \<Rightarrow> bool" where
  "operand_fits \<sigma> v =
     (rv_Size v \<noteq> 0 \<and>
      (case rv_Space v of
         None \<Rightarrow> True
       | Some s \<Rightarrow>
           if IsConstant (\<sigma> s) then rv_Offset v \<le> calcMask (rv_Size v)
           else sp_Kind (\<sigma> s) = SpaceKindUnique \<or> sp_AddrSize (\<sigma> s) \<ge> 8 \<or> sp_WordSize (\<sigma> s) = 0 \<or>
             unat (rv_Offset v) < 2 ^ (8 * unat (sp_AddrSize (\<sigma> s))) * unat (sp_WordSize (\<sigma> s))))"

definition op_fits :: "space_store \<Rightarrow> RawOp \<Rightarrow> bool" where
  "op_fits \<sigma> op = (list_all (operand_fits \<sigma>) (ro_Inputs op) \<and> pred_option (operand_fits \<sigma>) (ro_Output op))"

lemma and_le_calcMask: "x AND calcMask n \<le> calcMask n"
  by (simp add: word_and_le1)

lemma unat_pow2:
  assumes "k < 64"
  shows "unat (2 ^ k :: u64) = 2 ^ k"
proof -
  have "(2::nat) ^ k < 2 ^ 64" using assms by (rule power_strict_increasing) simp
  then have "unat (of_nat (2 ^ k) :: u64) = 2 ^ k" using assms by (simp add: unsigned_of_nat take_bit_nat_eq_self del: of_nat_power)
  then show ?thesis by simp
qed

lemma unat_space_size:
  fixes a w :: u8
  assumes "a < 8"
  shows "unat (push_bit (unat (8 * a)) 1 * ucast w :: u64) = 2 ^ (8 * unat a) * unat w"
    (is "unat ?m = _")
proof -
  have a: "unat a < 8" using assms by (simp add: word_less_nat_alt)
  then have "unat (8 * a) = 8 * unat a" by (simp add: unat_word_ariths)
  moreover have "unat (ucast w :: u64) = unat w" 
    using unsigned_less [of w, where ?'a = nat] by (simp add: unsigned_ucast_eq take_bit_nat_eq_self)
  moreover have "(2::nat) ^ (8 * unat a) * unat w < 2 ^ 64"
  proof -
    have "unat w < 2 ^ 8" using unsigned_less [of w, where ?'a = nat] by simp
    moreover have "(2::nat) ^ (8 * unat a) \<le> 2 ^ 56" using a by (intro power_increasing) auto
    ultimately have "2 ^ (8 * unat a) * unat w < 2 ^ 56 * (2::nat) ^ 8" by (intro mult_le_less_imp_less) auto
    then show ?thesis by simp
  qed
  moreover have "unat (2 ^ (8 * unat a) :: u64) = 2 ^ (8 * unat a)" using a by (intro unat_pow2) simp
  ultimately show ?thesis by (simp add: unat_word_ariths)
qed

lemma wrapSpaceOffset_fits:
  assumes "sp_AddrSize (\<sigma> s) < 8" "sp_WordSize (\<sigma> s) \<noteq> 0"
  shows "unat (wrapSpaceOffset \<sigma> (Some s) v) < 2 ^ (8 * unat (sp_AddrSize (\<sigma> s))) * unat (sp_WordSize (\<sigma> s))"
proof -
  note m = unat_space_size [OF assms(1), of "sp_WordSize (\<sigma> s)"]
  have "0 < unat (sp_WordSize (\<sigma> s))" using assms(2) by (simp add: unat_gt_0)
  with m show ?thesis using assms
    by (auto simp: wrapSpaceOffset_def Let_def unat_mod unat_0_iff [symmetric] not_le)
qed

lemma ucast32_nonzero:
  fixes x :: u64
  assumes "x \<le> 0xffffffff" "x \<noteq> 0"
  shows "(ucast x :: u32) \<noteq> 0"
proof
  assume "(ucast x :: u32) = 0"
  then have "unat (ucast x :: u32) = 0" by simp
  moreover have "unat x < 2 ^ 32" using assms(1) by (simp add: word_le_nat_alt)
  ultimately have "unat x = 0" by (simp add: unsigned_ucast_eq take_bit_nat_eq_self)
  with assms(2) show False by (simp add: unat_0_iff)
qed

lemma wrapped_in_space:
  "8 \<le> sp_AddrSize (\<sigma> s) \<or> sp_WordSize (\<sigma> s) = 0 \<or>
     unat (wrapSpaceOffset \<sigma> (Some s) v) < 2 ^ (8 * unat (sp_AddrSize (\<sigma> s))) * unat (sp_WordSize (\<sigma> s))"
  using wrapSpaceOffset_fits [of \<sigma> s v] not_le by blast

lemma lift_fix_Inr [simp]: "lift_fix r = Inr x \<longleftrightarrow> r = Inr x"
  by (cases r) (auto simp: lift_fix_def)

definition concrete :: "space_store \<Rightarrow> space_ref option \<Rightarrow> u64 \<Rightarrow> u64 \<Rightarrow> RawVarnode" where
  "concrete \<sigma> space off size0 = \<lparr>rv_Space = space,
     rv_Offset = (if space = None then off
        else if constant_space \<sigma> space then off AND calcMask (ucast size0)
        else if \<not> unique_space \<sigma> space then wrapSpaceOffset \<sigma> space off else off), rv_Size = ucast size0\<rparr>"

lemma lowerVarnodeTplConcrete_Inr:
  assumes "lowerVarnodeTplConcrete \<sigma> vn ctx = Inr v"
  obtains space off size0 where "lowerSpaceConst (vt_Space vn) ctx = Inr space" "lowerOffsetConst \<sigma> (vt_Offset vn) ctx = Inr off"
    "lowerScalarConst \<sigma> (vt_Size vn) ctx = Inr size0" "size0 \<noteq> 0" "size0 \<le> 0xffffffff" "v = concrete \<sigma> space off size0"
proof -
  from assms obtain space off size0 where r: "lowerSpaceConst (vt_Space vn) ctx = Inr space"
      "lowerOffsetConst \<sigma> (vt_Offset vn) ctx = Inr off" "lowerScalarConst \<sigma> (vt_Size vn) ctx = Inr size0"
    and v: "(if size0 = 0 \<or> size0 > 0xffffffff then Inl (ErrLoweredSize size0) else Inr (concrete \<sigma> space off size0)) = Inr v"
    unfolding lowerVarnodeTplConcrete_def then_step_Inr concrete_def Let_def by blast
  from v have "size0 \<noteq> 0" "size0 \<le> 0xffffffff" "v = concrete \<sigma> space off size0"
    by (auto split: if_split_asm)
  with r that show ?thesis by blast
qed

lemma lowered_concrete_fits: "lowerVarnodeTplConcrete \<sigma> vn ctx = Inr v \<Longrightarrow> operand_fits \<sigma> v"
proof -
  assume "lowerVarnodeTplConcrete \<sigma> vn ctx = Inr v"
  then obtain space off size0 where size0: "size0 \<noteq> 0" "size0 \<le> 0xffffffff" and v: "v = concrete \<sigma> space off size0"
    by (rule lowerVarnodeTplConcrete_Inr)
  have "(ucast size0 :: u32) \<noteq> 0" using size0 by (simp add: ucast32_nonzero)
  then show ?thesis
    by (cases space) (auto simp: v concrete_def operand_fits_def constant_space_def unique_space_def and_le_calcMask wrapped_in_space)
qed

text \<open>The spaces a context must provide, as \<^const>\<open>NewLoweringContext\<close> does, and pointers that are wider than one byte.\<close>

definition lowering_spaces :: "space_store \<Rightarrow> LoweringContext \<Rightarrow> bool" where
  "lowering_spaces \<sigma> ctx =
     (pred_option (\<lambda>s. IsConstant (\<sigma> s)) (lc_ConstantSpace ctx) \<and>
      pred_option (\<lambda>s. sp_Kind (\<sigma> s) = SpaceKindUnique) (lc_UniqueSpace ctx) \<and>
      list_all (\<lambda>hand. hr_OffsetSize hand \<noteq> 1) (lc_Handles ctx))"

lemma smaller_unique_kind:
  "pred_option (\<lambda>b. sp_Kind (\<sigma> (snd b)) = SpaceKindUnique) best \<Longrightarrow>
     pred_option (\<lambda>b. sp_Kind (\<sigma> (snd b)) = SpaceKindUnique) (smaller_unique \<sigma> entry best)"
  by (auto simp: smaller_unique_def split: option.split)

lemma fold_unique_kind:
  "pred_option (\<lambda>b. sp_Kind (\<sigma> (snd b)) = SpaceKindUnique) best \<Longrightarrow>
     pred_option (\<lambda>b. sp_Kind (\<sigma> (snd b)) = SpaceKindUnique) (fold (smaller_unique \<sigma>) xs best)"
  by (induction xs arbitrary: best) (auto simp: smaller_unique_kind)

lemma runtimeUniqueSpace_kind:
  assumes "lowering_spaces \<sigma> ctx" "runtimeUniqueSpace \<sigma> ctx = Some s"
  shows "sp_Kind (\<sigma> s) = SpaceKindUnique"
  using assms fold_unique_kind [of \<sigma> None "lc_SpacesByIndex ctx"]
  by (auto simp: runtimeUniqueSpace_def lowering_spaces_def split: if_splits)

lemma unat_calcMask: "unat (calcMask n) = (if n \<ge> 8 then 2 ^ 64 - 1 else 2 ^ (8 * unat n) - 1)"
proof (cases "n \<ge> 8")
  case False
  then have n: "unat n < 8" by (simp add: word_le_nat_alt)
  then have "unat (n * 8) = 8 * unat n" by (simp add: unat_word_ariths)
  moreover have "unat (2 ^ (8 * unat n) :: u64) = 2 ^ (8 * unat n)" using n by (intro unat_pow2) simp
  ultimately show ?thesis using False
    by (simp add: calcMask_def unat_sub word_le_nat_alt)
qed (simp add: calcMask_def unsigned_minus_1_eq_mask mask_eq_exp_minus_1)

lemma calcMask_mono16:
  assumes "n \<noteq> 0" "n \<noteq> 1"
  shows "(x AND 0xffff) \<le> calcMask n"
proof -
  have "unat n \<noteq> unat (0::u32)" "unat n \<noteq> unat (1::u32)" using assms unfolding word_unat_eq_iff by blast+
  then have "2 \<le> unat n" by simp
  then have "(2::nat) ^ 16 \<le> 2 ^ (8 * unat n)" by (intro power_increasing) auto
  then have "0xffff \<le> unat (calcMask n)" using diff_le_mono [of "2 ^ 16" "2 ^ (8 * unat n)" 1] by (simp add: unat_calcMask)
  then have "0xffff \<le> calcMask n" by (simp add: word_le_nat_alt)
  moreover have "(x AND 0xffff) \<le> 0xffff" by (simp add: word_and_le1)
  ultimately show ?thesis by order
qed

lemma index_le_mask8: "(ucast (i :: u16) :: u64) \<le> calcMask 8"
  by (simp add: calcMask_def)

lemma selector_fits:
  assumes "lowering_spaces \<sigma> ctx" "lowerDynamicSpaceSelector \<sigma> ctx target = Inr v"
  shows "operand_fits \<sigma> v"
  using assms
  by (auto simp: lowerDynamicSpaceSelector_def lowering_spaces_def operand_fits_def index_le_mask8 split: if_splits option.splits)

text \<open>The offset of the pointer varnode of a dynamic operand.\<close>

definition pointer_offset :: "space_store \<Rightarrow> VarnodeTplBoundary \<Rightarrow> LoweringContext \<Rightarrow> HandleReference \<Rightarrow> u64" where
  "pointer_offset \<sigma> vn ctx hand =
     (if constant_space \<sigma> (hr_OffsetSpace hand) then
        (hr_Offset hand AND calcMask (hr_OffsetSize hand)) +
          (case dynamicOffsetPlusLow16 vn of None \<Rightarrow> 0 | Some low16 \<Rightarrow> low16) AND calcMask (hr_OffsetSize hand)
      else if unique_space \<sigma> (hr_OffsetSpace hand) then hr_Offset hand OR dynamicUniqueOffset ctx
      else wrapSpaceOffset \<sigma> (hr_OffsetSpace hand) (hr_Offset hand))"

lemma pointer_varnode:
  assumes "lowerDynamicPointerVarnode \<sigma> vn ctx hand = Inr (p, sel)"
  shows "p = \<lparr>rv_Space = hr_OffsetSpace hand, rv_Offset = pointer_offset \<sigma> vn ctx hand, rv_Size = hr_OffsetSize hand\<rparr>"
    "hr_OffsetSize hand \<noteq> 0" "lowerDynamicSpaceSelector \<sigma> ctx (hr_Space hand) = Inr sel"
    "hr_OffsetSpace hand \<noteq> None" "hr_Space hand \<noteq> None"
  using assms
  by (auto simp: lowerDynamicPointerVarnode_def pointer_offset_def Let_def then_step_Inr and.assoc
      cong: if_cong split: if_split_asm option.split option.split_asm)

lemma pointer_fits:
  assumes "lowering_spaces \<sigma> ctx" "lowerDynamicPointerVarnode \<sigma> vn ctx hand = Inr (p, sel)"
  shows "operand_fits \<sigma> p" "operand_fits \<sigma> sel" "rv_Size p = hr_OffsetSize hand"
  using pointer_varnode [OF assms(2)] selector_fits [OF assms(1)]
  by (auto simp: operand_fits_def pointer_offset_def constant_space_def unique_space_def and_le_calcMask wrapped_in_space)

lemma pointer_add_fits:
  assumes "lowering_spaces \<sigma> ctx" "lowerDynamicPointerAddOps \<sigma> vn ctx hand p = Inr (ops, q)"
    and "operand_fits \<sigma> p" "rv_Size p \<noteq> 1"
  shows "list_all (op_fits \<sigma>) ops \<and> operand_fits \<sigma> q"
  using assms runtimeUniqueSpace_kind [OF assms(1)]
  by (auto simp: lowerDynamicPointerAddOps_def lowering_spaces_def Let_def op_fits_def operand_fits_def calcMask_mono16 IsConstant_def
      dynamicOffsetPlusLow16_def split: if_splits option.splits)

lemma dynamic_offset_fits: "operand_fits \<sigma> v \<Longrightarrow> operand_fits \<sigma> (applyDynamicUniqueOffset \<sigma> v ctx)"
  by (auto simp: applyDynamicUniqueOffset_def unique_space_def operand_fits_def IsConstant_def split: option.splits)

lemma lowered_for_op_fits:
  assumes "lowering_spaces \<sigma> ctx" "lowerVarnodeForOp \<sigma> vn ctx asOutput = Inr (v, pre, post)"
  shows "operand_fits \<sigma> v" "list_all (op_fits \<sigma>) pre" "list_all (op_fits \<sigma>) post"
proof -
  have "operand_fits \<sigma> v \<and> list_all (op_fits \<sigma>) pre \<and> list_all (op_fits \<sigma>) post"
  proof (cases "\<exists>hand. dynamicHandleForVarnode vn ctx = Inr (Some hand)")
    case False
    with assms(2) show ?thesis
      by (auto simp: lowerVarnodeForOp_def then_step_Inr lowered_concrete_fits split: option.split_asm)
  next
    case True
    then obtain hand where hand: "dynamicHandleForVarnode vn ctx = Inr (Some hand)" by blast
    with assms(2) obtain out p sel ops q where v: "lowerVarnodeTplConcrete \<sigma> vn ctx = Inr out"
        "lowerDynamicPointerVarnode \<sigma> vn ctx hand = Inr (p, sel)"
        "lowerDynamicPointerAddOps \<sigma> vn ctx hand p = Inr (ops, q)"
      and r: "v = applyDynamicUniqueOffset \<sigma> out ctx"
        "pre = (if asOutput then [] else ops @ [\<lparr>ro_SeqNum = zeroSeqNum, ro_OpCode = opLOAD, ro_Output = Some v, ro_Inputs = [sel, q]\<rparr>])"
        "post = (if asOutput then ops @ [\<lparr>ro_SeqNum = zeroSeqNum, ro_OpCode = opSTORE, ro_Output = None, ro_Inputs = [sel, q, v]\<rparr>] else [])"
      by (auto simp: lowerVarnodeForOp_def then_step_Inr Let_def split: if_split_asm)
    from hand have "hand \<in> set (lc_Handles ctx)"
      by (auto simp: dynamicHandleForVarnode_def Let_def split: if_split_asm)
    then have "hr_OffsetSize hand \<noteq> 1" using assms(1) by (auto simp: lowering_spaces_def list_all_iff)
    then have "list_all (op_fits \<sigma>) ops" "operand_fits \<sigma> q" "operand_fits \<sigma> sel"
      using pointer_fits [OF assms(1) v(2)] pointer_add_fits [OF assms(1) v(3)] by auto
    moreover have "operand_fits \<sigma> v" using lowered_concrete_fits [OF v(1)] by (simp add: r(1) dynamic_offset_fits)
    ultimately show ?thesis by (simp add: r(2,3) op_fits_def)
  qed
  then show "operand_fits \<sigma> v" "list_all (op_fits \<sigma>) pre" "list_all (op_fits \<sigma>) post" by auto
qed

lemma lowered_inputs_fit:
  assumes "lowering_spaces \<sigma> ctx" "lowerInputs \<sigma> ctx inputs = Inr (vs, pres)"
  shows "list_all (operand_fits \<sigma>) vs \<and> list_all (op_fits \<sigma>) pres"
  using assms(2)
proof (induction inputs arbitrary: vs pres)
  case (Cons input inputs)
  from Cons.prems obtain v pre post ws rest where
    "lowerVarnodeForOp \<sigma> input ctx False = Inr (v, pre, post)" "lowerInputs \<sigma> ctx inputs = Inr (ws, rest)"
    "vs = v # ws" "pres = pre @ rest"
    by (auto simp: then_step_Inr)
  with Cons.IH lowered_for_op_fits [OF assms(1)] show ?case by auto
qed simp

lemma stampOps_set: "op \<in> set (stampOps a n ops) \<Longrightarrow> \<exists>op'\<in>set ops. ro_Output op = ro_Output op' \<and> ro_Inputs op = ro_Inputs op'"
  by (auto simp: stampOps_def set_zip enumerate_eq_zip intro: nth_mem)

lemma lowered_raw_op:
  assumes "lowerRawOp \<sigma> op ctx order = Inr ops"
  obtains addr main pre pres post outv inputs where "rawEmissionAddress \<sigma> ctx = Inr addr"
    "ops = stampOps addr order (pre @ pres @ [main] @ post)" "ro_Output main = outv" "ro_Inputs main = inputs"
    "lowerOpcode (ot_OpcodeID op) = Inr (ro_OpCode main)"
    "case ot_Output op of None \<Rightarrow> outv = None \<and> pre = [] \<and> post = []
     | Some out \<Rightarrow> \<exists>v. lowerVarnodeForOp \<sigma> out ctx True = Inr (v, pre, post) \<and> outv = Some v"
    "lowerInputs \<sigma> ctx (ot_Inputs op) = Inr (inputs, pres)"
proof -
  from assms obtain addr opcode outv pre post inputs pres where
    "rawEmissionAddress \<sigma> ctx = Inr addr" "lowerOpcode (ot_OpcodeID op) = Inr opcode"
    "(case ot_Output op of None \<Rightarrow> Inr (None, [], [])
      | Some out \<Rightarrow> then_step (lowerVarnodeForOp \<sigma> out ctx True) (\<lambda>(v, pre, post). Inr (Some v, pre, post))) = Inr (outv, pre, post)"
    "lowerInputs \<sigma> ctx (ot_Inputs op) = Inr (inputs, pres)"
    "ops = stampOps addr order (pre @ pres @ [\<lparr>ro_SeqNum = zeroSeqNum, ro_OpCode = opcode, ro_Output = outv, ro_Inputs = inputs\<rparr>] @ post)"
    unfolding lowerRawOp_def by (auto simp: then_step_Inr)
  moreover from this(3) have "case ot_Output op of None \<Rightarrow> outv = None \<and> pre = [] \<and> post = []
     | Some out \<Rightarrow> \<exists>v. lowerVarnodeForOp \<sigma> out ctx True = Inr (v, pre, post) \<and> outv = Some v"
    by (auto simp: then_step_Inr split: option.splits)
  ultimately show ?thesis
    by (intro that [where addr = addr and outv = outv and inputs = inputs and
          main = "\<lparr>ro_SeqNum = zeroSeqNum, ro_OpCode = opcode, ro_Output = outv, ro_Inputs = inputs\<rparr>"]) simp_all
qed

lemma lowered_raw_op_fits:
  assumes "lowering_spaces \<sigma> ctx" "lowerRawOp \<sigma> op ctx order = Inr ops"
  shows "list_all (op_fits \<sigma>) ops"
  using assms(2)
proof (rule lowered_raw_op)
  fix addr main pre pres post outv inputs
  assume ops: "ops = stampOps addr order (pre @ pres @ [main] @ post)" and main: "ro_Output main = outv" "ro_Inputs main = inputs"
    and out: "case ot_Output op of None \<Rightarrow> outv = None \<and> pre = [] \<and> post = []
     | Some out \<Rightarrow> \<exists>v. lowerVarnodeForOp \<sigma> out ctx True = Inr (v, pre, post) \<and> outv = Some v"
    and inp: "lowerInputs \<sigma> ctx (ot_Inputs op) = Inr (inputs, pres)"
  have "pred_option (operand_fits \<sigma>) outv \<and> list_all (op_fits \<sigma>) (pre @ post)"
    using out lowered_for_op_fits [OF assms(1)] by (auto split: option.splits)
  with lowered_inputs_fit [OF assms(1) inp] have "list_all (op_fits \<sigma>) (pre @ pres @ [main] @ post)"
    by (simp add: op_fits_def main)
  then show "list_all (op_fits \<sigma>) ops"
    unfolding ops list_all_iff op_fits_def by (metis stampOps_set)
qed

section \<open>Templates\<close>

text \<open>An operation that is no directive, or defines a label: the others call the builder back.\<close>

definition plain_op :: "OpTplBoundary \<Rightarrow> bool" where
  "plain_op op = (specialDirective (ot_OpcodeID op) \<in> {None, Some DirectiveLabel})"

lemma lowered_plain_op:
  assumes "plain_op op" "lowerOpTpl \<sigma> hooks op ctx sec order k = (Inr ops, k')"
  shows "ops = [] \<or> lowerRawOp \<sigma> op ctx order = Inr ops"
  using assms
  by (auto simp: plain_op_def lowerOpTpl_def lowerDirective_def lowerLabelDirective_def then_st_def
      split: option.splits list.splits sum.splits prod.splits)

lemma lowered_ops_fit:
  assumes "lowering_spaces \<sigma> ctx" "list_all plain_op tpl" "lowerOps \<sigma> hooks ctx sec tpl order k = (Inr ops, k')"
  shows "list_all (op_fits \<sigma>) ops"
  using assms(2,3)
proof (induction tpl arbitrary: order k ops)
  case (Cons op tpl)
  then obtain lowered rest k1 where "lowerOpTpl \<sigma> hooks op ctx sec order k = (Inr lowered, k1)"
    "lowerOps \<sigma> hooks ctx sec tpl (order + of_nat (length lowered)) k1 = (Inr rest, k')" "ops = lowered @ rest"
    by (auto simp: then_st_def split: sum.split_asm prod.split_asm option.split_asm)
  with Cons lowered_plain_op lowered_raw_op_fits [OF assms(1)] show ?case by fastforce
qed simp

text \<open>The operations of a list are numbered upwards, at one address, and each of them is valid.\<close>

definition numbered :: "space_store \<Rightarrow> Address \<Rightarrow> u64 \<Rightarrow> RawOp list \<Rightarrow> bool" where
  "numbered \<sigma> a n ops =
     (\<forall>i<length ops. ro_SeqNum (ops ! i) = \<lparr>sq_Address = a, sq_Time = n + of_nat i, sq_Order = n + of_nat i\<rparr> \<and>
        RawOp_Validate \<sigma> (ops ! i) = None)"

lemma numbered_append:
  "numbered \<sigma> a n xs \<Longrightarrow> numbered \<sigma> a (n + of_nat (length xs)) ys \<Longrightarrow> numbered \<sigma> a n (xs @ ys)"
  unfolding numbered_def
proof (intro allI impI)
  fix i
  assume *: "\<forall>i<length xs. ro_SeqNum (xs ! i) = \<lparr>sq_Address = a, sq_Time = n + of_nat i, sq_Order = n + of_nat i\<rparr> \<and> RawOp_Validate \<sigma> (xs ! i) = None"
    "\<forall>i<length ys. ro_SeqNum (ys ! i) = \<lparr>sq_Address = a, sq_Time = n + of_nat (length xs) + of_nat i, sq_Order = n + of_nat (length xs) + of_nat i\<rparr> \<and> RawOp_Validate \<sigma> (ys ! i) = None"
    and i: "i < length (xs @ ys)"
  show "ro_SeqNum ((xs @ ys) ! i) = \<lparr>sq_Address = a, sq_Time = n + of_nat i, sq_Order = n + of_nat i\<rparr> \<and> RawOp_Validate \<sigma> ((xs @ ys) ! i) = None"
  proof (cases "i < length xs")
    case False
    then have "n + of_nat (length xs) + of_nat (i - length xs) = n + of_nat i" by (simp add: of_nat_diff)
    moreover have "i - length xs < length ys" using False i by simp
    ultimately show ?thesis using *(2) False by (simp add: nth_append)
  qed (use * in \<open>simp add: nth_append\<close>)
qed

lemma stampOps_nth:
  "i < length ops \<Longrightarrow> ro_SeqNum (stampOps a n ops ! i) = \<lparr>sq_Address = a, sq_Time = n + of_nat i, sq_Order = n + of_nat i\<rparr>"
  by (simp add: stampOps_def nth_enumerate_eq)

lemma length_stampOps [simp]: "length (stampOps a n ops) = length ops"
  by (simp add: stampOps_def)

lemma first_invalid_None: "first_invalid f xs = None \<longleftrightarrow> (\<forall>x\<in>set xs. f x = None)"
  by (induction xs) (auto split: option.split)

lemma raw_op_numbered:
  assumes "lowerRawOp \<sigma> op ctx n = Inr ops" "first_invalid (RawOp_Validate \<sigma>) ops = None" "rawEmissionAddress \<sigma> ctx = Inr a"
  shows "numbered \<sigma> a n ops"
  using assms(1)
proof (rule lowered_raw_op)
  fix addr main pre pres post
  assume "rawEmissionAddress \<sigma> ctx = Inr addr" and ops: "ops = stampOps addr n (pre @ pres @ [main] @ post)"
  with assms have a: "addr = a" by simp
  show ?thesis
    unfolding numbered_def
  proof (intro allI impI conjI)
    fix i assume i: "i < length ops"
    then show "ro_SeqNum (ops ! i) = \<lparr>sq_Address = a, sq_Time = n + of_nat i, sq_Order = n + of_nat i\<rparr>"
      unfolding ops a by (intro stampOps_nth) simp
    show "RawOp_Validate \<sigma> (ops ! i) = None" using assms(2) i by (simp add: first_invalid_None)
  qed
qed

lemma lowered_ops_numbered:
  assumes "rawEmissionAddress \<sigma> ctx = Inr a" "list_all plain_op tpl" "lowerOps \<sigma> hooks ctx sec tpl n k = (Inr ops, k')"
  shows "numbered \<sigma> a n ops"
  using assms(2,3)
proof (induction tpl arbitrary: n k ops)
  case Nil
  then show ?case by (simp add: numbered_def)
next
  case (Cons op tpl)
  then obtain lowered rest k1 where l: "lowerOpTpl \<sigma> hooks op ctx sec n k = (Inr lowered, k1)"
    "first_invalid (RawOp_Validate \<sigma>) lowered = None"
    and r: "lowerOps \<sigma> hooks ctx sec tpl (n + of_nat (length lowered)) k1 = (Inr rest, k')" "ops = lowered @ rest"
    by (auto simp: then_st_def split: sum.split_asm prod.split_asm option.split_asm)
  have "lowered = [] \<or> lowerRawOp \<sigma> op ctx n = Inr lowered" using lowered_plain_op [OF _ l(1)] Cons.prems(1) by simp
  then have "numbered \<sigma> a n lowered"
    using raw_op_numbered [OF _ l(2) assms(1)] by (auto simp: numbered_def)
  with Cons.IH [OF _ r(1)] Cons.prems(1) show ?case by (simp add: r(2) numbered_append)
qed

lemma LowerConstructTpl_Inr:
  assumes "LowerConstructTpl \<sigma> hooks tpl ctx k = (Inr ops, k')"
  obtains sec where "Address_Validate \<sigma> (lc_Instruction ctx) = None" "lowerOps \<sigma> hooks ctx sec (ct_Ops tpl) 0 k = (Inr ops, k')"
  using assms by (auto simp: LowerConstructTpl_def split: option.splits)



section \<open>The unique space\<close>

lemma runtimeUniqueSpace_min:
  assumes "lc_UniqueSpace ctx = None" "runtimeUniqueSpace \<sigma> ctx = Some s"
  shows "\<exists>i. (i, s) \<in> set (lc_SpacesByIndex ctx) \<and> sp_Kind (\<sigma> s) = SpaceKindUnique \<and>
    (\<forall>(j, t)\<in>set (lc_SpacesByIndex ctx). sp_Kind (\<sigma> t) = SpaceKindUnique \<longrightarrow> i \<le> j)"
proof -
  have *: "case fold (smaller_unique \<sigma>) xs best of
        None \<Rightarrow> best = None \<and> (\<forall>(j, t)\<in>set xs. sp_Kind (\<sigma> t) \<noteq> SpaceKindUnique)
      | Some (i, s) \<Rightarrow> ((i, s) \<in> set xs \<or> best = Some (i, s)) \<and> sp_Kind (\<sigma> s) = SpaceKindUnique \<and>
          (\<forall>b. best = Some b \<longrightarrow> i \<le> fst b) \<and> (\<forall>(j, t)\<in>set xs. sp_Kind (\<sigma> t) = SpaceKindUnique \<longrightarrow> i \<le> j)"
    if "pred_option (\<lambda>b. sp_Kind (\<sigma> (snd b)) = SpaceKindUnique) best" for xs best
    using that
  proof (induction xs arbitrary: best)
    case (Cons x xs)
    from Cons.IH [OF smaller_unique_kind [OF Cons.prems, of x]] Cons.prems show ?case
      by (cases x) (fastforce simp: smaller_unique_def split: option.splits if_splits)
  qed (auto split: option.split)
  from * [of None "lc_SpacesByIndex ctx"] assms show ?thesis
    by (auto simp: runtimeUniqueSpace_def split: option.splits)
qed

lemma NewLoweringContext_spaces:
  assumes "\<forall>(space, r)\<in>set (zip (md_Spaces md) refs). \<sigma> r = space \<and> r \<noteq> fresh"
    and "NewLoweringContext \<sigma> fresh (Some (md, refs)) instruction = (ctx, \<sigma>')"
  shows "lowering_spaces \<sigma>' ctx"
proof -
  have *: "(\<forall>s. lc_UniqueSpace (fold (registerSpace md) xs c) = Some s \<longrightarrow> s \<noteq> fresh \<and> sp_Kind (\<sigma> s) = SpaceKindUnique) \<and>
      lc_Handles (fold (registerSpace md) xs c) = lc_Handles c"
    if "\<forall>(space, r)\<in>set xs. \<sigma> r = space \<and> r \<noteq> fresh"
      "\<forall>s. lc_UniqueSpace c = Some s \<longrightarrow> s \<noteq> fresh \<and> sp_Kind (\<sigma> s) = SpaceKindUnique" for xs c
    using that
  proof (induction xs arbitrary: c)
    case (Cons x xs)
    from Cons.prems have "\<forall>s. lc_UniqueSpace (registerSpace md x c) = Some s \<longrightarrow> s \<noteq> fresh \<and> sp_Kind (\<sigma> s) = SpaceKindUnique"
      and "lc_Handles (registerSpace md x c) = lc_Handles c"
      by (auto simp: registerSpace_def Let_def split: prod.splits)
    with Cons.IH [of "registerSpace md x c"] Cons.prems(1) show ?case by simp
  qed simp
  define c where "c = \<lparr>lc_Instruction = instruction, lc_RootInstruction = instruction, lc_CurrentSpace = None,
    lc_ConstantSpace = None, lc_UniqueSpace = None, lc_UniqueBase = md_UniqueBase md, lc_UniqueMask = md_UniqueMask md,
    lc_NextOffset = 0, lc_HasNext = False, lc_Next2Offset = 0, lc_HasNext2 = False, lc_SpacesByIndex = [], lc_Handles = [], lc_LabelBase = 0\<rparr>"
  have ctx: "lc_UniqueSpace ctx = lc_UniqueSpace (fold (registerSpace md) (zip (md_Spaces md) refs) c)"
      "lc_Handles ctx = lc_Handles (fold (registerSpace md) (zip (md_Spaces md) refs) c)"
      "lc_ConstantSpace ctx = Some fresh" "\<sigma>' = \<sigma>(fresh := constantSpace)"
    using assms(2) by (auto simp: NewLoweringContext_def Let_def c_def split: option.split_asm)
  show ?thesis
    using * [OF assms(1), of c] by (auto simp: lowering_spaces_def ctx constantSpace_def IsConstant_def c_def option.pred_set)
qed

section \<open>Dynamic operands\<close>

text \<open>
  A machine that gives the emitted loads, stores and additions their meaning: a value per varnode and
  a memory indexed by space, address and size.
\<close>

record machine =
  m_vals :: "RawVarnode \<Rightarrow> u64"
  m_mem :: "u64 \<times> u64 \<times> u32 \<Rightarrow> u64"

definition value_of :: "space_store \<Rightarrow> machine \<Rightarrow> RawVarnode \<Rightarrow> u64" where
  "value_of \<sigma> m v = (if constant_space \<sigma> (rv_Space v) then rv_Offset v else m_vals m v)"

definition run_op :: "space_store \<Rightarrow> RawOp \<Rightarrow> machine \<Rightarrow> machine" where
  "run_op \<sigma> op m =
     (case (ro_Output op, ro_Inputs op) of
        (Some v, [sel, p]) \<Rightarrow>
          if ro_OpCode op = opLOAD then m\<lparr>m_vals := (m_vals m)(v := m_mem m (rv_Offset sel, value_of \<sigma> m p, rv_Size v))\<rparr>
          else if ro_OpCode op = opINT_ADD then
            m\<lparr>m_vals := (m_vals m)(v := (value_of \<sigma> m sel + value_of \<sigma> m p) AND calcMask (rv_Size v))\<rparr>
          else m
      | (None, [sel, p, v]) \<Rightarrow>
          if ro_OpCode op = opSTORE then m\<lparr>m_mem := (m_mem m)((rv_Offset sel, value_of \<sigma> m p, rv_Size v) := value_of \<sigma> m v)\<rparr> else m
      | _ \<Rightarrow> m)"

definition run_ops :: "space_store \<Rightarrow> RawOp list \<Rightarrow> machine \<Rightarrow> machine" where
  "run_ops \<sigma> ops m = fold (run_op \<sigma>) ops m"

text \<open>The displacement of a template.\<close>

definition displacement :: "VarnodeTplBoundary \<Rightarrow> u64" where
  "displacement vn = (case dynamicOffsetPlusLow16 vn of None \<Rightarrow> 0 | Some low16 \<Rightarrow> low16)"

text \<open>The address a dynamic handle stands for: the pointer's value plus the displacement of the template.\<close>

definition dynamic_address :: "space_store \<Rightarrow> VarnodeTplBoundary \<Rightarrow> LoweringContext \<Rightarrow> HandleReference \<Rightarrow> machine \<Rightarrow> u64" where
  "dynamic_address \<sigma> vn ctx hand m =
     (let d = displacement vn in
      if constant_space \<sigma> (hr_OffsetSpace hand) then (hr_Offset hand + d) AND calcMask (hr_OffsetSize hand)
      else
        let x = m_vals m \<lparr>rv_Space = hr_OffsetSpace hand, rv_Offset = pointer_offset \<sigma> vn ctx hand, rv_Size = hr_OffsetSize hand\<rparr>
        in if d = 0 then x else (x + d) AND calcMask (hr_OffsetSize hand))"

text \<open>The temporary of an addition.\<close>

definition scratch_varnode :: "space_store \<Rightarrow> LoweringContext \<Rightarrow> HandleReference \<Rightarrow> RawVarnode" where
  "scratch_varnode \<sigma> ctx hand =
     \<lparr>rv_Space = runtimeUniqueSpace \<sigma> ctx, rv_Offset = runtimeBitrangeEAOffset ctx, rv_Size = hr_OffsetSize hand\<rparr>"

lemma add_and_calcMask: "((x AND calcMask s) + y) AND calcMask s = (x + y) AND calcMask s"
proof -
  have m: "((x AND mask k) + y) AND mask k = (x + y) AND mask k" if "k \<le> 64" for k
    by (rule word_uint_eq_iff [THEN iffD2]) (simp only: mask_plus [OF that], simp only: uint_and_mask mod_add_left_eq)
  show ?thesis
  proof (cases "s \<ge> 8")
    case False
    then have "unat s < 8" by (simp add: word_le_nat_alt)
    then have "unat (s * 8) \<le> 64" by (simp add: unat_word_ariths)
    with m False show ?thesis by (simp add: calcMask_def mask_eq_decr_exp)
  qed (simp add: calcMask_def)
qed

lemma pointer_adds_cases:
  assumes "lowerDynamicPointerAddOps \<sigma> vn ctx hand p = Inr (ops, q)"
  obtains (same) "displacement vn = 0 \<or> constant_space \<sigma> (hr_OffsetSpace hand)" "ops = []" "q = p"
  | (add) c where "displacement vn \<noteq> 0" "\<not> constant_space \<sigma> (hr_OffsetSpace hand)" "lc_ConstantSpace ctx = Some c"
      "runtimeUniqueSpace \<sigma> ctx \<noteq> None"
      "q = \<lparr>rv_Space = runtimeUniqueSpace \<sigma> ctx, rv_Offset = runtimeBitrangeEAOffset ctx, rv_Size = rv_Size p\<rparr>"
      "ops = [\<lparr>ro_SeqNum = zeroSeqNum, ro_OpCode = opINT_ADD, ro_Output = Some q,
                ro_Inputs = [p, \<lparr>rv_Space = Some c, rv_Offset = displacement vn, rv_Size = rv_Size p\<rparr>]\<rparr>]"
proof (cases "displacement vn = 0 \<or> constant_space \<sigma> (hr_OffsetSpace hand)")
  case True
  with assms have "ops = []" "q = p"
    by (auto simp: lowerDynamicPointerAddOps_def displacement_def split: option.split_asm if_split_asm)
  with True show ?thesis by (rule same)
next
  case False
  then obtain l where l: "dynamicOffsetPlusLow16 vn = Some l" "displacement vn = l"
    by (auto simp: displacement_def split: option.split_asm)
  with assms False obtain u c where u: "runtimeUniqueSpace \<sigma> ctx = Some u" and c: "lc_ConstantSpace ctx = Some c"
    by (auto simp: lowerDynamicPointerAddOps_def split: option.split_asm if_split_asm)
  with assms False l show ?thesis
    by (intro add [of c]) (auto simp: lowerDynamicPointerAddOps_def Let_def split: if_split_asm)
qed

lemma run_pointer_adds:
  assumes "lowering_spaces \<sigma> ctx" "lowerDynamicPointerVarnode \<sigma> vn ctx hand = Inr (p, sel)"
    "lowerDynamicPointerAddOps \<sigma> vn ctx hand p = Inr (ops, q)"
  shows "value_of \<sigma> (run_ops \<sigma> ops m) q = dynamic_address \<sigma> vn ctx hand m"
    "m_mem (run_ops \<sigma> ops m) = m_mem m"
    "u \<noteq> scratch_varnode \<sigma> ctx hand \<Longrightarrow> m_vals (run_ops \<sigma> ops m) u = m_vals m u"
proof -
  note p = pointer_varnode(1) [OF assms(2)]
  from assms(3) have "value_of \<sigma> (run_ops \<sigma> ops m) q = dynamic_address \<sigma> vn ctx hand m \<and> m_mem (run_ops \<sigma> ops m) = m_mem m \<and>
      (u \<noteq> scratch_varnode \<sigma> ctx hand \<longrightarrow> m_vals (run_ops \<sigma> ops m) u = m_vals m u)"
  proof (cases rule: pointer_adds_cases)
    case same
    then show ?thesis
      by (auto simp: run_ops_def p value_of_def dynamic_address_def pointer_offset_def displacement_def [symmetric] Let_def add_and_calcMask)
  next
    case (add c)
    have "\<not> constant_space \<sigma> (runtimeUniqueSpace \<sigma> ctx)" "constant_space \<sigma> (Some c)"
      using runtimeUniqueSpace_kind [OF assms(1)] assms(1) add(3)
      by (auto simp: constant_space_def IsConstant_def lowering_spaces_def split: option.split)
    with add show ?thesis
      by (simp add: run_ops_def run_op_def p value_of_def dynamic_address_def displacement_def [symmetric] Let_def scratch_varnode_def)
  qed
  then show "value_of \<sigma> (run_ops \<sigma> ops m) q = dynamic_address \<sigma> vn ctx hand m" "m_mem (run_ops \<sigma> ops m) = m_mem m"
    "u \<noteq> scratch_varnode \<sigma> ctx hand \<Longrightarrow> m_vals (run_ops \<sigma> ops m) u = m_vals m u" by auto
qed

lemma selector_value:
  "lowerDynamicSpaceSelector \<sigma> ctx (Some s) = Inr sel \<Longrightarrow> rv_Offset sel = ucast (sp_Index (\<sigma> s))"
  by (auto simp: lowerDynamicSpaceSelector_def split: if_split_asm)

text \<open>
  C34: A dynamic operand is used through its pointer. As an input, running the operations before the
  main one loads the operand's varnode from the handle's space, at the value of the pointer plus the
  displacement of the template cut to the pointer's size, and changes nothing but that varnode and the scratch
  temporary. As an output, running the operations behind the main one stores the varnode's value there.
\<close>
theorem dynamic_operand_through_pointer:
  assumes "dynamicHandleForVarnode vn ctx = Inr (Some hand)" and "hr_Space hand = Some s"
    and "lowering_spaces \<sigma> ctx" and "lowerVarnodeForOp \<sigma> vn ctx asOutput = Inr (v, pre, post)"
    and "\<not> constant_space \<sigma> (rv_Space v)" and "v \<noteq> scratch_varnode \<sigma> ctx hand"
  shows "(if asOutput then pre = [] \<and> m_mem (run_ops \<sigma> post m) =
              (m_mem m)((ucast (sp_Index (\<sigma> s)), dynamic_address \<sigma> vn ctx hand m, rv_Size v) := value_of \<sigma> m v)
          else post = [] \<and> m_mem (run_ops \<sigma> pre m) = m_mem m \<and>
            value_of \<sigma> (run_ops \<sigma> pre m) v = m_mem m (ucast (sp_Index (\<sigma> s)), dynamic_address \<sigma> vn ctx hand m, rv_Size v)) \<and>
     (\<forall>u. u \<noteq> v \<or> asOutput \<longrightarrow> u \<noteq> scratch_varnode \<sigma> ctx hand \<longrightarrow> m_vals (run_ops \<sigma> (pre @ post) m) u = m_vals m u)"
proof -
  from assms(1,4) obtain p sel ops q where l: "lowerDynamicPointerVarnode \<sigma> vn ctx hand = Inr (p, sel)"
        "lowerDynamicPointerAddOps \<sigma> vn ctx hand p = Inr (ops, q)"
    and r: "pre = (if asOutput then [] else ops @ [\<lparr>ro_SeqNum = zeroSeqNum, ro_OpCode = opLOAD, ro_Output = Some v, ro_Inputs = [sel, q]\<rparr>])"
        "post = (if asOutput then ops @ [\<lparr>ro_SeqNum = zeroSeqNum, ro_OpCode = opSTORE, ro_Output = None, ro_Inputs = [sel, q, v]\<rparr>] else [])"
      by (auto simp: lowerVarnodeForOp_def then_step_Inr Let_def split: if_split_asm)
  note run = run_pointer_adds [OF assms(3) l, where m = m]
  have sel: "rv_Offset sel = ucast (sp_Index (\<sigma> s))"
    using pointer_varnode(3) [OF l(1)] assms(2) by (simp add: selector_value)
  have v: "value_of \<sigma> (run_ops \<sigma> ops m) v = value_of \<sigma> m v" using run(3) [OF assms(6)] by (simp add: value_of_def)
  have split_last: "run_ops \<sigma> (ops @ [op]) m = run_op \<sigma> op (run_ops \<sigma> ops m)" for op by (simp add: run_ops_def)
  show ?thesis
    using run sel v assms(5) by (simp add: r split_last run_op_def) (simp add: value_of_def)
qed

section \<open>An example\<close>

text \<open>A copy of a memory operand, addressed by a register plus 8, to a temporary.\<close>

definition lower_spaces :: space_store where
  "lower_spaces = (\<lambda>s. \<lparr>sp_Name = ''s'', sp_Kind = (if s = 1 then SpaceKindConstant else if s = 2 then SpaceKindUnique else SpaceKindProcessor),
     sp_Index = of_nat s, sp_AddrSize = 4, sp_WordSize = 1, sp_BigEndian = False, sp_Physical = True, sp_Delay = 0,
     sp_Truncated = False, sp_spacebases = []\<rparr>)"

definition example_handle :: HandleReference where
  "example_handle = \<lparr>hr_Space = Some 0, hr_Size = 4, hr_OffsetSpace = Some 3, hr_Offset = 16, hr_OffsetSize = 4,
     hr_TempSpace = Some 2, hr_TempOffset = 64\<rparr>"

definition example_lowering :: LoweringContext where
  "example_lowering = \<lparr>lc_Instruction = \<lparr>ad_Space = Some 0, ad_Offset = 256\<rparr>, lc_RootInstruction = invalidAddress,
     lc_CurrentSpace = Some 0, lc_ConstantSpace = Some 1, lc_UniqueSpace = Some 2, lc_UniqueBase = 4096, lc_UniqueMask = 0,
     lc_NextOffset = 0, lc_HasNext = False, lc_Next2Offset = 0, lc_HasNext2 = False, lc_SpacesByIndex = [(2, 2)],
     lc_Handles = [example_handle], lc_LabelBase = 0\<rparr>"

abbreviation (input) "handle_const \<equiv> \<lambda>sel plus. (const_of ConstKindHandle 0)\<lparr>cb_Selector := sel, cb_Plus := plus\<rparr>"

definition example_input :: VarnodeTplBoundary where
  "example_input = \<lparr>vt_Space = handle_const handleFieldSpace 0, vt_Offset = handle_const handleFieldOffsetPlus 8,
     vt_Size = handle_const handleFieldSize 0\<rparr>"

definition example_output :: VarnodeTplBoundary where
  "example_output = \<lparr>vt_Space = (const_of ConstKindSpaceID 0)\<lparr>cb_SpaceIndex := 2\<rparr>,
     vt_Offset = (const_of ConstKindReal 0)\<lparr>cb_Value := 128\<rparr>, vt_Size = (const_of ConstKindReal 0)\<lparr>cb_Value := 4\<rparr>\<rparr>"

definition example_template :: ConstructTplBoundary where
  "example_template = \<lparr>ct_SectionID = None, ct_DelaySlot = 0, ct_NumLabels = 0, ct_Result = None,
     ct_Ops = [\<lparr>ot_OpcodeID = 1, ot_Output = Some example_output, ot_Inputs = [example_input]\<rparr>]\<rparr>"

definition no_hooks :: "unit DirectiveHooks" where
  "no_hooks = \<lparr>dh_OnLabel = None, dh_OnBuild = None, dh_OnDelaySlot = None, dh_OnCrossBuild = None\<rparr>"

abbreviation "example_temp \<equiv> \<lparr>rv_Space = Some (2::nat), rv_Offset = 72, rv_Size = 4\<rparr>"
abbreviation "example_scratch \<equiv> \<lparr>rv_Space = Some (2::nat), rv_Offset = 4352, rv_Size = 4\<rparr>"
abbreviation "example_pointer \<equiv> \<lparr>rv_Space = Some (3::nat), rv_Offset = 16, rv_Size = 4\<rparr>"

abbreviation (input) "example_op \<equiv> \<lambda>i opc outv inputs.
  \<lparr>ro_SeqNum = \<lparr>sq_Address = \<lparr>ad_Space = Some (0::nat), ad_Offset = 256\<rparr>, sq_Time = i, sq_Order = i\<rparr>, ro_OpCode = opc,
   ro_Output = outv, ro_Inputs = inputs\<rparr>"

lemmas example_defs = lower_spaces_def example_handle_def example_lowering_def example_input_def example_output_def
  example_template_def no_hooks_def

lemma example_input_lowered:
  "lowerVarnodeForOp lower_spaces example_input example_lowering False =
     Inr (example_temp,
       [\<lparr>ro_SeqNum = zeroSeqNum, ro_OpCode = opINT_ADD, ro_Output = Some example_scratch,
         ro_Inputs = [example_pointer, \<lparr>rv_Space = Some 1, rv_Offset = 8, rv_Size = 4\<rparr>]\<rparr>,
        \<lparr>ro_SeqNum = zeroSeqNum, ro_OpCode = opLOAD, ro_Output = Some example_temp,
         ro_Inputs = [\<lparr>rv_Space = Some 1, rv_Offset = 0, rv_Size = 8\<rparr>, example_scratch]\<rparr>], [])"
  by code_simp

lemma example_lowered:
  "LowerConstructTpl lower_spaces no_hooks example_template example_lowering () =
     (Inr [example_op 0 opINT_ADD (Some example_scratch) [example_pointer, \<lparr>rv_Space = Some 1, rv_Offset = 8, rv_Size = 4\<rparr>],
           example_op 1 opLOAD (Some example_temp) [\<lparr>rv_Space = Some 1, rv_Offset = 0, rv_Size = 8\<rparr>, example_scratch],
           example_op 2 1 (Some \<lparr>rv_Space = Some 2, rv_Offset = 128, rv_Size = 4\<rparr>) [example_temp]], ())"
  by code_simp

lemma example_context: "lowering_spaces lower_spaces example_lowering" "list_all plain_op (ct_Ops example_template)"
  by (simp_all add: lowering_spaces_def example_defs IsConstant_def plain_op_def specialDirective_def)



lemma dynamic_operand_through_pointer_witness:
  "\<forall>m. case lowerVarnodeForOp lower_spaces example_input example_lowering False of
     Inl _ \<Rightarrow> False
   | Inr (v, pre, _) \<Rightarrow> m_vals (run_ops lower_spaces pre m) v =
       m_mem m (0, (m_vals m example_pointer + 8) AND 0xffffffff, 4)"
proof
  fix m
  have h: "dynamicHandleForVarnode example_input example_lowering = Inr (Some example_handle)" by code_simp
  have ne: "example_temp \<noteq> scratch_varnode lower_spaces example_lowering example_handle" by code_simp
  have "dynamic_address lower_spaces example_input example_lowering example_handle m = (m_vals m example_pointer + 8) AND 0xffffffff"
    by (simp add: dynamic_address_def displacement_def dynamicOffsetPlusLow16_def pointer_offset_def wrapSpaceOffset_def calcMask_def
        constant_space_def unique_space_def IsConstant_def example_defs const_of_def)
  moreover have "\<not> constant_space lower_spaces (rv_Space example_temp)" "sp_Index (lower_spaces 0) = 0"
    "hr_Space example_handle = Some 0" by code_simp+
  ultimately have "m_vals (run_ops lower_spaces pre m) example_temp = m_mem m (0, (m_vals m example_pointer + 8) AND 0xffffffff, 4)"
    if "lowerVarnodeForOp lower_spaces example_input example_lowering False = Inr (example_temp, pre, [])" for pre
    using dynamic_operand_through_pointer [OF h _ example_context(1) that _ ne, of 0 m] by (simp add: value_of_def)
  from this [OF example_input_lowered]
  show "case lowerVarnodeForOp lower_spaces example_input example_lowering False of
     Inl _ \<Rightarrow> False
   | Inr (v, pre, _) \<Rightarrow> m_vals (run_ops lower_spaces pre m) v = m_mem m (0, (m_vals m example_pointer + 8) AND 0xffffffff, 4)"
    by (simp only: example_input_lowered sum.case prod.case)
qed

end
