(* ===== verification/Sla_Resolve.thy ===== *)
theory Sla_Resolve
  imports Sla_Decision Sla_Patexpr
begin

text \<open>
  \<^verbatim>\<open>pkg/sla/resolve.go\<close>: the resolution of an instruction, which matches a constructor at every state and
  allocates the states of its operands; \<^verbatim>\<open>pkg/sla/load_context.go\<close>: context words, context operations and the
  queue of context commits; and the matching itself, \<^verbatim>\<open>resolveTranslateFrame\<close> of \<^verbatim>\<open>translate.go\<close>.

  The callback that matches reads the state and does not change it, as \<open>resolveTranslateFrame\<close> does.
  \<open>fuel\<close> bounds the depth of the recursion, the parameter \<open>pf\<close> that of the pattern evaluator. A context
  is changed through its reference.
\<close>

datatype resolve_error = ErrFrameState | ErrNoResolveHook | ErrRootConstructor int | ErrWalk walker_error
  | ErrContextOpRange int | ErrContextOp pat_error | ErrFill | ErrLoad
  | ErrSymbolTable int | ErrOperandMissing int u64 | ErrDefiningSymbol int u64 | ErrSubtable decision_error
  | ErrNoTree | ErrDelaySlotRange u64 | ErrOffsetBase int | ErrOffsetUnderflow int u64 | ErrOperandMetadata
  | ErrNoCommitResolver | ErrNoCommitHook | ErrCommitChild int | ErrCommitHandle | ErrCommitUnresolved u64
  | ErrCommitAddress space_error | ErrCommitSpace | ErrCommitWordSize | ErrCommitHook | ResolveFuel

record ResolveOutcome =
  oc_Constructor :: "ConstructorBoundary option"
  oc_Offset :: u64
  oc_Length :: int
  oc_DelaySlot :: int
  oc_Commits :: "ContextCommitBoundary list"
  oc_HasRefAddr :: bool
  oc_RefAddr :: Address
  oc_HasDestAddr :: bool
  oc_DestAddr :: Address

record ResolveFrame =
  rf_Context :: ctx_ref
  rf_Walker :: ParserWalkerChange
  rf_State :: state_ref
  rf_Parent :: "state_ref option"
  rf_Depth :: int
  rf_Operand :: int
  rf_SectionID :: int

type_synonym resolve_symbol = "ResolveFrame \<Rightarrow> ctx_store \<Rightarrow> state_heap \<Rightarrow> resolve_error + ResolveOutcome"

record ResolveHooks =
  rh_LoadFill :: "(ParserContext \<Rightarrow> resolve_error + ParserContext) option"
  rh_LoadContext :: "(ParserContext \<Rightarrow> resolve_error + ParserContext) option"
  rh_ResolveSymbol :: "resolve_symbol option"
  rh_ContextOps :: operand_hook

text \<open>What a resolution works on.\<close>

record resolve_state =
  rs_contexts :: ctx_store
  rs_heap :: state_heap
  rs_change :: ParserWalkerChange

type_synonym 'a resolving = "resolve_state \<Rightarrow> (resolve_error + 'a) \<times> resolve_state"

definition on_heap :: "(state_heap \<Rightarrow> ParserWalkerChange \<Rightarrow> walker_error + state_heap) \<Rightarrow> unit resolving" where
  "on_heap f st =
     (case f (rs_heap st) (rs_change st) of
        Inl e \<Rightarrow> (Inl (ErrWalk e), st)
      | Inr h \<Rightarrow> (Inr (), st\<lparr>rs_heap := h\<rparr>))"

definition on_context :: "ctx_ref \<Rightarrow> (ParserContext \<Rightarrow> ParserContext) \<Rightarrow> resolve_state \<Rightarrow> resolve_state" where
  "on_context c f st = st\<lparr>rs_contexts := (rs_contexts st)(c := f (rs_contexts st c))\<rparr>"

definition load_hook :: "(ParserContext \<Rightarrow> resolve_error + ParserContext) option \<Rightarrow> ctx_ref \<Rightarrow> unit resolving" where
  "load_hook f c st =
     (case f of
        None \<Rightarrow> (Inr (), st)
      | Some f \<Rightarrow> (case f (rs_contexts st c) of
          Inl e \<Rightarrow> (Inl e, st)
        | Inr x \<Rightarrow> (Inr (), on_context c (\<lambda>_. x) st)))"

section \<open>Context operations\<close>

definition ApplyContextOp :: "nat \<Rightarrow> operand_hook \<Rightarrow> space_store \<Rightarrow> state_heap \<Rightarrow> ParserWalker \<Rightarrow> ctx_ref \<Rightarrow> ContextOpBoundary
    \<Rightarrow> ctx_store \<Rightarrow> (resolve_error + unit) \<times> ctx_store" where
  "ApplyContextOp pf hook \<sigma> h w c op \<kappa> =
     (case co_Expression op of
        None \<Rightarrow> (Inr (), \<kappa>)
      | Some e \<Rightarrow>
          if co_Num op < 0 \<or> co_Num op \<ge> int (length (pc_ContextWords (\<kappa> c))) then (Inl (ErrContextOpRange (co_Num op)), \<kappa>)
          else case GetPatternExpressionValue pf hook \<sigma> h e w \<kappa> of
            (Inl err, \<kappa>) \<Rightarrow> (Inl (ErrContextOp err), \<kappa>)
          | (Inr raw, \<kappa>) \<Rightarrow>
              (Inr (), \<kappa>(c := SetContextWord (\<kappa> c) (co_Num op) (shl (u64_of raw) (u64_of (co_Shift op))) (co_Mask op))))"

definition ApplyContextOps :: "nat \<Rightarrow> operand_hook \<Rightarrow> space_store \<Rightarrow> state_heap \<Rightarrow> ParserWalker option \<Rightarrow> ctx_ref \<Rightarrow> ContextOpBoundary list
    \<Rightarrow> ctx_store \<Rightarrow> (resolve_error + unit) \<times> ctx_store" where
  "ApplyContextOps pf hook \<sigma> h walker c ops \<kappa> =
     (let w = (case walker of Some w \<Rightarrow> w | None \<Rightarrow> BaseState \<kappa> (NewParserWalker (Some c)))
      in loop_st (ApplyContextOp pf hook \<sigma> h w c) ops \<kappa>)"

section \<open>Operand offsets and flow addresses\<close>

definition siblingEnd :: "state_heap \<Rightarrow> state_ref \<Rightarrow> u64" where
  "siblingEnd h s = cs_Offset (hp_state h s) + u64_of (cs_Length (hp_state h s))"

definition computeOperandOffsetAndLen :: "ParserContext \<Rightarrow> state_heap \<Rightarrow> state_ref option \<Rightarrow> int \<Rightarrow> u64 \<times> int" where
  "computeOperandOffsetAndLen ctx h parent operandIndex =
     (case parent of
        None \<Rightarrow> (0, 0)
      | Some p \<Rightarrow>
          (case FindOperandForConstructor (pc_Symbols ctx) (cs_Constructor (hp_state h p)) operandIndex of
             None \<Rightarrow> (cs_Offset (hp_state h p), 0)
           | Some osym \<Rightarrow>
               let base = (if op_OffsetBase osym < 0 then cs_Offset (hp_state h p)
                   else case Child h p (op_OffsetBase osym) of
                     None \<Rightarrow> cs_Offset (hp_state h p)
                   | Some sibling \<Rightarrow> siblingEnd h sibling)
               in (base + u64_of (op_RelativeOffset osym), op_MinimumLength osym)))"

definition applyResolveFlowAddresses :: "ParserContext \<Rightarrow> ResolveOutcome \<Rightarrow> ParserContext" where
  "applyResolveFlowAddresses ctx outcome =
     (if oc_HasRefAddr outcome \<and> oc_HasDestAddr outcome then
        SetDestAddr (SetRefAddr ctx (oc_RefAddr outcome)) (oc_DestAddr outcome)
      else if oc_HasRefAddr outcome then SetDestAddr (SetRefAddr ctx (oc_RefAddr outcome)) (oc_RefAddr outcome)
      else if oc_HasDestAddr outcome then SetRefAddr (SetDestAddr ctx (oc_DestAddr outcome)) (oc_DestAddr outcome)
      else ctx)"

section \<open>The recursion\<close>

definition queueContextCommit :: "ctx_ref \<Rightarrow> ContextCommitBoundary \<Rightarrow> unit resolving" where
  "queueContextCommit c commit st =
     (case change_point (rs_change st) of
        None \<Rightarrow> (Inl ErrFrameState, st)
      | Some (_, p) \<Rightarrow> (case AddCommit (rs_contexts st c) commit p of
          Inl e \<Rightarrow> (Inl (ErrWalk e), st)
        | Inr ctx \<Rightarrow> (Inr (), (on_context c (\<lambda>_. ctx) st)\<lparr>rs_change := ReserveCommit (rs_change st) commit\<rparr>)))"

text \<open>The part of \<^verbatim>\<open>resolveFrame\<close> between the callback and the operands.\<close>

definition enterConstructor :: "nat \<Rightarrow> operand_hook \<Rightarrow> space_store \<Rightarrow> ctx_ref \<Rightarrow> ResolveOutcome \<Rightarrow> ConstructorBoundary \<Rightarrow> unit resolving" where
  "enterConstructor pf hook \<sigma> c outcome constructor st =
     then_st (on_heap (\<lambda>h ch. SetConstructor h ch constructor) st) (\<lambda>_ st.
     then_st (on_heap (\<lambda>h ch. SetOffset h ch (oc_Offset outcome)) st) (\<lambda>_ st.
     then_st (if oc_Length outcome > 0 then on_heap (\<lambda>h ch. SetCurrentLength h ch (oc_Length outcome)) st
         else if cn_MinimumLength constructor > 0 then on_heap (\<lambda>h ch. SetCurrentLength h ch (cn_MinimumLength constructor)) st
         else (Inr (), st)) (\<lambda>_ st.
       let st = (if oc_DelaySlot outcome > 0 then on_context c (\<lambda>x. SetDelaySlot x (oc_DelaySlot outcome)) st else st);
           st = on_context c (\<lambda>x. applyResolveFlowAddresses x outcome) st
       in then_st (case ApplyContextOps pf hook \<sigma> (rs_heap st) (ch_Walker (rs_change st)) c (cn_ContextOps constructor) (rs_contexts st) of
              (r, \<kappa>) \<Rightarrow> (r, st\<lparr>rs_contexts := \<kappa>\<rparr>)) (\<lambda>_ st.
          then_st (loop_st (queueContextCommit c) (cn_ContextCommits constructor) st) (\<lambda>_.
          loop_st (queueContextCommit c) (oc_Commits outcome))))))"

text \<open>The length a child's subtree gives it, before the walker leaves it.\<close>

definition propagateLength :: "unit resolving" where
  "propagateLength st =
     (case change_point (rs_change st) of
        None \<Rightarrow> (Inr (), st)
      | Some (_, child) \<Rightarrow> (case currentStateEnd (hp_next (rs_heap st)) (rs_heap st) (Some child) of
          Inl e \<Rightarrow> (Inl (ErrWalk e), st)
        | Inr e \<Rightarrow>
            let s = hp_state (rs_heap st) child; len = i64_of (e - cs_Offset s) in
            (Inr (), if e > cs_Offset s \<and> len > cs_Length s
               then st\<lparr>rs_heap := upd_state child (\<lambda>s. s\<lparr>cs_Length := len\<rparr>) (rs_heap st)\<rparr> else st)))"

definition popOperand :: "resolve_state \<Rightarrow> resolve_state" where
  "popOperand st = st\<lparr>rs_change := (rs_change st)\<lparr>ch_Walker := map_option (PopOperand (rs_heap st)) (ch_Walker (rs_change st))\<rparr>\<rparr>"

text \<open>One round of the loop over the operands; \<open>frame\<close> is the recursive call.\<close>

definition resolveOperand :: "unit resolving \<Rightarrow> ctx_ref \<Rightarrow> int \<Rightarrow> unit resolving" where
  "resolveOperand frame c operand st =
     (let parent = map_option snd (change_point (rs_change st)) in
      case AllocateOperand (rs_heap st) (rs_change st) operand of
        Inl e \<Rightarrow> (Inl (ErrWalk e), st)
      | Inr (_, ch, h) \<Rightarrow>
          let st = st\<lparr>rs_change := ch, rs_heap := h\<rparr>;
              (operandOff, minLen) = computeOperandOffsetAndLen (rs_contexts st c) h parent operand
          in then_st (on_heap (\<lambda>h ch. SetOffset h ch operandOff) st) (\<lambda>_ st.
             then_st (if minLen > 0 then on_heap (\<lambda>h ch. SetCurrentLength h ch minLen) st else (Inr (), st)) (\<lambda>_ st.
             then_st (frame st) (\<lambda>_ st.
             then_st (propagateLength st) (\<lambda>_ st. (Inr (), popOperand st))))))"

primrec resolveFrame :: "nat \<Rightarrow> nat \<Rightarrow> operand_hook \<Rightarrow> space_store \<Rightarrow> resolve_symbol \<Rightarrow> ctx_ref \<Rightarrow> int \<Rightarrow> unit resolving" where
  "resolveFrame 0 pf hook \<sigma> resolve c depth st = (Inl ResolveFuel, st)"
| "resolveFrame (Suc k) pf hook \<sigma> resolve c depth st =
     (case change_point (rs_change st) of
        None \<Rightarrow> (Inl ErrFrameState, st)
      | Some (w, p) \<Rightarrow> (case GetOperand w of
          Inl e \<Rightarrow> (Inl (ErrWalk e), st)
        | Inr operand \<Rightarrow> (case resolve \<lparr>rf_Context = c, rf_Walker = rs_change st, rf_State = p,
              rf_Parent = cs_Parent (hp_state (rs_heap st) p), rf_Depth = depth, rf_Operand = operand,
              rf_SectionID = (case CurrentSection (rs_heap st) w of None \<Rightarrow> 0 | Some s \<Rightarrow> s)\<rparr> (rs_contexts st) (rs_heap st) of
            Inl e \<Rightarrow> (Inl e, st)
          | Inr outcome \<Rightarrow> (case oc_Constructor outcome of
              None \<Rightarrow> (if depth = 0 then Inl (ErrRootConstructor depth) else Inr (), st)
            | Some constructor \<Rightarrow>
                then_st (enterConstructor pf hook \<sigma> c outcome constructor st) (\<lambda>_.
                loop_st (resolveOperand (resolveFrame k pf hook \<sigma> resolve c (depth + 1)) c)
                  (map int [0..<length (cn_OperandSymbolIDs constructor)]))))))"

section \<open>Resolve\<close>

text \<open>The reset of a tree of states, children first; the number of states bounds its depth.\<close>

fun resetConstructState :: "nat \<Rightarrow> state_ref option \<Rightarrow> state_heap \<Rightarrow> walker_error + state_heap" where
  "resetConstructState fuel None h = Inr h"
| "resetConstructState 0 (Some s) h = Inl WalkFuel"
| "resetConstructState (Suc k) (Some s) h =
     then_step (loop_step (\<lambda>h child. resetConstructState k child h) h (cs_Children (hp_state h s))) (\<lambda>h.
       Inr (upd_state s (\<lambda>_. emptyState) h))"

text \<open>The base state, allocated when the context has none.\<close>

definition ensureBase :: "ctx_ref \<Rightarrow> resolve_state \<Rightarrow> state_ref \<times> resolve_state" where
  "ensureBase c st =
     (case pc_BaseState (rs_contexts st c) of
        Some b \<Rightarrow> (b, st)
      | None \<Rightarrow>
          let (b, h) = NewConstructState (rs_heap st)
          in (b, (on_context c (\<lambda>x. x\<lparr>pc_BaseState := Some b\<rparr>) st)\<lparr>rs_heap := h\<rparr>))"

text \<open>The state of the walker and the context before the first frame.\<close>

definition prepareResolve :: "ResolveHooks \<Rightarrow> ctx_ref \<Rightarrow> state_ref \<Rightarrow> unit resolving" where
  "prepareResolve hooks c base st =
     (case resetConstructState (hp_next (rs_heap st)) (Some base) (rs_heap st) of
        Inl e \<Rightarrow> (Inl (ErrWalk e), st)
      | Inr h \<Rightarrow> (case DeallocateState (rs_contexts st) (NewParserWalkerChange (Some (NewParserWalker (Some c)))) of
          Inl e \<Rightarrow> (Inl (ErrWalk e), st\<lparr>rs_heap := h\<rparr>)
        | Inr ch \<Rightarrow>
            let st = on_context c (\<lambda>x. SetDelaySlot x 0) (st\<lparr>rs_heap := h, rs_change := ClearCommitReservations ch\<rparr>) in
            then_st (on_heap (\<lambda>h ch. SetOffset h ch 0) st) (\<lambda>_ st.
              load_hook (rh_LoadContext hooks) c (on_context c ClearCommits st))))"

text \<open>The address behind the instruction, from the length of the tree.\<close>

definition setNextAddress :: "ctx_ref \<Rightarrow> unit resolving" where
  "setNextAddress c st =
     (let ctx = rs_contexts st c;
          at = (\<lambda>len. on_context c (\<lambda>x. SetNaddr x (Address_Add (pc_Addr x) (u64_of len))) st);
          otherwise = (if ParserContext_GetLength (rs_heap st) ctx > 0 then at (ParserContext_GetLength (rs_heap st) ctx)
            else on_context c (\<lambda>x. SetNaddr x (pc_Addr x)) st)
      in case CalcCurrentLength (rs_heap st) (rs_change st) of
        Inl _ \<Rightarrow> (Inr (), otherwise)
      | Inr len \<Rightarrow>
          if len > 0 then
            (case pc_BaseState ctx of
               None \<Rightarrow> (Inl (ErrWalk PanicNil), at len)
             | Some base \<Rightarrow> (Inr (), (at len)\<lparr>rs_heap := upd_state base (\<lambda>s. s\<lparr>cs_Length := len\<rparr>) (rs_heap st)\<rparr>))
          else (Inr (), otherwise))"

record ResolveResult =
  rr_Walker :: ParserWalkerChange
  rr_Root :: "state_ref option"
  rr_CommitReservations :: "ContextCommitBoundary list"

definition Resolve :: "nat \<Rightarrow> nat \<Rightarrow> space_store \<Rightarrow> ResolveHooks \<Rightarrow> ctx_ref \<Rightarrow> ResolveResult resolving" where
  "Resolve fuel pf \<sigma> hooks c st =
     then_st (load_hook (rh_LoadFill hooks) c st) (\<lambda>_ st.
       case rh_ResolveSymbol hooks of
         None \<Rightarrow> (Inl ErrNoResolveHook, st)
       | Some resolve \<Rightarrow>
           let (base, st) = ensureBase c st in
           then_st (prepareResolve hooks c base st) (\<lambda>_ st.
           then_st (resolveFrame fuel pf (rh_ContextOps hooks) \<sigma> resolve c 0 st) (\<lambda>_ st.
           then_st (setNextAddress c st) (\<lambda>_ st.
             let st = on_context c (\<lambda>x. SetParserState x ParseStateDisassembly) st
             in (Inr \<lparr>rr_Walker = rs_change st, rr_Root = pc_BaseState (rs_contexts st c),
                      rr_CommitReservations = CommitReservations (rs_change st)\<rparr>, st)))))"

section \<open>Matching\<close>

definition resolveTranslateConstructor :: "ctx_store \<Rightarrow> state_heap \<Rightarrow> SubtableBoundary option \<Rightarrow> ParserWalker option
    \<Rightarrow> resolve_error + ConstructorBoundary" where
  "resolveTranslateConstructor \<kappa> h subtable w =
     (case subtable of
        None \<Rightarrow> Inl (ErrSubtable ErrSubtableNil)
      | Some s \<Rightarrow>
          if st_Decision s = None then
            (case st_Constructors s of [c] \<Rightarrow> Inr c | _ \<Rightarrow> Inl ErrNoTree)
          else (case ResolveSubtableDecision \<kappa> h (Some s) w of Inl e \<Rightarrow> Inl (ErrSubtable e) | Inr c \<Rightarrow> Inr c))"

definition resolveTranslateFrameSubtable :: "ctx_store \<Rightarrow> state_heap \<Rightarrow> SubtableBoundary option \<Rightarrow> ResolveFrame
    \<Rightarrow> resolve_error + SubtableBoundary option \<times> OperandSymbolBoundary option" where
  "resolveTranslateFrameSubtable \<kappa> h subtable frame =
     (case rf_Parent frame of
        None \<Rightarrow> Inr (subtable, None)
      | Some p \<Rightarrow>
          let symbols = pc_Symbols (\<kappa> (rf_Context frame)) in
          if symbols = None then Inl (ErrSymbolTable (rf_Operand frame))
          else case FindOperandForConstructor symbols (cs_Constructor (hp_state h p)) (rf_Operand frame) of
            None \<Rightarrow> Inl (ErrOperandMissing (rf_Operand frame) (cs_ConstructorID (hp_state h p)))
          | Some operand \<Rightarrow>
              if \<not> op_HasDefiningSymbolID operand then Inr (None, None)
              else case FindSymbol symbols (op_DefiningSymbolID operand) of
                None \<Rightarrow> Inl (ErrDefiningSymbol (rf_Operand frame) (op_DefiningSymbolID operand))
              | Some s \<Rightarrow> (case bd_Subtable (sy_Body s) of
                  None \<Rightarrow> Inr (None, None) | Some t \<Rightarrow> Inr (Some t, Some operand)))"

definition resolveTranslateOperandOffset :: "state_heap \<Rightarrow> state_ref option \<Rightarrow> OperandSymbolBoundary option \<Rightarrow> resolve_error + u64" where
  "resolveTranslateOperandOffset h parent operand =
     (case (parent, operand) of
        (Some p, Some operand) \<Rightarrow>
          then_step (if op_OffsetBase operand < 0 then Inr (cs_Offset (hp_state h p))
              else case Child h p (op_OffsetBase operand) of
                None \<Rightarrow> Inl (ErrOffsetBase (op_OffsetBase operand))
              | Some child \<Rightarrow> Inr (siblingEnd h child)) (\<lambda>base.
            if op_RelativeOffset operand \<ge> 0 then Inr (base + u64_of (op_RelativeOffset operand))
            else
              let delta = u64_of (- (op_RelativeOffset operand + 1)) + 1 in
              if delta > base then Inl (ErrOffsetUnderflow (op_RelativeOffset operand) base) else Inr (base - delta))
      | _ \<Rightarrow> Inl ErrOperandMetadata)"

definition no_outcome :: ResolveOutcome where
  "no_outcome = \<lparr>oc_Constructor = None, oc_Offset = 0, oc_Length = 0, oc_DelaySlot = 0, oc_Commits = [], oc_HasRefAddr = False,
     oc_RefAddr = invalidAddress, oc_HasDestAddr = False, oc_DestAddr = invalidAddress\<rparr>"

definition resolveTranslateFrame :: "SubtableBoundary option \<Rightarrow> resolve_symbol" where
  "resolveTranslateFrame subtable frame \<kappa> h =
     then_step (resolveTranslateFrameSubtable \<kappa> h subtable frame) (\<lambda>(target, operand).
       if target = None \<and> rf_Parent frame \<noteq> None then Inr no_outcome
       else then_step (resolveTranslateConstructor \<kappa> h target (ch_Walker (rf_Walker frame))) (\<lambda>constructor.
         then_step (if rf_Parent frame = None then Inr 0 else resolveTranslateOperandOffset h (rf_Parent frame) operand) (\<lambda>offset.
           case cn_MainSection constructor of
             None \<Rightarrow> Inr (no_outcome\<lparr>oc_Constructor := Some constructor, oc_Offset := offset\<rparr>)
           | Some sec \<Rightarrow>
               if ct_DelaySlot sec > 0x7fffffffffffffff then Inl (ErrDelaySlotRange (ct_DelaySlot sec))
               else Inr (no_outcome\<lparr>oc_Constructor := Some constructor, oc_Offset := offset, oc_DelaySlot := i64_of (ct_DelaySlot sec)\<rparr>))))"

section \<open>Context words and commits\<close>

text \<open>A hook for the words of an address; \<open>None\<close> when there is none.\<close>

definition LoadContext :: "(Address \<Rightarrow> u64 list \<Rightarrow> resolve_error + u64 list) option \<Rightarrow> ParserContext \<Rightarrow> resolve_error + ParserContext" where
  "LoadContext words ctx =
     (case words of
        None \<Rightarrow> Inl ErrLoad
      | Some f \<Rightarrow> then_step (f (pc_Addr ctx) (pc_ContextWords ctx)) (\<lambda>ws. Inr (SetContextWords ctx ws)))"

definition PendingCommits :: "ParserContext \<Rightarrow> ContextSet list" where
  "PendingCommits ctx = pc_commits ctx"

record 'k ApplyCommitsHooks =
  ah_LookupOperandIndex :: "(u64 \<Rightarrow> int option) option"
  ah_ResolveFixedHandle :: "(u64 \<Rightarrow> ParserWalker \<Rightarrow> resolve_error + FixedHandle option) option"
  ah_ResolveCommitAddress :: "(ParserContext \<Rightarrow> ParserWalker \<Rightarrow> ContextSet \<Rightarrow> resolve_error + Address) option"
  ah_ApplyCommit :: "(ContextSet \<Rightarrow> Address \<Rightarrow> Address \<times> bool \<Rightarrow> 'k \<Rightarrow> (resolve_error + unit) \<times> 'k) option"

text \<open>The address a handle names.\<close>

definition handleAddress :: "FixedHandle \<Rightarrow> resolve_error + Address" where
  "handleAddress hand =
     (case fh_Space hand of
        None \<Rightarrow> Inl ErrCommitHandle
      | Some s \<Rightarrow> Inr \<lparr>ad_Space = Some s, ad_Offset = fh_OffsetOffset hand\<rparr>)"

definition childAddress :: "state_heap \<Rightarrow> state_ref \<Rightarrow> int \<Rightarrow> resolve_error + Address" where
  "childAddress h p i =
     (case Child h p i of
        None \<Rightarrow> Inl (ErrCommitChild i) | Some c \<Rightarrow> handleAddress (cs_Handle (hp_state h c)))"

text \<open>The two callbacks behind the lookup of an operand; a queued commit always has a point.\<close>

definition hookCommitAddress :: "'k ApplyCommitsHooks \<Rightarrow> ParserContext \<Rightarrow> ParserWalker \<Rightarrow> ContextSet \<Rightarrow> resolve_error + Address" where
  "hookCommitAddress hooks ctx w commit =
     (let fallback = (case ah_ResolveCommitAddress hooks of
            None \<Rightarrow> Inl (ErrCommitUnresolved (ck_SymbolID commit)) | Some f \<Rightarrow> f ctx w commit)
      in case ah_ResolveFixedHandle hooks of
        None \<Rightarrow> fallback
      | Some f \<Rightarrow> then_step (f (ck_SymbolID commit) w) (\<lambda>r. case r of None \<Rightarrow> fallback | Some hand \<Rightarrow> handleAddress hand))"

definition resolveCommitAddress :: "'k ApplyCommitsHooks \<Rightarrow> ParserContext \<Rightarrow> state_heap \<Rightarrow> ParserWalker \<Rightarrow> ContextSet
    \<Rightarrow> resolve_error + Address" where
  "resolveCommitAddress hooks ctx h w commit =
     (case FindOperandSymbol (pc_Symbols ctx) (ck_SymbolID commit) of
        Some operand \<Rightarrow> childAddress h (ck_Point commit) (op_Index operand)
      | None \<Rightarrow> (case Option.bind (ah_LookupOperandIndex hooks) (\<lambda>f. f (ck_SymbolID commit)) of
          Some i \<Rightarrow> childAddress h (ck_Point commit) i
        | None \<Rightarrow> hookCommitAddress hooks ctx w commit))"

definition normalizeCommitAddress :: "space_store \<Rightarrow> ParserContext \<Rightarrow> Address \<Rightarrow> resolve_error + Address" where
  "normalizeCommitAddress \<sigma> ctx addr =
     (case Address_Validate \<sigma> addr of
        Some e \<Rightarrow> Inl (ErrCommitAddress e)
      | None \<Rightarrow>
          if (case ad_Space addr of None \<Rightarrow> True | Some s \<Rightarrow> \<not> IsConstant (\<sigma> s)) then Inr addr
          else case ad_Space (pc_Addr ctx) of
            None \<Rightarrow> Inl ErrCommitSpace
          | Some cur \<Rightarrow>
              if sp_WordSize (\<sigma> cur) = 0 then Inl ErrCommitWordSize
              else Inr \<lparr>ad_Space = Some cur, ad_Offset = ad_Offset addr * ucast (sp_WordSize (\<sigma> cur))\<rparr>)"

definition nextCommitAddress :: "Address \<Rightarrow> bool \<Rightarrow> Address \<times> bool" where
  "nextCommitAddress addr flow =
     (if flow \<or> ad_Space addr = None \<or> ad_Offset addr = - 1 then (invalidAddress, False) else (Address_Add addr 1, True))"

definition applyOneCommit :: "space_store \<Rightarrow> 'k ApplyCommitsHooks \<Rightarrow> (ContextSet \<Rightarrow> Address \<Rightarrow> Address \<times> bool \<Rightarrow> 'k \<Rightarrow> (resolve_error + unit) \<times> 'k)
    \<Rightarrow> ParserContext \<Rightarrow> state_heap \<Rightarrow> ParserWalker \<Rightarrow> ContextSet \<Rightarrow> 'k \<Rightarrow> (resolve_error + unit) \<times> 'k" where
  "applyOneCommit \<sigma> hooks apply_commit ctx h w commit k =
     (case then_step (resolveCommitAddress hooks ctx h w commit) (normalizeCommitAddress \<sigma> ctx) of
        Inl e \<Rightarrow> (Inl e, k)
      | Inr addr \<Rightarrow> apply_commit commit addr (nextCommitAddress addr (ck_Flow commit)) k)"

definition ApplyCommits :: "space_store \<Rightarrow> 'k ApplyCommitsHooks \<Rightarrow> ctx_store \<Rightarrow> state_heap \<Rightarrow> ctx_ref \<Rightarrow> 'k \<Rightarrow> (resolve_error + unit) \<times> 'k" where
  "ApplyCommits \<sigma> hooks \<kappa> h c k =
     (let ctx = \<kappa> c in
      if pc_Symbols ctx = None \<and> ah_LookupOperandIndex hooks = None \<and> ah_ResolveFixedHandle hooks = None
        \<and> ah_ResolveCommitAddress hooks = None then (Inl ErrNoCommitResolver, k)
      else case ah_ApplyCommit hooks of
        None \<Rightarrow> (Inl ErrNoCommitHook, k)
      | Some f \<Rightarrow> loop_st (applyOneCommit \<sigma> hooks f ctx h (BaseState \<kappa> (NewParserWalker (Some c)))) (PendingCommits ctx) k)"

end
