(* ===== verification/Sla_Handles.thy ===== *)
theory Sla_Handles
  imports Sla_Runtime Sla_Patexpr
begin

text \<open>
  \<^verbatim>\<open>pkg/sla/resolve_handles.go\<close>: after the constructors of an instruction are known, a walk over the tree of
  states computes the handles of the operands, children before parents. The walk keeps a stack of
  frames; \<open>fuel\<close> bounds its iterations and \<open>pf\<close> the pattern evaluator. The callbacks read the
  walker and nothing else.
\<close>

datatype handles_error = ErrHandlesBase | ErrHandlesState | ErrHandlesConstructor | ErrStackEmpty | ErrHandlesWalk walker_error
  | ErrHandlesPat pat_error | ErrHandlesFix fix_error | ErrHandlesHook | ErrNoResolution | ErrHandlesConstSpace
  | ErrHandlesCurSpace | ErrFlowAddress | ErrValueMapRange int | ErrListSelector | ErrListRange int | ErrListNull int
  | ErrListTable | ErrListSymbol u64 | ErrListEntry int | ErrOperandIndex int | ErrOperandHandle walker_error
  | ErrSymbolSpace int | ErrSymbolSize int | ErrHandlesAddress | HandlesFuel

record ResolveHandlesHooks =
  rx_ResolveFixedHandle :: "(ParserWalker \<Rightarrow> unit + FixedHandle option) option"
  rx_ResolveExpressionValue :: "(ParserWalker \<Rightarrow> unit + u64 option) option"

record handles_state =
  hs_contexts :: ctx_store
  hs_heap :: state_heap
  hs_walker :: ParserWalker

type_synonym 'a handling = "handles_state \<Rightarrow> (handles_error + 'a) \<times> handles_state"

definition patternHooksFromResolveHandles :: "ResolveHandlesHooks \<Rightarrow> operand_hook" where
  "patternHooksFromResolveHandles hooks =
     map_option (\<lambda>f expr w i. case f w of Inl _ \<Rightarrow> Inl ErrPatHook | Inr v \<Rightarrow> Inr (map_option i64_of v))
       (rx_ResolveExpressionValue hooks)"

text \<open>The value of an expression at the walker.\<close>

definition pattern_value :: "nat \<Rightarrow> ResolveHandlesHooks \<Rightarrow> space_store \<Rightarrow> PatternExprBoundary \<Rightarrow> int handling" where
  "pattern_value pf hooks \<sigma> e st =
     (case GetPatternExpressionValue pf (patternHooksFromResolveHandles hooks) \<sigma> (hs_heap st) e (hs_walker st) (hs_contexts st) of
        (Inl err, \<kappa>) \<Rightarrow> (Inl (ErrHandlesPat err), st\<lparr>hs_contexts := \<kappa>\<rparr>)
      | (Inr v, \<kappa>) \<Rightarrow> (Inr v, st\<lparr>hs_contexts := \<kappa>\<rparr>))"

text \<open>The symbol table of the walker's context.\<close>

definition walker_symbols :: "handles_state \<Rightarrow> SymbolTableBoundary option" where
  "walker_symbols st = Option.bind (pw_constContext (hs_walker st)) (\<lambda>c. pc_Symbols (hs_contexts st c))"

section \<open>Handles of symbols\<close>

definition constHandle :: "u64 \<Rightarrow> FixedHandle option handling" where
  "constHandle v st =
     (case GetConstSpace (hs_contexts st) (hs_walker st) of
        None \<Rightarrow> (Inl ErrHandlesConstSpace, st)
      | Some s \<Rightarrow> (Inr (Some (zeroHandle\<lparr>fh_Space := Some s, fh_OffsetOffset := v\<rparr>)), st))"

definition addrHandle :: "space_store \<Rightarrow> (handles_state \<Rightarrow> Address \<times> handles_state) \<Rightarrow> FixedHandle option handling" where
  "addrHandle \<sigma> addr st =
     (case GetCurSpace (hs_contexts st) (hs_walker st) of
        None \<Rightarrow> (Inl ErrHandlesCurSpace, st)
      | Some s \<Rightarrow>
          let (a, st) = addr st
          in (Inr (Some (zeroHandle\<lparr>fh_Space := Some s, fh_OffsetOffset := ad_Offset a, fh_Size := ucast (sp_AddrSize (\<sigma> s))\<rparr>)), st))"

definition next2_address :: "handles_state \<Rightarrow> Address \<times> handles_state" where
  "next2_address st = (let (a, \<kappa>) = Walker_GetN2addr (hs_contexts st) (hs_walker st) in (a, st\<lparr>hs_contexts := \<kappa>\<rparr>))"

definition flowHandle :: "space_store \<Rightarrow> Address \<Rightarrow> FixedHandle option handling" where
  "flowHandle \<sigma> addr st =
     (case GetConstSpace (hs_contexts st) (hs_walker st) of
        None \<Rightarrow> (Inl ErrHandlesConstSpace, st)
      | Some s \<Rightarrow> (case ad_Space addr of
          None \<Rightarrow> (Inl ErrFlowAddress, st)
        | Some t \<Rightarrow> (Inr (Some (zeroHandle\<lparr>fh_Space := Some s, fh_Size := ucast (sp_AddrSize (\<sigma> t)), fh_OffsetOffset := ad_Offset addr\<rparr>)), st)))"

definition resolveFlowDestSymbolFixedHandle :: "space_store \<Rightarrow> FixedHandle option handling" where
  "resolveFlowDestSymbolFixedHandle \<sigma> st = flowHandle \<sigma> (GetDestAddr (hs_contexts st) (hs_walker st)) st"

definition resolveFlowRefSymbolFixedHandle :: "space_store \<Rightarrow> FixedHandle option handling" where
  "resolveFlowRefSymbolFixedHandle \<sigma> st = flowHandle \<sigma> (GetRefAddr (hs_contexts st) (hs_walker st)) st"

definition contextSymbolPattern :: "SymbolBoundary \<Rightarrow> PatternSymbolBoundary option" where
  "contextSymbolPattern s = (case bd_Context (sy_Body s) of Some c \<Rightarrow> cs_Pattern c | None \<Rightarrow> bd_Pattern (sy_Body s))"

text \<open>\<^verbatim>\<open>inst_dest\<close> and \<^verbatim>\<open>inst_ref\<close>, as bytes.\<close>

abbreviation "flowDestBuiltinSymbolName \<equiv> ([105, 110, 115, 116, 95, 100, 101, 115, 116] :: u8 list)"
abbreviation "flowRefBuiltinSymbolName \<equiv> ([105, 110, 115, 116, 95, 114, 101, 102] :: u8 list)"

definition isFlowSymbolBoundaryCandidate :: "SymbolBoundary \<Rightarrow> u8 list \<Rightarrow> bool" where
  "isFlowSymbolBoundaryCandidate s expectedName =
     (sy_Name s = expectedName \<and> expectedBodyElement (sy_HeaderElement s) = 0
      \<and> (sy_BodyElement s \<noteq> 0 \<or> bd_Opaque (sy_Body s) \<noteq> None)
      \<and> bd_UserOp (sy_Body s) = None \<and> bd_Subtable (sy_Body s) = None \<and> bd_Pattern (sy_Body s) = None
      \<and> bd_Context (sy_Body s) = None \<and> bd_Operand (sy_Body s) = None \<and> bd_Varnode (sy_Body s) = None
      \<and> bd_VarnodeList (sy_Body s) = None)"

definition resolveOperandSymbolFixedHandle :: "SymbolBoundary \<Rightarrow> FixedHandle option handling" where
  "resolveOperandSymbolFixedHandle s st =
     (case bd_Operand (sy_Body s) of
        None \<Rightarrow> (Inr None, st)
      | Some operand \<Rightarrow>
          if op_Index operand < 0 then (Inl (ErrOperandIndex (op_Index operand)), st)
          else case GetFixedHandle (hs_heap st) (hs_walker st) (op_Index operand) of
            Inl e \<Rightarrow> (Inl (ErrOperandHandle e), st)
          | Inr hand \<Rightarrow> (Inr (Some hand), st))"

text \<open>The spaces the walker's addresses name, each once, in the order of the code.\<close>

definition addSpace :: "space_ref option \<Rightarrow> space_ref list \<Rightarrow> space_ref list" where
  "addSpace space candidates =
     (case space of None \<Rightarrow> candidates | Some s \<Rightarrow> if s \<in> set candidates then candidates else candidates @ [s])"

definition findWalkerSpaceByIndex :: "space_store \<Rightarrow> int \<Rightarrow> handles_state \<Rightarrow> space_ref option \<times> handles_state" where
  "findWalkerSpaceByIndex \<sigma> index st =
     (case Option.bind (pw_constContext (hs_walker st)) (\<lambda>c. map_of (pc_SpacesByIndex (hs_contexts st c)) index) of
        Some s \<Rightarrow> (Some s, st)
      | None \<Rightarrow>
          let w = hs_walker st; \<kappa> = hs_contexts st;
              (n2, st) = next2_address st;
              candidates = fold addSpace [GetCurSpace \<kappa> w, GetConstSpace \<kappa> w, ad_Space (GetAddr \<kappa> w), ad_Space (GetNaddr \<kappa> w),
                ad_Space n2, ad_Space (GetRefAddr (hs_contexts st) w), ad_Space (GetDestAddr (hs_contexts st) w)] []
          in (List.find (\<lambda>s. int (unat (sp_Index (\<sigma> s))) = index) candidates, st))"

definition resolveVarnodeSymbolFixedHandle :: "space_store \<Rightarrow> SymbolBoundary \<Rightarrow> FixedHandle option handling" where
  "resolveVarnodeSymbolFixedHandle \<sigma> s st =
     (case bd_Varnode (sy_Body s) of
        None \<Rightarrow> (Inr None, st)
      | Some body \<Rightarrow> (case findWalkerSpaceByIndex \<sigma> (vs_SpaceIndex body) st of
          (None, st) \<Rightarrow> (Inl (ErrSymbolSpace (vs_SpaceIndex body)), st)
        | (Some space, st) \<Rightarrow>
            if vs_Size body < 0 \<or> vs_Size body > 0xffffffff then (Inl (ErrSymbolSize (vs_Size body)), st)
            else (Inr (Some (zeroHandle\<lparr>fh_Space := Some space, fh_Size := word_of_int (vs_Size body),
                    fh_OffsetOffset := vs_Offset body\<rparr>)), st)))"

definition resolveVarnodeListSymbolFixedHandle :: "nat \<Rightarrow> ResolveHandlesHooks \<Rightarrow> space_store \<Rightarrow> SymbolBoundary \<Rightarrow> FixedHandle option handling" where
  "resolveVarnodeListSymbolFixedHandle pf hooks \<sigma> s st =
     (case bd_VarnodeList (sy_Body s) of
        None \<Rightarrow> (Inr None, st)
      | Some body \<Rightarrow> (case vl_Selector body of
          None \<Rightarrow> (Inl ErrListSelector, st)
        | Some selector \<Rightarrow> then_st (pattern_value pf hooks \<sigma> selector st) (\<lambda>index st.
            if index < 0 \<or> index \<ge> int (length (vl_Table body)) then (Inl (ErrListRange index), st)
            else
              let entry = vl_Table body ! nat index in
              if \<not> ve_HasVarnodeSymbolID entry then (Inl (ErrListNull index), st)
              else if walker_symbols st = None then (Inl ErrListTable, st)
              else case FindSymbol (walker_symbols st) (ve_VarnodeSymbolID entry) of
                None \<Rightarrow> (Inl (ErrListSymbol (ve_VarnodeSymbolID entry)), st)
              | Some selected \<Rightarrow> then_st (resolveVarnodeSymbolFixedHandle \<sigma> selected st) (\<lambda>hand st.
                  case hand of None \<Rightarrow> (Inl (ErrListEntry index), st) | Some hand \<Rightarrow> (Inr (Some hand), st)))))"

text \<open>The pattern of a context symbol or of a value symbol; a missing one leaves the symbol unhandled.\<close>

definition patternHandle :: "nat \<Rightarrow> ResolveHandlesHooks \<Rightarrow> space_store \<Rightarrow> PatternSymbolBoundary option
    \<Rightarrow> (int \<Rightarrow> handles_error + int) \<Rightarrow> FixedHandle option handling" where
  "patternHandle pf hooks \<sigma> pattern f st =
     (case Option.bind pattern ps_Expression of
        None \<Rightarrow> (Inr None, st)
      | Some e \<Rightarrow> then_st (pattern_value pf hooks \<sigma> e st) (\<lambda>v st.
          case f v of Inl err \<Rightarrow> (Inl err, st) | Inr v \<Rightarrow> constHandle (u64_of v) st))"

definition tableValue :: "int list \<Rightarrow> int \<Rightarrow> handles_error + int" where
  "tableValue tbl v = (if v < 0 \<or> v \<ge> int (length tbl) then Inl (ErrValueMapRange v) else Inr (tbl ! nat v))"

definition resolveBoundarySymbolFixedHandle :: "nat \<Rightarrow> ResolveHandlesHooks \<Rightarrow> space_store \<Rightarrow> SymbolBoundary \<Rightarrow> FixedHandle option handling" where
  "resolveBoundarySymbolFixedHandle pf hooks \<sigma> s st =
     (let header = sy_HeaderElement s in
      if header = elemContextSymHead then patternHandle pf hooks \<sigma> (contextSymbolPattern s) Inr st
      else if header = elemValueSymHead \<or> header = elemValueMapSymHead \<or> header = elemNameSymHead then
        patternHandle pf hooks \<sigma> (bd_Pattern (sy_Body s))
          (if header = elemValueMapSymHead then tableValue (case bd_Pattern (sy_Body s) of None \<Rightarrow> [] | Some p \<Rightarrow> ps_ValueTable p) else Inr) st
      else if header = elemEpsilonSymHead then constHandle 0 st
      else if header = elemStartSymHead then addrHandle \<sigma> (\<lambda>st. (GetAddr (hs_contexts st) (hs_walker st), st)) st
      else if header = elemEndSymHead then addrHandle \<sigma> (\<lambda>st. (GetNaddr (hs_contexts st) (hs_walker st), st)) st
      else if header = elemNext2SymHead then addrHandle \<sigma> next2_address st
      else if header = elemOperandSymHead then resolveOperandSymbolFixedHandle s st
      else if header = elemVarnodeSymHead then resolveVarnodeSymbolFixedHandle \<sigma> s st
      else if header = elemVarListSymHead then resolveVarnodeListSymbolFixedHandle pf hooks \<sigma> s st
      else if isFlowSymbolBoundaryCandidate s flowDestBuiltinSymbolName then resolveFlowDestSymbolFixedHandle \<sigma> st
      else if isFlowSymbolBoundaryCandidate s flowRefBuiltinSymbolName then resolveFlowRefSymbolFixedHandle \<sigma> st
      else (Inr None, st))"

section \<open>Leaf operands\<close>

text \<open>Writing through the pointer to the handle of the walker's state.\<close>

definition put_handle :: "FixedHandle \<Rightarrow> handles_state \<Rightarrow> handles_state" where
  "put_handle hand st =
     (case pw_Point (hs_walker st) of
        None \<Rightarrow> st | Some p \<Rightarrow> st\<lparr>hs_heap := upd_state p (\<lambda>s. s\<lparr>cs_Handle := hand\<rparr>) (hs_heap st)\<rparr>)"

text \<open>The second half of \<^verbatim>\<open>resolveLeafOperandAuto\<close>: an operand given by an expression.\<close>

definition expressionOperand :: "nat \<Rightarrow> ResolveHandlesHooks \<Rightarrow> space_store \<Rightarrow> OperandSymbolBoundary \<Rightarrow> bool handling" where
  "expressionOperand pf hooks \<sigma> operand st =
     (case op_DefiningExpression operand of
        None \<Rightarrow> (Inr False, st)
      | Some e \<Rightarrow> then_st (pattern_value pf hooks \<sigma> e st) (\<lambda>v st.
          (Inr True, put_handle (zeroHandle\<lparr>fh_Space := GetConstSpace (hs_contexts st) (hs_walker st), fh_OffsetOffset := u64_of v\<rparr>) st)))"

definition resolveLeafOperandAuto :: "nat \<Rightarrow> ResolveHandlesHooks \<Rightarrow> space_store \<Rightarrow> bool handling" where
  "resolveLeafOperandAuto pf hooks \<sigma> st =
     (let w = hs_walker st; symbols = walker_symbols st;
          parent = Option.bind (pw_Point w) (\<lambda>p. cs_Parent (hp_state (hs_heap st) p))
      in case parent of
        None \<Rightarrow> (Inr False, st)
      | Some q \<Rightarrow>
          if symbols = None \<or> cs_Constructor (hp_state (hs_heap st) q) = None then (Inr False, st)
          else case GetOperand w of
            Inl e \<Rightarrow> (Inl (ErrHandlesWalk e), st)
          | Inr i \<Rightarrow> (case FindOperandForConstructor symbols (cs_Constructor (hp_state (hs_heap st) q)) i of
              None \<Rightarrow> (Inr False, st)
            | Some operand \<Rightarrow>
                (case (if op_HasDefiningSymbolID operand then FindSymbol symbols (op_DefiningSymbolID operand) else None) of
                   None \<Rightarrow> expressionOperand pf hooks \<sigma> operand st
                 | Some defsym \<Rightarrow> then_st (resolveBoundarySymbolFixedHandle pf hooks \<sigma> defsym st) (\<lambda>hand st.
                     case hand of
                       None \<Rightarrow> expressionOperand pf hooks \<sigma> operand st
                     | Some hand \<Rightarrow> (Inr True, put_handle hand st)))))"

text \<open>The two callbacks, tried in turn.\<close>

definition hookExpression :: "ResolveHandlesHooks \<Rightarrow> unit handling" where
  "hookExpression hooks st =
     (case rx_ResolveExpressionValue hooks of
        None \<Rightarrow> (Inl ErrNoResolution, st)
      | Some f \<Rightarrow> (case f (hs_walker st) of
          Inl _ \<Rightarrow> (Inl ErrHandlesHook, st)
        | Inr None \<Rightarrow> (Inl ErrNoResolution, st)
        | Inr (Some v) \<Rightarrow> then_st (constHandle v st) (\<lambda>hand st.
            (Inr (), case hand of None \<Rightarrow> st | Some hand \<Rightarrow> put_handle hand st))))"

definition hookOperand :: "ResolveHandlesHooks \<Rightarrow> unit handling" where
  "hookOperand hooks st =
     (case rx_ResolveFixedHandle hooks of
        None \<Rightarrow> hookExpression hooks st
      | Some f \<Rightarrow> (case f (hs_walker st) of
          Inl _ \<Rightarrow> (Inl ErrHandlesHook, st)
        | Inr None \<Rightarrow> hookExpression hooks st
        | Inr (Some hand) \<Rightarrow> (Inr (), put_handle hand st)))"

definition resolveLeafOperand :: "nat \<Rightarrow> ResolveHandlesHooks \<Rightarrow> space_store \<Rightarrow> unit handling" where
  "resolveLeafOperand pf hooks \<sigma> st =
     (if pw_Point (hs_walker st) = None then (Inl ErrHandlesState, st)
      else then_st (resolveLeafOperandAuto pf hooks \<sigma> st) (\<lambda>handled st.
        if handled then (Inr (), st) else hookOperand hooks st))"

section \<open>Results of constructors\<close>

text \<open>The code asks for \<^verbatim>\<open>inst_next2\<close> twice; the second call returns what the first has stored.\<close>

definition runtimeContextForWalker :: "RuntimeContext handling" where
  "runtimeContextForWalker st =
     (case pw_constContext (hs_walker st) of
        None \<Rightarrow> (Inl ErrHandlesState, st)
      | Some c \<Rightarrow>
          let (n2, ctx) = GetN2addr (hs_contexts st c);
              st = st\<lparr>hs_contexts := (hs_contexts st)(c := ctx)\<rparr>;
              given = (\<lambda>a. if IsInvalid a then invalidAddress else a)
          in if IsInvalid (pc_Addr ctx) then (Inl ErrHandlesAddress, st)
             else if ad_Space (pc_Addr ctx) = None then (Inl ErrHandlesCurSpace, st)
             else if pc_ConstSpace ctx = None then (Inl ErrHandlesConstSpace, st)
             else (Inr \<lparr>rc_Instruction = pc_Addr ctx, rc_CurrentSpace = ad_Space (pc_Addr ctx), rc_ConstantSpace = pc_ConstSpace ctx,
                  rc_Next = given (pc_NAddr ctx), rc_HasNext = (\<not> IsInvalid (pc_NAddr ctx)),
                  rc_Next2 = given n2, rc_HasNext2 = (\<not> IsInvalid n2),
                  rc_Ref = given (pc_RefAddr ctx), rc_HasRef = (\<not> IsInvalid (pc_RefAddr ctx)),
                  rc_Dest = given (pc_DestAddr ctx), rc_HasDest = (\<not> IsInvalid (pc_DestAddr ctx)),
                  rc_SpacesByIndex = pc_SpacesByIndex ctx,
                  rc_Handles = (case pw_Point (hs_walker st) of None \<Rightarrow> [] | Some p \<Rightarrow>
                    map (\<lambda>child. case child of None \<Rightarrow> zeroHandle | Some s \<Rightarrow> cs_Handle (hp_state (hs_heap st) s))
                      (cs_Children (hp_state (hs_heap st) p))),
                  rc_ParentHandle = pw_Point (hs_walker st)\<rparr>, st))"

definition propagateConstructorResult :: "space_store \<Rightarrow> unit handling" where
  "propagateConstructorResult \<sigma> st =
     (case pw_Point (hs_walker st) of
        None \<Rightarrow> (Inl ErrHandlesState, st)
      | Some p \<Rightarrow> (case Option.bind (cs_Constructor (hp_state (hs_heap st) p)) cn_MainSection of
          None \<Rightarrow> (Inr (), st)
        | Some sec \<Rightarrow>
            if ct_Result sec = None then (Inr (), st)
            else then_st (runtimeContextForWalker st) (\<lambda>runtime st.
              case PropagateConstructorResult \<sigma> sec runtime (hs_heap st) of
                Inl e \<Rightarrow> (Inl (ErrHandlesFix e), st)
              | Inr h \<Rightarrow> (Inr (), st\<lparr>hs_heap := h\<rparr>))))"

section \<open>The walk\<close>

record resolveHandlesFrame =
  hf_operand :: int
  hf_numoper :: int

definition pop_walker :: "handles_state \<Rightarrow> handles_state" where
  "pop_walker st = st\<lparr>hs_walker := PopOperand (hs_heap st) (hs_walker st)\<rparr>"

definition push_walker :: "int \<Rightarrow> state_ref handling" where
  "push_walker i st =
     (case PushOperand (hs_heap st) (hs_walker st) i of
        Inl e \<Rightarrow> (Inl (ErrHandlesWalk e), st)
      | Inr (w, h) \<Rightarrow> (case pw_Point w of
          None \<Rightarrow> (Inl ErrHandlesState, st)
        | Some child \<Rightarrow> (Inr child, st\<lparr>hs_walker := w, hs_heap := h\<rparr>)))"

definition operand_count :: "ConstructorBoundary \<Rightarrow> int" where
  "operand_count constructor = int (length (cn_OperandSymbolIDs constructor))"

text \<open>The frame below the top moves to its next operand.\<close>

primrec bump_top :: "resolveHandlesFrame list \<Rightarrow> resolveHandlesFrame list" where
  "bump_top [] = []"
| "bump_top (f # fs) = f\<lparr>hf_operand := hf_operand f + 1\<rparr> # fs"

text \<open>The loop of \<^verbatim>\<open>resolveHandlesState\<close>; the head of the list is the top of the stack.\<close>

primrec handlesLoop :: "nat \<Rightarrow> nat \<Rightarrow> ResolveHandlesHooks \<Rightarrow> space_store \<Rightarrow> resolveHandlesFrame list \<Rightarrow> unit handling" where
  "handlesLoop 0 pf hooks \<sigma> frames st = (Inl HandlesFuel, st)"
| "handlesLoop (Suc k) pf hooks \<sigma> frames st =
     (case pw_Point (hs_walker st) of
        None \<Rightarrow> (Inr (), st)
      | Some p \<Rightarrow> (case cs_Constructor (hp_state (hs_heap st) p) of
          None \<Rightarrow> (Inl ErrHandlesConstructor, st)
        | Some current \<Rightarrow> (case frames of
            [] \<Rightarrow> (Inl ErrStackEmpty, st)
          | frame # below \<Rightarrow>
              let frame = frame\<lparr>hf_numoper := operand_count current\<rparr> in
              if hf_operand frame \<ge> hf_numoper frame then
                then_st (propagateConstructorResult \<sigma> st) (\<lambda>_ st.
                  handlesLoop k pf hooks \<sigma> (bump_top below) (pop_walker st))
              else then_st (push_walker (hf_operand frame) st) (\<lambda>child st.
                case cs_Constructor (hp_state (hs_heap st) child) of
                  Some constructor \<Rightarrow>
                    handlesLoop k pf hooks \<sigma> (\<lparr>hf_operand = 0, hf_numoper = operand_count constructor\<rparr> # frame # below) st
                | None \<Rightarrow> then_st (resolveLeafOperand pf hooks \<sigma> st) (\<lambda>_ st.
                    handlesLoop k pf hooks \<sigma> (bump_top (frame # below)) (pop_walker st))))))"

definition resolveHandlesState :: "nat \<Rightarrow> nat \<Rightarrow> ResolveHandlesHooks \<Rightarrow> space_store \<Rightarrow> unit handling" where
  "resolveHandlesState fuel pf hooks \<sigma> st =
     (case pw_Point (hs_walker st) of
        None \<Rightarrow> (Inl ErrHandlesState, st)
      | Some p \<Rightarrow> (case cs_Constructor (hp_state (hs_heap st) p) of
          None \<Rightarrow> (Inl ErrHandlesConstructor, st)
        | Some current \<Rightarrow> handlesLoop fuel pf hooks \<sigma> [\<lparr>hf_operand = 0, hf_numoper = operand_count current\<rparr>] st))"

definition ResolveHandles :: "nat \<Rightarrow> nat \<Rightarrow> space_store \<Rightarrow> ResolveHandlesHooks \<Rightarrow> ctx_ref \<Rightarrow> ctx_store \<times> state_heap
    \<Rightarrow> (handles_error + unit) \<times> ctx_store \<times> state_heap" where
  "ResolveHandles fuel pf \<sigma> hooks c world =
     (case world of (\<kappa>, h) \<Rightarrow>
      let w = BaseState \<kappa> (NewParserWalker (Some c)) in
      if \<not> IsState w then (Inl ErrHandlesBase, \<kappa>, h)
      else case resolveHandlesState fuel pf hooks \<sigma> \<lparr>hs_contexts = \<kappa>, hs_heap = h, hs_walker = w\<rparr> of
        (Inl e, st) \<Rightarrow> (Inl e, hs_contexts st, hs_heap st)
      | (Inr _, st) \<Rightarrow> (Inr (), (hs_contexts st)(c := SetParserState (hs_contexts st c) ParseStatePcode), hs_heap st))"

end
