(* ===== verification/Sla_Obtain.thy ===== *)
theory Sla_Obtain
  imports Sla_Discache Sla_Resolve Sla_Handles
begin

text \<open>
  \<^verbatim>\<open>pkg/sla/obtain_context.go\<close> and \<^verbatim>\<open>instruction_context.go\<close>: a parser context is taken from the cache and
  promoted, from uninitialized to disassembly to p-code, until it has reached the state that was asked for. The two
  promotion steps are callbacks; they change contexts and states, not the cache. The engine's own steps, \<^verbatim>\<open>Resolve\<close> and
  \<^verbatim>\<open>ResolveHandles\<close>, are given at the end as such callbacks.
\<close>

section \<open>Parse states are ordered\<close>

fun parse_rank :: "ParseState \<Rightarrow> nat" where
  "parse_rank ParseStateUninitialized = 0"
| "parse_rank ParseStateDisassembly = 1"
| "parse_rank ParseStatePcode = 2"

lemma parse_rank_inject: "parse_rank a = parse_rank b \<Longrightarrow> a = b"
  by (cases a; cases b) simp_all

instantiation ParseState :: linorder
begin

definition less_eq_ParseState :: "ParseState \<Rightarrow> ParseState \<Rightarrow> bool" where
  "less_eq_ParseState a b = (parse_rank a \<le> parse_rank b)"

definition less_ParseState :: "ParseState \<Rightarrow> ParseState \<Rightarrow> bool" where
  "less_ParseState a b = (parse_rank a < parse_rank b)"

instance
  by standard (auto simp: less_eq_ParseState_def less_ParseState_def intro: parse_rank_inject)

end

lemma parse_state_order [simp]:
  "ParseStateUninitialized \<le> s" "s \<le> ParseStatePcode" "ParseStateDisassembly \<le> s \<longleftrightarrow> s \<noteq> ParseStateUninitialized"
  "ParseStatePcode \<le> s \<longleftrightarrow> s = ParseStatePcode" "s < ParseStateDisassembly \<longleftrightarrow> s = ParseStateUninitialized"
  "s < ParseStatePcode \<longleftrightarrow> s \<noteq> ParseStatePcode"
  by (cases s; simp add: less_eq_ParseState_def less_ParseState_def)+

section \<open>Promotion\<close>

datatype obtain_error = ErrPromoteResolve | ErrPromoteHandles | ErrNotDisassembled | ErrNotPcode | ErrPcodeFirst
  | ErrTargetMissed ParseState | ErrResolveStep resolve_error | ErrHandlesStep handles_error | ErrCommitStep resolve_error

type_synonym promotion = "ctx_ref \<Rightarrow> cache_world \<Rightarrow> (obtain_error + unit) \<times> cache_world"

record ObtainContextRequest =
  ob_Address :: Address
  ob_TargetState :: ParseState
  ob_ConstantSpace :: "space_ref option"
  ob_Resolve :: "promotion option"
  ob_ResolveHandles :: "promotion option"

definition parse_state :: "cache_world \<Rightarrow> ctx_ref \<Rightarrow> ParseState" where
  "parse_state w r = pc_ParserState (cw_ctx w r)"

definition promoteToDisassembly :: "promotion option \<Rightarrow> promotion" where
  "promoteToDisassembly resolve r w =
     (if parse_state w r \<ge> ParseStateDisassembly then (Inr (), w)
      else case resolve of
        None \<Rightarrow> (Inl ErrPromoteResolve, w)
      | Some f \<Rightarrow> then_st (f r w) (\<lambda>_ w.
          (if parse_state w r < ParseStateDisassembly then Inl ErrNotDisassembled else Inr (), w)))"

definition promoteToPcode :: "promotion option \<Rightarrow> promotion" where
  "promoteToPcode resolveHandles r w =
     (if parse_state w r \<ge> ParseStatePcode then (Inr (), w)
      else if parse_state w r < ParseStateDisassembly then (Inl ErrPcodeFirst, w)
      else case resolveHandles of
        None \<Rightarrow> (Inl ErrPromoteHandles, w)
      | Some f \<Rightarrow> then_st (f r w) (\<lambda>_ w.
          (if parse_state w r < ParseStatePcode then Inl ErrNotPcode else Inr (), w)))"

text \<open>The context is keyed to the requested address before it is promoted.\<close>

definition rekeyContext :: "Address \<Rightarrow> ctx_ref \<Rightarrow> cache_world \<Rightarrow> cache_world" where
  "rekeyContext addr r w =
     (let w = (if pc_Addr (cw_ctx w r) \<noteq> addr
            then upd_ctx r (SetN2addr (SetParserState (SetAddr (cw_ctx w r) addr) ParseStateUninitialized) invalidAddress) w else w)
      in if parse_state w r = ParseStateUninitialized then upd_ctx r (SetN2addr (cw_ctx w r) invalidAddress) w else w)"

text \<open>A target state outside the enumeration, which \<^verbatim>\<open>validateParseState\<close> rejects, is not a \<open>ParseState\<close> here.\<close>

definition ObtainContext :: "ObtainContextRequest \<Rightarrow> DisassemblyCache \<times> cache_world
    \<Rightarrow> (obtain_error + ctx_ref) \<times> DisassemblyCache \<times> cache_world" where
  "ObtainContext req cw =
     (let (r, c, w) = ObtainParserContext (ob_Address req) (ob_ConstantSpace req) cw;
          w = rekeyContext (ob_Address req) r w; target = ob_TargetState req
      in if parse_state w r \<ge> target then (Inr r, c, w)
         else case then_st (if target \<ge> ParseStateDisassembly then promoteToDisassembly (ob_Resolve req) r w else (Inr (), w)) (\<lambda>_ w.
              then_st (if target \<ge> ParseStatePcode then promoteToPcode (ob_ResolveHandles req) r w else (Inr (), w)) (\<lambda>_ w.
                (if \<not> parse_state w r \<ge> target then Inl (ErrTargetMissed target) else Inr r, w))) of
           (res, w) \<Rightarrow> (res, c, w))"

section \<open>The context of an instruction\<close>

definition pcodeFallthroughAddr :: "cache_world \<Rightarrow> ctx_ref \<Rightarrow> Address option" where
  "pcodeFallthroughAddr w r =
     (let ctx = cw_ctx w r; len = ParserContext_GetLength (cw_heap w) ctx in
      if len > 0 then Some (Address_Add (pc_Addr ctx) (u64_of len))
      else if IsInvalid (pc_NAddr ctx) then None else Some (pc_NAddr ctx))"

definition next2addrFromContext :: "cache_world \<Rightarrow> ctx_ref \<Rightarrow> Address \<times> bool" where
  "next2addrFromContext w r =
     (let ctx = cw_ctx w r; len = ParserContext_GetLength (cw_heap w) ctx in
      if len > 0 then (Address_Add (pc_Addr ctx) (u64_of len), True)
      else if \<not> IsInvalid (pc_NAddr ctx) then (pc_NAddr ctx, True) else (invalidAddress, False))"

text \<open>The closure that derives \<^verbatim>\<open>inst_next2\<close> from a disassembly of the next instruction.\<close>

definition next2Resolver :: "ObtainContextRequest \<Rightarrow> ctx_ref \<Rightarrow> DisassemblyCache \<times> cache_world
    \<Rightarrow> (Address \<times> bool) \<times> DisassemblyCache \<times> cache_world" where
  "next2Resolver req r cw =
     (case cw of (c, w) \<Rightarrow>
      case pcodeFallthroughAddr w r of
        None \<Rightarrow> ((invalidAddress, False), c, w)
      | Some nextAddr \<Rightarrow>
          (case ObtainContext (req\<lparr>ob_Address := nextAddr, ob_TargetState := ParseStateDisassembly,
              ob_ConstantSpace := (if pc_ConstSpace (cw_ctx w r) = None then ob_ConstantSpace req else pc_ConstSpace (cw_ctx w r))\<rparr>) (c, w) of
             (Inl _, c, w) \<Rightarrow> ((invalidAddress, False), c, w)
           | (Inr n, c, w) \<Rightarrow> (next2addrFromContext w n, c, w)))"

text \<open>The context keeps the value of its closure, \<open>derived\<close>, in place of the closure.\<close>

definition bindLazyN2Context :: "Address \<times> bool \<Rightarrow> ctx_ref \<Rightarrow> cache_world \<Rightarrow> cache_world" where
  "bindLazyN2Context derived r w = upd_ctx r (SetN2addrResolver (SetN2addr (cw_ctx w r) invalidAddress) (Some derived)) w"

definition ObtainPcodeContext :: "space_store \<Rightarrow> 'k ApplyCommitsHooks \<Rightarrow> Address \<times> bool \<Rightarrow> ObtainContextRequest
    \<Rightarrow> (DisassemblyCache \<times> cache_world) \<times> 'k \<Rightarrow> (obtain_error + ctx_ref) \<times> (DisassemblyCache \<times> cache_world) \<times> 'k" where
  "ObtainPcodeContext \<sigma> commits derived req cwk =
     (case cwk of (cw, k) \<Rightarrow>
      case ObtainContext (req\<lparr>ob_TargetState := ParseStatePcode\<rparr>) cw of
        (Inl e, c, w) \<Rightarrow> (Inl e, (c, w), k)
      | (Inr r, c, w) \<Rightarrow> (case ApplyCommits \<sigma> commits (cw_ctx w) (cw_heap w) r k of
          (Inl e, k) \<Rightarrow> (Inl (ErrCommitStep e), (c, w), k)
        | (Inr _, k) \<Rightarrow> (Inr r, (c, bindLazyN2Context derived r w), k)))"

section \<open>The engine's promotion steps\<close>

text \<open>The two callbacks of \<^verbatim>\<open>translate.go\<close>; an empty map of spaces stands for \<^verbatim>\<open>nil\<close>.\<close>

definition resolve_promotion :: "SymbolTableBoundary option \<Rightarrow> nat \<Rightarrow> nat \<Rightarrow> space_store \<Rightarrow> ResolveHooks \<Rightarrow> promotion" where
  "resolve_promotion symbols fuel pf \<sigma> hooks r w =
     (let w = (if symbols \<noteq> None then upd_ctx r (SetSymbolTable (cw_ctx w r) symbols) w else w) in
      case Resolve fuel pf \<sigma> hooks r \<lparr>rs_contexts = cw_ctx w, rs_heap = cw_heap w, rs_change = NewParserWalkerChange None\<rparr> of
        (res, st) \<Rightarrow> (case res of Inl e \<Rightarrow> Inl (ErrResolveStep e) | Inr _ \<Rightarrow> Inr (),
          w\<lparr>cw_ctx := rs_contexts st, cw_heap := rs_heap st\<rparr>))"

definition handles_promotion :: "SymbolTableBoundary option \<Rightarrow> (int \<times> space_ref) list \<Rightarrow> nat \<Rightarrow> nat \<Rightarrow> space_store \<Rightarrow> ResolveHandlesHooks \<Rightarrow> promotion" where
  "handles_promotion symbols spaces fuel pf \<sigma> hooks r w =
     (let ctx = cw_ctx w r;
          ctx = (if symbols \<noteq> None \<and> pc_Symbols ctx = None then SetSymbolTable ctx symbols else ctx);
          ctx = (if pc_SpacesByIndex ctx = [] then ctx\<lparr>pc_SpacesByIndex := spaces\<rparr> else ctx);
          w = upd_ctx r ctx w
      in case ResolveHandles fuel pf \<sigma> hooks r (cw_ctx w, cw_heap w) of
        (res, \<kappa>, h) \<Rightarrow> (case res of Inl e \<Rightarrow> Inl (ErrHandlesStep e) | Inr _ \<Rightarrow> Inr (), w\<lparr>cw_ctx := \<kappa>, cw_heap := h\<rparr>))"

end
