(* ===== verification/Sla_ResolveLaws.thy ===== *)
theory Sla_ResolveLaws
  imports Sla_Resolve Sla_WalkerLaws Sla_PatLaws
begin

text \<open>
  The resolution of an instruction ends whatever the matching callback answers, keeps the tree of
  states and the walker consistent, and gives the instruction the length of the tree it built.
\<close>

section \<open>Ending well\<close>

text \<open>The two errors that would stand for a recursion without end.\<close>

definition runaway :: "resolve_error \<Rightarrow> bool" where
  "runaway e = (e = ResolveFuel \<or> e = ErrWalk WalkFuel)"

abbreviation ends :: "('a \<Rightarrow> resolve_state \<Rightarrow> bool) \<Rightarrow> (resolve_error + 'a) \<times> resolve_state \<Rightarrow> bool" where
  "ends \<equiv> settles runaway"

lemmas ends_def = settles_def
lemmas ends_then_st = settles_then_st [where bad = runaway]
lemmas ends_mono = settles_mono [where bad = runaway]
lemmas ends_loop_st = settles_loop_st [where bad = runaway]

text \<open>The walker stands on the tree below \<open>base\<close>, a state without a parent, at depth \<open>d\<close>.\<close>

definition at_depth :: "state_ref \<Rightarrow> int \<Rightarrow> resolve_state \<Rightarrow> bool" where
  "at_depth base d st =
     (cs_Parent (hp_state (rs_heap st) base) = None \<and>
      (\<exists>w. ch_Walker (rs_change st) = Some w \<and> walker_ok base (rs_heap st) w \<and> pw_Depth w = d))"

lemma at_depth_point:
  assumes "at_depth base d st"
  obtains w p where "ch_Walker (rs_change st) = Some w" "change_point (rs_change st) = Some (w, p)" "pw_Point w = Some p"
    "walker_ok base (rs_heap st) w" "pw_Depth w = d" "p < hp_next (rs_heap st)"
proof -
  from assms obtain w where w: "ch_Walker (rs_change st) = Some w" "walker_ok base (rs_heap st) w" "pw_Depth w = d"
    by (auto simp: at_depth_def)
  then obtain p where p: "pw_Point w = Some p" "walk (rs_heap st) base (trail w) = Some p" "heap_ok (rs_heap st)" "base < hp_next (rs_heap st)"
    by (auto simp: walker_ok_def)
  then have "p < hp_next (rs_heap st)" by (simp add: walk_valid [OF p(3,4,2)])
  with w p(1) show ?thesis by (intro that [of w p]) (simp_all add: change_point_def)
qed

lemma at_depth_on_context [simp]: "at_depth base d (on_context c f st) = at_depth base d st"
  by (simp add: at_depth_def on_context_def)

lemma at_depth_contexts [simp]: "at_depth base d (st\<lparr>rs_contexts := \<kappa>\<rparr>) = at_depth base d st"
  by (simp add: at_depth_def)

lemma at_depth_upd_state:
  "keeps_links f \<Longrightarrow> at_depth base d (st\<lparr>rs_heap := upd_state s f (rs_heap st)\<rparr>) = at_depth base d st"
  by (auto simp: at_depth_def upd_state_walker_ok keeps_links_def)

lemma at_depth_change:
  "ch_Walker ch = ch_Walker (rs_change st) \<Longrightarrow> at_depth base d (st\<lparr>rs_change := ch\<rparr>) = at_depth base d st"
  by (simp add: at_depth_def)

text \<open>Writes to the current state.\<close>

lemma on_heap_ends:
  assumes "at_depth base d st"
    and "\<And>w p. change_point (rs_change st) = Some (w, p) \<Longrightarrow> \<exists>f. keeps_links f \<and> g (rs_heap st) (rs_change st) = Inr (upd_state p f (rs_heap st))"
  shows "ends (\<lambda>_. at_depth base d) (on_heap g st)"
  using assms(1)
proof (rule at_depth_point)
  fix w p
  assume "change_point (rs_change st) = Some (w, p)"
  from assms(2) [OF this] obtain f where "keeps_links f" "g (rs_heap st) (rs_change st) = Inr (upd_state p f (rs_heap st))" by blast
  then show ?thesis using assms(1) by (simp add: on_heap_def at_depth_upd_state)
qed

lemma set_constructor_ends: "at_depth base d st \<Longrightarrow> ends (\<lambda>_. at_depth base d) (on_heap (\<lambda>h ch. SetConstructor h ch x) st)"
  by (rule on_heap_ends)
    (auto simp: SetConstructor_def ConstructState_SetConstructor_def keeps_links_def upd_state_def
      intro!: exI [of _ "\<lambda>s. s\<lparr>cs_Constructor := Some (normalizeFlowThru x), cs_ConstructorID := cn_ConstructorID x\<rparr>"])

lemma set_offset_ends: "at_depth base d st \<Longrightarrow> ends (\<lambda>_. at_depth base d) (on_heap (\<lambda>h ch. SetOffset h ch x) st)"
  by (rule on_heap_ends) (auto simp: SetOffset_def keeps_links_def intro!: exI [of _ "\<lambda>s. s\<lparr>cs_Offset := x\<rparr>"])

lemma set_length_ends: "at_depth base d st \<Longrightarrow> ends (\<lambda>_. at_depth base d) (on_heap (\<lambda>h ch. SetCurrentLength h ch x) st)"
  by (rule on_heap_ends) (auto simp: SetCurrentLength_def keeps_links_def intro!: exI [of _ "\<lambda>s. s\<lparr>cs_Length := x\<rparr>"])

lemma on_context_simps [simp]: "rs_change (on_context c f st) = rs_change st" "rs_heap (on_context c f st) = rs_heap st"
  by (simp_all add: on_context_def)

lemma queue_ends: "at_depth base d st \<Longrightarrow> ends (\<lambda>_. at_depth base d) (queueContextCommit c commit st)"
  by (auto simp: queueContextCommit_def runaway_def ReserveCommit_def AddCommit_def Let_def at_depth_change change_point_def
      split: option.splits sum.split if_split_asm)

lemma ApplyContextOps_ends:
  assumes "ApplyContextOps pf hook \<sigma> h w c ops \<kappa> = (Inl e, \<kappa>')"
  shows "\<not> runaway e"
proof -
  have *: "\<not> runaway e" if "loop_st (ApplyContextOp pf hook \<sigma> h w' c) ops \<kappa> = (Inl e, \<kappa>')" for w' \<kappa>
    using that
  proof (induction ops arbitrary: \<kappa>)
    case (Cons op ops)
    then show ?case
      by (auto simp: then_st_def ApplyContextOp_def runaway_def split: prod.split_asm sum.split_asm option.split_asm if_split_asm)
  qed simp
  show ?thesis by (rule *) (use assms in \<open>simp add: ApplyContextOps_def\<close>)
qed

lemma enter_ends:
  assumes "at_depth base d st"
  shows "ends (\<lambda>_. at_depth base d) (enterConstructor pf hook \<sigma> c outcome constructor st)"
  unfolding enterConstructor_def Let_def
proof (rule ends_then_st [OF set_constructor_ends [OF assms]], rule ends_then_st [OF set_offset_ends], assumption,
    rule ends_then_st [where P = "\<lambda>_. at_depth base d"])
  fix st assume "at_depth base d st"
  then show "ends (\<lambda>_. at_depth base d)
      (if oc_Length outcome > 0 then on_heap (\<lambda>h ch. SetCurrentLength h ch (oc_Length outcome)) st
         else if cn_MinimumLength constructor > 0 then on_heap (\<lambda>h ch. SetCurrentLength h ch (cn_MinimumLength constructor)) st
         else (Inr (), st))"
    by (simp add: set_length_ends)
next
  fix st assume at: "at_depth base d st"
  define st1 where "st1 = on_context c (\<lambda>x. applyResolveFlowAddresses x outcome)
    (if oc_DelaySlot outcome > 0 then on_context c (\<lambda>x. SetDelaySlot x (oc_DelaySlot outcome)) st else st)"
  have at1: "at_depth base d st1" using at by (simp add: st1_def)
  have "ends (\<lambda>_. at_depth base d)
      (case ApplyContextOps pf hook \<sigma> (rs_heap st1) (ch_Walker (rs_change st1)) c (cn_ContextOps constructor) (rs_contexts st1) of
         (r, \<kappa>) \<Rightarrow> (r, st1\<lparr>rs_contexts := \<kappa>\<rparr>))"
    using at1 by (auto simp: ends_def ApplyContextOps_ends split: prod.split sum.split)
  then show "ends (\<lambda>_. at_depth base d)
      (then_st (case ApplyContextOps pf hook \<sigma> (rs_heap st1) (ch_Walker (rs_change st1)) c (cn_ContextOps constructor) (rs_contexts st1) of
              (r, \<kappa>) \<Rightarrow> (r, st1\<lparr>rs_contexts := \<kappa>\<rparr>)) (\<lambda>_ st.
          then_st (loop_st (queueContextCommit c) (cn_ContextCommits constructor) st) (\<lambda>_.
          loop_st (queueContextCommit c) (oc_Commits outcome))))"
    by (rule ends_then_st) (rule ends_then_st, rule ends_loop_st, rule queue_ends, assumption+, rule ends_loop_st, rule queue_ends)
qed

section \<open>The recursion\<close>

lemma propagate_ends:
  assumes "at_depth base d st"
  shows "ends (\<lambda>_. at_depth base d) (propagateLength st)"
  using assms
proof (rule at_depth_point)
  fix w p
  assume p: "change_point (rs_change st) = Some (w, p)" "walker_ok base (rs_heap st) w" "p < hp_next (rs_heap st)"
  then obtain e where "currentStateEnd (hp_next (rs_heap st)) (rs_heap st) (Some p) = Inr e"
    using currentStateEnd_max [of "rs_heap st" p "hp_next (rs_heap st)"] by (auto simp: walker_ok_def)
  with p(1) assms show ?thesis by (simp add: propagateLength_def Let_def at_depth_upd_state keeps_links_def)
qed

lemma pop_at_depth: "at_depth base (d + 1) st \<Longrightarrow> 0 \<le> d \<Longrightarrow> at_depth base d (popOperand st)"
  by (auto simp: at_depth_def popOperand_def PopOperand_ok(1))
    (auto simp: PopOperand_def walker_ok_def)

lemma allocate_ends:
  assumes "at_depth base d st" "AllocateOperand (rs_heap st) (rs_change st) i = r"
  shows "case r of Inl e \<Rightarrow> e \<noteq> WalkFuel | Inr (_, ch, h) \<Rightarrow> at_depth base (d + 1) (st\<lparr>rs_change := ch, rs_heap := h\<rparr>) \<and> d < 31"
  using assms(1)
proof (rule at_depth_point)
  fix w p
  assume w: "change_point (rs_change st) = Some (w, p)" "pw_Point w = Some p" "walker_ok base (rs_heap st) w" "pw_Depth w = d"
  show ?thesis
  proof (cases "PushOperand (rs_heap st) w i")
    case (Inl e)
    then have "e \<noteq> WalkFuel" by (auto simp: PushOperand_def split: option.split_asm if_split_asm prod.split_asm)
    with Inl w assms(2) show ?thesis by (auto simp: AllocateOperand_def)
  next
    case (Inr y)
    obtain w' h' where y: "y = (w', h')" by fastforce
    have ok: "walker_ok base h' w'" using PushOperand_ok [OF w(3)] Inr y by blast
    have d: "pw_Depth w' = d + 1"
      using Inr y w by (auto simp: PushOperand_def split: option.split_asm if_split_asm prod.split_asm)
    have "r = Inr (pw_Point w', (rs_change st)\<lparr>ch_Walker := Some w'\<rparr>, h')"
      using assms(2) w(1) Inr y by (simp add: AllocateOperand_def)
    moreover have "cs_Parent (hp_state h' base) = None"
      using PushOperand_keeps [OF w(3)] Inr y assms(1) w(3) by (auto simp: at_depth_def walker_ok_def)
    ultimately show ?thesis using ok d by (auto simp: at_depth_def walker_ok_def)
  qed
qed

lemma operand_ends:
  assumes "at_depth base d st" "0 \<le> d"
    and "\<And>st. d < 31 \<Longrightarrow> at_depth base (d + 1) st \<Longrightarrow> ends (\<lambda>_. at_depth base (d + 1)) (frame st)"
  shows "ends (\<lambda>_. at_depth base d) (resolveOperand frame c i st)"
proof (cases "AllocateOperand (rs_heap st) (rs_change st) i")
  case (Inl e)
  then show ?thesis using allocate_ends [OF assms(1) Inl] by (auto simp: resolveOperand_def Let_def runaway_def)
next
  case (Inr y)
  obtain s ch h where y: "y = (s, ch, h)" by (cases y)
  define st1 where "st1 = st\<lparr>rs_change := ch, rs_heap := h\<rparr>"
  have at: "at_depth base (d + 1) st1" and d: "d < 31"
    using allocate_ends [OF assms(1) Inr] by (auto simp: y st1_def)
  obtain off len where ol: "computeOperandOffsetAndLen (rs_contexts st c) h (map_option snd (change_point (rs_change st))) i = (off, len)"
    by fastforce
  have eq: "resolveOperand frame c i st = then_st (on_heap (\<lambda>h ch. SetOffset h ch off) st1) (\<lambda>_ st.
             then_st (if len > 0 then on_heap (\<lambda>h ch. SetCurrentLength h ch len) st else (Inr (), st)) (\<lambda>_ st.
             then_st (frame st) (\<lambda>_ st.
             then_st (propagateLength st) (\<lambda>_ st. (Inr (), popOperand st)))))"
    using Inr ol by (simp add: resolveOperand_def y st1_def Let_def)
  show ?thesis
    unfolding eq
    by (rule ends_then_st [OF set_offset_ends [OF at]], rule ends_then_st [where P = "\<lambda>_. at_depth base (d + 1)"],
        simp add: set_length_ends, rule ends_then_st, rule assms(3) [OF d], assumption, rule ends_then_st [OF propagate_ends], assumption)
      (simp add: pop_at_depth assms(2))
qed

lemma frame_ends:
  assumes "\<And>f \<kappa> h e. resolve f \<kappa> h = Inl e \<Longrightarrow> \<not> runaway e"
  shows "at_depth base d st \<Longrightarrow> 0 \<le> d \<Longrightarrow> 32 \<le> int fuel + d \<Longrightarrow> ends (\<lambda>_. at_depth base d) (resolveFrame fuel pf hook \<sigma> resolve c n st)"
proof (induction fuel arbitrary: d n st)
  case 0
  then show ?case by (auto simp: at_depth_def walker_ok_def)
next
  case (Suc k)
  from Suc.prems(1) show ?case
  proof (rule at_depth_point)
    fix w p
    assume w: "change_point (rs_change st) = Some (w, p)" "walker_ok base (rs_heap st) w"
    then obtain i where i: "GetOperand w = Inr i" by (auto simp: GetOperand_def walker_ok_def)
    define f where "f = \<lparr>rf_Context = c, rf_Walker = rs_change st, rf_State = p,
              rf_Parent = cs_Parent (hp_state (rs_heap st) p), rf_Depth = n, rf_Operand = i,
              rf_SectionID = (case CurrentSection (rs_heap st) w of None \<Rightarrow> 0 | Some s \<Rightarrow> s)\<rparr>"
    show ?case
    proof (cases "resolve f (rs_contexts st) (rs_heap st)")
      case (Inl e)
      with assms [OF Inl] w i show ?thesis by (simp add: f_def)
    next
      case (Inr outcome)
      show ?thesis
      proof (cases "oc_Constructor outcome")
        case None
        with w i Inr Suc.prems(1) show ?thesis by (simp add: f_def runaway_def)
      next
        case (Some constructor)
        have "ends (\<lambda>_. at_depth base d) (then_st (enterConstructor pf hook \<sigma> c outcome constructor st) (\<lambda>_.
                loop_st (resolveOperand (resolveFrame k pf hook \<sigma> resolve c (n + 1)) c)
                  (map int [0..<length (cn_OperandSymbolIDs constructor)])))"
        proof (rule ends_then_st [OF enter_ends [OF Suc.prems(1)]], rule ends_loop_st)
          fix x y st assume "at_depth base d st"
          then show "ends (\<lambda>_. at_depth base d) (resolveOperand (resolveFrame k pf hook \<sigma> resolve c (n + 1)) c y st)"
            by (rule operand_ends [OF _ Suc.prems(2)]) (rule Suc.IH, use Suc.prems in simp_all)
        qed
        with w i Inr Some show ?thesis by (simp add: f_def)
      qed
    qed
  qed
qed

section \<open>The reset of the tree\<close>

text \<open>A heap in which some states of \<open>h\<close> are blank, and with a state all states below it.\<close>

definition blanked :: "state_heap \<Rightarrow> state_heap \<Rightarrow> bool" where
  "blanked h h1 =
     (hp_next h1 = hp_next h \<and> (\<forall>t. hp_state h1 t = emptyState \<or> hp_state h1 t = hp_state h t) \<and>
      (\<forall>t i c. hp_state h1 t = emptyState \<longrightarrow> Child h t i = Some c \<longrightarrow> hp_state h1 c = emptyState))"

lemma blankedD:
  assumes "blanked h h1"
  shows "hp_next h1 = hp_next h" "hp_state h1 t = emptyState \<or> hp_state h1 t = hp_state h t"
    "hp_state h1 t = emptyState \<Longrightarrow> Child h t i = Some c \<Longrightarrow> hp_state h1 c = emptyState"
  using assms unfolding blanked_def by blast+

text \<open>What a reset below \<open>s\<close> does to a heap.\<close>

definition resets :: "state_heap \<Rightarrow> state_ref \<Rightarrow> state_heap \<Rightarrow> state_heap \<Rightarrow> bool" where
  "resets h s h1 h2 =
     (blanked h h2 \<and> (\<forall>t. hp_state h1 t = emptyState \<longrightarrow> hp_state h2 t = emptyState) \<and>
      (\<forall>t. hp_state h2 t \<noteq> hp_state h1 t \<longrightarrow> below h s t))"

lemma Child_blank: "hp_state h t = emptyState \<Longrightarrow> Child h t i = None"
  by (auto simp: Child_def emptyState_def)

lemma below_valid: "heap_ok h \<Longrightarrow> s < hp_next h \<Longrightarrow> below h s t \<Longrightarrow> t < hp_next h"
  by (rotate_tac 2, induction rule: below.induct) (auto dest: heap_okD(2))

lemma below_trans: "below h s t \<Longrightarrow> below h t u \<Longrightarrow> below h s u"
  by (induction rule: below.induct) (auto intro: below.down)

lemma reset_children:
  assumes step: "\<And>c h1. Some c \<in> set cs \<Longrightarrow> blanked h h1 \<Longrightarrow>
      \<exists>h2. resetConstructState k (Some c) h1 = Inr h2 \<and> resets h c h1 h2 \<and> hp_state h2 c = emptyState"
    and below: "\<And>c. Some c \<in> set cs \<Longrightarrow> below h s c"
  shows "blanked h h1 \<Longrightarrow> \<exists>h2. loop_step (\<lambda>h child. resetConstructState k child h) h1 cs = Inr h2 \<and> resets h s h1 h2 \<and>
      (\<forall>c. Some c \<in> set cs \<longrightarrow> hp_state h2 c = emptyState)"
  using assms
proof (induction cs arbitrary: h1)
  case Nil
  then show ?case by (simp add: resets_def)
next
  case (Cons x cs)
  show ?case
  proof (cases x)
    case None
    with Cons show ?thesis by simp
  next
    case (Some c)
    have "\<exists>h2. resetConstructState k (Some c) h1 = Inr h2 \<and> resets h c h1 h2 \<and> hp_state h2 c = emptyState"
      using Cons.prems(2) [of c h1] Cons.prems(1) Some by simp
    then obtain h2 where h2: "resetConstructState k (Some c) h1 = Inr h2" "resets h c h1 h2" "hp_state h2 c = emptyState" by blast
    have "blanked h h2" using h2(2) by (simp add: resets_def)
    with Cons.IH [of h2] Cons.prems(2,3) obtain h3 where h3: "loop_step (\<lambda>h child. resetConstructState k child h) h2 cs = Inr h3"
        "resets h s h2 h3" "\<forall>c. Some c \<in> set cs \<longrightarrow> hp_state h3 c = emptyState"
      by auto
    have "below h s c" using Cons.prems Some by simp
    then have "resets h s h1 h3" using h2(2) h3(2) below_trans [of h s c] unfolding resets_def by metis
    with h2 h3 Some show ?thesis by (auto simp: resets_def)
  qed
qed

lemma reset_ends:
  assumes "heap_ok h"
  shows "\<lbrakk>s < hp_next h; hp_next h \<le> s + fuel; blanked h h1\<rbrakk> \<Longrightarrow>
      \<exists>h2. resetConstructState fuel (Some s) h1 = Inr h2 \<and> resets h s h1 h2 \<and> hp_state h2 s = emptyState"
proof (induction fuel arbitrary: s h1)
  case (Suc k)
  have sub: "\<exists>i. Child h s i = Some c" if "Some c \<in> set (cs_Children (hp_state h1 s))" for c
  proof -
    have "hp_state h1 s = emptyState \<or> hp_state h1 s = hp_state h s" by (rule blankedD(2) [OF Suc.prems(3)])
    moreover have "hp_state h1 s \<noteq> emptyState" using that by (auto simp: emptyState_def)
    ultimately have "Some c \<in> set (cs_Children (hp_state h s))" using that by simp
    then show ?thesis by (metis children_Child)
  qed
  have "\<exists>h2. loop_step (\<lambda>h child. resetConstructState k child h) h1 (cs_Children (hp_state h1 s)) = Inr h2 \<and> resets h s h1 h2 \<and>
      (\<forall>c. Some c \<in> set (cs_Children (hp_state h1 s)) \<longrightarrow> hp_state h2 c = emptyState)"
  proof (rule reset_children [OF _ _ Suc.prems(3)])
    fix c h1' assume c: "Some c \<in> set (cs_Children (hp_state h1 s))" "blanked h h1'"
    with sub obtain i where "Child h s i = Some c" by blast
    with heap_okD(2) [OF assms Suc.prems(1) this] show
      "\<exists>h2. resetConstructState k (Some c) h1' = Inr h2 \<and> resets h c h1' h2 \<and> hp_state h2 c = emptyState"
      using Suc.prems(2) by (intro Suc.IH [OF _ _ c(2)]) auto
  next
    fix c assume "Some c \<in> set (cs_Children (hp_state h1 s))"
    with sub show "below h s c" using below.down below.here by metis
  qed
  then obtain h2 where h2: "loop_step (\<lambda>h child. resetConstructState k child h) h1 (cs_Children (hp_state h1 s)) = Inr h2"
      "resets h s h1 h2" "\<forall>c. Some c \<in> set (cs_Children (hp_state h1 s)) \<longrightarrow> hp_state h2 c = emptyState" by blast
  have kids: "hp_state h2 c = emptyState" if "Child h s i = Some c" for i c
  proof (cases "hp_state h1 s = emptyState")
    case True
    then show ?thesis using that h2(2) blankedD(3) [OF Suc.prems(3)] unfolding resets_def by blast
  next
    case False
    then have "hp_state h1 s = hp_state h s" using blankedD(2) [OF Suc.prems(3)] by blast
    then show ?thesis using h2(3) Child_children [OF that] by simp
  qed
  have bl: "blanked h h2" and grow: "\<And>t. hp_state h1 t = emptyState \<Longrightarrow> hp_state h2 t = emptyState"
    and changed: "\<And>t. hp_state h2 t \<noteq> hp_state h1 t \<Longrightarrow> below h s t"
    using h2(2) unfolding resets_def by blast+
  define h3 where "h3 = upd_state s (\<lambda>_. emptyState) h2"
  have h3: "hp_next h3 = hp_next h2" "hp_state h3 t = (if t = s then emptyState else hp_state h2 t)" for t
    by (simp_all add: h3_def)
  have "blanked h h3"
    unfolding blanked_def h3 using blankedD [OF bl] kids by metis
  then have "resets h s h1 h3"
    unfolding resets_def h3 using grow changed below.here [of h s] by metis
  with h2(1) h3(2) [of s] show ?case by (simp add: h3_def)
qed simp

text \<open>The reset of a root leaves a well-formed heap in which the root is blank.\<close>

lemma reset_root:
  assumes ok: "heap_ok h" and base: "base < hp_next h" "cs_Parent (hp_state h base) = None"
  shows "\<exists>h2. resetConstructState (hp_next h) (Some base) h = Inr h2 \<and> heap_ok h2 \<and> hp_next h2 = hp_next h \<and> hp_state h2 base = emptyState"
proof -
  have "blanked h h" by (auto simp: blanked_def Child_def emptyState_def)
  with reset_ends [OF ok base(1), of "hp_next h" h] obtain h2 where
    h2: "resetConstructState (hp_next h) (Some base) h = Inr h2" "resets h base h h2" "hp_state h2 base = emptyState" by auto
  have bl: "blanked h h2" using h2(2) by (simp add: resets_def)
  have down: "hp_state h2 u = emptyState" if "below h t u" "hp_state h2 t = emptyState" for t u
    using that
  proof (induction rule: below.induct)
    case (down s i c t)
    have "hp_state h2 c = emptyState" by (rule blankedD(3) [OF bl down(4,1)])
    then show ?case by (rule down.IH)
  qed
  have up: "\<exists>q. below h base q \<and> (\<exists>i. Child h q i = Some c)" if "below h s c" "s = base" "c \<noteq> base" for s c
    using that(1,3) unfolding that(2)
  proof (induction rule: below.induct)
    case (down s i c t)
    then show ?case by (cases "t = c") (auto intro: below.intros)
  qed simp
  have "links_ok h2 t" if t: "t < hp_next h2" for t
  proof (cases "hp_state h2 t = emptyState")
    case True
    then show ?thesis by (simp add: links_ok_def Child_blank) (simp add: emptyState_def)
  next
    case False
    with blankedD(2) [OF bl] have same: "hp_state h2 t = hp_state h t" by blast
    from t blankedD(1) [OF bl] have t: "t < hp_next h" by simp
    have ch: "Child h2 t i = Child h t i" for i by (simp add: Child_def same)
    have "hp_state h2 c = hp_state h c" if c: "Child h t i = Some c" for i c
    proof (rule ccontr)
      assume ne: "hp_state h2 c \<noteq> hp_state h c"
      then have "below h base c" using h2(2) by (simp add: resets_def)
      have "cs_Parent (hp_state h c) = Some t" using heap_okD(2) [OF ok t c] by simp
      with base(2) have "c \<noteq> base" by auto
      with up [OF \<open>below h base c\<close>] obtain q j where q: "below h base q" "Child h q j = Some c" by blast
      then have "q < hp_next h" using below_valid [OF ok base(1) q(1)] by simp
      with heap_okD(2) [OF ok _ q(2)] \<open>cs_Parent (hp_state h c) = Some t\<close> have "q = t" by simp
      with down [OF q(1) h2(3)] False show False by simp
    qed
    then show ?thesis
      using heap_okD [OF ok t] blankedD(1) [OF bl] by (auto simp: links_ok_def ch same)
  qed
  then show ?thesis using h2 blankedD(1) [OF bl] by (auto simp: heap_ok_def)
qed

section \<open>The base state\<close>

text \<open>A computation keeps the base state of the context.\<close>

definition keeps_base :: "ctx_ref \<Rightarrow> resolve_state \<Rightarrow> (resolve_error + 'a) \<times> resolve_state \<Rightarrow> bool" where
  "keeps_base c st r = (pc_BaseState (rs_contexts (snd r) c) = pc_BaseState (rs_contexts st c))"

lemma keeps_base_then_st:
  "keeps_base c st r \<Longrightarrow> (\<And>x st. keeps_base c st (f x st)) \<Longrightarrow> keeps_base c st (then_st r f)"
  by (cases r; cases "fst r") (auto simp: keeps_base_def)

lemma keeps_base_loop: "(\<And>x st. keeps_base c st (f x st)) \<Longrightarrow> keeps_base c st (loop_st f xs st)"
proof (induction xs arbitrary: st)
  case (Cons x xs)
  show ?case unfolding loop_st.simps by (rule keeps_base_then_st, rule Cons.prems, rule Cons.IH, rule Cons.prems)
qed (simp add: keeps_base_def)

lemma keeps_base_same: "rs_contexts (snd r) = rs_contexts st \<Longrightarrow> keeps_base c st r"
  by (simp add: keeps_base_def)

lemma keeps_base_on_heap: "keeps_base c st (on_heap f st)"
  by (rule keeps_base_same) (simp add: on_heap_def split: sum.split)

lemma keeps_base_queue: "keeps_base c st (queueContextCommit c commit st)"
  by (auto simp: keeps_base_def queueContextCommit_def AddCommit_def on_context_def Let_def split: option.split sum.split if_split_asm)

lemma ApplyContextOps_base: "pc_BaseState (snd (ApplyContextOps pf hook \<sigma> h w d ops \<kappa>) c) = pc_BaseState (\<kappa> c)"
proof -
  have one: "pc_BaseState (snd (ApplyContextOp pf hook \<sigma> h w' d op \<kappa>) c) = pc_BaseState (\<kappa> c)" for w' op \<kappa>
  proof (cases "co_Expression op")
    case (Some e)
    obtain r \<kappa>' where r: "GetPatternExpressionValue pf hook \<sigma> h e w' \<kappa> = (r, \<kappa>')" by fastforce
    with eval_base [of pf hook \<sigma> h e w' \<kappa> c] have "pc_BaseState (\<kappa>' c) = pc_BaseState (\<kappa> c)" by simp
    with Some r show ?thesis by (auto simp: ApplyContextOp_def SetContextWord_def split: sum.split)
  qed (simp add: ApplyContextOp_def)
  have "pc_BaseState (snd (loop_st (ApplyContextOp pf hook \<sigma> h w' d) ops \<kappa>) c) = pc_BaseState (\<kappa> c)" for w' \<kappa>
  proof (induction ops arbitrary: \<kappa>)
    case (Cons op ops)
    then show ?case
      using one by (auto intro!: snd_then_st [where P = "\<lambda>s. pc_BaseState (s c) = _"]) (metis snd_conv)
  qed simp
  then show ?thesis by (simp add: ApplyContextOps_def)
qed

lemma keeps_base_enter: "keeps_base c st (enterConstructor pf hook \<sigma> c outcome constructor st)"
  unfolding enterConstructor_def Let_def
proof (rule keeps_base_then_st [OF keeps_base_on_heap], rule keeps_base_then_st [OF keeps_base_on_heap], rule keeps_base_then_st)
  fix st
  show "keeps_base c st
      (if oc_Length outcome > 0 then on_heap (\<lambda>h ch. SetCurrentLength h ch (oc_Length outcome)) st
         else if cn_MinimumLength constructor > 0 then on_heap (\<lambda>h ch. SetCurrentLength h ch (cn_MinimumLength constructor)) st
         else (Inr (), st))"
    by (simp add: keeps_base_on_heap) (simp add: keeps_base_def)
next
  fix st
  define st1 where "st1 = on_context c (\<lambda>x. applyResolveFlowAddresses x outcome)
    (if oc_DelaySlot outcome > 0 then on_context c (\<lambda>x. SetDelaySlot x (oc_DelaySlot outcome)) st else st)"
  have st1: "pc_BaseState (rs_contexts st1 c) = pc_BaseState (rs_contexts st c)"
    by (simp add: st1_def on_context_def applyResolveFlowAddresses_def SetDelaySlot_def SetRefAddr_def SetDestAddr_def)
  have "keeps_base c st1
      (case ApplyContextOps pf hook \<sigma> (rs_heap st1) (ch_Walker (rs_change st1)) c (cn_ContextOps constructor) (rs_contexts st1) of
         (r, \<kappa>) \<Rightarrow> (r, st1\<lparr>rs_contexts := \<kappa>\<rparr>))"
    using ApplyContextOps_base [of pf hook \<sigma> "rs_heap st1" "ch_Walker (rs_change st1)" c "cn_ContextOps constructor" "rs_contexts st1" c]
    by (cases "ApplyContextOps pf hook \<sigma> (rs_heap st1) (ch_Walker (rs_change st1)) c (cn_ContextOps constructor) (rs_contexts st1)")
      (simp add: keeps_base_def)
  then have "keeps_base c st1 (then_st (case ApplyContextOps pf hook \<sigma> (rs_heap st1) (ch_Walker (rs_change st1)) c (cn_ContextOps constructor) (rs_contexts st1) of
              (r, \<kappa>) \<Rightarrow> (r, st1\<lparr>rs_contexts := \<kappa>\<rparr>)) (\<lambda>_ st.
          then_st (loop_st (queueContextCommit c) (cn_ContextCommits constructor) st) (\<lambda>_.
          loop_st (queueContextCommit c) (oc_Commits outcome))))"
    by (intro keeps_base_then_st keeps_base_loop keeps_base_queue)
  then show "keeps_base c st (then_st (case ApplyContextOps pf hook \<sigma> (rs_heap st1) (ch_Walker (rs_change st1)) c (cn_ContextOps constructor) (rs_contexts st1) of
              (r, \<kappa>) \<Rightarrow> (r, st1\<lparr>rs_contexts := \<kappa>\<rparr>)) (\<lambda>_ st.
          then_st (loop_st (queueContextCommit c) (cn_ContextCommits constructor) st) (\<lambda>_.
          loop_st (queueContextCommit c) (oc_Commits outcome))))"
    by (simp add: keeps_base_def st1)
qed

lemma keeps_base_operand:
  assumes "\<And>st. keeps_base c st (frame st)"
  shows "keeps_base c st (resolveOperand frame c i st)"
proof (cases "AllocateOperand (rs_heap st) (rs_change st) i")
  case (Inr y)
  obtain s ch h where y: "y = (s, ch, h)" by (cases y)
  have tail: "keeps_base c st (then_st (propagateLength st) (\<lambda>_ st. (Inr (), popOperand st)))" for st
    by (rule keeps_base_then_st)
      (auto simp: keeps_base_def propagateLength_def popOperand_def Let_def split: option.split sum.split)
  have "keeps_base c st1 (then_st (on_heap (\<lambda>h ch. SetOffset h ch off) st1) (\<lambda>_ st.
             then_st (if len > 0 then on_heap (\<lambda>h ch. SetCurrentLength h ch len) st else (Inr (), st)) (\<lambda>_ st.
             then_st (frame st) (\<lambda>_ st. then_st (propagateLength st) (\<lambda>_ st. (Inr (), popOperand st))))))" for st1 off len
    by (intro keeps_base_then_st keeps_base_on_heap tail assms) (simp add: keeps_base_on_heap keeps_base_same)
  from this [of "st\<lparr>rs_change := ch, rs_heap := h\<rparr>"] Inr y show ?thesis
    by (simp add: resolveOperand_def Let_def keeps_base_def split: prod.split)
qed (simp add: resolveOperand_def Let_def keeps_base_def)

lemma keeps_base_frame: "keeps_base c st (resolveFrame fuel pf hook \<sigma> resolve c n st)"
proof (induction fuel arbitrary: n st)
  case (Suc k)
  have *: "keeps_base c st (then_st (enterConstructor pf hook \<sigma> c outcome constructor st) (\<lambda>_.
                loop_st (resolveOperand (resolveFrame k pf hook \<sigma> resolve c m) c) xs))" for outcome constructor xs m
    by (intro keeps_base_then_st keeps_base_enter keeps_base_loop keeps_base_operand Suc.IH)
  have same: "keeps_base c st (r, st)" for r :: "resolve_error + unit" by (simp add: keeps_base_def)
  show ?case by (simp add: * same split: option.split sum.split)
qed (simp add: keeps_base_def)

section \<open>Resolve\<close>

text \<open>Callbacks that do not report the model's own fuel errors; the loading ones leave the base state alone.\<close>

definition load_ok :: "(ParserContext \<Rightarrow> resolve_error + ParserContext) option \<Rightarrow> bool" where
  "load_ok f = (\<forall>g ctx. f = Some g \<longrightarrow>
     (case g ctx of Inl e \<Rightarrow> \<not> runaway e | Inr ctx' \<Rightarrow> pc_BaseState ctx' = pc_BaseState ctx))"

definition hooks_ok :: "ResolveHooks \<Rightarrow> bool" where
  "hooks_ok hooks = (load_ok (rh_LoadFill hooks) \<and> load_ok (rh_LoadContext hooks) \<and>
     (\<forall>resolve f \<kappa> h e. rh_ResolveSymbol hooks = Some resolve \<longrightarrow> resolve f \<kappa> h = Inl e \<longrightarrow> \<not> runaway e))"

text \<open>The base state of the context, when it has one, is a root of the heap.\<close>

definition base_root :: "ctx_ref \<Rightarrow> resolve_state \<Rightarrow> bool" where
  "base_root c st = (heap_ok (rs_heap st) \<and>
     (case pc_BaseState (rs_contexts st c) of
        None \<Rightarrow> True | Some b \<Rightarrow> b < hp_next (rs_heap st) \<and> cs_Parent (hp_state (rs_heap st) b) = None))"

text \<open>During and after a resolution: the walker is at the root, which is the base state.\<close>

definition at_root :: "ctx_ref \<Rightarrow> resolve_state \<Rightarrow> bool" where
  "at_root c st = (\<exists>base. pc_BaseState (rs_contexts st c) = Some base \<and> at_depth base 0 st)"

lemma load_ends:
  assumes "load_ok f"
  shows "ends (\<lambda>_ st'. rs_heap st' = rs_heap st \<and> rs_change st' = rs_change st \<and>
      pc_BaseState (rs_contexts st' c) = pc_BaseState (rs_contexts st c)) (load_hook f c st)"
  using assms by (auto simp: load_hook_def load_ok_def on_context_def split: option.split sum.splits)

lemma ensure_base:
  assumes "base_root c st" "ensureBase c st = (b, st')"
  shows "heap_ok (rs_heap st') \<and> pc_BaseState (rs_contexts st' c) = Some b \<and> b < hp_next (rs_heap st') \<and> cs_Parent (hp_state (rs_heap st') b) = None"
proof (cases "pc_BaseState (rs_contexts st c)")
  case None
  obtain b' h where h: "NewConstructState (rs_heap st) = (b', h)" by fastforce
  from NewConstructState_ok [OF _ h] assms(1) have "heap_ok h" "b' < hp_next h" by (auto simp: base_root_def)
  moreover have "cs_Parent (hp_state h b') = None" using h by (auto simp: NewConstructState_def emptyState_def)
  ultimately show ?thesis using assms(2) None h by (auto simp: ensureBase_def on_context_def)
next
  case (Some a)
  with assms show ?thesis by (auto simp: ensureBase_def base_root_def)
qed

lemma prepare_ends:
  assumes "load_ok (rh_LoadContext hooks)" "heap_ok (rs_heap st)" "pc_BaseState (rs_contexts st c) = Some b"
    "b < hp_next (rs_heap st)" "cs_Parent (hp_state (rs_heap st) b) = None"
  shows "ends (\<lambda>_. at_root c) (prepareResolve hooks c b st)"
proof -
  obtain h where h: "resetConstructState (hp_next (rs_heap st)) (Some b) (rs_heap st) = Inr h" "heap_ok h" "b < hp_next h"
      "cs_Parent (hp_state h b) = None"
    using reset_root [OF assms(2,4,5)] assms(4) by (auto simp: emptyState_def)
  define w where "w = BaseState (rs_contexts st) (NewParserWalker (Some c))"
  have w: "walker_ok b h w" "pw_Depth w = 0"
    using assms(3) h(2,3) by (auto simp: w_def walker_ok_def BaseState_def NewParserWalker_def trail_def)
  define st1 where "st1 = on_context c (\<lambda>x. SetDelaySlot x 0)
    (st\<lparr>rs_heap := h, rs_change := ClearCommitReservations ((NewParserWalkerChange (Some (NewParserWalker (Some c))))\<lparr>ch_Walker := Some w\<rparr>)\<rparr>)"
  have at: "at_depth b 0 st1" using w h(4) by (auto simp: at_depth_def st1_def ClearCommitReservations_def on_context_def)
  have base: "pc_BaseState (rs_contexts st1 c) = Some b" using assms(3) by (simp add: st1_def on_context_def SetDelaySlot_def)
  have eq: "prepareResolve hooks c b st = then_st (on_heap (\<lambda>h ch. SetOffset h ch 0) st1) (\<lambda>_ st.
      load_hook (rh_LoadContext hooks) c (on_context c ClearCommits st))"
    using h(1) by (simp add: prepareResolve_def DeallocateState_def NewParserWalkerChange_def w_def st1_def Let_def)
  have "ends (\<lambda>_ st. at_depth b 0 st \<and> pc_BaseState (rs_contexts st c) = Some b) (on_heap (\<lambda>h ch. SetOffset h ch 0) st1)"
    using set_offset_ends [OF at, of 0] base by (auto simp: ends_def on_heap_def split: sum.splits)
  then show ?thesis
    unfolding eq
  proof (rule ends_then_st)
    fix st assume st: "at_depth b 0 st \<and> pc_BaseState (rs_contexts st c) = Some b"
    show "ends (\<lambda>_. at_root c) (load_hook (rh_LoadContext hooks) c (on_context c ClearCommits st))"
      by (rule ends_mono [OF load_ends [OF assms(1)]])
        (use st in \<open>auto simp: at_root_def at_depth_def on_context_def ClearCommits_def\<close>)
  qed
qed

lemma frame_at_root:
  assumes "\<And>f \<kappa> h e. resolve f \<kappa> h = Inl e \<Longrightarrow> \<not> runaway e" "at_root c st" "32 \<le> fuel"
  shows "ends (\<lambda>_. at_root c) (resolveFrame fuel pf hook \<sigma> resolve c 0 st)"
proof -
  from assms(2) obtain b where b: "pc_BaseState (rs_contexts st c) = Some b" "at_depth b 0 st" by (auto simp: at_root_def)
  have "ends (\<lambda>_. at_depth b 0) (resolveFrame fuel pf hook \<sigma> resolve c 0 st)"
    by (rule frame_ends [OF assms(1) b(2)]) (use assms(3) in simp_all)
  with keeps_base_frame [of c st fuel pf hook \<sigma> resolve 0] b(1) show ?thesis
    by (cases "resolveFrame fuel pf hook \<sigma> resolve c 0 st") (auto simp: keeps_base_def at_root_def ends_def split: sum.splits)
qed

text \<open>The length the root has after a resolution.\<close>

definition length_set :: "ctx_ref \<Rightarrow> resolve_state \<Rightarrow> bool" where
  "length_set c st = (\<forall>len. CalcCurrentLength (rs_heap st) (rs_change st) = Inr len \<longrightarrow> 0 < len \<longrightarrow>
     ParserContext_GetLength (rs_heap st) (rs_contexts st c) = len \<and>
     pc_NAddr (rs_contexts st c) = Address_Add (pc_Addr (rs_contexts st c)) (u64_of len))"

lemma below_upd_state: "keeps_links f \<Longrightarrow> below (upd_state s f h) t u = below h t u"
proof -
  assume f: "keeps_links f"
  note ch = upd_state_links(1) [OF f]
  have "below (upd_state s f h) t u \<Longrightarrow> below h t u"
    by (induction rule: below.induct) (auto simp: ch intro: below.intros)
  moreover have "below h t u \<Longrightarrow> below (upd_state s f h) t u"
  proof (induction rule: below.induct)
    case (down s' i c t)
    then show ?case using below.down [of "upd_state s f h" s' i c t] by (simp add: ch)
  qed (rule below.here)
  ultimately show ?thesis by blast
qed

text \<open>Writing the computed length to the state it was computed for does not change the computation.\<close>

lemma set_length_same:
  assumes ok: "heap_ok h" and p: "change_point ch = Some (w, p)" "p < hp_next h"
    and len: "CalcCurrentLength h ch = Inr len"
  shows "CalcCurrentLength (upd_state p (\<lambda>s. s\<lparr>cs_Length := len\<rparr>) h) ch = Inr len"
proof -
  define h' where "h' = upd_state p (\<lambda>s. s\<lparr>cs_Length := len\<rparr>) h"
  have f: "keeps_links (\<lambda>s. s\<lparr>cs_Length := len\<rparr>)" by (simp add: keeps_links_def)
  have ok': "heap_ok h'" and p': "p < hp_next h'" using ok p(2) by (simp_all add: h'_def upd_state_links(3) [OF f])
  obtain e where e: "\<forall>t. below h p t \<longrightarrow> state_end h t \<le> e"
    "CalcCurrentLength h ch = (if e < cs_Offset (hp_state h p) then Inl ErrLengthState else Inr (i64_of (e - cs_Offset (hp_state h p))))"
    using CalcCurrentLength_covers [OF ok p] by blast
  obtain e' where e': "\<forall>t. below h' p t \<longrightarrow> state_end h' t \<le> e'" "\<exists>t. below h' p t \<and> e' = state_end h' t"
    "CalcCurrentLength h' ch = (if e' < cs_Offset (hp_state h' p) then Inl ErrLengthState else Inr (i64_of (e' - cs_Offset (hp_state h' p))))"
    using CalcCurrentLength_covers [OF ok' p(1) p'] by blast
  have off: "cs_Offset (hp_state h' p) = cs_Offset (hp_state h p)" by (simp add: h'_def)
  have "len = i64_of (e - cs_Offset (hp_state h p))" "\<not> e < cs_Offset (hp_state h p)"
    using e(2) len by (auto split: if_split_asm)
  then have root: "state_end h' p = e" by (simp add: state_end_def h'_def u64_of_def i64_of_def)
  have other: "state_end h' t = state_end h t" if "t \<noteq> p" for t using that by (simp add: state_end_def h'_def)
  have bl: "below h' p t = below h p t" for t by (simp add: h'_def below_upd_state [OF f])
  have "e' = e"
  proof (rule antisym)
    show "e \<le> e'" using e'(1) root below.here [of h' p] by auto
    from e'(2) obtain t where "below h p t" "e' = state_end h' t" by (auto simp: bl)
    then show "e' \<le> e" using e(1) root other by (cases "t = p") auto
  qed
  with e'(3) e(2) off len show ?thesis by (simp add: h'_def)
qed

lemma next_address_ends:
  assumes "at_root c st"
  shows "ends (\<lambda>_ st. at_root c st \<and> length_set c st) (setNextAddress c st)"
proof -
  from assms obtain b where b: "pc_BaseState (rs_contexts st c) = Some b" "at_depth b 0 st" by (auto simp: at_root_def)
  then obtain w p where w: "change_point (rs_change st) = Some (w, p)" "walker_ok b (rs_heap st) w" "pw_Depth w = 0" "pw_Point w = Some p"
    by (auto elim: at_depth_point)
  then have pb: "p = b" "b < hp_next (rs_heap st)" "heap_ok (rs_heap st)" by (auto simp: walker_ok_def trail_def)
  have at: "at_root c (on_context c (\<lambda>x. SetNaddr x a) st)" for a
    using b by (auto simp: at_root_def on_context_def SetNaddr_def at_depth_def)
  have ctx: "rs_contexts (on_context c (\<lambda>x. SetNaddr x (f x)) st) c = SetNaddr (rs_contexts st c) (f (rs_contexts st c))" for f
    by (simp add: on_context_def)
  show ?thesis
  proof (cases "\<exists>len. CalcCurrentLength (rs_heap st) (rs_change st) = Inr len \<and> 0 < len")
    case True
    then obtain len where len: "CalcCurrentLength (rs_heap st) (rs_change st) = Inr len" "0 < len" by blast
    define h where "h = upd_state b (\<lambda>s. s\<lparr>cs_Length := len\<rparr>) (rs_heap st)"
    have calc: "CalcCurrentLength h (rs_change st) = Inr len"
      unfolding h_def by (rule set_length_same [OF pb(3) _ pb(2) len(1)]) (use w(1) pb(1) in simp)
    have walk: "walker_ok b h w" "cs_Parent (hp_state h b) = None"
      using w(2) b(2) by (simp_all add: h_def upd_state_walker_ok keeps_links_def at_depth_def)
    define st' where "st' = (on_context c (\<lambda>x. SetNaddr x (Address_Add (pc_Addr x) (u64_of len))) st)\<lparr>rs_heap := h\<rparr>"
    have st': "rs_heap st' = h" "rs_change st' = rs_change st"
      "rs_contexts st' c = SetNaddr (rs_contexts st c) (Address_Add (pc_Addr (rs_contexts st c)) (u64_of len))"
      by (simp_all add: st'_def on_context_def)
    have "setNextAddress c st = (Inr (), st')"
      using len b(1) by (simp add: setNextAddress_def Let_def st'_def h_def)
    moreover have "at_root c st'" using b(1) w walk by (auto simp: at_root_def at_depth_def st' SetNaddr_def change_point_def split: option.split_asm)
    moreover have "length_set c st'"
      using b(1) len calc by (simp add: length_set_def st' SetNaddr_def ParserContext_GetLength_def) (simp add: h_def)
    ultimately show ?thesis by simp
  next
    case False
    then have "setNextAddress c st = (Inr (), if ParserContext_GetLength (rs_heap st) (rs_contexts st c) > 0
        then on_context c (\<lambda>x. SetNaddr x (Address_Add (pc_Addr x) (u64_of (ParserContext_GetLength (rs_heap st) (rs_contexts st c))))) st
        else on_context c (\<lambda>x. SetNaddr x (pc_Addr x)) st)"
      by (auto simp: setNextAddress_def Let_def split: sum.split)
    moreover have "length_set c (on_context c f st)" for f using False by (auto simp: length_set_def)
    moreover have "at_root c (on_context c (\<lambda>x. SetNaddr x (f x)) st)" for f
      using b by (auto simp: at_root_def on_context_def SetNaddr_def at_depth_def)
    ultimately show ?thesis by simp
  qed
qed

lemma resolve_all:
  assumes "base_root c st" and "hooks_ok hooks" and "32 \<le> fuel"
  shows "ends (\<lambda>res st'. (at_root c st' \<and> rr_Walker res = rs_change st' \<and> pc_ParserState (rs_contexts st' c) = ParseStateDisassembly) \<and>
      length_set c st') (Resolve fuel pf \<sigma> hooks c st)"
  unfolding Resolve_def
proof (rule ends_then_st [OF load_ends])
  show "load_ok (rh_LoadFill hooks)" using assms(2) by (simp add: hooks_ok_def)
next
  fix st1 :: resolve_state
  assume st1: "rs_heap st1 = rs_heap st \<and> rs_change st1 = rs_change st \<and> pc_BaseState (rs_contexts st1 c) = pc_BaseState (rs_contexts st c)"
  show "ends (\<lambda>res st'. (at_root c st' \<and> rr_Walker res = rs_change st' \<and> pc_ParserState (rs_contexts st' c) = ParseStateDisassembly) \<and>
      length_set c st') (case rh_ResolveSymbol hooks of None \<Rightarrow> (Inl ErrNoResolveHook, st1)
       | Some resolve \<Rightarrow>
           let (base, st) = ensureBase c st1 in
           then_st (prepareResolve hooks c base st) (\<lambda>_ st.
           then_st (resolveFrame fuel pf (rh_ContextOps hooks) \<sigma> resolve c 0 st) (\<lambda>_ st.
           then_st (setNextAddress c st) (\<lambda>_ st.
             let st = on_context c (\<lambda>x. SetParserState x ParseStateDisassembly) st
             in (Inr \<lparr>rr_Walker = rs_change st, rr_Root = pc_BaseState (rs_contexts st c),
                      rr_CommitReservations = CommitReservations (rs_change st)\<rparr>, st)))))"
  proof (cases "rh_ResolveSymbol hooks")
    case (Some resolve)
    obtain b st2 where b: "ensureBase c st1 = (b, st2)" by fastforce
    have "base_root c st1" using assms(1) st1 by (auto simp: base_root_def split: option.split)
    note base = ensure_base [OF this b]
    have resolve: "\<And>f \<kappa> h e. resolve f \<kappa> h = Inl e \<Longrightarrow> \<not> runaway e" using assms(2) Some by (simp add: hooks_ok_def)
    have load: "load_ok (rh_LoadContext hooks)" using assms(2) by (simp add: hooks_ok_def)
    have "ends (\<lambda>res st'. (at_root c st' \<and> rr_Walker res = rs_change st' \<and> pc_ParserState (rs_contexts st' c) = ParseStateDisassembly) \<and>
      length_set c st')
       (then_st (prepareResolve hooks c b st2) (\<lambda>_ st.
           then_st (resolveFrame fuel pf (rh_ContextOps hooks) \<sigma> resolve c 0 st) (\<lambda>_ st.
           then_st (setNextAddress c st) (\<lambda>_ st.
             let st = on_context c (\<lambda>x. SetParserState x ParseStateDisassembly) st
             in (Inr \<lparr>rr_Walker = rs_change st, rr_Root = pc_BaseState (rs_contexts st c),
                      rr_CommitReservations = CommitReservations (rs_change st)\<rparr>, st)))))"
    proof (rule ends_then_st [OF prepare_ends [OF load]], (use base in blast)+, rule ends_then_st, rule frame_at_root [OF resolve _ assms(3)],
        assumption, assumption, rule ends_then_st, rule next_address_ends, assumption)
      fix st assume "at_root c st \<and> length_set c st"
      then show "ends (\<lambda>res st'. (at_root c st' \<and> rr_Walker res = rs_change st' \<and> pc_ParserState (rs_contexts st' c) = ParseStateDisassembly) \<and>
          length_set c st')
        (let st = on_context c (\<lambda>x. SetParserState x ParseStateDisassembly) st
             in (Inr \<lparr>rr_Walker = rs_change st, rr_Root = pc_BaseState (rs_contexts st c),
                      rr_CommitReservations = CommitReservations (rs_change st)\<rparr>, st))"
        by (auto simp: at_root_def at_depth_def length_set_def on_context_def SetParserState_def ParserContext_GetLength_def)
    qed
    with Some b show ?thesis by simp
  qed (simp add: runaway_def)
qed



section \<open>The matching callback\<close>

text \<open>The callback of the engine is one the laws apply to.\<close>

lemma resolveTranslateFrame_ends: "resolveTranslateFrame subtable f \<kappa> h = Inl e \<Longrightarrow> \<not> runaway e"
  by (auto simp: resolveTranslateFrame_def resolveTranslateFrameSubtable_def resolveTranslateConstructor_def
      resolveTranslateOperandOffset_def then_step_Inl Let_def runaway_def
      split: option.splits if_split_asm sum.splits list.splits)

text \<open>
  Before a frame is resolved, the shell places the operand with \<^verbatim>\<open>computeOperandOffsetAndLen\<close>; the
  callback computes the offset again. Where the callback succeeds, both agree, also when the relative
  offset is negative.
\<close>

lemma operand_offsets_agree:
  assumes "FindOperandForConstructor (pc_Symbols ctx) (cs_Constructor (hp_state h p)) i = Some operand"
    and "resolveTranslateOperandOffset h (Some p) (Some operand) = Inr off"
  shows "fst (computeOperandOffsetAndLen ctx h (Some p) i) = off"
  using assms
  by (auto simp: computeOperandOffsetAndLen_def resolveTranslateOperandOffset_def Let_def then_step_Inr u64_of_def
      split: option.splits if_split_asm)

section \<open>An example\<close>

text \<open>A subtable with one constructor of two bytes and a token operand of one byte behind them.\<close>

definition token_operand :: OperandSymbolBoundary where
  "token_operand = \<lparr>op_Index = 0, op_RelativeOffset = 2, op_OffsetBase = -1, op_MinimumLength = 1, op_CodeAddress = False,
     op_DefiningSymbolID = 0, op_HasDefiningSymbolID = False, op_LocalExpression = None, op_DefiningExpression = None\<rparr>"

definition token_table :: SymbolTableBoundary where
  "token_table = \<lparr>tb_Scopes = [], tb_Symbols = [\<lparr>sy_Name = [], sy_ID = 7, sy_ScopeID = 0, sy_HeaderElement = 0, sy_BodyElement = 0,
     sy_Body = no_body\<lparr>bd_Operand := Some token_operand\<rparr>\<rparr>]\<rparr>"

definition token_subtable :: SubtableBoundary where
  "token_subtable = \<lparr>st_ConstructorCount = 1, st_Constructors = [\<lparr>cn_ConstructorID = 0, cn_ParentSymbolID = 0, cn_FirstWhitespace = 0,
     cn_FlowThruIndex = -1, cn_MinimumLength = 2, cn_SourceFileIndex = 0, cn_LineNumber = 0, cn_OperandSymbolIDs = [7], cn_PrintPieces = [],
     cn_ContextOps = [], cn_ContextCommits = [], cn_MainSection = None, cn_NamedSections = []\<rparr>], st_Decision = None\<rparr>"

definition token_hooks :: ResolveHooks where
  "token_hooks = \<lparr>rh_LoadFill = None, rh_LoadContext = None, rh_ResolveSymbol = Some (resolveTranslateFrame (Some token_subtable)),
     rh_ContextOps = None\<rparr>"

definition token_state :: resolve_state where
  "token_state =
     (let (ctx, h) = NewParserContext \<lparr>ad_Space = Some 0, ad_Offset = 0x1000\<rparr> None \<lparr>hp_state = \<lambda>_. emptyState, hp_next = 0\<rparr>
      in \<lparr>rs_contexts = \<lambda>_. SetSymbolTable ctx (Some token_table), rs_heap = h, rs_change = NewParserWalkerChange None\<rparr>)"

definition token_spaces :: space_store where
  "token_spaces = (\<lambda>_. \<lparr>sp_Name = ''ram'', sp_Kind = SpaceKindProcessor, sp_Index = 0, sp_AddrSize = 4, sp_WordSize = 1, sp_BigEndian = False,
     sp_Physical = True, sp_Delay = 0, sp_Truncated = False, sp_spacebases = []\<rparr>)"

lemma token_run:
  "case Resolve 32 0 token_spaces token_hooks 0 token_state of
     (Inl _, _) \<Rightarrow> False
   | (Inr _, st) \<Rightarrow> CalcCurrentLength (rs_heap st) (rs_change st) = Inr 3 \<and> ad_Offset (pc_NAddr (rs_contexts st 0)) = 0x1003"
  by code_simp

lemma token_setup: "base_root 0 token_state" "hooks_ok token_hooks"
proof -
  have "rs_heap token_state = \<lparr>hp_state = \<lambda>_. emptyState, hp_next = 1\<rparr>" "pc_BaseState (rs_contexts token_state 0) = Some 0"
    by (simp_all add: token_state_def NewParserContext_def NewConstructState_def SetSymbolTable_def fun_eq_iff)
  moreover have "heap_ok \<lparr>hp_state = \<lambda>_. emptyState, hp_next = 1\<rparr>"
    by (auto simp: heap_ok_def links_ok_def Child_def emptyState_def)
  moreover have "cs_Parent emptyState = None" by (simp add: emptyState_def)
  ultimately show "base_root 0 token_state" by (simp add: base_root_def)
  show "hooks_ok token_hooks"
    using resolveTranslateFrame_ends by (auto simp: hooks_ok_def load_ok_def token_hooks_def)
qed



end
