(* ===== verification/Sla_HandlesLaws.thy ===== *)
theory Sla_HandlesLaws
  imports Sla_Handles Sla_WalkerLaws
begin

text \<open>
  The walk of \<^verbatim>\<open>resolve_handles.go\<close> with its stack of frames is the recursion over the tree of states: the
  operands of a constructor from left to right, then its result.
\<close>

section \<open>Steps that stay at a state\<close>

definition same_tree :: "state_heap \<Rightarrow> state_heap \<Rightarrow> bool" where
  "same_tree h h' = (hp_next h' = hp_next h \<and> (\<forall>t. cs_Constructor (hp_state h' t) = cs_Constructor (hp_state h t) \<and>
     cs_Parent (hp_state h' t) = cs_Parent (hp_state h t) \<and> cs_Children (hp_state h' t) = cs_Children (hp_state h t) \<and>
     cs_OperandIndex (hp_state h' t) = cs_OperandIndex (hp_state h t)))"

lemma same_tree_refl [simp]: "same_tree h h"
  by (simp add: same_tree_def)

lemma same_tree_trans: "same_tree h h1 \<Longrightarrow> same_tree h1 h2 \<Longrightarrow> same_tree h h2"
  by (simp add: same_tree_def)

lemma same_tree_handle [simp]: "same_tree h (upd_state p (\<lambda>s. s\<lparr>cs_Handle := hand\<rparr>) h)"
  by (simp add: same_tree_def)

lemma same_tree_walker_ok:
  assumes "same_tree h h'" "walker_ok base h w"
  shows "walker_ok base h' w"
proof -
  have child: "Child h' s i = Child h s i" for s i using assms(1) by (simp add: Child_def same_tree_def)
  have "walk h' s xs = walk h s xs" for s xs
    by (induction xs arbitrary: s) (simp_all add: child split: option.splits)
  moreover have "heap_ok h' = heap_ok h"
    using assms(1) by (simp add: heap_ok_def links_ok_def child) (simp add: same_tree_def)
  ultimately show ?thesis using assms by (simp add: walker_ok_def same_tree_def)
qed

text \<open>A step that leaves the walker and the tree alone and does not run out of fuel.\<close>

definition still :: "handles_state \<Rightarrow> (handles_error + 'a) \<times> handles_state \<Rightarrow> bool" where
  "still st r = (fst r \<noteq> Inl HandlesFuel \<and> hs_walker (snd r) = hs_walker st \<and> same_tree (hs_heap st) (hs_heap (snd r)))"

lemma still_then: "still st r \<Longrightarrow> (\<And>x st1. still st1 (f x st1)) \<Longrightarrow> still st (then_st r f)"
  by (cases r; cases "fst r") (auto simp: still_def intro: same_tree_trans)

lemma still_plain: "e \<noteq> Inl HandlesFuel \<Longrightarrow> still st (e, st)"
  by (simp add: still_def)

lemma still_contexts: "still (st\<lparr>hs_contexts := \<kappa>\<rparr>) r = still st r"
  by (simp add: still_def)

named_theorems stays

lemma still_pattern [stays]: "still st (pattern_value pf hooks \<sigma> e st)"
  by (auto simp: pattern_value_def still_def split: prod.split sum.split)

lemma still_const [stays]: "still st (constHandle v st)"
  by (auto simp: constHandle_def still_plain split: option.split)

lemma still_addr: "(\<And>st. hs_walker (snd (f st)) = hs_walker st \<and> hs_heap (snd (f st)) = hs_heap st) \<Longrightarrow> still st (addrHandle \<sigma> f st)"
  by (auto simp: addrHandle_def still_def Let_def split: option.split prod.split) (metis snd_conv same_tree_refl)+

lemma next2_same: "hs_walker (snd (next2_address st)) = hs_walker st \<and> hs_heap (snd (next2_address st)) = hs_heap st"
  by (simp add: next2_address_def split: prod.split)

lemma still_flow [stays]: "still st (resolveFlowDestSymbolFixedHandle \<sigma> st)" "still st (resolveFlowRefSymbolFixedHandle \<sigma> st)"
  by (auto simp: resolveFlowDestSymbolFixedHandle_def resolveFlowRefSymbolFixedHandle_def flowHandle_def still_plain split: option.split)

lemma still_operand [stays]: "still st (resolveOperandSymbolFixedHandle s st)"
  by (auto simp: resolveOperandSymbolFixedHandle_def still_plain split: option.split sum.split)

lemma find_space_same:
  "hs_walker (snd (findWalkerSpaceByIndex \<sigma> i st)) = hs_walker st \<and> hs_heap (snd (findWalkerSpaceByIndex \<sigma> i st)) = hs_heap st"
  using next2_same [of st] by (auto simp: findWalkerSpaceByIndex_def Let_def split: option.split prod.split)

lemma still_varnode [stays]: "still st (resolveVarnodeSymbolFixedHandle \<sigma> s st)"
  using find_space_same [of \<sigma> _ st]
  by (auto simp: resolveVarnodeSymbolFixedHandle_def still_def split: option.split prod.split) (metis snd_conv same_tree_refl)+

lemma still_list [stays]: "still st (resolveVarnodeListSymbolFixedHandle pf hooks \<sigma> s st)"
  unfolding resolveVarnodeListSymbolFixedHandle_def Let_def
  by (auto intro!: still_then stays simp: still_plain split: option.split)

lemma still_pattern_handle [stays]: "(\<And>v e. f v = Inl e \<Longrightarrow> e \<noteq> HandlesFuel) \<Longrightarrow> still st (patternHandle pf hooks \<sigma> p f st)"
  unfolding patternHandle_def
  by (auto intro!: still_then stays simp: still_plain split: option.split sum.split)

lemma still_symbol [stays]: "still st (resolveBoundarySymbolFixedHandle pf hooks \<sigma> s st)"
  unfolding resolveBoundarySymbolFixedHandle_def Let_def
  by (auto intro!: stays still_addr simp: still_plain next2_same tableValue_def split: if_split_asm)

lemma still_put: "still st (Inr x, put_handle hand st)"
  by (auto simp: put_handle_def still_def split: option.split)

lemma still_expression [stays]: "still st (expressionOperand pf hooks \<sigma> operand st)"
  unfolding expressionOperand_def
  by (auto intro!: still_then stays still_put simp: still_plain split: option.split)

lemma still_auto [stays]: "still st (resolveLeafOperandAuto pf hooks \<sigma> st)"
  unfolding resolveLeafOperandAuto_def Let_def
  by (auto intro!: still_then stays still_put simp: still_plain split: option.split sum.split)

lemma still_hook [stays]: "still st (hookOperand hooks st)"
proof -
  have "still st (hookExpression hooks st)" for st
    unfolding hookExpression_def
    by (auto intro!: still_then stays still_put simp: still_plain split: option.split sum.split)
  then show ?thesis
    unfolding hookOperand_def by (auto intro!: still_put simp: still_plain split: option.split sum.split)
qed

lemma still_leaf: "still st (resolveLeafOperand pf hooks \<sigma> st)"
  unfolding resolveLeafOperand_def by (auto intro!: still_then stays simp: still_plain)

lemma still_propagate: "still st (propagateConstructorResult \<sigma> st)"
proof -
  have "still st (runtimeContextForWalker st)" for st
    by (auto simp: runtimeContextForWalker_def Let_def still_def split: option.split prod.split)
  moreover have "same_tree h h'" if "PropagateConstructorResult \<sigma> tpl ctx h = Inr h'" for tpl ctx h h'
    using that by (auto simp: PropagateConstructorResult_def then_step_Inr split: option.splits)
  ultimately show ?thesis
    unfolding propagateConstructorResult_def
    by (auto intro!: still_then simp: still_plain split: option.split sum.split) (auto simp: still_def)
qed

section \<open>The recursion over the tree\<close>

text \<open>One operand: down, a subtree or a leaf, and up again.\<close>

definition handlesOperand :: "nat \<Rightarrow> ResolveHandlesHooks \<Rightarrow> space_store \<Rightarrow> unit handling \<Rightarrow> int \<Rightarrow> unit handling" where
  "handlesOperand pf hooks \<sigma> sub i st =
     then_st (push_walker i st) (\<lambda>child st.
     then_st (case cs_Constructor (hp_state (hs_heap st) child) of Some _ \<Rightarrow> sub st | None \<Rightarrow> resolveLeafOperand pf hooks \<sigma> st) (\<lambda>_ st.
       (Inr (), pop_walker st)))"

primrec handlesTree :: "nat \<Rightarrow> nat \<Rightarrow> ResolveHandlesHooks \<Rightarrow> space_store \<Rightarrow> unit handling" where
  "handlesTree 0 pf hooks \<sigma> st = (Inl HandlesFuel, st)"
| "handlesTree (Suc k) pf hooks \<sigma> st =
     (case Option.bind (pw_Point (hs_walker st)) (\<lambda>p. cs_Constructor (hp_state (hs_heap st) p)) of
        None \<Rightarrow> (Inl ErrHandlesConstructor, st)
      | Some constructor \<Rightarrow>
          then_st (loop_st (handlesOperand pf hooks \<sigma> (handlesTree k pf hooks \<sigma>))
            (map int [0..<length (cn_OperandSymbolIDs constructor)]) st) (\<lambda>_ st. propagateConstructorResult \<sigma> st))"

text \<open>The walker stands at state \<open>p\<close> of the tree below \<open>base\<close>, at depth \<open>d\<close>.\<close>

definition stands :: "state_ref \<Rightarrow> int \<Rightarrow> state_ref \<Rightarrow> handles_state \<Rightarrow> bool" where
  "stands base d p st = (walker_ok base (hs_heap st) (hs_walker st) \<and> pw_Depth (hs_walker st) = d \<and> pw_Point (hs_walker st) = Some p)"

text \<open>The states that were there keep their constructors and parents.\<close>

definition grows :: "handles_state \<Rightarrow> handles_state \<Rightarrow> bool" where
  "grows st st' = (hp_next (hs_heap st) \<le> hp_next (hs_heap st') \<and> (\<forall>t<hp_next (hs_heap st).
     cs_Constructor (hp_state (hs_heap st') t) = cs_Constructor (hp_state (hs_heap st) t) \<and>
     cs_Parent (hp_state (hs_heap st') t) = cs_Parent (hp_state (hs_heap st) t)))"

lemma grows_refl [simp]: "grows st st"
  by (simp add: grows_def)

lemma grows_trans: "grows st st1 \<Longrightarrow> grows st1 st2 \<Longrightarrow> grows st st2"
  by (simp add: grows_def)

lemma still_stands:
  assumes "still st (r, st')" "stands base d p st"
  shows "stands base d p st'" "grows st st'"
  using assms same_tree_walker_ok by (auto simp: still_def stands_def grows_def same_tree_def)

lemma stands_valid: "stands base d p st \<Longrightarrow> p < hp_next (hs_heap st)"
  by (auto simp: stands_def walker_ok_def dest: walk_valid)

lemma push_stands:
  assumes "stands base d p st" "push_walker i st = (Inr c, st1)"
  shows "stands base (d + 1) c st1" "grows st st1" "d < 31" "cs_Parent (hp_state (hs_heap st1) c) = Some p"
proof -
  from assms(2) obtain w h where push: "PushOperand (hs_heap st) (hs_walker st) i = Inr (w, h)"
      and w: "pw_Point w = Some c" "st1 = st\<lparr>hs_walker := w, hs_heap := h\<rparr>"
    by (auto simp: push_walker_def split: sum.split_asm option.split_asm prod.split_asm)
  have ok: "walker_ok base (hs_heap st) (hs_walker st)" and d: "pw_Depth (hs_walker st) = d" and p: "pw_Point (hs_walker st) = Some p"
    using assms(1) by (simp_all add: stands_def)
  note after = PushOperand_ok [OF ok push]
  have dw: "pw_Depth w = d + 1"
    using push p d w(1) by (auto simp: PushOperand_def split: option.split_asm if_split_asm prod.split_asm)
  then show "stands base (d + 1) c st1" using after w by (simp add: stands_def)
  show "d < 31" using after dw by (simp add: walker_ok_def)
  show "grows st st1" using PushOperand_keeps [OF ok push] by (simp add: grows_def w(2))
  have "pw_Point (PopOperand h w) = Some p" using after p by simp
  then show "cs_Parent (hp_state (hs_heap st1) c) = Some p" using w by (simp add: PopOperand_def)
qed

lemma push_fails: "push_walker i st = (Inl e, st') \<Longrightarrow> e \<noteq> HandlesFuel \<and> st' = st"
  by (auto simp: push_walker_def split: sum.split_asm option.split_asm prod.split_asm)

lemma pop_stands:
  assumes "stands base (d + 1) c st" "0 \<le> d" "cs_Parent (hp_state (hs_heap st) c) = Some p"
  shows "stands base d p (pop_walker st)"
  using assms PopOperand_ok(1) [of base "hs_heap st" "hs_walker st"]
  by (simp add: stands_def pop_walker_def) (simp add: PopOperand_def)

lemma pop_grows [simp]: "grows st (pop_walker st1) = grows st st1"
  by (simp add: grows_def pop_walker_def)

abbreviation "exhausted \<equiv> (\<lambda>e. e = HandlesFuel)"

text \<open>A step from \<open>st\<close> comes back to where it started.\<close>

abbreviation comes_back :: "state_ref \<Rightarrow> int \<Rightarrow> state_ref \<Rightarrow> handles_state \<Rightarrow> (handles_error + 'a) \<times> handles_state \<Rightarrow> bool" where
  "comes_back base d p st \<equiv> settles exhausted (\<lambda>_ st'. stands base d p st' \<and> grows st st')"

lemma comes_back_grows: "comes_back base d p st1 r \<Longrightarrow> grows st st1 \<Longrightarrow> comes_back base d p st r"
  by (erule settles_mono) (blast intro: grows_trans)

lemma operand_settles:
  assumes "stands base d p st" "0 \<le> d"
    and sub: "\<And>c st. d < 31 \<Longrightarrow> stands base (d + 1) c st \<Longrightarrow> comes_back base (d + 1) c st (sub st)"
  shows "comes_back base d p st (handlesOperand pf hooks \<sigma> sub i st)"
proof (cases "push_walker i st")
  case (Pair r st1)
  show ?thesis
  proof (cases r)
    case (Inl e)
    then show ?thesis using push_fails [of i st e st1] Pair by (simp add: handlesOperand_def)
  next
    case (Inr c)
    note push = push_stands [OF assms(1)] 
    have st1: "stands base (d + 1) c st1" "grows st st1" "d < 31" "cs_Parent (hp_state (hs_heap st1) c) = Some p"
      using push [of i c st1] Pair Inr by auto
    define body where "body = (case cs_Constructor (hp_state (hs_heap st1) c) of Some _ \<Rightarrow> sub st1 | None \<Rightarrow> resolveLeafOperand pf hooks \<sigma> st1)"
    have "comes_back base (d + 1) c st1 body"
    proof (cases "cs_Constructor (hp_state (hs_heap st1) c)")
      case None
      have "still st1 (resolveLeafOperand pf hooks \<sigma> st1)" by (rule still_leaf)
      with None still_stands [OF _ st1(1)] show ?thesis
        by (cases "resolveLeafOperand pf hooks \<sigma> st1") (auto simp: body_def settles_def still_def split: sum.split)
    qed (simp add: body_def sub [OF st1(3,1)])
    then have "comes_back base d p st (then_st body (\<lambda>_ st. (Inr (), pop_walker st)))"
    proof (rule settles_then_st)
      fix st2 assume st2: "stands base (d + 1) c st2 \<and> grows st1 st2"
      have "c < hp_next (hs_heap st1)" by (rule stands_valid [OF st1(1)])
      with st2 st1(4) have "cs_Parent (hp_state (hs_heap st2) c) = Some p" by (simp add: grows_def)
      with st2 st1(2) assms(2) show "comes_back base d p st (Inr (), pop_walker st2)"
        using pop_stands grows_trans by auto
    qed
    then show ?thesis using Pair Inr by (simp add: handlesOperand_def body_def)
  qed
qed

lemma operands_settle:
  assumes "0 \<le> d"
    and sub: "\<And>c st. d < 31 \<Longrightarrow> stands base (d + 1) c st \<Longrightarrow> comes_back base (d + 1) c st (sub st)"
  shows "stands base d p st \<Longrightarrow>
    comes_back base d p st (loop_st (handlesOperand pf hooks \<sigma> sub) is st)"
proof -
  assume st: "stands base d p st"
  have "comes_back base d p st (loop_st (handlesOperand pf hooks \<sigma> sub) is st1)"
    if "stands base d p st1 \<and> grows st st1" for st1
    using that
  proof (rule settles_loop_st [rotated])
    fix i st2 assume st2: "stands base d p st2 \<and> grows st st2"
    then show "comes_back base d p st (handlesOperand pf hooks \<sigma> sub i st2)"
      by (intro comes_back_grows [OF operand_settles [OF _ assms(1) sub]]) auto
  qed
  with st show ?thesis by simp
qed

lemma propagate_settles:
  assumes "stands base d p st"
  shows "comes_back base d p st (propagateConstructorResult \<sigma> st)"
  using still_stands [OF _ assms] still_propagate [of st \<sigma>]
  by (cases "propagateConstructorResult \<sigma> st") (auto simp: settles_def still_def split: sum.split)

lemma tree_settles:
  "stands base d p st \<Longrightarrow> 0 \<le> d \<Longrightarrow> 32 \<le> int k + d \<Longrightarrow>
    comes_back base d p st (handlesTree k pf hooks \<sigma> st)"
proof (induction k arbitrary: d p st)
  case 0
  then show ?case by (simp add: stands_def walker_ok_def)
next
  case (Suc k)
  have p: "pw_Point (hs_walker st) = Some p" using Suc.prems(1) by (simp add: stands_def)
  show ?case
  proof (cases "cs_Constructor (hp_state (hs_heap st) p)")
    case (Some ct)
    have "comes_back base d p st
      (then_st (loop_st (handlesOperand pf hooks \<sigma> (handlesTree k pf hooks \<sigma>)) (map int [0..<length (cn_OperandSymbolIDs ct)]) st)
        (\<lambda>_ st. propagateConstructorResult \<sigma> st))"
    proof (rule settles_then_st [OF operands_settle [OF Suc.prems(2) _ Suc.prems(1)]])
      fix c st1 assume "stands base (d + 1) c st1"
      then show "comes_back base (d + 1) c st1 (handlesTree k pf hooks \<sigma> st1)"
        by (rule Suc.IH) (use Suc.prems in simp_all)
    next
      fix st1 assume "stands base d p st1 \<and> grows st st1"
      then show "comes_back base d p st (propagateConstructorResult \<sigma> st1)"
        by (intro comes_back_grows [OF propagate_settles]) auto
    qed
    with p Some show ?thesis by simp
  qed (simp add: p)
qed


section \<open>The stack of frames\<close>

text \<open>
  A frame at operand \<open>i\<close> of the current state: after some iterations of the loop the remaining operands and the result
  of the constructor are done, and the frame is gone.
\<close>

definition frame_done :: "nat \<Rightarrow> nat \<Rightarrow> ResolveHandlesHooks \<Rightarrow> space_store \<Rightarrow> nat \<Rightarrow> nat \<Rightarrow> handles_state \<Rightarrow> bool" where
  "frame_done k pf hooks \<sigma> n i st = (\<exists>m. \<forall>fuel frame rest. hf_operand frame = int i \<longrightarrow>
     handlesLoop (m + fuel) pf hooks \<sigma> (frame # rest) st =
     then_st (loop_st (handlesOperand pf hooks \<sigma> (handlesTree k pf hooks \<sigma>)) (map int [i..<n]) st) (\<lambda>_ st.
     then_st (propagateConstructorResult \<sigma> st) (\<lambda>_ st.
       handlesLoop fuel pf hooks \<sigma> (bump_top rest) (pop_walker st))))"

lemma frame_doneI:
  assumes "\<And>fuel frame rest. hf_operand frame = int i \<Longrightarrow>
     handlesLoop (m + fuel) pf hooks \<sigma> (frame # rest) st =
     then_st (loop_st (handlesOperand pf hooks \<sigma> (handlesTree k pf hooks \<sigma>)) (map int [i..<n]) st) (\<lambda>_ st.
     then_st (propagateConstructorResult \<sigma> st) (\<lambda>_ st.
       handlesLoop fuel pf hooks \<sigma> (bump_top rest) (pop_walker st)))"
  shows "frame_done k pf hooks \<sigma> n i st"
  using assms unfolding frame_done_def by blast

lemma then_st_assoc: "then_st (then_st r f) g = then_st r (\<lambda>x s. then_st (f x s) g)"
  by (cases r; cases "fst r") auto

lemma upt_int_Cons: "i < n \<Longrightarrow> map int [i..<n] = int i # map int [Suc i..<n]"
  by (simp add: upt_conv_Cons)

text \<open>The frame of a child is done when the recursion below it is.\<close>

lemma child_done:
  assumes "frame_done k pf hooks \<sigma> (length (cn_OperandSymbolIDs ct)) 0 st"
    and "pw_Point (hs_walker st) = Some c" "cs_Constructor (hp_state (hs_heap st) c) = Some ct"
  shows "\<exists>m. \<forall>fuel n rest. handlesLoop (m + fuel) pf hooks \<sigma> (\<lparr>hf_operand = 0, hf_numoper = n\<rparr> # rest) st =
     then_st (handlesTree (Suc k) pf hooks \<sigma> st) (\<lambda>_ st. handlesLoop fuel pf hooks \<sigma> (bump_top rest) (pop_walker st))"
proof -
  from assms(1) obtain m where m: "\<And>fuel frame rest. hf_operand frame = 0 \<Longrightarrow>
     handlesLoop (m + fuel) pf hooks \<sigma> (frame # rest) st =
     then_st (loop_st (handlesOperand pf hooks \<sigma> (handlesTree k pf hooks \<sigma>)) (map int [0..<length (cn_OperandSymbolIDs ct)]) st) (\<lambda>_ st.
     then_st (propagateConstructorResult \<sigma> st) (\<lambda>_ st. handlesLoop fuel pf hooks \<sigma> (bump_top rest) (pop_walker st)))"
    unfolding frame_done_def by auto
  have tree: "handlesTree (Suc k) pf hooks \<sigma> st =
      then_st (loop_st (handlesOperand pf hooks \<sigma> (handlesTree k pf hooks \<sigma>)) (map int [0..<length (cn_OperandSymbolIDs ct)]) st)
        (\<lambda>_ st. propagateConstructorResult \<sigma> st)"
    using assms(2,3) by simp
  show ?thesis by (rule exI [of _ m], intro allI) (subst m, simp, simp only: tree then_st_assoc)
qed

text \<open>One operand of the frame, by the kind of the child.\<close>

lemma operand_done:
  assumes st: "stands base d p st" "cs_Constructor (hp_state (hs_heap st) p) = Some ct" "length (cn_OperandSymbolIDs ct) = n" "i < n"
    and leaf: "\<And>c st1 st2. \<lbrakk>push_walker (int i) st = (Inr c, st1); cs_Constructor (hp_state (hs_heap st1) c) = None;
        resolveLeafOperand pf hooks \<sigma> st1 = (Inr (), st2)\<rbrakk> \<Longrightarrow> frame_done k pf hooks \<sigma> n (Suc i) (pop_walker st2)"
    and tree: "\<And>c st1 st2 cct. \<lbrakk>push_walker (int i) st = (Inr c, st1); cs_Constructor (hp_state (hs_heap st1) c) = Some cct;
        handlesTree k pf hooks \<sigma> st1 = (Inr (), st2)\<rbrakk> \<Longrightarrow> frame_done k pf hooks \<sigma> n (Suc i) (pop_walker st2)"
    and child: "\<And>c st1 cct. \<lbrakk>push_walker (int i) st = (Inr c, st1); cs_Constructor (hp_state (hs_heap st1) c) = Some cct\<rbrakk> \<Longrightarrow>
        \<exists>m. \<forall>fuel k' rest. handlesLoop (m + fuel) pf hooks \<sigma> (\<lparr>hf_operand = 0, hf_numoper = k'\<rparr> # rest) st1 =
          then_st (handlesTree k pf hooks \<sigma> st1) (\<lambda>_ st. handlesLoop fuel pf hooks \<sigma> (bump_top rest) (pop_walker st))"
  shows "frame_done k pf hooks \<sigma> n i st"
proof -
  have p: "pw_Point (hs_walker st) = Some p" using st(1) by (simp add: stands_def)
  have count: "operand_count ct = int n" using st(3) by (simp add: operand_count_def)
  have "\<not> n \<le> i" using st(4) by simp
  note enter = p st(2) count this upt_int_Cons [OF st(4)] handlesOperand_def Let_def
  show ?thesis
  proof (cases "push_walker (int i) st")
    case (Pair r st1)
    show ?thesis
    proof (cases r)
      case (Inl e)
      show ?thesis by (rule frame_doneI [where m = 1]) (simp add: enter Pair Inl)
    next
      case (Inr c)
      note push = Pair [unfolded Inr]
      show ?thesis
      proof (cases "cs_Constructor (hp_state (hs_heap st1) c)")
        case None
        show ?thesis
        proof (cases "resolveLeafOperand pf hooks \<sigma> st1")
          case (Pair r2 st2)
          show ?thesis
          proof (cases r2)
            case (Inl e)
            show ?thesis by (rule frame_doneI [where m = 1]) (simp add: enter push None Pair Inl)
          next
            case (Inr u)
            from leaf [OF push None] Pair Inr have "frame_done k pf hooks \<sigma> n (Suc i) (pop_walker st2)" by simp
            then obtain m where m: "\<And>fuel frame rest. hf_operand frame = int (Suc i) \<Longrightarrow>
                handlesLoop (m + fuel) pf hooks \<sigma> (frame # rest) (pop_walker st2) =
                then_st (loop_st (handlesOperand pf hooks \<sigma> (handlesTree k pf hooks \<sigma>)) (map int [Suc i..<n]) (pop_walker st2)) (\<lambda>_ st.
                then_st (propagateConstructorResult \<sigma> st) (\<lambda>_ st. handlesLoop fuel pf hooks \<sigma> (bump_top rest) (pop_walker st)))"
              unfolding frame_done_def by blast
            show ?thesis by (rule frame_doneI [where m = "Suc m"]) (simp add: enter push None Pair Inr m)
          qed
        qed
      next
        case (Some cct)
        from child [OF push Some] obtain m where m: "\<And>fuel k' rest.
            handlesLoop (m + fuel) pf hooks \<sigma> (\<lparr>hf_operand = 0, hf_numoper = k'\<rparr> # rest) st1 =
            then_st (handlesTree k pf hooks \<sigma> st1) (\<lambda>_ st. handlesLoop fuel pf hooks \<sigma> (bump_top rest) (pop_walker st))"
          by blast
        show ?thesis
        proof (cases "handlesTree k pf hooks \<sigma> st1")
          case (Pair r2 st2)
          show ?thesis
          proof (cases r2)
            case (Inl e)
            show ?thesis by (rule frame_doneI [where m = "Suc m"]) (simp add: enter push Some m Pair Inl)
          next
            case (Inr u)
            from tree [OF push Some] Pair Inr have "frame_done k pf hooks \<sigma> n (Suc i) (pop_walker st2)" by simp
            then obtain m2 where m2: "\<And>fuel frame rest. hf_operand frame = int (Suc i) \<Longrightarrow>
                handlesLoop (m2 + fuel) pf hooks \<sigma> (frame # rest) (pop_walker st2) =
                then_st (loop_st (handlesOperand pf hooks \<sigma> (handlesTree k pf hooks \<sigma>)) (map int [Suc i..<n]) (pop_walker st2)) (\<lambda>_ st.
                then_st (propagateConstructorResult \<sigma> st) (\<lambda>_ st. handlesLoop fuel pf hooks \<sigma> (bump_top rest) (pop_walker st)))"
              unfolding frame_done_def by blast
            show ?thesis
              by (rule frame_doneI [where m = "Suc (m + m2)"]) (simp add: enter push Some m Pair Inr m2 add.assoc)
          qed
        qed
      qed
    qed
  qed
qed


text \<open>All frames, by induction over the depth that is left and the operands that are left.\<close>

lemma all_frames_done:
  "stands base d p st \<Longrightarrow> 0 \<le> d \<Longrightarrow> 31 \<le> int k + d \<Longrightarrow> cs_Constructor (hp_state (hs_heap st) p) = Some ct \<Longrightarrow>
    i \<le> length (cn_OperandSymbolIDs ct) \<Longrightarrow> frame_done k pf hooks \<sigma> (length (cn_OperandSymbolIDs ct)) i st"
proof (induction k arbitrary: d p st ct i)
  case 0
  define n where "n = length (cn_OperandSymbolIDs ct)"
  have p: "pw_Point (hs_walker st) = Some p" using 0 by (simp add: stands_def)
  have no: "push_walker j st \<noteq> (Inr c, st1)" for j c st1
    using push_stands(3) [OF 0(1)] 0(3) by fastforce
  show ?case
    unfolding n_def [symmetric]
  proof (cases "i = n")
    case True
    show "frame_done 0 pf hooks \<sigma> n i st"
      by (rule frame_doneI [where m = 1]) (simp add: True p 0 operand_count_def n_def Let_def)
  next
    case False
    show "frame_done 0 pf hooks \<sigma> n i st"
      by (rule operand_done [OF 0(1,4)]) (use no False 0(5) n_def in auto)
  qed
next
  case (Suc k)
  define n where "n = length (cn_OperandSymbolIDs ct)"
  have "frame_done (Suc k) pf hooks \<sigma> n i st" if "i \<le> n" using that Suc.prems(1,4)
  proof (induction "n - i" arbitrary: i st)
    case 0
    then have "i = n" "pw_Point (hs_walker st) = Some p" by (auto simp: stands_def)
    then show ?case by (intro frame_doneI [where m = 1]) (simp add: 0(4) operand_count_def n_def Let_def)
  next
    case (Suc j)
    have next_op: "frame_done (Suc k) pf hooks \<sigma> n (Suc i) (pop_walker st2)"
      if push: "push_walker (int i) st = (Inr c, st1)" and "stands base (d + 1) c st2" "grows st1 st2" for c st1 st2
    proof -
      note st1 = push_stands [OF Suc.prems(2) push]
      have "cs_Parent (hp_state (hs_heap st2) c) = Some p" using that(3) st1(4) stands_valid [OF st1(1)] by (simp add: grows_def)
      then have "stands base d p (pop_walker st2)" using pop_stands that(2) \<open>0 \<le> d\<close> by blast
      moreover have "grows st (pop_walker st2)" using grows_trans [OF st1(2) that(3)] by simp
      then have "cs_Constructor (hp_state (hs_heap (pop_walker st2)) p) = Some ct"
        using stands_valid [OF Suc.prems(2)] Suc.prems(3) by (simp add: grows_def)
      ultimately show ?thesis using Suc.hyps(1) [of "Suc i" "pop_walker st2"] Suc.hyps(2) Suc.prems(1) by simp
    qed
    show ?case
    proof (rule operand_done [OF Suc.prems(2,3) n_def [symmetric]])
      show "i < n" using Suc.hyps(2) by simp
    next
      fix c st1 st2
      assume push: "push_walker (int i) st = (Inr c, st1)" and "resolveLeafOperand pf hooks \<sigma> st1 = (Inr (), st2)"
      then have "still st1 (Inr (), st2)" using still_leaf [of st1 pf hooks \<sigma>] by simp
      from still_stands [OF this push_stands(1) [OF Suc.prems(2) push]] show "frame_done (Suc k) pf hooks \<sigma> n (Suc i) (pop_walker st2)"
        by (rule next_op [OF push])
    next
      fix c st1 st2 cct
      assume push: "push_walker (int i) st = (Inr c, st1)" and run: "handlesTree (Suc k) pf hooks \<sigma> st1 = (Inr (), st2)"
      note st1 = push_stands [OF Suc.prems(2) push]
      have "comes_back base (d + 1) c st1 (handlesTree (Suc k) pf hooks \<sigma> st1)"
        by (rule tree_settles [OF st1(1)]) (use \<open>0 \<le> d\<close> \<open>31 \<le> int (Suc k) + d\<close> in simp_all)
      then show "frame_done (Suc k) pf hooks \<sigma> n (Suc i) (pop_walker st2)"
        using next_op [OF push] run by simp
    next
      fix c st1 cct
      assume push: "push_walker (int i) st = (Inr c, st1)" and cct: "cs_Constructor (hp_state (hs_heap st1) c) = Some cct"
      note st1 = push_stands [OF Suc.prems(2) push]
      have "frame_done k pf hooks \<sigma> (length (cn_OperandSymbolIDs cct)) 0 st1"
        by (rule Suc.IH [OF st1(1) _ _ cct]) (use \<open>0 \<le> d\<close> \<open>31 \<le> int (Suc k) + d\<close> in simp_all)
      moreover have "pw_Point (hs_walker st1) = Some c" using st1(1) by (simp add: stands_def)
      ultimately show "\<exists>m. \<forall>fuel k' rest. handlesLoop (m + fuel) pf hooks \<sigma> (\<lparr>hf_operand = 0, hf_numoper = k'\<rparr> # rest) st1 =
          then_st (handlesTree (Suc k) pf hooks \<sigma> st1) (\<lambda>_ st. handlesLoop fuel pf hooks \<sigma> (bump_top rest) (pop_walker st))"
        using cct by (intro child_done)
    qed
  qed
  then show ?case using Suc.prems(5) by (simp add: n_def)
qed


section \<open>ResolveHandles\<close>

text \<open>The same with the recursion in place of the loop.\<close>

definition handles_by_recursion :: "nat \<Rightarrow> space_store \<Rightarrow> ResolveHandlesHooks \<Rightarrow> ctx_ref \<Rightarrow> ctx_store \<times> state_heap
    \<Rightarrow> (handles_error + unit) \<times> ctx_store \<times> state_heap" where
  "handles_by_recursion pf \<sigma> hooks c world =
     (case world of (\<kappa>, h) \<Rightarrow>
      case handlesTree walkerMaxDepth pf hooks \<sigma> \<lparr>hs_contexts = \<kappa>, hs_heap = h, hs_walker = BaseState \<kappa> (NewParserWalker (Some c))\<rparr> of
        (Inl e, st) \<Rightarrow> (Inl e, hs_contexts st, hs_heap st)
      | (Inr _, st) \<Rightarrow> (Inr (), (hs_contexts st)(c := SetParserState (hs_contexts st c) ParseStatePcode), hs_heap st))"

lemma base_stands:
  assumes "heap_ok h" "pc_BaseState (\<kappa> c) = Some base" "base < hp_next h"
  shows "stands base 0 base \<lparr>hs_contexts = \<kappa>, hs_heap = h, hs_walker = BaseState \<kappa> (NewParserWalker (Some c))\<rparr>"
  using assms by (simp add: stands_def walker_ok_def BaseState_def NewParserWalker_def trail_def Let_def)

lemma resolve_state_is_tree:
  assumes st: "stands base 0 base st" and root: "cs_Parent (hp_state (hs_heap st) base) = None"
    and tree: "handlesTree walkerMaxDepth pf hooks \<sigma> st = (r, st')"
  shows "\<exists>m. \<forall>fuel. resolveHandlesState (m + fuel) pf hooks \<sigma> st = (r, if r = Inr () then pop_walker st' else st')"
proof -
  have p: "pw_Point (hs_walker st) = Some base" using st by (simp add: stands_def)
  show ?thesis
  proof (cases "cs_Constructor (hp_state (hs_heap st) base)")
    case None
    then show ?thesis using p tree by (auto simp: resolveHandlesState_def numeral_eq_Suc)
  next
    case (Some ct)
    have "frame_done 31 pf hooks \<sigma> (length (cn_OperandSymbolIDs ct)) 0 st"
      by (rule all_frames_done [OF st _ _ Some]) simp_all
    from child_done [OF this p Some] obtain m where m: "\<And>fuel n rest.
        handlesLoop (m + fuel) pf hooks \<sigma> (\<lparr>hf_operand = 0, hf_numoper = n\<rparr> # rest) st =
        then_st (handlesTree (Suc 31) pf hooks \<sigma> st) (\<lambda>_ st. handlesLoop fuel pf hooks \<sigma> (bump_top rest) (pop_walker st))"
      by blast
    have home: "comes_back base 0 base st (handlesTree walkerMaxDepth pf hooks \<sigma> st)" by (rule tree_settles [OF st]) simp_all
    have top: "pw_Point (hs_walker (pop_walker st')) = None" if "r = Inr ()"
      using home tree that root stands_valid [OF st]
      by (auto simp: stands_def grows_def pop_walker_def PopOperand_def)
    have tree': "handlesTree (Suc 31) pf hooks \<sigma> st = (r, st')" using tree by simp
    have "resolveHandlesState (Suc m + fuel) pf hooks \<sigma> st = (r, if r = Inr () then pop_walker st' else st')" for fuel
    proof -
      have "resolveHandlesState (m + Suc fuel) pf hooks \<sigma> st =
          then_st (r, st') (\<lambda>_ st. handlesLoop (Suc fuel) pf hooks \<sigma> (bump_top []) (pop_walker st))"
        by (simp only: resolveHandlesState_def p Some option.case m tree')
      also have "\<dots> = (r, if r = Inr () then pop_walker st' else st')" by (cases r) (simp_all add: top)
      finally show ?thesis by simp
    qed
    then show ?thesis by blast
  qed
qed

lemma handles_walk_terminates:
  assumes "heap_ok h" "pc_BaseState (\<kappa> c) = Some base" "base < hp_next h" "cs_Parent (hp_state h base) = None"
  shows "fst (handles_by_recursion pf \<sigma> hooks c (\<kappa>, h)) \<noteq> Inl HandlesFuel \<and>
    (\<exists>m. \<forall>fuel \<ge> m. ResolveHandles fuel pf \<sigma> hooks c (\<kappa>, h) = handles_by_recursion pf \<sigma> hooks c (\<kappa>, h))"
proof -
  define st where "st = \<lparr>hs_contexts = \<kappa>, hs_heap = h, hs_walker = BaseState \<kappa> (NewParserWalker (Some c))\<rparr>"
  have at: "stands base 0 base st" unfolding st_def by (rule base_stands) fact+
  obtain r st' where run: "handlesTree walkerMaxDepth pf hooks \<sigma> st = (r, st')" by fastforce
  have "comes_back base 0 base st (r, st')" unfolding run [symmetric] by (rule tree_settles [OF at]) simp_all
  then have no_fuel: "r \<noteq> Inl HandlesFuel" by auto
  have point: "IsState (BaseState \<kappa> (NewParserWalker (Some c)))" using at by (auto simp: stands_def IsState_def st_def)
  from resolve_state_is_tree [OF at _ run] assms(4) obtain m where
    m: "\<And>fuel. resolveHandlesState (m + fuel) pf hooks \<sigma> st = (r, if r = Inr () then pop_walker st' else st')"
    by (auto simp: st_def)
  have "ResolveHandles fuel pf \<sigma> hooks c (\<kappa>, h) = handles_by_recursion pf \<sigma> hooks c (\<kappa>, h)" if "m \<le> fuel" for fuel
    using m [of "fuel - m"] that point run
    by (cases r) (simp_all add: ResolveHandles_def handles_by_recursion_def st_def pop_walker_def Let_def)
  moreover have "fst (handles_by_recursion pf \<sigma> hooks c (\<kappa>, h)) \<noteq> Inl HandlesFuel"
    using run no_fuel by (cases r) (simp_all add: handles_by_recursion_def st_def)
  ultimately show ?thesis by blast
qed



text \<open>An instruction with one operand, the register at offset 16 of space 2.\<close>

definition register_table :: SymbolTableBoundary where
  "register_table = \<lparr>tb_Scopes = [], tb_Symbols = [
     \<lparr>sy_Name = [], sy_ID = 7, sy_ScopeID = 0, sy_HeaderElement = elemOperandSymHead, sy_BodyElement = elemOperandSym,
       sy_Body = no_body\<lparr>bd_Operand := Some \<lparr>op_Index = 0, op_RelativeOffset = 0, op_OffsetBase = -1, op_MinimumLength = 0,
         op_CodeAddress = False, op_DefiningSymbolID = 8, op_HasDefiningSymbolID = True, op_LocalExpression = None,
         op_DefiningExpression = None\<rparr>\<rparr>\<rparr>,
     \<lparr>sy_Name = [], sy_ID = 8, sy_ScopeID = 0, sy_HeaderElement = elemVarnodeSymHead, sy_BodyElement = elemVarnodeSym,
       sy_Body = no_body\<lparr>bd_Varnode := Some \<lparr>vs_SpaceIndex = 2, vs_Offset = 16, vs_Size = 4\<rparr>\<rparr>\<rparr>]\<rparr>"

definition register_heap :: state_heap where
  "register_heap = \<lparr>hp_state = \<lambda>_. emptyState\<lparr>cs_Constructor := Some
     \<lparr>cn_ConstructorID = 0, cn_ParentSymbolID = 0, cn_FirstWhitespace = 0, cn_FlowThruIndex = -1, cn_MinimumLength = 1,
      cn_SourceFileIndex = 0, cn_LineNumber = 0, cn_OperandSymbolIDs = [7], cn_PrintPieces = [], cn_ContextOps = [],
      cn_ContextCommits = [], cn_MainSection = None, cn_NamedSections = []\<rparr>\<rparr>, hp_next = 1\<rparr>"

definition register_contexts :: ctx_store where
  "register_contexts = (\<lambda>_. (SetSymbolTable (fst (NewParserContext \<lparr>ad_Space = Some 1, ad_Offset = 0x1000\<rparr> (Some 0)
     \<lparr>hp_state = \<lambda>_. emptyState, hp_next = 0\<rparr>)) (Some register_table))\<lparr>pc_SpacesByIndex := [(2, 5)]\<rparr>)"

definition register_spaces :: space_store where
  "register_spaces = (\<lambda>_. \<lparr>sp_Name = [], sp_Kind = SpaceKindProcessor, sp_Index = 0, sp_AddrSize = 4, sp_WordSize = 1,
     sp_BigEndian = False, sp_Physical = True, sp_Delay = 0, sp_Truncated = False, sp_spacebases = []\<rparr>)"

definition no_handle_hooks :: ResolveHandlesHooks where
  "no_handle_hooks = \<lparr>rx_ResolveFixedHandle = None, rx_ResolveExpressionValue = None\<rparr>"

lemma register_run:
  "case handles_by_recursion 0 register_spaces no_handle_hooks 0 (register_contexts, register_heap) of
     (Inl _, _) \<Rightarrow> False
   | (Inr _, \<kappa>, h) \<Rightarrow> pc_ParserState (\<kappa> 0) = ParseStatePcode \<and>
       cs_Handle (hp_state h 1) = zeroHandle\<lparr>fh_Space := Some 5, fh_Size := 4, fh_OffsetOffset := 16\<rparr>"
  by code_simp

lemma register_setup: "heap_ok register_heap" "pc_BaseState (register_contexts 0) = Some 0" "0 < hp_next register_heap"
    "cs_Parent (hp_state register_heap 0) = None"
  by (auto simp: register_heap_def register_contexts_def heap_ok_def links_ok_def Child_def emptyState_def SetSymbolTable_def
      NewParserContext_def NewConstructState_def)


end
