(* ===== verification/Sla_ObtainLaws.thy ===== *)
theory Sla_ObtainLaws
  imports Sla_Obtain Sla_ResolveLaws Sla_HandlesLaws Sla_CacheLaws
begin

text \<open>
  A request for a parser context makes progress: it is answered with a context in the state it asked for, or with the
  error of the promotion step that could not be done. The contract of the two steps is a locale; the engine's steps
  satisfy it.
\<close>

section \<open>The contract of the promotion steps\<close>

locale promotion_steps =
  fixes resolve :: promotion
    and handles :: promotion
    and ok :: "ctx_ref \<Rightarrow> cache_world \<Rightarrow> bool"
  assumes resolve_promotes: "ok r w \<Longrightarrow> resolve r w = (Inr (), w') \<Longrightarrow> ok r w' \<and> parse_state w' r = ParseStateDisassembly"
    and handles_promotes: "ok r w \<Longrightarrow> handles r w = (Inr (), w') \<Longrightarrow> parse_state w' r = ParseStatePcode"
begin

lemma to_disassembly:
  assumes "ok r w"
  shows "case promoteToDisassembly (Some resolve) r w of
     (Inl e, w') \<Rightarrow> parse_state w r = ParseStateUninitialized \<and> resolve r w = (Inl e, w')
   | (Inr _, w') \<Rightarrow> ok r w' \<and> parse_state w' r \<noteq> ParseStateUninitialized \<and>
       (if parse_state w r = ParseStateUninitialized then resolve r w = (Inr (), w') else w' = w)"
  using assms by (cases "resolve r w"; cases "fst (resolve r w)") (auto simp: promoteToDisassembly_def dest: resolve_promotes)

lemma to_pcode:
  assumes "ok r w" "parse_state w r \<noteq> ParseStateUninitialized"
  shows "case promoteToPcode (Some handles) r w of
     (Inl e, w') \<Rightarrow> handles r w = (Inl e, w')
   | (Inr _, w') \<Rightarrow> parse_state w' r = ParseStatePcode"
  using assms by (cases "handles r w"; cases "fst (handles r w)") (auto simp: promoteToPcode_def dest: handles_promotes)

text \<open>The world the second step starts from.\<close>

definition disassembled :: "ctx_ref \<Rightarrow> cache_world \<Rightarrow> cache_world" where
  "disassembled r w = (if parse_state w r = ParseStateUninitialized then snd (resolve r w) else w)"

text \<open>A request ends in its target state, or with the error of one of the steps.\<close>

lemma request_outcome:
  assumes obtained: "ObtainParserContext (ob_Address req) (ob_ConstantSpace req) cw = (r, c, w0)"
    and w: "w = rekeyContext (ob_Address req) r w0" "ok r w"
    and steps: "ob_Resolve req = Some resolve" "ob_ResolveHandles req = Some handles"
    and res: "ObtainContext req cw = (res, c', w')"
  shows "(res = Inr r \<and> ob_TargetState req \<le> parse_state w' r) \<or>
    (\<exists>e. res = Inl e \<and> (resolve r w = (Inl e, w') \<or> ok r (disassembled r w) \<and> handles r (disassembled r w) = (Inl e, w')))"
proof (cases "ob_TargetState req \<le> parse_state w r")
  case True
  with res obtained w(1) show ?thesis by (auto simp: ObtainContext_def Let_def)
next
  case False
  then have target: "ob_TargetState req \<noteq> ParseStateUninitialized" by auto
  obtain r1 w1 where p1: "promoteToDisassembly (Some resolve) r w = (r1, w1)" by fastforce
  have eq: "ObtainContext req cw = (case then_st
      (if ob_TargetState req \<ge> ParseStateDisassembly then promoteToDisassembly (Some resolve) r w else (Inr (), w)) (\<lambda>_ w.
        then_st (if ob_TargetState req \<ge> ParseStatePcode then promoteToPcode (Some handles) r w else (Inr (), w)) (\<lambda>_ w.
          (if \<not> parse_state w r \<ge> ob_TargetState req then Inl (ErrTargetMissed (ob_TargetState req)) else Inr r, w))) of
      (res, w) \<Rightarrow> (res, c, w))"
    using False by (simp add: ObtainContext_def Let_def obtained w(1) steps cong: if_cong)
  note run = eq target p1
  show ?thesis
  proof (cases r1)
    case (Inl e)
    with to_disassembly [OF w(2)] p1 res show ?thesis by (auto simp: run)
  next
    case (Inr u)
    with to_disassembly [OF w(2)] p1 have w1: "ok r w1" "parse_state w1 r \<noteq> ParseStateUninitialized" "w1 = disassembled r w"
      by (auto simp: disassembled_def split: if_split_asm)
    show ?thesis
    proof (cases "ob_TargetState req = ParseStatePcode")
      case True
      obtain r2 w2 where p2: "promoteToPcode (Some handles) r w1 = (r2, w2)" by fastforce
      with to_pcode [OF w1(1,2)] w1 res Inr True show ?thesis
        by (cases r2) (auto simp: run p2)
    next
      case other: False
      then have "ob_TargetState req = ParseStateDisassembly" using target by (cases "ob_TargetState req") auto
      with w1 res Inr show ?thesis by (auto simp: run)
    qed
  qed
qed

end

section \<open>The engine's steps\<close>

text \<open>The base state of the context, when it has one, is a root of the tree.\<close>

definition ctx_rooted :: "ctx_ref \<Rightarrow> cache_world \<Rightarrow> bool" where
  "ctx_rooted r w = (heap_ok (cw_heap w) \<and>
     (\<forall>b. pc_BaseState (cw_ctx w r) = Some b \<longrightarrow> b < hp_next (cw_heap w) \<and> cs_Parent (hp_state (cw_heap w) b) = None))"

lemma ctx_rooted_upd:
  "pc_BaseState ctx = pc_BaseState (cw_ctx w r) \<Longrightarrow> ctx_rooted r (upd_ctx r ctx w) = ctx_rooted r w"
  by (simp add: ctx_rooted_def upd_ctx_def)

lemma resolve_promotion_settles:
  assumes "ctx_rooted r w" "hooks_ok hooks" "32 \<le> fuel"
  shows "case resolve_promotion symbols fuel pf \<sigma> hooks r w of
     (Inl e, _) \<Rightarrow> \<exists>e'. e = ErrResolveStep e' \<and> \<not> runaway e'
   | (Inr _, w') \<Rightarrow> ctx_rooted r w' \<and> parse_state w' r = ParseStateDisassembly"
proof -
  define w1 where "w1 = (if symbols \<noteq> None then upd_ctx r (SetSymbolTable (cw_ctx w r) symbols) w else w)"
  have "ctx_rooted r w1" using assms(1) by (simp add: w1_def ctx_rooted_upd SetSymbolTable_def)
  define st where "st = \<lparr>rs_contexts = cw_ctx w1, rs_heap = cw_heap w1, rs_change = NewParserWalkerChange None\<rparr>"
  have "base_root r st" using \<open>ctx_rooted r w1\<close> by (auto simp: ctx_rooted_def base_root_def st_def split: option.split)
  from resolve_all [OF this assms(2,3), of pf \<sigma>] show ?thesis
    unfolding resolve_promotion_def w1_def [symmetric] Let_def st_def [symmetric]
    by (cases "Resolve fuel pf \<sigma> hooks r st")
      (auto simp: ctx_rooted_def parse_state_def at_root_def at_depth_def walker_ok_def split: sum.splits)
qed

lemma handles_promotion_pcode:
  assumes "handles_promotion symbols spaces fuel pf \<sigma> hooks r w = (Inr (), w')"
  shows "parse_state w' r = ParseStatePcode"
  using assms by (auto simp: handles_promotion_def ResolveHandles_def parse_state_def Let_def SetParserState_def
      split: prod.split_asm sum.split_asm if_split_asm)

lemma handles_promotion_settles:
  assumes "ctx_rooted r w"
  shows "\<exists>m. \<forall>fuel\<ge>m. \<forall>e w'. handles_promotion symbols spaces fuel pf \<sigma> hooks r w = (Inl e, w') \<longrightarrow>
    (\<exists>e'. e = ErrHandlesStep e' \<and> e' \<noteq> HandlesFuel)"
proof -
  define ctx where "ctx = (let ctx = cw_ctx w r; ctx = (if symbols \<noteq> None \<and> pc_Symbols ctx = None then SetSymbolTable ctx symbols else ctx)
    in if pc_SpacesByIndex ctx = [] then ctx\<lparr>pc_SpacesByIndex := spaces\<rparr> else ctx)"
  define w1 where "w1 = upd_ctx r ctx w"
  have "ctx_rooted r w1" using assms by (simp add: w1_def ctx_rooted_upd ctx_def SetSymbolTable_def Let_def)
  have step: "handles_promotion symbols spaces fuel pf \<sigma> hooks r w =
      (case ResolveHandles fuel pf \<sigma> hooks r (cw_ctx w1, cw_heap w1) of
        (res, \<kappa>, h) \<Rightarrow> (case res of Inl e \<Rightarrow> Inl (ErrHandlesStep e) | Inr _ \<Rightarrow> Inr (), w1\<lparr>cw_ctx := \<kappa>, cw_heap := h\<rparr>))" for fuel
    by (simp add: handles_promotion_def w1_def ctx_def Let_def)
  show ?thesis
  proof (cases "pc_BaseState (cw_ctx w1 r)")
    case None
    then show ?thesis
      by (auto simp: step ResolveHandles_def IsState_def BaseState_def NewParserWalker_def Let_def)
  next
    case (Some b)
    with \<open>ctx_rooted r w1\<close> have "heap_ok (cw_heap w1)" "b < hp_next (cw_heap w1)" "cs_Parent (hp_state (cw_heap w1) b) = None"
      by (auto simp: ctx_rooted_def)
    from handles_walk_terminates [where \<kappa> = "cw_ctx w1" and c = r, OF this(1) Some this(2,3), of pf \<sigma> hooks]
    show ?thesis by (fastforce simp: step split: prod.splits sum.splits)
  qed
qed

definition steps_ok :: "nat \<Rightarrow> ResolveHooks \<Rightarrow> ctx_ref \<Rightarrow> cache_world \<Rightarrow> bool" where
  "steps_ok fuel hooks r w = (ctx_rooted r w \<and> hooks_ok hooks \<and> 32 \<le> fuel)"

interpretation engine: promotion_steps "resolve_promotion symbols fuel pf \<sigma> hooks" "handles_promotion symbols' spaces hfuel pf' \<sigma>' hooks'" "steps_ok fuel hooks"
proof unfold_locales
  fix r w w'
  assume "steps_ok fuel hooks r w" "resolve_promotion symbols fuel pf \<sigma> hooks r w = (Inr (), w')"
  then show "steps_ok fuel hooks r w' \<and> parse_state w' r = ParseStateDisassembly"
    using resolve_promotion_settles [of r w hooks fuel symbols pf \<sigma>] by (auto simp: steps_ok_def)
qed (rule handles_promotion_pcode)

section \<open>Requests\<close>

text \<open>Every context of the world is rooted; a request keeps it so.\<close>

definition world_rooted :: "cache_world \<Rightarrow> bool" where
  "world_rooted w = (\<forall>r. ctx_rooted r w)"

lemma world_rootedI:
  assumes "heap_ok (cw_heap w)"
    and "\<And>r b. pc_BaseState (cw_ctx w r) = Some b \<Longrightarrow> b < hp_next (cw_heap w) \<and> cs_Parent (hp_state (cw_heap w) b) = None"
  shows "world_rooted w"
  using assms by (auto simp: world_rooted_def ctx_rooted_def)

text \<open>A context that gets a fresh base state, or keeps its own.\<close>

lemma fresh_base_rooted:
  assumes "world_rooted w" "NewConstructState (cw_heap w) = (b, h)" "cw_heap w' = h"
    and "\<And>q. pc_BaseState (cw_ctx w' q) = pc_BaseState (cw_ctx w q) \<or> pc_BaseState (cw_ctx w' q) = Some b"
  shows "world_rooted w'"
proof -
  have ok: "heap_ok (cw_heap w)" using assms(1) by (simp add: world_rooted_def ctx_rooted_def)
  from NewConstructState_ok [OF ok assms(2)] assms show ?thesis
    by (intro world_rootedI)
      (auto simp: world_rooted_def ctx_rooted_def NewConstructState_def emptyState_def less_Suc_eq split: if_split_asm,
        (metis option.inject less_Suc_eq)+)
qed

lemma same_base_rooted:
  assumes "world_rooted w" "cw_heap w' = cw_heap w" "\<And>q. pc_BaseState (cw_ctx w' q) = pc_BaseState (cw_ctx w q)"
  shows "world_rooted w'"
  using assms by (simp add: world_rooted_def ctx_rooted_def)

lemma initialize_rooted: "world_rooted w \<Longrightarrow> world_rooted (initializeOnce r cs w)"
proof (cases "pc_ConstSpace (cw_ctx w r) = None \<and> cs \<noteq> None \<and> pc_BaseState (cw_ctx w r) = None")
  case True
  obtain b h where "NewConstructState (cw_heap w) = (b, h)" by fastforce
  moreover assume "world_rooted w"
  ultimately show ?thesis
    using True by (elim fresh_base_rooted) (auto simp: initializeOnce_def ParserContext_Initialize_def upd_ctx_def Let_def)
next
  case False
  assume "world_rooted w"
  then show ?thesis
    by (rule same_base_rooted) (use False in \<open>auto simp: initializeOnce_def ParserContext_Initialize_def upd_ctx_def Let_def\<close>)
qed

lemma recycle_rooted: "world_rooted w \<Longrightarrow> world_rooted (recycleContext r addr cs w)"
proof -
  assume w: "world_rooted w"
  obtain b h where n: "NewConstructState (cw_heap w) = (b, h)" by fastforce
  show ?thesis
    unfolding recycleContext_def Let_def n prod.case
    by (rule initialize_rooted, rule fresh_base_rooted [OF w n]) (auto simp: upd_ctx_def)
qed

lemma alloc_rooted: "world_rooted w \<Longrightarrow> world_rooted (snd (allocContext addr cs w))"
proof -
  assume w: "world_rooted w"
  obtain b h where n: "NewConstructState (cw_heap w) = (b, h)" by fastforce
  show ?thesis
    by (rule fresh_base_rooted [OF w n]) (auto simp: allocContext_def NewParserContext_def n upd_ctx_def Let_def)
qed

lemma obtain_rooted:
  assumes "world_rooted w" "ObtainParserContext addr cs (c, w) = (r, c', w')"
  shows "world_rooted w'"
  using assms(2) initialize_rooted [OF assms(1)] recycle_rooted [OF assms(1)] alloc_rooted [OF assms(1), of addr cs]
  by (auto simp: ObtainParserContext_def Let_def split: option.split_asm prod.split_asm)

lemma rekey_rooted: "world_rooted w \<Longrightarrow> world_rooted (rekeyContext addr r w)"
  by (erule same_base_rooted) (auto simp: rekeyContext_def upd_ctx_def SetN2addr_def SetAddr_def SetParserState_def Let_def)



text \<open>A request for the disassembly of an instruction with one token operand, whose context is in the cache.\<close>

definition token_world :: cache_world where
  "token_world = \<lparr>cw_ctx = rs_contexts token_state, cw_next = 1, cw_heap = rs_heap token_state\<rparr>"

definition token_cache :: DisassemblyCache where
  "token_cache = emptyDisassemblyCache\<lparr>dc_contexts := [\<lparr>ad_Space = Some 0, ad_Offset = 0x1000\<rparr> \<mapsto> 0]\<rparr>"

definition token_request :: ObtainContextRequest where
  "token_request = \<lparr>ob_Address = \<lparr>ad_Space = Some 0, ad_Offset = 0x1000\<rparr>, ob_TargetState = ParseStatePcode, ob_ConstantSpace = Some 1,
     ob_Resolve = Some (resolve_promotion (Some token_table) 32 0 token_spaces token_hooks), ob_ResolveHandles = None\<rparr>"

lemma token_rooted: "world_rooted token_world"
proof (rule world_rootedI)
  fix r b assume "pc_BaseState (cw_ctx token_world r) = Some b"
  moreover have "pc_BaseState (rs_contexts token_state r) = pc_BaseState (rs_contexts token_state 0)"
    by (simp add: token_state_def Let_def split: prod.split)
  ultimately show "b < hp_next (cw_heap token_world) \<and> cs_Parent (hp_state (cw_heap token_world) b) = None"
    using token_setup(1) by (simp add: base_root_def token_world_def)
qed (use token_setup(1) in \<open>simp add: base_root_def token_world_def\<close>)

lemma token_obtain: "fst (ObtainParserContext (ob_Address token_request) (ob_ConstantSpace token_request) (token_cache, token_world)) = 0"
  by (simp add: ObtainParserContext_def token_request_def token_cache_def)


end
