(* ===== verification/Sla_Builder.thy ===== *)
theory Sla_Builder
  imports Sla_Obtain Sla_Lower
begin

text \<open>
  \<^verbatim>\<open>pkg/sla/builder.go\<close>, \<^verbatim>\<open>builder_build.go\<close>, \<^verbatim>\<open>builder_cross.go\<close> and \<^verbatim>\<open>builder_delay.go\<close>: the builder, which runs over
  the operation templates of a constructor and follows the directives into operands, delay slots and other
  instructions, and the tail of \<^verbatim>\<open>translate.go\<close> that collects what a root build emits.

  The builder holds pointers to a walker and to a cache. Walkers are references, since a cross-build
  replaces the builder's walker and a later pop may go to the old one or the new one; there is one cache. A callback gets the
  builder's state by value and may change all that is behind its pointers, the \<open>build_world\<close>, which also holds the
  callbacks' own state and the state of the sink.

  \<open>fuel\<close> bounds the nesting of builds: a cross-build may come back to its own instruction, and then the program recurses until its stack
  is exhausted. The texts of the errors are left out, and so are the names of operations: those
  of decoded templates are never the name of a directive.
\<close>

section \<open>Data\<close>

text \<open>
  An \<^verbatim>\<open>UnimplError\<close> with its optional instruction length; an error that wraps \<^verbatim>\<open>ErrBuilderUnimplemented\<close> without
  being one; and the plain errors.
\<close>

datatype builder_error = ErrUnimpl "int option" | ErrBuilderUnimplemented | ErrRawBuild raw_error
  | ErrBuildFix fix_error | ErrBuildWalk walker_error | ErrBuildLower lower_error
  | ErrDirectiveInputs | ErrDirectiveConst ConstKind | ErrDirectiveRange | ErrBuildOperand | ErrEmptySection int
  | ErrNoCache | ErrContextMissing | ErrCrossSection | ErrCrossInputs | ErrCrossWalker | ErrCrossCache | ErrCrossTarget Address
  | ErrCrossSpace | ErrCrossState Address | ErrDelayWalker | ErrDelayContext | ErrDelaySpace | ErrDelayLength
  | ErrDelayTarget Address | ErrDelayTargetLength Address | ErrDelayConstructor Address | ErrDelayState Address
  | ErrBuildHook | BuilderFuel

definition normalizeBuilderUnimpl :: "builder_error \<Rightarrow> builder_error" where
  "normalizeBuilderUnimpl e = (case e of ErrBuilderUnimplemented \<Rightarrow> ErrUnimpl None | _ \<Rightarrow> e)"

record RawLabelResolver =
  lr_refs :: "u64 list"
  lr_labels :: "u64 \<Rightarrow> u64 option"

record ('k, 'e) build_world =
  bw_walkers :: "nat \<Rightarrow> ParserWalker"
  bw_nextWalker :: nat
  bw_cache :: DisassemblyCache
  bw_store :: cache_world
  bw_hook :: 'k
  bw_sink :: 'e

type_synonym ('k, 'e, 'a) calling = "('k, 'e) build_world \<Rightarrow> (builder_error + 'a) \<times> ('k, 'e) build_world"

record ('k, 'e) BuilderState =
  bs_Runtime :: RuntimeContext
  bs_Walker :: "nat option"
  bs_HasCache :: bool
  bs_SectionID :: int
  bs_ObtainContextFallback :: "(Address \<Rightarrow> ParseState \<Rightarrow> ('k, 'e, ctx_ref option) calling) option"

record ('k, 'e) BuilderHooks =
  bh_Dump :: "(OpTplBoundary \<Rightarrow> ('k, 'e) BuilderState \<Rightarrow> ('k, 'e, unit) calling) option"
  bh_LowerRaw :: "(OpTplBoundary \<Rightarrow> ('k, 'e) BuilderState \<Rightarrow> u64 \<Rightarrow> ('k, 'e, RawOp list) calling) option"
  bh_RawEmitter :: "('e \<Rightarrow> RawOp \<Rightarrow> unit + 'e) option"
  bh_OnLabel :: "(u64 \<Rightarrow> ('k, 'e) BuilderState \<Rightarrow> ('k, 'e, unit) calling) option"
  bh_ResolveBuild :: "(OpTplBoundary \<Rightarrow> int \<Rightarrow> int \<Rightarrow> ('k, 'e) BuilderState
    \<Rightarrow> ('k, 'e, ConstructTplBoundary option \<times> int \<times> bool) calling) option"
  bh_OnBuild :: "(OpTplBoundary \<Rightarrow> int \<Rightarrow> int \<Rightarrow> ('k, 'e) BuilderState \<Rightarrow> ('k, 'e, unit) calling) option"
  bh_OnDelaySlot :: "(OpTplBoundary \<Rightarrow> ('k, 'e) BuilderState \<Rightarrow> ('k, 'e, unit) calling) option"
  bh_OnCrossBuild :: "(OpTplBoundary \<Rightarrow> int \<Rightarrow> ('k, 'e) BuilderState \<Rightarrow> ('k, 'e, unit) calling) option"

text \<open>\<open>rawBuildDepth\<close> counts live calls, so it stays in the range of an \<^verbatim>\<open>int\<close>.\<close>

record PcodeBuilder =
  pb_LabelBase :: u64
  pb_LabelCount :: u64
  pb_LabelResolver :: RawLabelResolver
  pb_rawInstruction :: Address
  pb_rawBuildDepth :: nat

record ('k, 'e) SleighBuilder =
  sb_Pcode :: PcodeBuilder
  sb_State :: "('k, 'e) BuilderState"
  sb_Hooks :: "('k, 'e) BuilderHooks"
  sb_world :: "('k, 'e) build_world"

type_synonym ('k, 'e, 'a) building = "('k, 'e) SleighBuilder \<Rightarrow> (builder_error + 'a) \<times> ('k, 'e) SleighBuilder"

definition NewRawLabelResolver :: RawLabelResolver where
  "NewRawLabelResolver = \<lparr>lr_refs = [], lr_labels = (\<lambda>_. None)\<rparr>"

definition resolver_clear :: "RawLabelResolver \<Rightarrow> RawLabelResolver" where
  "resolver_clear r = r\<lparr>lr_refs := [], lr_labels := (\<lambda>_. None)\<rparr>"

definition AddRelativeRef :: "u64 \<Rightarrow> RawLabelResolver \<Rightarrow> RawLabelResolver" where
  "AddRelativeRef opIndex r = r\<lparr>lr_refs := lr_refs r @ [opIndex]\<rparr>"

definition resolver_AddLabel :: "u64 \<Rightarrow> u64 \<Rightarrow> RawLabelResolver \<Rightarrow> RawLabelResolver" where
  "resolver_AddLabel labelID opIndex r = r\<lparr>lr_labels := (lr_labels r)(labelID \<mapsto> opIndex)\<rparr>"

text \<open>\<^verbatim>\<open>Resolve\<close> of the resolver, which patches the operations in place.\<close>

definition resolver_patch :: "RawLabelResolver \<Rightarrow> u64 \<Rightarrow> RawOp list \<Rightarrow> (raw_error + unit) \<times> RawOp list" where
  "resolver_patch r refIndex ops =
     (if unat refIndex \<ge> length ops then (Inl ErrFirstOpIndex, ops)
      else
        let refOp = ops ! unat refIndex in
        case ro_Inputs refOp of
          [] \<Rightarrow> (Inl ErrNoFirstInput, ops)
        | v # vs \<Rightarrow> (case labelMask (rv_Size v) of
            Inl e \<Rightarrow> (Inl e, ops)
          | Inr m \<Rightarrow> (case lr_labels r (rv_Offset v) of
              None \<Rightarrow> (Inl (ErrLabelMissing (rv_Offset v)), ops)
            | Some targetIndex \<Rightarrow>
                (Inr (), ops[unat refIndex := refOp\<lparr>ro_Inputs := v\<lparr>rv_Offset := (targetIndex - refIndex) AND m\<rparr> # vs\<rparr>]))))"

definition resolver_Resolve :: "RawLabelResolver \<Rightarrow> RawOp list \<Rightarrow> (raw_error + unit) \<times> RawOp list" where
  "resolver_Resolve r ops = loop_st (resolver_patch r) (lr_refs r) ops"

definition NewSleighBuilder :: "RuntimeContext \<Rightarrow> u64 \<Rightarrow> int \<Rightarrow> ('k, 'e) BuilderHooks \<Rightarrow> ('k, 'e) build_world \<Rightarrow> ('k, 'e) SleighBuilder" where
  "NewSleighBuilder runtime labelBase sectionID hooks w =
     \<lparr>sb_Pcode = \<lparr>pb_LabelBase = labelBase, pb_LabelCount = labelBase, pb_LabelResolver = NewRawLabelResolver,
        pb_rawInstruction = rc_Instruction runtime, pb_rawBuildDepth = 0\<rparr>,
      sb_State = \<lparr>bs_Runtime = runtime, bs_Walker = None, bs_HasCache = False, bs_SectionID = sectionID,
        bs_ObtainContextFallback = None\<rparr>,
      sb_Hooks = hooks, sb_world = w\<rparr>"

section \<open>Reading and changing the builder\<close>

definition set_walker :: "nat option \<Rightarrow> ('k, 'e) SleighBuilder \<Rightarrow> ('k, 'e) SleighBuilder" where
  "set_walker r b = b\<lparr>sb_State := (sb_State b)\<lparr>bs_Walker := r\<rparr>\<rparr>"

definition set_section :: "int \<Rightarrow> ('k, 'e) SleighBuilder \<Rightarrow> ('k, 'e) SleighBuilder" where
  "set_section i b = b\<lparr>sb_State := (sb_State b)\<lparr>bs_SectionID := i\<rparr>\<rparr>"

text \<open>The walker behind the builder's pointer, the state it stands on, its context, and the heap.\<close>

definition the_walker :: "('k, 'e) SleighBuilder \<Rightarrow> ParserWalker option" where
  "the_walker b = map_option (bw_walkers (sb_world b)) (bs_Walker (sb_State b))"

definition the_point :: "('k, 'e) SleighBuilder \<Rightarrow> state_ref option" where
  "the_point b = Option.bind (the_walker b) pw_Point"

definition the_context :: "('k, 'e) SleighBuilder \<Rightarrow> ctx_ref option" where
  "the_context b = Option.bind (the_walker b) pw_constContext"

definition ctx_of :: "('k, 'e) SleighBuilder \<Rightarrow> ctx_store" where
  "ctx_of b = cw_ctx (bw_store (sb_world b))"

definition heap_of :: "('k, 'e) SleighBuilder \<Rightarrow> state_heap" where
  "heap_of b = cw_heap (bw_store (sb_world b))"

text \<open>A call of a callback, and of an operation of the cache.\<close>

definition call_hook :: "(('k, 'e) BuilderState \<Rightarrow> ('k, 'e, 'a) calling) \<Rightarrow> ('k, 'e, 'a) building" where
  "call_hook f b = (case f (sb_State b) (sb_world b) of (r, w) \<Rightarrow> (r, b\<lparr>sb_world := w\<rparr>))"

definition set_cache :: "DisassemblyCache \<Rightarrow> ('k, 'e) SleighBuilder \<Rightarrow> ('k, 'e) SleighBuilder" where
  "set_cache c b = b\<lparr>sb_world := (sb_world b)\<lparr>bw_cache := c\<rparr>\<rparr>"

definition on_cache :: "(DisassemblyCache \<Rightarrow> (raw_error + 'a) \<times> DisassemblyCache) \<Rightarrow> ('k, 'e, 'a) building" where
  "on_cache f b = (case f (bw_cache (sb_world b)) of
     (Inl e, c) \<Rightarrow> (Inl (ErrRawBuild e), set_cache c b) | (Inr x, c) \<Rightarrow> (Inr x, set_cache c b))"

definition normalized :: "(builder_error + 'a) \<times> 's \<Rightarrow> (builder_error + 'a) \<times> 's" where
  "normalized r = (case r of (Inl e, b) \<Rightarrow> (Inl (normalizeBuilderUnimpl e), b) | (Inr x, b) \<Rightarrow> (Inr x, b))"

text \<open>\<^verbatim>\<open>PushOperand\<close> on the builder's walker, and \<^verbatim>\<open>PopOperand\<close> on the walker at a reference.\<close>

definition set_tree :: "nat \<Rightarrow> ParserWalker \<Rightarrow> state_heap \<Rightarrow> ('k, 'e) SleighBuilder \<Rightarrow> ('k, 'e) SleighBuilder" where
  "set_tree r w h b = b\<lparr>sb_world := (sb_world b)\<lparr>bw_walkers := (bw_walkers (sb_world b))(r := w),
     bw_store := (bw_store (sb_world b))\<lparr>cw_heap := h\<rparr>\<rparr>\<rparr>"

definition builder_push :: "nat \<Rightarrow> int \<Rightarrow> ('k, 'e, unit) building" where
  "builder_push r i b =
     (case PushOperand (heap_of b) (bw_walkers (sb_world b) r) i of
        Inl e \<Rightarrow> (Inl (ErrBuildWalk e), b)
      | Inr (w, h) \<Rightarrow> (Inr (), set_tree r w h b))"

definition builder_pop :: "nat \<Rightarrow> ('k, 'e) SleighBuilder \<Rightarrow> ('k, 'e) SleighBuilder" where
  "builder_pop r b = set_tree r (PopOperand (heap_of b) (bw_walkers (sb_world b) r)) (heap_of b) b"

text \<open>A new walker, which the builder does not use yet.\<close>

definition new_walker :: "ParserWalker \<Rightarrow> ('k, 'e) SleighBuilder \<Rightarrow> nat \<times> ('k, 'e) SleighBuilder" where
  "new_walker w b = (let r = bw_nextWalker (sb_world b) in
     (r, b\<lparr>sb_world := (sb_world b)\<lparr>bw_walkers := (bw_walkers (sb_world b))(r := w), bw_nextWalker := Suc r\<rparr>\<rparr>))"

section \<open>Contexts\<close>

definition RequireWalkerPcodeParserContext :: "('k, 'e) SleighBuilder \<Rightarrow> builder_error + ctx_ref" where
  "RequireWalkerPcodeParserContext b =
     (case the_context b of
        None \<Rightarrow> Inl ErrContextMissing
      | Some c \<Rightarrow>
          if \<not> bs_HasCache (sb_State b) then Inl ErrNoCache
          else case RequirePcodeParserContext (bw_store (sb_world b)) (bw_cache (sb_world b)) (pc_Addr (ctx_of b c)) of
            Inl _ \<Rightarrow> Inl ErrContextMissing | Inr r \<Rightarrow> Inr r)"

definition requireOrObtainPcodeContext :: "Address \<Rightarrow> ('k, 'e, ctx_ref) building" where
  "requireOrObtainPcodeContext addr b =
     (if \<not> bs_HasCache (sb_State b) then (Inl ErrNoCache, b)
      else case RequirePcodeParserContext (bw_store (sb_world b)) (bw_cache (sb_world b)) addr of
        Inr c \<Rightarrow> (Inr c, b)
      | Inl _ \<Rightarrow> (case bs_ObtainContextFallback (sb_State b) of
          None \<Rightarrow> (Inl ErrContextMissing, b)
        | Some f \<Rightarrow> (case call_hook (\<lambda>_. f addr ParseStateDisassembly) b of
            (Inr (Some c), b) \<Rightarrow> (if pc_ParserState (ctx_of b c) \<ge> ParseStatePcode then Inr c else Inl ErrContextMissing, b)
          | (_, b) \<Rightarrow> (Inl ErrContextMissing, b))))"

section \<open>Directives\<close>

definition directiveName :: "OpTplBoundary \<Rightarrow> directive option" where
  "directiveName op =
     (if ot_OpcodeID op = 60 then Some DirectiveBuild
      else if ot_OpcodeID op = 61 then Some DirectiveDelaySlot
      else if ot_OpcodeID op = 65 then Some DirectiveLabel
      else if ot_OpcodeID op = 66 then Some DirectiveCrossBuild
      else None)"

definition realConstValue :: "ConstBoundary \<Rightarrow> builder_error + int" where
  "realConstValue c =
     (if cb_Kind c \<noteq> ConstKindReal \<and> cb_Kind c \<noteq> ConstKindRelative then Inl (ErrDirectiveConst (cb_Kind c))
      else if cb_Value c > 0x7fffffffffffffff then Inl ErrDirectiveRange
      else Inr (i64_of (cb_Value c)))"

definition directiveOperandIndex :: "OpTplBoundary \<Rightarrow> builder_error + int" where
  "directiveOperandIndex op =
     (case ot_Inputs op of [] \<Rightarrow> Inl ErrDirectiveInputs | v # _ \<Rightarrow> realConstValue (vt_Offset v))"

definition isSubtableOperand :: "SymbolTableBoundary option \<Rightarrow> ConstructorBoundary option \<Rightarrow> int \<Rightarrow> bool" where
  "isSubtableOperand symbols constructor i =
     (case FindOperandForConstructor symbols constructor i of
        None \<Rightarrow> False
      | Some operand \<Rightarrow>
          if \<not> op_HasDefiningSymbolID operand then False
          else case FindSymbol symbols (op_DefiningSymbolID operand) of
            None \<Rightarrow> False | Some s \<Rightarrow> bd_Subtable (sy_Body s) \<noteq> None)"

definition crossBuildTargetAddress :: "space_store \<Rightarrow> VarnodeTplBoundary \<Rightarrow> RuntimeContext \<Rightarrow> builder_error + Address" where
  "crossBuildTargetAddress \<sigma> v runtime =
     (case fixConstSpace (vt_Space v) runtime of
        Inl e \<Rightarrow> Inl (ErrBuildFix e)
      | Inr space \<Rightarrow> (case fixConstScalar \<sigma> (vt_Offset v) runtime of
          Inl e \<Rightarrow> Inl (ErrBuildFix e)
        | Inr offset \<Rightarrow>
            if space = None then Inl ErrCrossSpace
            else Inr \<lparr>ad_Space = space, ad_Offset = wrapSpaceOffset \<sigma> space offset\<rparr>))"

section \<open>Raw builds\<close>

definition rawInstructionAddress :: "space_store \<Rightarrow> ('k, 'e) SleighBuilder \<Rightarrow> builder_error + Address" where
  "rawInstructionAddress \<sigma> b =
     (if Address_Validate \<sigma> (pb_rawInstruction (sb_Pcode b)) = None then Inr (pb_rawInstruction (sb_Pcode b))
      else if Address_Validate \<sigma> (rc_Instruction (bs_Runtime (sb_State b))) = None
      then Inr (rc_Instruction (bs_Runtime (sb_State b)))
      else case the_context b of
        None \<Rightarrow> Inl (ErrUnimpl None)
      | Some c \<Rightarrow>
          if Address_Validate \<sigma> (pc_Addr (ctx_of b c)) = None then Inr (pc_Addr (ctx_of b c)) else Inl (ErrUnimpl None))"

definition set_depth :: "nat \<Rightarrow> ('k, 'e) SleighBuilder \<Rightarrow> ('k, 'e) SleighBuilder" where
  "set_depth n b = b\<lparr>sb_Pcode := (sb_Pcode b)\<lparr>pb_rawBuildDepth := n\<rparr>\<rparr>"

definition beginRoot :: "space_store \<Rightarrow> nat \<Rightarrow> ('k, 'e, unit) building" where
  "beginRoot \<sigma> capacityHint b =
     (case rawInstructionAddress \<sigma> b of
        Inl e \<Rightarrow> (Inl e, b)
      | Inr instruction \<Rightarrow> on_cache (BeginRawBuild \<sigma> instruction (int capacityHint))
          (b\<lparr>sb_Pcode := (sb_Pcode b)\<lparr>pb_rawInstruction := instruction\<rparr>\<rparr>))"

definition enterRawBuild :: "space_store \<Rightarrow> nat \<Rightarrow> ('k, 'e, bool) building" where
  "enterRawBuild \<sigma> capacityHint b =
     (if \<not> bs_HasCache (sb_State b) then (Inl (ErrUnimpl None), b)
      else
        let root = (pb_rawBuildDepth (sb_Pcode b) = 0) in
        then_st (if root then beginRoot \<sigma> capacityHint b else (Inr (), b)) (\<lambda>_ b.
          (Inr root, set_depth (Suc (pb_rawBuildDepth (sb_Pcode b))) b)))"

definition cancelRoot :: "('k, 'e) SleighBuilder \<Rightarrow> ('k, 'e) SleighBuilder" where
  "cancelRoot b = set_cache (snd (CancelRawBuild (pb_rawInstruction (sb_Pcode b)) (bw_cache (sb_world b)))) b"

text \<open>Without a sink the operations go to one that drops them.\<close>

definition the_sink :: "('k, 'e) BuilderHooks \<Rightarrow> 'e \<Rightarrow> RawOp \<Rightarrow> unit + 'e" where
  "the_sink hooks = (case bh_RawEmitter hooks of None \<Rightarrow> (\<lambda>k _. Inr k) | Some f \<Rightarrow> f)"

definition emitRoot :: "('k, 'e, unit) building" where
  "emitRoot b =
     (case EmitRawBuildTo (the_sink (sb_Hooks b)) (bw_sink (sb_world b)) (pb_rawInstruction (sb_Pcode b)) (bw_cache (sb_world b)) of
        (Inl e, c) \<Rightarrow> (Inl (ErrRawBuild e), set_cache c b)
      | (Inr k, c) \<Rightarrow> (Inr (), (set_cache c b)\<lparr>sb_world := (sb_world (set_cache c b))\<lparr>bw_sink := k\<rparr>\<rparr>))"

definition cancel_on_error :: "(builder_error + unit) \<times> ('k, 'e) SleighBuilder \<Rightarrow> (builder_error + unit) \<times> ('k, 'e) SleighBuilder" where
  "cancel_on_error r = (case r of (Inl e, b) \<Rightarrow> (Inl e, cancelRoot b) | (Inr _, b) \<Rightarrow> (Inr (), b))"

definition leaveRawBuild :: "bool \<Rightarrow> bool \<Rightarrow> ('k, 'e, unit) building" where
  "leaveRawBuild root failed b =
     (if bh_LowerRaw (sb_Hooks b) = None then (Inr (), b)
      else
        let b = set_depth (pb_rawBuildDepth (sb_Pcode b) - 1) b in
        if \<not> root then (Inr (), b)
        else if failed then (Inr (), cancelRoot b)
        else cancel_on_error (then_st (on_cache (ResolveRawBuild (pb_rawInstruction (sb_Pcode b))) b) (\<lambda>_ b. emitRoot b)))"

definition dumpToRawCache :: "(OpTplBoundary \<Rightarrow> ('k, 'e) BuilderState \<Rightarrow> u64 \<Rightarrow> ('k, 'e, RawOp list) calling) \<Rightarrow> OpTplBoundary
    \<Rightarrow> ('k, 'e, unit) building" where
  "dumpToRawCache lowerRaw op b =
     (if \<not> bs_HasCache (sb_State b) \<or> pb_rawBuildDepth (sb_Pcode b) = 0 then (Inl (ErrUnimpl None), b)
      else case RawBuildLength (bw_cache (sb_world b)) (pb_rawInstruction (sb_Pcode b)) of
        Inl e \<Rightarrow> (Inl (ErrRawBuild e), b)
      | Inr order \<Rightarrow>
          then_st (normalized (call_hook (\<lambda>state. lowerRaw op state order) b)) (\<lambda>lowered b.
            on_cache (AppendRawBuild (pb_rawInstruction (sb_Pcode b)) op lowered (pb_LabelBase (sb_Pcode b))) b))"

definition cacheRawLabel :: "u64 \<Rightarrow> ('k, 'e, unit) building" where
  "cacheRawLabel labelID b =
     (if \<not> bs_HasCache (sb_State b) \<or> pb_rawBuildDepth (sb_Pcode b) = 0 then (Inl (ErrUnimpl None), b)
      else on_cache (AddRawBuildLabel (pb_rawInstruction (sb_Pcode b)) labelID) b)"

definition dump :: "OpTplBoundary \<Rightarrow> ('k, 'e, unit) building" where
  "dump op b =
     (case bh_LowerRaw (sb_Hooks b) of
        Some lowerRaw \<Rightarrow> dumpToRawCache lowerRaw op b
      | None \<Rightarrow> (case bh_Dump (sb_Hooks b) of
          None \<Rightarrow> (Inl (ErrUnimpl None), b)
        | Some f \<Rightarrow> call_hook (f op) b))"

definition SetLabel :: "OpTplBoundary \<Rightarrow> ('k, 'e, unit) building" where
  "SetLabel op b =
     (case directiveOperandIndex op of
        Inl e \<Rightarrow> (Inl e, b)
      | Inr labelIndex \<Rightarrow>
          let absolute = pb_LabelBase (sb_Pcode b) + u64_of labelIndex in
          then_st (if bh_LowerRaw (sb_Hooks b) \<noteq> None then cacheRawLabel absolute b else (Inr (), b)) (\<lambda>_ b.
            case bh_OnLabel (sb_Hooks b) of
              Some f \<Rightarrow> normalized (call_hook (f absolute) b)
            | None \<Rightarrow> (if bh_LowerRaw (sb_Hooks b) \<noteq> None then Inr () else Inl (ErrUnimpl None), b)))"

section \<open>A build, given what it does with an operation\<close>

text \<open>The scope of a build: its section and its range of labels. Both are put back whatever happens.\<close>

definition open_scope :: "int \<Rightarrow> u64 \<Rightarrow> ('k, 'e) SleighBuilder \<Rightarrow> ('k, 'e) SleighBuilder" where
  "open_scope sectionID numLabels b =
     (set_section sectionID b)\<lparr>sb_Pcode := (sb_Pcode b)\<lparr>pb_LabelBase := pb_LabelCount (sb_Pcode b),
        pb_LabelCount := pb_LabelCount (sb_Pcode b) + numLabels\<rparr>\<rparr>"

definition close_scope :: "('k, 'e) SleighBuilder \<Rightarrow> ('k, 'e) SleighBuilder \<Rightarrow> ('k, 'e) SleighBuilder" where
  "close_scope old b =
     (set_section (bs_SectionID (sb_State old)) b)\<lparr>sb_Pcode := (sb_Pcode b)\<lparr>pb_LabelBase := pb_LabelBase (sb_Pcode old)\<rparr>\<rparr>"

definition buildOps :: "(OpTplBoundary \<Rightarrow> ('k, 'e, unit) building) \<Rightarrow> ConstructTplBoundary \<Rightarrow> int \<Rightarrow> ('k, 'e, unit) building" where
  "buildOps dispatch construct sectionID b =
     (case normalized (loop_st dispatch (ct_Ops construct) (open_scope sectionID (ct_NumLabels construct) b)) of
        (r, b') \<Rightarrow> (r, close_scope b b'))"

text \<open>The deferred call of \<^verbatim>\<open>leaveRawBuild\<close> runs after the scope is closed; its error counts only when there is no other.\<close>

definition buildWith :: "space_store \<Rightarrow> (OpTplBoundary \<Rightarrow> ('k, 'e, unit) building) \<Rightarrow> ConstructTplBoundary \<Rightarrow> int \<Rightarrow> ('k, 'e, unit) building" where
  "buildWith \<sigma> dispatch construct sectionID b =
     (if bh_LowerRaw (sb_Hooks b) = None then buildOps dispatch construct sectionID b
      else then_st (enterRawBuild \<sigma> (length (ct_Ops construct)) b) (\<lambda>root b.
        case buildOps dispatch construct sectionID b of
          (Inl e, b) \<Rightarrow> (Inl e, snd (leaveRawBuild root True b))
        | (Inr _, b) \<Rightarrow> leaveRawBuild root False b))"

section \<open>Empty sections\<close>

text \<open>
  The operands of a state that are subtables are built as if there were a \<^verbatim>\<open>BUILD\<close> for each; \<open>build\<close> and \<open>hollow\<close> are the
  recursive calls. The pop after an operand goes to the walker the builder has then.
\<close>

type_synonym ('k, 'e) build_call = "ConstructTplBoundary \<Rightarrow> int \<Rightarrow> ('k, 'e, unit) building"
type_synonym ('k, 'e) empty_call = "state_ref \<Rightarrow> int \<Rightarrow> ('k, 'e, unit) building"

definition buildEmptyChild :: "('k, 'e) build_call \<Rightarrow> ('k, 'e) empty_call \<Rightarrow> int \<Rightarrow> ('k, 'e, unit) building" where
  "buildEmptyChild build hollow sectionID b =
     (case the_point b of
        None \<Rightarrow> (Inl (ErrUnimpl None), b)
      | Some p \<Rightarrow>
          let state = hp_state (heap_of b) p in
          if cs_Constructor state = None then (Inl (ErrUnimpl None), b)
          else case TemplateForSection (Some state) sectionID of
            Some selected \<Rightarrow> normalized (build selected sectionID b)
          | None \<Rightarrow> normalized (hollow p sectionID b))"

definition pop_current :: "('k, 'e) SleighBuilder \<Rightarrow> ('k, 'e) SleighBuilder" where
  "pop_current b = (case bs_Walker (sb_State b) of None \<Rightarrow> b | Some r \<Rightarrow> builder_pop r b)"

definition buildEmptyOperand :: "('k, 'e) build_call \<Rightarrow> ('k, 'e) empty_call \<Rightarrow> SymbolTableBoundary option \<Rightarrow> state_ref \<Rightarrow> int
    \<Rightarrow> int \<Rightarrow> ('k, 'e, unit) building" where
  "buildEmptyOperand build hollow symbols state sectionID i b =
     (if \<not> isSubtableOperand symbols (cs_Constructor (hp_state (heap_of b) state)) i then (Inr (), b)
      else case bs_Walker (sb_State b) of
        None \<Rightarrow> (Inl (ErrBuildWalk ErrNoActiveState), b)
      | Some r \<Rightarrow> then_st (builder_push r i b) (\<lambda>_ b.
          case buildEmptyChild build hollow sectionID b of (res, b) \<Rightarrow> (res, pop_current b)))"

definition buildEmptyOperands :: "('k, 'e) build_call \<Rightarrow> ('k, 'e) empty_call \<Rightarrow> ('k, 'e) empty_call" where
  "buildEmptyOperands build hollow state sectionID b =
     (case cs_Constructor (hp_state (heap_of b) state) of
        None \<Rightarrow> (Inr (), b)
      | Some constructor \<Rightarrow> (case Option.bind (the_context b) (\<lambda>c. pc_Symbols (ctx_of b c)) of
          None \<Rightarrow> (Inl (ErrUnimpl None), b)
        | Some symbols \<Rightarrow> loop_st (buildEmptyOperand build hollow (Some symbols) state sectionID)
            (map int [0..<length (cn_OperandSymbolIDs constructor)]) b))"

definition buildEmpty :: "('k, 'e) empty_call \<Rightarrow> int \<Rightarrow> ('k, 'e, unit) building" where
  "buildEmpty hollow sectionID b =
     (case the_point b of
        None \<Rightarrow> (Inl (ErrUnimpl None), b)
      | Some p \<Rightarrow> if sectionID < 0 then (Inl (ErrEmptySection sectionID), b) else hollow p sectionID b)"

section \<open>BUILD\<close>

text \<open>The result says whether the directive was handled. The deferred pop goes to the walker that was pushed.\<close>

definition handled_pop :: "nat \<Rightarrow> (builder_error + unit) \<times> ('k, 'e) SleighBuilder \<Rightarrow> (builder_error + bool) \<times> ('k, 'e) SleighBuilder" where
  "handled_pop r res = (case res of (Inl e, b) \<Rightarrow> (Inl e, builder_pop r b) | (Inr _, b) \<Rightarrow> (Inr True, builder_pop r b))"

definition appendBuildFromWalker :: "('k, 'e) build_call \<Rightarrow> ('k, 'e) empty_call \<Rightarrow> int \<Rightarrow> int \<Rightarrow> ('k, 'e, bool) building" where
  "appendBuildFromWalker build hollow operandIndex sectionID b =
     (case (bs_Walker (sb_State b), the_point b) of
        (Some r, Some current) \<Rightarrow>
          if operandIndex < 0 then (Inl ErrBuildOperand, b)
          else (case Child (heap_of b) current operandIndex of
            None \<Rightarrow> (Inr False, b)
          | Some child \<Rightarrow>
              if cs_Constructor (hp_state (heap_of b) child) = None then (Inr False, b)
              else then_st (builder_push r operandIndex b) (\<lambda>_ b.
                handled_pop r (case TemplateForSection (Some (hp_state (heap_of b) child)) sectionID of
                    Some selected \<Rightarrow> build selected sectionID b
                  | None \<Rightarrow> if sectionID \<ge> 0 then buildEmpty hollow sectionID b else (Inl (ErrUnimpl (Some 0)), b))))
      | _ \<Rightarrow> (Inr False, b))"

text \<open>What remains for the callbacks.\<close>

definition appendBuildFromHooks :: "('k, 'e) build_call \<Rightarrow> ('k, 'e) empty_call \<Rightarrow> OpTplBoundary \<Rightarrow> int \<Rightarrow> int \<Rightarrow> ('k, 'e, unit) building" where
  "appendBuildFromHooks build hollow op operandIndex sectionID b =
     (case bh_ResolveBuild (sb_Hooks b) of
        Some f \<Rightarrow> then_st (normalized (call_hook (f op operandIndex sectionID) b)) (\<lambda>(child, childSection, ok) b.
          case (if ok then child else None) of
            None \<Rightarrow>
              if the_point b \<noteq> None \<and> childSection \<ge> 0 then normalized (buildEmpty hollow childSection b)
              else if childSection \<ge> 0 then (Inl (ErrUnimpl None), b)
              else (Inr (), b)
          | Some child \<Rightarrow> normalized (build child childSection b))
      | None \<Rightarrow> (case bh_OnBuild (sb_Hooks b) of
          Some f \<Rightarrow> normalized (call_hook (f op operandIndex sectionID) b)
        | None \<Rightarrow> (Inl (ErrUnimpl None), b)))"

definition AppendBuild :: "('k, 'e) build_call \<Rightarrow> ('k, 'e) empty_call \<Rightarrow> OpTplBoundary \<Rightarrow> int \<Rightarrow> ('k, 'e, unit) building" where
  "AppendBuild build hollow op sectionID b =
     (case directiveOperandIndex op of
        Inl e \<Rightarrow> (Inl e, b)
      | Inr operandIndex \<Rightarrow>
          then_st (normalized (appendBuildFromWalker build hollow operandIndex sectionID b)) (\<lambda>handled b.
            if handled then (Inr (), b) else appendBuildFromHooks build hollow op operandIndex sectionID b))"

section \<open>CROSSBUILD\<close>

text \<open>The outer walker comes back only when the build of the other instruction succeeds.\<close>

definition crossBuildTarget :: "('k, 'e) build_call \<Rightarrow> ('k, 'e) empty_call \<Rightarrow> ctx_ref \<Rightarrow> ctx_ref \<Rightarrow> Address \<Rightarrow> int \<Rightarrow> ('k, 'e, unit) building" where
  "crossBuildTarget build hollow targetCtx outerCtx targetAddr crossSectionID b =
     (let (r, b) = new_walker (BaseState (ctx_of b) (NewCrossParserWalker (Some targetCtx) (Some outerCtx))) b in
      case pw_Point (bw_walkers (sb_world b) r) of
        None \<Rightarrow> (Inl (ErrCrossState targetAddr), b)
      | Some p \<Rightarrow>
          let state = hp_state (heap_of b) p; prevWalker = bs_Walker (sb_State b) in
          if cs_Constructor state = None then (Inl (ErrCrossState targetAddr), b)
          else
            let b = set_walker (Some r) b in
            then_st (case TemplateForSection (Some state) crossSectionID of
                Some selected \<Rightarrow> build selected crossSectionID b
              | None \<Rightarrow> buildEmpty hollow crossSectionID b) (\<lambda>_ b. (Inr (), set_walker prevWalker b)))"

definition AppendCrossBuild :: "space_store \<Rightarrow> ('k, 'e) build_call \<Rightarrow> ('k, 'e) empty_call \<Rightarrow> OpTplBoundary \<Rightarrow> int \<Rightarrow> ('k, 'e, unit) building" where
  "AppendCrossBuild \<sigma> build hollow op sectionID b =
     (if sectionID \<ge> 0 then (Inl ErrCrossSection, b)
      else case ot_Inputs op of
        target # section # _ \<Rightarrow> (case the_context b of
          None \<Rightarrow> (Inl ErrCrossWalker, b)
        | Some outerCtx \<Rightarrow>
            if \<not> bs_HasCache (sb_State b) then (Inl ErrCrossCache, b)
            else (case crossBuildTargetAddress \<sigma> target (bs_Runtime (sb_State b)) of
              Inl e \<Rightarrow> (Inl e, b)
            | Inr targetAddr \<Rightarrow> (case realConstValue (vt_Offset section) of
                Inl e \<Rightarrow> (Inl e, b)
              | Inr crossSectionID \<Rightarrow> (case requireOrObtainPcodeContext targetAddr b of
                  (Inl _, b) \<Rightarrow> (Inl (ErrCrossTarget targetAddr), b)
                | (Inr targetCtx, b) \<Rightarrow> crossBuildTarget build hollow targetCtx outerCtx targetAddr crossSectionID b))))
      | _ \<Rightarrow> (Inl ErrCrossInputs, b))"

section \<open>DELAY\_SLOT\<close>

text \<open>One instruction of the delay slot: its result is the number of bytes it covers.\<close>

definition delaySlotInstruction :: "('k, 'e) build_call \<Rightarrow> Address \<Rightarrow> ('k, 'e, int) building" where
  "delaySlotInstruction build targetAddr b =
     (case requireOrObtainPcodeContext targetAddr b of
        (Inl _, b) \<Rightarrow> (Inl (ErrDelayTarget targetAddr), b)
      | (Inr targetCtx, b) \<Rightarrow>
          if ParserContext_GetLength (heap_of b) (ctx_of b targetCtx) \<le> 0 then (Inl (ErrDelayTargetLength targetAddr), b)
          else (case map_option (hp_state (heap_of b)) (pc_BaseState (ctx_of b targetCtx)) of
            None \<Rightarrow> (Inl (ErrDelayConstructor targetAddr), b)
          | Some base \<Rightarrow>
              if cs_Constructor base = None then (Inl (ErrDelayConstructor targetAddr), b)
              else
                let (r, b) = new_walker (BaseState (ctx_of b) (NewParserWalker (Some targetCtx))) b in
                (case map_option (hp_state (heap_of b)) (pw_Point (bw_walkers (sb_world b) r)) of
                   None \<Rightarrow> (Inl (ErrDelayState targetAddr), b)
                 | Some point \<Rightarrow>
                     let sectionID = (case SectionValue (Some point) of None \<Rightarrow> -1 | Some v \<Rightarrow> v) in
                     if cs_Constructor point = None then (Inl (ErrDelayState targetAddr), b)
                     else (case TemplateForSection (Some point) sectionID of
                       None \<Rightarrow> (Inl (ErrUnimpl (Some 0)), b)
                     | Some selected \<Rightarrow> then_st (build selected sectionID (set_walker (Some r) b)) (\<lambda>_ b.
                         let step = ParserContext_GetLength (heap_of b) (ctx_of b targetCtx) in
                         (if step \<le> 0 then Inl (ErrDelayTargetLength targetAddr) else Inr step, b))))))"

text \<open>
  The loop over the bytes of the delay slot. An iteration covers at least one byte, so as many
  iterations as there are bytes suffice unless the count wraps around.
\<close>

fun delaySlotLoop :: "nat \<Rightarrow> ('k, 'e) build_call \<Rightarrow> Address \<Rightarrow> int \<Rightarrow> u64 \<Rightarrow> int \<Rightarrow> ('k, 'e, unit) building" where
  "delaySlotLoop fuel build baseAddr delaySlotByteCnt fallOffset consumed b =
     (if \<not> consumed < delaySlotByteCnt then (Inr (), b)
      else case fuel of
        0 \<Rightarrow> (Inl BuilderFuel, b)
      | Suc fuel \<Rightarrow>
          then_st (delaySlotInstruction build \<lparr>ad_Space = ad_Space baseAddr, ad_Offset = ad_Offset baseAddr + fallOffset\<rparr> b) (\<lambda>step b.
            delaySlotLoop fuel build baseAddr delaySlotByteCnt (fallOffset + u64_of step) (i64 (consumed + step)) b))"

declare delaySlotLoop.simps [simp del]

text \<open>The first component of the result is \<^verbatim>\<open>true\<close> on every path: the callback of \<^verbatim>\<open>DelaySlot\<close> is never reached.\<close>

definition delaySlotFromWalker :: "('k, 'e) build_call \<Rightarrow> ('k, 'e, bool) building" where
  "delaySlotFromWalker build b =
     (if bs_Walker (sb_State b) = None \<or> \<not> bs_HasCache (sb_State b) then (Inl ErrDelayWalker, b)
      else case RequireWalkerPcodeParserContext b of
        Inl _ \<Rightarrow> (Inl ErrDelayContext, b)
      | Inr sourceCtx \<Rightarrow>
          let delaySlotByteCnt = pc_DelaySlot (ctx_of b sourceCtx);
              baseAddr = pc_Addr (ctx_of b sourceCtx);
              len = ParserContext_GetLength (heap_of b) (ctx_of b sourceCtx);
              prevWalker = bs_Walker (sb_State b)
          in if delaySlotByteCnt \<le> 0 then (Inr True, b)
             else if ad_Space baseAddr = None then (Inl ErrDelaySpace, b)
             else if len \<le> 0 then (Inl ErrDelayLength, b)
             else then_st (delaySlotLoop (nat delaySlotByteCnt) build baseAddr delaySlotByteCnt (u64_of len) 0 b) (\<lambda>_ b.
               (Inr True, set_walker prevWalker b)))"

definition DelaySlot :: "('k, 'e) build_call \<Rightarrow> OpTplBoundary \<Rightarrow> ('k, 'e, unit) building" where
  "DelaySlot build op b =
     then_st (delaySlotFromWalker build b) (\<lambda>handled b.
       if handled then (Inr (), b)
       else case bh_OnDelaySlot (sb_Hooks b) of
         None \<Rightarrow> (Inl (ErrUnimpl None), b)
       | Some f \<Rightarrow> normalized (call_hook (f op) b))"

section \<open>The recursion\<close>

definition dispatchWith :: "space_store \<Rightarrow> ('k, 'e) build_call \<Rightarrow> ('k, 'e) empty_call \<Rightarrow> OpTplBoundary \<Rightarrow> ('k, 'e, unit) building" where
  "dispatchWith \<sigma> build hollow op b =
     (case directiveName op of
        Some DirectiveBuild \<Rightarrow> AppendBuild build hollow op (bs_SectionID (sb_State b)) b
      | Some DirectiveDelaySlot \<Rightarrow> DelaySlot build op b
      | Some DirectiveLabel \<Rightarrow> SetLabel op b
      | Some DirectiveCrossBuild \<Rightarrow> AppendCrossBuild \<sigma> build hollow op (bs_SectionID (sb_State b)) b
      | None \<Rightarrow> dump op b)"

fun Build :: "nat \<Rightarrow> space_store \<Rightarrow> ('k, 'e) build_call"
  and buildEmptyFromState :: "nat \<Rightarrow> space_store \<Rightarrow> ('k, 'e) empty_call" where
  "Build 0 \<sigma> construct sectionID b = (Inl BuilderFuel, b)"
| "Build (Suc k) \<sigma> construct sectionID b =
     buildWith \<sigma> (dispatchWith \<sigma> (Build k \<sigma>) (buildEmptyFromState k \<sigma>)) construct sectionID b"
| "buildEmptyFromState 0 \<sigma> state sectionID b = (Inl BuilderFuel, b)"
| "buildEmptyFromState (Suc k) \<sigma> state sectionID b =
     buildEmptyOperands (Build k \<sigma>) (buildEmptyFromState k \<sigma>) state sectionID b"

definition Dispatch :: "nat \<Rightarrow> space_store \<Rightarrow> OpTplBoundary \<Rightarrow> ('k, 'e, unit) building" where
  "Dispatch fuel \<sigma> op b = normalized (dispatchWith \<sigma> (Build fuel \<sigma>) (buildEmptyFromState fuel \<sigma>) op b)"

section \<open>The tail of a translation\<close>

text \<open>
  \<^verbatim>\<open>translateCaptureRawEmitter\<close> and \<^verbatim>\<open>rawEmitterChain\<close>: the sink's state is that of the builder's own sink and the
  operations captured so far.
\<close>

definition captureEmitRaw :: "'e \<times> RawOp list \<Rightarrow> RawOp \<Rightarrow> unit + 'e \<times> RawOp list" where
  "captureEmitRaw k op = Inr (fst k, snd k @ [op])"

definition chainEmitRaw :: "('s \<Rightarrow> RawOp \<Rightarrow> unit + 's) list \<Rightarrow> 's \<Rightarrow> RawOp \<Rightarrow> unit + 's" where
  "chainEmitRaw sinks k op = loop_step (\<lambda>k sink. sink k op) k sinks"

definition set_emitter :: "('e \<Rightarrow> RawOp \<Rightarrow> unit + 'e) option \<Rightarrow> ('k, 'e) SleighBuilder \<Rightarrow> ('k, 'e) SleighBuilder" where
  "set_emitter f b = b\<lparr>sb_Hooks := (sb_Hooks b)\<lparr>bh_RawEmitter := f\<rparr>\<rparr>"

definition new_capture :: "('k, 'e \<times> RawOp list) SleighBuilder \<Rightarrow> ('k, 'e \<times> RawOp list) SleighBuilder" where
  "new_capture b = b\<lparr>sb_world := (sb_world b)\<lparr>bw_sink := (fst (bw_sink (sb_world b)), [])\<rparr>\<rparr>"

definition translateBuildTail :: "nat \<Rightarrow> space_store \<Rightarrow> ConstructTplBoundary \<Rightarrow> int \<Rightarrow> ('k, 'e \<times> RawOp list, RawOp list) building" where
  "translateBuildTail fuel \<sigma> section sectionID b =
     (if bh_LowerRaw (sb_Hooks b) = None \<or> \<not> bs_HasCache (sb_State b) then (Inl (ErrUnimpl None), b)
      else
        let prevEmitter = bh_RawEmitter (sb_Hooks b);
            emitter = (case prevEmitter of None \<Rightarrow> captureEmitRaw | Some f \<Rightarrow> chainEmitRaw [f, captureEmitRaw])
        in case Build fuel \<sigma> section sectionID (set_emitter (Some emitter) (new_capture b)) of
          (Inl e, b) \<Rightarrow> (Inl e, set_emitter prevEmitter b)
        | (Inr _, b) \<Rightarrow> (Inr (snd (bw_sink (sb_world b))), set_emitter prevEmitter b))"

end
