(* ===== verification/Sla_Translate.thy ===== *)
theory Sla_Translate
  imports Sla_Builder
begin

text \<open>
  \<^verbatim>\<open>pkg/sla/translate.go\<close>: the translation of one instruction. The context of the instruction is obtained and pinned, the
  instructions of its delay slot are obtained, and a builder lowers the selected section into the cache and captures what is emitted.

  The payload functions of the input are functions of the address, so the one-entry memory of \<^verbatim>\<open>translateResolveHooks\<close> is not needed. The map
  of spaces of the lowering context is shared by all that write to it and is part of the state; an empty map stands for \<^verbatim>\<open>nil\<close>.
  The resolver of \<^verbatim>\<open>inst_next2\<close> runs when \<^verbatim>\<open>translateRuntimeContext\<close> first asks for it; one left by another translation is
  taken to be this translation's. The rewriting of the text of an \<^verbatim>\<open>UnimplError\<close>, which prints the instruction, is left out.
\<close>

section \<open>Input\<close>

record 'k TranslateInput =
  ti_Match :: MatchInput
  ti_ByAddress :: "(Address \<times> MatchInput) list"
  ti_Lookup :: "(Address \<Rightarrow> MatchInput option) option"
  ti_Loader :: "(Address \<Rightarrow> unit + MatchInput option) option"
  ti_Lowering :: LoweringContext
  ti_Directives :: "'k DirectiveHooks"
  ti_Alignment :: u64
  ti_Section :: "int option"
  ti_Symbols :: "SymbolTableBoundary option"
  ti_Resolve :: ResolveHooks
  ti_ResolveHandles :: ResolveHandlesHooks
  ti_Commits :: "'k ApplyCommitsHooks"

text \<open>The bounds of the recursions: resolution, patterns, handles, builds.\<close>

record fuels =
  fu_resolve :: nat
  fu_pattern :: nat
  fu_handles :: nat
  fu_build :: nat

datatype translate_error = ErrTranslateSubtable | ErrTranslateInstruction space_error | ErrMisaligned | ErrTranslateObtain obtain_error
  | ErrDelaySlotFuel | ErrDelaySlotContext Address | ErrTranslateState | ErrTranslateSection walker_error
  | ErrConstructorNil | ErrMainSection | ErrSection int | ErrTranslateBuild builder_error

text \<open>The shared map of spaces and the state of the callbacks.\<close>

record 'k translate_hook =
  th_spaces :: "(int \<times> space_ref) list"
  th_user :: 'k

type_synonym 'k translate_world = "('k translate_hook, unit \<times> RawOp list) build_world"
type_synonym ('k, 'a) translating = "'k translate_world \<Rightarrow> (translate_error + 'a) \<times> 'k translate_world"

section \<open>Payloads\<close>

definition hasSeededTranslateMatch :: "MatchInput \<Rightarrow> bool" where
  "hasSeededTranslateMatch m = (length (mi_Instruction m) \<noteq> 0 \<or> length (mi_Context m) \<noteq> 0)"

definition memoryMatch :: "'k TranslateInput \<Rightarrow> Address \<Rightarrow> MatchInput option" where
  "memoryMatch input addr =
     (case Option.bind (ti_Lookup input) (\<lambda>f. f addr) of
        Some m \<Rightarrow> Some m
      | None \<Rightarrow> (case map_of (ti_ByAddress input) addr of
          Some m \<Rightarrow> Some m
        | None \<Rightarrow>
            if addr = lc_Instruction (ti_Lowering input) \<and> hasSeededTranslateMatch (ti_Match input)
            then Some (ti_Match input) else None))"

definition translateMatchForAddress :: "'k TranslateInput \<Rightarrow> Address \<Rightarrow> unit + MatchInput option" where
  "translateMatchForAddress input addr =
     (case ti_Loader input of
        None \<Rightarrow> Inr (memoryMatch input addr)
      | Some f \<Rightarrow> (case f addr of
          Inl e \<Rightarrow> Inl e
        | Inr (Some m) \<Rightarrow> Inr (Some m)
        | Inr None \<Rightarrow> Inr (memoryMatch input addr)))"

text \<open>Context bytes, most significant first, fill words of eight.\<close>

definition contextWordsFromBytes :: "u8 list \<Rightarrow> u64 list" where
  "contextWordsFromBytes data =
     fold (\<lambda>(i, b) ws. ws[i div 8 := ws ! (i div 8) OR push_bit ((7 - i mod 8) * 8) (ucast b)]) (enumerate 0 data)
       (replicate ((length data + 7) div 8) 0)"

definition translateLoadFill :: "ParserContext \<Rightarrow> MatchInput option \<Rightarrow> bool \<Rightarrow> resolve_error + ParserContext" where
  "translateLoadFill ctx m hasUserHook =
     (case m of
        None \<Rightarrow> if hasUserHook then Inr ctx else Inl ErrFill
      | Some m \<Rightarrow> if mi_Instruction m = [] then Inr ctx else Inr (SetInstructionBytes ctx (mi_Instruction m)))"

definition translateLoadContext :: "ParserContext \<Rightarrow> MatchInput option \<Rightarrow> bool \<Rightarrow> resolve_error + ParserContext" where
  "translateLoadContext ctx m hasUserHook =
     (case m of
        None \<Rightarrow> if hasUserHook then Inr ctx else Inl ErrLoad
      | Some m \<Rightarrow> if mi_Context m = [] then Inr ctx else Inr (SetContextWords ctx (contextWordsFromBytes (mi_Context m))))"

definition loadFillHook :: "'k TranslateInput \<Rightarrow> ParserContext \<Rightarrow> resolve_error + ParserContext" where
  "loadFillHook input ctx =
     (case rh_LoadFill (ti_Resolve input) of
        Some f \<Rightarrow> f ctx
      | None \<Rightarrow> (case translateMatchForAddress input (pc_Addr ctx) of
          Inl _ \<Rightarrow> Inl ErrFill
        | Inr m \<Rightarrow> translateLoadFill ctx m False))"

definition loadContextHook :: "'k TranslateInput \<Rightarrow> ParserContext \<Rightarrow> resolve_error + ParserContext" where
  "loadContextHook input ctx =
     (let ctx = (if ti_Symbols input \<noteq> None then SetSymbolTable ctx (ti_Symbols input) else ctx) in
      case rh_LoadContext (ti_Resolve input) of
        Some f \<Rightarrow> f ctx
      | None \<Rightarrow> (case translateMatchForAddress input (pc_Addr ctx) of
          Inl _ \<Rightarrow> Inl ErrLoad
        | Inr m \<Rightarrow> translateLoadContext ctx m False))"

definition translateResolveHooks :: "SubtableBoundary \<Rightarrow> 'k TranslateInput \<Rightarrow> ResolveHooks" where
  "translateResolveHooks subtable input =
     (ti_Resolve input)\<lparr>rh_LoadFill := Some (loadFillHook input), rh_LoadContext := Some (loadContextHook input),
       rh_ResolveSymbol := Some (case rh_ResolveSymbol (ti_Resolve input) of
           None \<Rightarrow> resolveTranslateFrame (Some subtable) | Some f \<Rightarrow> f)\<rparr>"

section \<open>Contexts\<close>

definition selectConstantSpace :: "LoweringContext \<Rightarrow> space_ref option" where
  "selectConstantSpace ctx =
     (case lc_ConstantSpace ctx of Some s \<Rightarrow> Some s | None \<Rightarrow> rc_ConstantSpace (RuntimeContextFromLowering ctx))"

definition translateContextRequest :: "fuels \<Rightarrow> space_store \<Rightarrow> SubtableBoundary \<Rightarrow> 'k TranslateInput \<Rightarrow> (int \<times> space_ref) list
    \<Rightarrow> Address \<Rightarrow> ObtainContextRequest" where
  "translateContextRequest fu \<sigma> subtable input spaces addr =
     \<lparr>ob_Address = addr, ob_TargetState = ParseStatePcode, ob_ConstantSpace = selectConstantSpace (ti_Lowering input),
      ob_Resolve = Some (resolve_promotion (ti_Symbols input) (fu_resolve fu) (fu_pattern fu) \<sigma> (translateResolveHooks subtable input)),
      ob_ResolveHandles = Some (handles_promotion (ti_Symbols input) spaces (fu_handles fu) (fu_pattern fu) \<sigma> (ti_ResolveHandles input))\<rparr>"

definition commitHooks :: "'k ApplyCommitsHooks \<Rightarrow> 'k ApplyCommitsHooks" where
  "commitHooks hooks =
     (let hooks = (if ah_ApplyCommit hooks = None then hooks\<lparr>ah_ApplyCommit := Some (\<lambda>_ _ _ k. (Inr (), k))\<rparr> else hooks)
      in if ah_LookupOperandIndex hooks = None \<and> ah_ResolveFixedHandle hooks = None \<and> ah_ResolveCommitAddress hooks = None
         then hooks\<lparr>ah_ResolveCommitAddress := Some (\<lambda>ctx _ _. Inr (pc_Addr ctx))\<rparr> else hooks)"

text \<open>The closure for \<^verbatim>\<open>inst_next2\<close> is bound, not yet run: its value is a placeholder.\<close>

definition obtainTranslate :: "fuels \<Rightarrow> space_store \<Rightarrow> SubtableBoundary \<Rightarrow> 'k TranslateInput \<Rightarrow> Address \<Rightarrow> ('k, ctx_ref) translating" where
  "obtainTranslate fu \<sigma> subtable input addr w =
     (case ObtainPcodeContext \<sigma> (commitHooks (ti_Commits input)) (invalidAddress, False)
         (translateContextRequest fu \<sigma> subtable input (th_spaces (bw_hook w)) addr) ((bw_cache w, bw_store w), th_user (bw_hook w)) of
        (res, (c, s), k) \<Rightarrow> (case res of Inl e \<Rightarrow> Inl (ErrTranslateObtain e) | Inr r \<Rightarrow> Inr r,
          w\<lparr>bw_cache := c, bw_store := s, bw_hook := (bw_hook w)\<lparr>th_user := k\<rparr>\<rparr>))"

text \<open>\<^verbatim>\<open>GetN2addr\<close> of a context, which runs a pending closure.\<close>

definition forceN2addr :: "ObtainContextRequest \<Rightarrow> ctx_ref \<Rightarrow> 'k translate_world \<Rightarrow> Address \<times> 'k translate_world" where
  "forceN2addr req r w =
     (let ctx = cw_ctx (bw_store w) r in
      if IsInvalid (pc_N2Addr ctx) \<and> pc_n2Resolver ctx \<noteq> None \<and> \<not> pc_n2Resolving ctx then
        (case next2Resolver req r (bw_cache w, upd_ctx r (ctx\<lparr>pc_n2Resolving := True\<rparr>) (bw_store w)) of
           (derived, c, s) \<Rightarrow>
             let (addr, ctx) = GetN2addr ((cw_ctx s r)\<lparr>pc_n2Resolving := False, pc_n2Resolver := Some derived\<rparr>)
             in (addr, w\<lparr>bw_cache := c, bw_store := upd_ctx r ctx s\<rparr>))
      else (pc_N2Addr ctx, w))"

text \<open>
  The loop over the bytes of the delay slot; an iteration covers at least one byte, so as many as
  there are bytes suffice unless the count wraps around.
\<close>

fun delaySlotContexts :: "nat \<Rightarrow> fuels \<Rightarrow> space_store \<Rightarrow> SubtableBoundary \<Rightarrow> 'k TranslateInput \<Rightarrow> ctx_ref \<Rightarrow> int \<Rightarrow> int \<Rightarrow> ('k, int) translating" where
  "delaySlotContexts fuel fu \<sigma> subtable input r fallOffset byteCount w =
     (let ctx = cw_ctx (bw_store w) r in
      if \<not> byteCount < pc_DelaySlot ctx then
        (Inr fallOffset, w\<lparr>bw_store := upd_ctx r (SetNaddr ctx (Address_Add (pc_Addr ctx) (u64_of fallOffset))) (bw_store w)\<rparr>)
      else case fuel of
        0 \<Rightarrow> (Inl ErrDelaySlotFuel, w)
      | Suc fuel \<Rightarrow>
          let delayAddr = Address_Add (pc_Addr ctx) (u64_of fallOffset) in
          then_st (obtainTranslate fu \<sigma> subtable input delayAddr w) (\<lambda>d w.
            let len = ParserContext_GetLength (cw_heap (bw_store w)) (cw_ctx (bw_store w) d) in
            if len \<le> 0 then (Inl (ErrDelaySlotContext delayAddr), w)
            else delaySlotContexts fuel fu \<sigma> subtable input r (i64 (fallOffset + len)) (i64 (byteCount + len)) w))"

declare delaySlotContexts.simps [simp del]

definition prepareDelaySlotContexts :: "fuels \<Rightarrow> space_store \<Rightarrow> SubtableBoundary \<Rightarrow> 'k TranslateInput \<Rightarrow> ctx_ref \<Rightarrow> ('k, int) translating" where
  "prepareDelaySlotContexts fu \<sigma> subtable input r w =
     (let ctx = cw_ctx (bw_store w) r; fallOffset = ParserContext_GetLength (cw_heap (bw_store w)) ctx in
      if pc_DelaySlot ctx \<le> 0 then (Inr fallOffset, w)
      else delaySlotContexts (nat (pc_DelaySlot ctx)) fu \<sigma> subtable input r fallOffset 0 w)"

section \<open>Runtime and lowering contexts\<close>

definition setSpace :: "space_store \<Rightarrow> space_ref option \<Rightarrow> (RuntimeContext \<Rightarrow> RuntimeContext) \<Rightarrow> RuntimeContext \<Rightarrow> RuntimeContext" where
  "setSpace \<sigma> space f runtime =
     (case space of
        None \<Rightarrow> runtime
      | Some s \<Rightarrow> (f runtime)\<lparr>rc_SpacesByIndex := AList.update (uint (sp_Index (\<sigma> s))) s (rc_SpacesByIndex runtime)\<rparr>)"

definition setAddresses :: "ParserContext \<Rightarrow> Address \<Rightarrow> RuntimeContext \<Rightarrow> RuntimeContext" where
  "setAddresses ctx next2 runtime =
     (let runtime = (if IsInvalid (pc_NAddr ctx) then runtime else runtime\<lparr>rc_Next := pc_NAddr ctx, rc_HasNext := True\<rparr>);
          runtime = (if IsInvalid next2 then runtime else runtime\<lparr>rc_Next2 := next2, rc_HasNext2 := True\<rparr>);
          runtime = (if IsInvalid (pc_RefAddr ctx) then runtime else runtime\<lparr>rc_Ref := pc_RefAddr ctx, rc_HasRef := True\<rparr>)
      in if IsInvalid (pc_DestAddr ctx) then runtime else runtime\<lparr>rc_Dest := pc_DestAddr ctx, rc_HasDest := True\<rparr>)"

definition setHandles :: "state_heap \<Rightarrow> state_ref option \<Rightarrow> RuntimeContext \<Rightarrow> RuntimeContext" where
  "setHandles h point runtime =
     (case point of
        None \<Rightarrow> runtime
      | Some p \<Rightarrow>
          let runtime = runtime\<lparr>rc_ParentHandle := Some p\<rparr> in
          if cs_Children (hp_state h p) = [] then runtime
          else runtime\<lparr>rc_Handles := map (\<lambda>c. case c of None \<Rightarrow> zeroHandle | Some c \<Rightarrow> cs_Handle (hp_state h c)) (cs_Children (hp_state h p))\<rparr>)"

definition translateRuntimeContext :: "space_store \<Rightarrow> ObtainContextRequest \<Rightarrow> LoweringContext \<Rightarrow> ParserWalker option
    \<Rightarrow> 'k translate_world \<Rightarrow> RuntimeContext \<times> 'k translate_world" where
  "translateRuntimeContext \<sigma> req base walker w =
     (let spaces = th_spaces (bw_hook w);
          runtime = RuntimeContextFromLowering (base\<lparr>lc_SpacesByIndex := spaces\<rparr>)
      in case Option.bind walker pw_constContext of
        None \<Rightarrow> (runtime, w)
      | Some r \<Rightarrow>
          let ctx = cw_ctx (bw_store w) r;
              runtime = runtime\<lparr>rc_Instruction := pc_Addr ctx\<rparr>;
              runtime = setSpace \<sigma> (ad_Space (pc_Addr ctx)) (\<lambda>t. t\<lparr>rc_CurrentSpace := ad_Space (pc_Addr ctx)\<rparr>) runtime;
              runtime = setSpace \<sigma> (pc_ConstSpace ctx) (\<lambda>t. t\<lparr>rc_ConstantSpace := pc_ConstSpace ctx\<rparr>) runtime;
              w = w\<lparr>bw_hook := (bw_hook w)\<lparr>th_spaces := (if spaces = [] then [] else rc_SpacesByIndex runtime)\<rparr>\<rparr>;
              (next2, w) = forceN2addr req r w
          in (setHandles (cw_heap (bw_store w)) (Option.bind walker pw_Point) (setAddresses ctx next2 runtime), w))"

definition translateHandleRefs :: "FixedHandle list \<Rightarrow> HandleReference list" where
  "translateHandleRefs hs =
     map (\<lambda>h. \<lparr>hr_Space = fh_Space h, hr_Size = fh_Size h, hr_OffsetSpace = fh_OffsetSpace h, hr_Offset = fh_OffsetOffset h,
       hr_OffsetSize = fh_OffsetSize h, hr_TempSpace = fh_TempSpace h, hr_TempOffset = fh_TempOffset h\<rparr>) hs"

definition translateLoweringContext :: "RuntimeContext \<Rightarrow> LoweringContext \<Rightarrow> LoweringContext" where
  "translateLoweringContext runtime base =
     base\<lparr>lc_Instruction := rc_Instruction runtime, lc_CurrentSpace := rc_CurrentSpace runtime,
       lc_ConstantSpace := rc_ConstantSpace runtime, lc_SpacesByIndex := rc_SpacesByIndex runtime,
       lc_Handles := translateHandleRefs (rc_Handles runtime),
       lc_HasNext := rc_HasNext runtime, lc_NextOffset := (if rc_HasNext runtime then ad_Offset (rc_Next runtime) else 0),
       lc_HasNext2 := rc_HasNext2 runtime, lc_Next2Offset := (if rc_HasNext2 runtime then ad_Offset (rc_Next2 runtime) else 0)\<rparr>"

section \<open>The callbacks of the builder\<close>

text \<open>\<^verbatim>\<open>LowerRaw\<close>: an operation is lowered at the builder's walker.\<close>

definition lowerRawHook :: "space_store \<Rightarrow> ObtainContextRequest \<Rightarrow> 'k TranslateInput \<Rightarrow> OpTplBoundary
    \<Rightarrow> ('k translate_hook, unit \<times> RawOp list) BuilderState \<Rightarrow> u64 \<Rightarrow> ('k translate_hook, unit \<times> RawOp list, RawOp list) calling" where
  "lowerRawHook \<sigma> req input op state order w =
     (case translateRuntimeContext \<sigma> req (ti_Lowering input) (map_option (bw_walkers w) (bs_Walker state)) w of
        (runtime, w) \<Rightarrow>
          (case lowerOpTpl \<sigma> (ti_Directives input) op (translateLoweringContext runtime (ti_Lowering input)) (bs_SectionID state) order
              (th_user (bw_hook w)) of
             (res, k) \<Rightarrow> (case res of Inl e \<Rightarrow> Inl (ErrBuildLower e) | Inr ops \<Rightarrow> Inr ops, w\<lparr>bw_hook := (bw_hook w)\<lparr>th_user := k\<rparr>\<rparr>)))"

definition obtainFallback :: "fuels \<Rightarrow> space_store \<Rightarrow> SubtableBoundary \<Rightarrow> 'k TranslateInput \<Rightarrow> Address \<Rightarrow> ParseState
    \<Rightarrow> ('k translate_hook, unit \<times> RawOp list, ctx_ref option) calling" where
  "obtainFallback fu \<sigma> subtable input addr target w =
     (case ObtainContext ((translateContextRequest fu \<sigma> subtable input (th_spaces (bw_hook w)) addr)\<lparr>ob_TargetState := target\<rparr>)
         (bw_cache w, bw_store w) of
        (res, c, s) \<Rightarrow> (case res of Inl _ \<Rightarrow> Inl ErrContextMissing | Inr r \<Rightarrow> Inr (Some r), w\<lparr>bw_cache := c, bw_store := s\<rparr>))"

definition noBuilderHooks :: "('k, 'e) BuilderHooks" where
  "noBuilderHooks = \<lparr>bh_Dump = None, bh_LowerRaw = None, bh_RawEmitter = None, bh_OnLabel = None, bh_ResolveBuild = None, bh_OnBuild = None,
     bh_OnDelaySlot = None, bh_OnCrossBuild = None\<rparr>"

section \<open>One instruction\<close>

definition normalizeTranslationLowering :: "space_store \<Rightarrow> LoweringContext \<Rightarrow> LoweringContext" where
  "normalizeTranslationLowering \<sigma> ctx =
     (if Address_Validate \<sigma> (lc_RootInstruction ctx) = None then ctx else ctx\<lparr>lc_RootInstruction := lc_Instruction ctx\<rparr>)"

definition effectiveAlignment :: "u64 \<Rightarrow> u64" where
  "effectiveAlignment n = (if n = 0 then 1 else n)"

definition checkInstructionAlignment :: "Address \<Rightarrow> u64 \<Rightarrow> bool" where
  "checkInstructionAlignment addr alignment = (alignment \<le> 1 \<or> ad_Offset addr mod alignment = 0)"

definition selectConstructorSection :: "ConstructorBoundary option \<Rightarrow> int option \<Rightarrow> translate_error + ConstructTplBoundary" where
  "selectConstructorSection constructor sectionID =
     (case constructor of
        None \<Rightarrow> Inl ErrConstructorNil
      | Some c \<Rightarrow> (case sectionID of
          None \<Rightarrow> (case cn_MainSection c of None \<Rightarrow> Inl ErrMainSection | Some t \<Rightarrow> Inr t)
        | Some i \<Rightarrow> (case List.find (\<lambda>n. ns_SectionID n = i) (cn_NamedSections c) of
            None \<Rightarrow> Inl (ErrSection i) | Some n \<Rightarrow> Inr (ns_Template n))))"

definition selectActiveSection :: "state_heap \<Rightarrow> ParserWalker \<Rightarrow> int option \<Rightarrow> translate_error + ConstructTplBoundary" where
  "selectActiveSection h walker requested =
     (case pw_Point walker of
        None \<Rightarrow> Inl ErrTranslateState
      | Some p \<Rightarrow> selectConstructorSection (cs_Constructor (hp_state h p)) requested)"

text \<open>The length an \<^verbatim>\<open>UnimplError\<close> gets on its way out.\<close>

definition wrapTranslateUnimplError :: "int \<Rightarrow> builder_error \<Rightarrow> builder_error" where
  "wrapTranslateUnimplError len e = (case e of ErrUnimpl _ \<Rightarrow> ErrUnimpl (Some len) | _ \<Rightarrow> e)"

text \<open>The section of the base state, and the walker at that state.\<close>

definition startSection :: "int option \<Rightarrow> ctx_ref \<Rightarrow> ('k, nat \<times> ConstructTplBoundary) translating" where
  "startSection requested r w =
     (let walker = BaseState (cw_ctx (bw_store w)) (NewParserWalker (Some r)); h = cw_heap (bw_store w);
          wr = bw_nextWalker w;
          w = w\<lparr>bw_walkers := (bw_walkers w)(wr := walker), bw_nextWalker := Suc wr\<rparr>
      in if (case pw_Point walker of None \<Rightarrow> True | Some p \<Rightarrow> cs_Constructor (hp_state h p) = None) then (Inl ErrTranslateState, w)
         else case (case requested of None \<Rightarrow> Inr h | Some i \<Rightarrow> SetCurrentSection h walker i) of
           Inl e \<Rightarrow> (Inl (ErrTranslateSection e), w)
         | Inr h \<Rightarrow>
             (case selectActiveSection h walker requested of Inl e \<Rightarrow> Inl e | Inr t \<Rightarrow> Inr (wr, t),
              w\<lparr>bw_store := (bw_store w)\<lparr>cw_heap := h\<rparr>\<rparr>))"

definition translateBuilder :: "fuels \<Rightarrow> space_store \<Rightarrow> SubtableBoundary \<Rightarrow> 'k TranslateInput \<Rightarrow> ctx_ref \<Rightarrow> int \<Rightarrow> nat
    \<Rightarrow> 'k translate_world \<Rightarrow> ('k translate_hook, unit \<times> RawOp list) SleighBuilder" where
  "translateBuilder fu \<sigma> subtable input r sectionID wr w =
     (let req = translateContextRequest fu \<sigma> subtable input (th_spaces (bw_hook w)) (lc_Instruction (ti_Lowering input));
          (runtime, w) = translateRuntimeContext \<sigma> req (ti_Lowering input) (Some (bw_walkers w wr)) w;
          b = NewSleighBuilder runtime (lc_LabelBase (ti_Lowering input)) sectionID (noBuilderHooks\<lparr>bh_LowerRaw := Some (lowerRawHook \<sigma> req input)\<rparr>) w
      in b\<lparr>sb_Pcode := (sb_Pcode b)\<lparr>pb_rawInstruction := lc_RootInstruction (ti_Lowering input)\<rparr>,
           sb_State := (sb_State b)\<lparr>bs_HasCache := True, bs_Walker := Some wr,
             bs_ObtainContextFallback := Some (obtainFallback fu \<sigma> subtable input)\<rparr>\<rparr>)"

definition attachSymbols :: "'k TranslateInput \<Rightarrow> ctx_ref \<Rightarrow> 'k translate_world \<Rightarrow> 'k translate_world" where
  "attachSymbols input r w =
     (let ctx = cw_ctx (bw_store w) r in
      if ti_Symbols input \<noteq> None \<and> pc_Symbols ctx = None
      then w\<lparr>bw_store := upd_ctx r (SetSymbolTable ctx (ti_Symbols input)) (bw_store w)\<rparr> else w)"

text \<open>The part of the translation that runs with the context pinned.\<close>

definition translatePinned :: "fuels \<Rightarrow> space_store \<Rightarrow> SubtableBoundary \<Rightarrow> 'k TranslateInput \<Rightarrow> ctx_ref \<Rightarrow> ('k, RawOp list) translating" where
  "translatePinned fu \<sigma> subtable input r w =
     then_st (prepareDelaySlotContexts fu \<sigma> subtable input r (attachSymbols input r w)) (\<lambda>fallOffset w.
     then_st (startSection (ti_Section input) r w) (\<lambda>(wr, section) w.
       let sectionID = (case ti_Section input of None \<Rightarrow> -1 | Some i \<Rightarrow> i) in
       case translateBuildTail (fu_build fu) \<sigma> section sectionID (translateBuilder fu \<sigma> subtable input r sectionID wr w) of
         (res, b) \<Rightarrow> (case res of Inl e \<Rightarrow> Inl (ErrTranslateBuild (wrapTranslateUnimplError fallOffset e)) | Inr ops \<Rightarrow> Inr ops,
           sb_world b)))"

text \<open>
  The cache of the world is the one of the input, or \<open>translateCache\<close> of a missing one. The result also names the context that was
  obtained, for \<^verbatim>\<open>PcodeContext\<close>.
\<close>

definition translateCache :: "DisassemblyCache option \<Rightarrow> DisassemblyCache" where
  "translateCache c = (case c of Some c \<Rightarrow> c | None \<Rightarrow> (case NewDisassemblyCache of Some c \<Rightarrow> c | None \<Rightarrow> emptyDisassemblyCache))"

definition TranslateSubtable :: "fuels \<Rightarrow> space_store \<Rightarrow> SubtableBoundary option \<Rightarrow> 'k TranslateInput \<Rightarrow> ('k, ctx_ref \<times> RawOp list) translating" where
  "TranslateSubtable fu \<sigma> subtable input w =
     (case subtable of
        None \<Rightarrow> (Inl ErrTranslateSubtable, w)
      | Some subtable \<Rightarrow> (case Address_Validate \<sigma> (lc_Instruction (ti_Lowering input)) of
          Some e \<Rightarrow> (Inl (ErrTranslateInstruction e), w)
        | None \<Rightarrow>
            let input = input\<lparr>ti_Lowering := normalizeTranslationLowering \<sigma> (ti_Lowering input)\<rparr> in
            if \<not> checkInstructionAlignment (lc_Instruction (ti_Lowering input)) (effectiveAlignment (ti_Alignment input))
            then (Inl ErrMisaligned, w)
            else then_st (obtainTranslate fu \<sigma> subtable input (lc_Instruction (ti_Lowering input)) w) (\<lambda>r w.
              case PinContext (Some r) (bw_cache w) of
                (prevPin, c) \<Rightarrow> (case translatePinned fu \<sigma> subtable input r (w\<lparr>bw_cache := c\<rparr>) of
                  (res, w) \<Rightarrow> (case res of Inl e \<Rightarrow> Inl e | Inr ops \<Rightarrow> Inr (r, ops),
                    w\<lparr>bw_cache := UnpinContext prevPin (bw_cache w)\<rparr>)))))"

end
