(* ===== verification/Sla_BuilderLaws.thy ===== *)
theory Sla_BuilderLaws
  imports Sla_Builder
begin

text \<open>
  The builder: what a build puts back whatever its outcome, that a root build is all or nothing for the cache, and that a
  build without cross-builds and delay slots ends.
\<close>

section \<open>What every step keeps\<close>

text \<open>The cache stays in the raw build it is in: same address, nothing emitted.\<close>

definition staging :: "DisassemblyCache \<Rightarrow> DisassemblyCache \<Rightarrow> bool" where
  "staging c c' \<longleftrightarrow> dc_rawOps c' = dc_rawOps c \<and> dc_rawBuildActive c' = dc_rawBuildActive c \<and> dc_rawBuildAddr c' = dc_rawBuildAddr c
     \<and> (dc_rawBuild c \<noteq> None \<longrightarrow> dc_rawBuild c' \<noteq> None)"

text \<open>A callback may stage operations and change contexts, but it does not start, end or emit a raw build, or write to the sink.\<close>

definition mild :: "('k, 'e, 'a) calling \<Rightarrow> bool" where
  "mild f \<longleftrightarrow> (\<forall>w. staging (bw_cache w) (bw_cache (snd (f w))) \<and> bw_sink (snd (f w)) = bw_sink w)"

definition mild_callbacks :: "('k, 'e) BuilderState \<Rightarrow> ('k, 'e) BuilderHooks \<Rightarrow> bool" where
  "mild_callbacks st hooks \<longleftrightarrow>
     pred_option (\<lambda>f. \<forall>addr target. mild (f addr target)) (bs_ObtainContextFallback st)
     \<and> pred_option (\<lambda>f. \<forall>op s. mild (f op s)) (bh_Dump hooks)
     \<and> pred_option (\<lambda>f. \<forall>op s n. mild (f op s n)) (bh_LowerRaw hooks)
     \<and> pred_option (\<lambda>f. \<forall>l s. mild (f l s)) (bh_OnLabel hooks)
     \<and> pred_option (\<lambda>f. \<forall>op i j s. mild (f op i j s)) (bh_ResolveBuild hooks)
     \<and> pred_option (\<lambda>f. \<forall>op i j s. mild (f op i j s)) (bh_OnBuild hooks)
     \<and> pred_option (\<lambda>f. \<forall>op s. mild (f op s)) (bh_OnDelaySlot hooks)"

text \<open>All of the builder but its walker, its count of labels, and what is behind its pointers.\<close>

definition scopes_kept :: "('k, 'e) SleighBuilder \<Rightarrow> ('k, 'e) SleighBuilder \<Rightarrow> bool" where
  "scopes_kept b b' \<longleftrightarrow> sb_Hooks b' = sb_Hooks b \<and> (sb_State b')\<lparr>bs_Walker := None\<rparr> = (sb_State b)\<lparr>bs_Walker := None\<rparr>
     \<and> pb_LabelBase (sb_Pcode b') = pb_LabelBase (sb_Pcode b) \<and> pb_LabelResolver (sb_Pcode b') = pb_LabelResolver (sb_Pcode b)
     \<and> pb_rawBuildDepth (sb_Pcode b') = pb_rawBuildDepth (sb_Pcode b)"

definition kept :: "('k, 'e) SleighBuilder \<Rightarrow> ('k, 'e) SleighBuilder \<Rightarrow> bool" where
  "kept b b' \<longleftrightarrow> scopes_kept b b' \<and> pb_rawInstruction (sb_Pcode b') = pb_rawInstruction (sb_Pcode b)
     \<and> staging (bw_cache (sb_world b)) (bw_cache (sb_world b')) \<and> bw_sink (sb_world b') = bw_sink (sb_world b)"

text \<open>Inside a raw build, or without raw builds at all.\<close>

definition nested :: "('k, 'e) SleighBuilder \<Rightarrow> bool" where
  "nested b \<longleftrightarrow> mild_callbacks (sb_State b) (sb_Hooks b) \<and> (bh_LowerRaw (sb_Hooks b) = None \<or> 0 < pb_rawBuildDepth (sb_Pcode b))"

definition stays_nested :: "('k, 'e) SleighBuilder \<Rightarrow> (builder_error + 'a) \<times> ('k, 'e) SleighBuilder \<Rightarrow> bool" where
  "stays_nested b r \<longleftrightarrow> (nested b \<longrightarrow> kept b (snd r))"

lemma staging_refl [simp]: "staging c c"
  by (simp add: staging_def)

lemma kept_refl [simp]: "kept b b"
  by (simp add: kept_def scopes_kept_def)

lemma scopes_kept_refl [simp]: "scopes_kept b b"
  by (simp add: scopes_kept_def)

lemma scopes_kept_trans: "scopes_kept b b1 \<Longrightarrow> scopes_kept b1 b2 \<Longrightarrow> scopes_kept b b2"
  by (simp add: scopes_kept_def)

lemma kept_trans: "kept b b1 \<Longrightarrow> kept b1 b2 \<Longrightarrow> kept b b2"
  by (auto simp: kept_def staging_def intro: scopes_kept_trans)

lemma same_fallback: "(s :: ('k, 'e) BuilderState)\<lparr>bs_Walker := None\<rparr> = t\<lparr>bs_Walker := None\<rparr> \<Longrightarrow>
    bs_ObtainContextFallback s = bs_ObtainContextFallback t \<and> bs_HasCache s = bs_HasCache t \<and> bs_SectionID s = bs_SectionID t
    \<and> bs_Runtime s = bs_Runtime t"
  by (cases s; cases t) simp

lemma scopes_fields:
  assumes "scopes_kept b b'"
  shows "sb_Hooks b' = sb_Hooks b" "bs_ObtainContextFallback (sb_State b') = bs_ObtainContextFallback (sb_State b)"
    "bs_HasCache (sb_State b') = bs_HasCache (sb_State b)" "bs_SectionID (sb_State b') = bs_SectionID (sb_State b)"
    "bs_Runtime (sb_State b') = bs_Runtime (sb_State b)" "pb_rawBuildDepth (sb_Pcode b') = pb_rawBuildDepth (sb_Pcode b)"
    "pb_LabelBase (sb_Pcode b') = pb_LabelBase (sb_Pcode b)"
  using assms same_fallback [of "sb_State b'" "sb_State b"] unfolding scopes_kept_def by blast+

lemma scopes_mild: "scopes_kept b b' \<Longrightarrow> mild_callbacks (sb_State b') (sb_Hooks b') = mild_callbacks (sb_State b) (sb_Hooks b)"
  by (simp only: mild_callbacks_def scopes_fields [of b b'])

lemma kept_nested:
  assumes "kept b b'"
  shows "nested b' = nested b"
proof -
  have "scopes_kept b b'" using assms by (simp add: kept_def)
  then show ?thesis using scopes_mild [of b b'] by (simp add: nested_def scopes_fields [of b b'])
qed

named_theorems nests \<open>steps that stay in the raw build they are in\<close>

lemma nested_seq: "stays_nested b (x, b1) \<Longrightarrow> stays_nested b1 r \<Longrightarrow> stays_nested b r"
  using kept_nested [of b b1] kept_trans [of b b1] by (simp add: stays_nested_def)

lemma nested_via: "stays_nested b (x, b1) \<Longrightarrow> kept b1 b2 \<Longrightarrow> stays_nested b (y, b2)"
  by (auto simp: stays_nested_def intro: kept_trans)

lemma nested_then [nests]:
  "stays_nested b r \<Longrightarrow> (\<And>x b1. stays_nested b1 (f x b1)) \<Longrightarrow> stays_nested b (then_st r f)"
  by (cases r; cases "fst r") (auto intro: nested_seq nested_via)

lemma nested_plain [nests]: "stays_nested b (r, b)"
  by (simp add: stays_nested_def)

lemma nested_loop [nests]:
  assumes "\<And>x b. stays_nested b (f x b)"
  shows "stays_nested b (loop_st f xs b)"
  by (induction xs arbitrary: b) (auto intro: nests assms)

lemma nested_normalized [nests]: "stays_nested b r \<Longrightarrow> stays_nested b (normalized r)"
  by (auto simp: normalized_def stays_nested_def split: prod.split sum.split)

lemma kept_walker [simp]: "kept b (set_walker ro b)" "kept b (builder_pop r b)" "kept b (pop_current b)" "kept b (snd (new_walker w b))"
  "kept b (set_tree r w h b)"
  by (auto simp: kept_def scopes_kept_def set_walker_def builder_pop_def set_tree_def pop_current_def new_walker_def Let_def split: option.split)

lemma nested_push [nests]: "stays_nested b (builder_push r i b)"
  by (auto simp: builder_push_def stays_nested_def split: sum.split)

lemma nested_call: "mild (f (sb_State b)) \<Longrightarrow> stays_nested b (call_hook f b)"
  by (auto simp: call_hook_def stays_nested_def kept_def scopes_kept_def mild_def split: prod.split)
    (metis snd_conv)+

lemma nested_if: "(nested b \<Longrightarrow> stays_nested b r) \<Longrightarrow> stays_nested b r"
  by (simp add: stays_nested_def)

lemma nested_calls:
  "bh_Dump (sb_Hooks b) = Some f1 \<Longrightarrow> stays_nested b (call_hook (f1 op) b)"
  "bh_LowerRaw (sb_Hooks b) = Some f2 \<Longrightarrow> stays_nested b (call_hook (\<lambda>s. f2 op s n) b)"
  "bh_OnLabel (sb_Hooks b) = Some f3 \<Longrightarrow> stays_nested b (call_hook (f3 l) b)"
  "bh_ResolveBuild (sb_Hooks b) = Some f4 \<Longrightarrow> stays_nested b (call_hook (f4 op i j) b)"
  "bh_OnBuild (sb_Hooks b) = Some f5 \<Longrightarrow> stays_nested b (call_hook (f5 op i j) b)"
  "bh_OnDelaySlot (sb_Hooks b) = Some f6 \<Longrightarrow> stays_nested b (call_hook (f6 op) b)"
  "bs_ObtainContextFallback (sb_State b) = Some f7 \<Longrightarrow> stays_nested b (call_hook (\<lambda>_. f7 addr target) b)"
  by (rule nested_if, rule nested_call, simp add: nested_def mild_callbacks_def)+

lemma kept_on_cache: "(\<And>c. staging c (snd (f c))) \<Longrightarrow> kept b (snd (on_cache f b))"
  by (auto simp: on_cache_def kept_def scopes_kept_def set_cache_def split: prod.split sum.split) (metis snd_conv)+

lemma nested_on_cache: "(\<And>c. staging c (snd (f c))) \<Longrightarrow> stays_nested b (on_cache f b)"
  by (simp add: stays_nested_def kept_on_cache)

lemma staging_on_build: "staging c (snd (on_build addr f c))"
  by (auto simp: on_build_def staging_def split: sum.split prod.split)

lemma nested_require [nests]: "stays_nested b (requireOrObtainPcodeContext addr b)"
proof -
  have "stays_nested b (case call_hook (\<lambda>_. f addr ParseStateDisassembly) b of
      (Inr (Some c), b) \<Rightarrow> (if pc_ParserState (ctx_of b c) \<ge> ParseStatePcode then Inr c else Inl ErrContextMissing, b)
    | (_, b) \<Rightarrow> (Inl ErrContextMissing, b))" if "bs_ObtainContextFallback (sb_State b) = Some f" for f
    using nested_calls(7) [OF that, of addr ParseStateDisassembly]
    by (auto simp: stays_nested_def split: prod.split sum.split option.split)
  then show ?thesis by (auto simp: requireOrObtainPcodeContext_def intro: nests split: sum.split option.split)
qed

lemma nested_stage [nests]: "bh_LowerRaw (sb_Hooks b) = Some f \<Longrightarrow> stays_nested b (dumpToRawCache f op b)" "stays_nested b (cacheRawLabel l b)"
proof -
  have "stays_nested b (on_cache (AppendRawBuild addr op vs base) b)" for addr op vs base b
    by (rule nested_on_cache) (auto simp: AppendRawBuild_def staging_on_build split: sum.split)
  then show "stays_nested b (dumpToRawCache f op b)" if "bh_LowerRaw (sb_Hooks b) = Some f"
    using that by (auto simp: dumpToRawCache_def intro!: nests nested_calls(2) split: sum.split)
  show "stays_nested b (cacheRawLabel l b)"
    by (auto simp: cacheRawLabel_def AddRawBuildLabel_def staging_on_build intro!: nests nested_on_cache)
qed

lemma nested_dump [nests]: "stays_nested b (dump op b)"
  by (auto simp: dump_def intro!: nests nested_calls(1) split: option.split)

lemma nested_SetLabel [nests]: "stays_nested b (SetLabel op b)"
  by (auto simp: SetLabel_def Let_def intro!: nests nested_calls(3) split: option.split sum.split)

section \<open>Builds stay in the raw build they are in\<close>

lemma nested_scope:
  assumes "\<And>op b. stays_nested b (dispatch op b)"
  shows "stays_nested b (buildOps dispatch construct sectionID b)"
proof -
  let ?open = "open_scope sectionID (ct_NumLabels construct) b"
  have "stays_nested ?open (normalized (loop_st dispatch (ct_Ops construct) ?open))" by (intro nests assms)
  moreover have "nested ?open = nested b" by (simp add: nested_def open_scope_def set_section_def mild_callbacks_def)
  moreover have "kept b (close_scope b b2)" if "kept ?open b2" for b2
    using that by (cases "sb_State b2"; cases "sb_State b")
      (simp add: kept_def scopes_kept_def open_scope_def close_scope_def set_section_def)
  ultimately show ?thesis by (auto simp: buildOps_def stays_nested_def split: prod.split)
qed

lemma nested_buildWith:
  assumes "\<And>op b. stays_nested b (dispatch op b)"
  shows "stays_nested b (buildWith \<sigma> dispatch construct sectionID b)"
proof (cases "bh_LowerRaw (sb_Hooks b) = None")
  case True
  then show ?thesis using nested_scope [OF assms] by (simp add: buildWith_def)
next
  case False
  show ?thesis
  proof (rule nested_if)
    assume nested: "nested b"
    let ?in = "set_depth (Suc (pb_rawBuildDepth (sb_Pcode b))) b"
    have depth: "0 < pb_rawBuildDepth (sb_Pcode b)" using nested False by (simp add: nested_def)
    have "nested ?in" using nested by (simp add: nested_def set_depth_def)
    then have inner: "kept ?in (snd (buildOps dispatch construct sectionID ?in))"
      using nested_scope [OF assms] by (simp add: stays_nested_def)
    have "kept b (snd (leaveRawBuild False failed b2))" if "kept ?in b2" for failed b2
      using that False by (simp add: kept_def scopes_kept_def leaveRawBuild_def Let_def set_depth_def)
    then show ?thesis using inner False depth
      by (auto simp: buildWith_def enterRawBuild_def stays_nested_def Let_def split: prod.split sum.split)
  qed
qed

lemma nested_builder_pop: "stays_nested b (r, b1) \<Longrightarrow> stays_nested b (r, builder_pop k b1)" "stays_nested b (r, b1) \<Longrightarrow> stays_nested b (r, pop_current b1)"
  by (auto intro: nested_via)

lemma nested_new:
  assumes "\<And>r b. stays_nested b (f r b)"
  shows "stays_nested b (case new_walker w b of (r, b1) \<Rightarrow> f r b1)"
proof (cases "new_walker w b")
  case (Pair r b1)
  then have "kept b b1" using kept_walker(4) [of b w] by simp
  then have "stays_nested b (x, b1)" for x :: "builder_error + unit" by (simp add: stays_nested_def)
  then have "stays_nested b (then_st (Inr (), b1) (\<lambda>_. f r))" by (intro nested_then assms)
  then show ?thesis by (simp add: Pair)
qed

lemma nested_set_walker: "stays_nested b (r, set_walker k b)"
  by (simp add: stays_nested_def)

lemma nested_popped: "stays_nested b r \<Longrightarrow> stays_nested b (handled_pop k r)"
  by (auto simp: handled_pop_def stays_nested_def intro: kept_trans split: prod.split sum.split)

text \<open>A call at the walker \<open>k\<close>.\<close>

lemma nested_at_walker: "(\<And>b. stays_nested b (f b)) \<Longrightarrow> stays_nested b (f (set_walker k b))"
  using nested_then [of b "(Inr (), set_walker k b)" "\<lambda>_. f"] by (simp add: nested_set_walker)

lemma nested_case:
  "stays_nested b r \<Longrightarrow> (\<And>e b1. stays_nested b1 (g e b1)) \<Longrightarrow> (\<And>x b1. stays_nested b1 (f x b1)) \<Longrightarrow>
    stays_nested b (case r of (Inl e, b) \<Rightarrow> g e b | (Inr x, b) \<Rightarrow> f x b)"
  by (auto intro: nested_seq split: prod.split sum.split)

lemma nested_delay:
  assumes "\<And>t s b. stays_nested b (build t s b)"
  shows "stays_nested b (DelaySlot build op b)"
proof -
  have at: "stays_nested b (build t s (set_walker k b))" for t s k b
    by (rule nested_at_walker [where f = "build t s"]) (rule assms)
  have "stays_nested b (delaySlotInstruction build targetAddr b)" for targetAddr b
    unfolding delaySlotInstruction_def Let_def
    by (auto intro!: nested_case nested_new nests at split: option.split)
  then have "stays_nested b (delaySlotLoop n build addr cnt off sofar b)" for n addr cnt off sofar b
  proof (induction n arbitrary: off sofar b)
    case (Suc n)
    then show ?case by (subst delaySlotLoop.simps) (auto intro!: nests)
  qed (subst delaySlotLoop.simps; auto intro: nests)
  then have "stays_nested b (delaySlotFromWalker build b)" for b
    unfolding delaySlotFromWalker_def Let_def by (auto intro!: nests nested_set_walker split: sum.split)
  then show ?thesis
    unfolding DelaySlot_def by (auto intro!: nests nested_calls(6) split: option.split)
qed

lemma nested_cross:
  assumes "\<And>t s b. stays_nested b (build t s b)" "\<And>p s b. stays_nested b (hollow p s b)"
  shows "stays_nested b (AppendCrossBuild \<sigma> build hollow op sectionID b)"
proof -
  have "stays_nested b (buildEmpty hollow s (set_walker k b))" for s k b
    by (rule nested_at_walker [where f = "buildEmpty hollow s"]) (auto simp: buildEmpty_def intro!: nests assms split: option.split)
  moreover have "stays_nested b (build t s (set_walker k b))" for t s k b
    by (rule nested_at_walker [where f = "build t s"]) (rule assms)
  ultimately have "stays_nested b (crossBuildTarget build hollow c outer addr s b)" for c outer addr s b
    unfolding crossBuildTarget_def Let_def by (auto intro!: nested_new nests nested_set_walker split: option.split)
  then show ?thesis
    unfolding AppendCrossBuild_def by (auto intro!: nests nested_case split: list.split option.split sum.split)
qed

lemma nested_handlers:
  assumes "\<And>t s b. stays_nested b (build t s b)" "\<And>p s b. stays_nested b (hollow p s b)"
  shows "stays_nested b (dispatchWith \<sigma> build hollow op b)" "stays_nested b (buildEmptyOperands build hollow p sectionID b)"
proof -
  have "stays_nested b (buildEmptyChild build hollow sectionID b)" for sectionID b
    unfolding buildEmptyChild_def Let_def by (auto intro!: nests assms split: option.split)
  then have "stays_nested b (case buildEmptyChild build hollow sectionID b of (res, b) \<Rightarrow> (res, pop_current b))" for sectionID b
    by (auto intro: nested_builder_pop split: prod.split) (metis nested_builder_pop(2))
  then have "stays_nested b (buildEmptyOperand build hollow symbols p sectionID i b)" for symbols p sectionID i b
    unfolding buildEmptyOperand_def by (auto intro!: nests split: option.split)
  then show hollowed: "stays_nested b (buildEmptyOperands build hollow p sectionID b)" for p sectionID b
    unfolding buildEmptyOperands_def by (auto intro!: nests split: option.split)
  have empty: "stays_nested b (buildEmpty hollow sectionID b)" for sectionID b
    unfolding buildEmpty_def by (auto intro!: nests assms split: option.split)
  have "stays_nested b (appendBuildFromWalker build hollow i sectionID b)" for i sectionID b
    unfolding appendBuildFromWalker_def by (auto intro!: nests nested_popped assms empty split: option.split)
  moreover have "stays_nested b (appendBuildFromHooks build hollow op i sectionID b)" for i sectionID b
    unfolding appendBuildFromHooks_def
    by (auto intro!: nests nested_calls(4) nested_calls(5) assms empty split: option.split)
  ultimately have "stays_nested b (AppendBuild build hollow op sectionID b)" for sectionID b
    unfolding AppendBuild_def by (auto intro!: nests split: sum.split)
  moreover have "stays_nested b (DelaySlot build op b)" for b by (rule nested_delay) (rule assms)
  moreover have "stays_nested b (AppendCrossBuild \<sigma> build hollow op sectionID b)" for sectionID b by (rule nested_cross) (rule assms)+
  ultimately show "stays_nested b (dispatchWith \<sigma> build hollow op b)"
    unfolding dispatchWith_def by (auto intro!: nests split: option.split directive.split)
qed


lemma nested_Build: "stays_nested b (Build k \<sigma> t s b)" "stays_nested b (buildEmptyFromState k \<sigma> p s b)"
proof (induction k arbitrary: t s b p)
  case (Suc k)
  {
    case 1
    show ?case unfolding Build.simps by (intro nested_buildWith nested_handlers Suc)
  next
    case 2
    show ?case unfolding buildEmptyFromState.simps by (intro nested_handlers Suc)
  }
qed (simp_all add: nests)


section \<open>A root build is all or nothing\<close>

text \<open>
  After a failure nothing is stored that was not stored before; after a success the cache holds, for the
  instruction's address, the operations that went to the sink. In both cases no raw build is left open.
\<close>

definition all_or_nothing :: "space_store \<Rightarrow> ('k, 'e) SleighBuilder \<Rightarrow> (builder_error + unit) \<times> ('k, 'e) SleighBuilder \<Rightarrow> bool" where
  "all_or_nothing \<sigma> b r \<longleftrightarrow> (case r of (res, b') \<Rightarrow>
     let c = bw_cache (sb_world b); c' = bw_cache (sb_world b') in
     scopes_kept b b' \<and> \<not> dc_rawBuildActive c' \<and>
     (case res of
        Inl _ \<Rightarrow> \<forall>a. GetRawOps c' a = GetRawOps c a \<or> rawInstructionAddress \<sigma> b = Inr a \<and> GetRawOps c' a = None
      | Inr _ \<Rightarrow> \<exists>addr ops. rawInstructionAddress \<sigma> b = Inr addr
          \<and> (\<forall>a. GetRawOps c' a = (if a = addr then Some ops else GetRawOps c a))
          \<and> loop_step (the_sink (sb_Hooks b)) (bw_sink (sb_world b)) ops = Inr (bw_sink (sb_world b'))))"

text \<open>The raw build of \<open>addr\<close> is open, and nothing but the entry of \<open>addr\<close> has changed.\<close>

definition opened :: "Address \<Rightarrow> ('k, 'e) SleighBuilder \<Rightarrow> ('k, 'e) SleighBuilder \<Rightarrow> bool" where
  "opened addr b b1 \<longleftrightarrow> pb_rawInstruction (sb_Pcode b1) = addr \<and> bw_sink (sb_world b1) = bw_sink (sb_world b)
     \<and> staging ((bw_cache (sb_world b))\<lparr>dc_rawOps := (dc_rawOps (bw_cache (sb_world b)))(addr := None), dc_rawBuildActive := True,
         dc_rawBuildAddr := addr\<rparr>) (bw_cache (sb_world b1))
     \<and> dc_rawBuild (bw_cache (sb_world b1)) \<noteq> None"

lemma opened_kept: "opened addr b b1 \<Longrightarrow> kept b1 b2 \<Longrightarrow> opened addr b b2"
  by (simp add: opened_def kept_def staging_def)

lemma enter_opens:
  assumes "enterRawBuild \<sigma> n b = (r, b1)" "pb_rawBuildDepth (sb_Pcode b) = 0"
  shows "case r of
      Inl e \<Rightarrow> scopes_kept b b1 \<and> bw_cache (sb_world b1) = bw_cache (sb_world b)
    | Inr root \<Rightarrow> root \<and> (\<exists>addr. rawInstructionAddress \<sigma> b = Inr addr \<and> opened addr b b1) \<and> scopes_kept (set_depth 1 b) b1"
proof (cases "bs_HasCache (sb_State b)")
  case False
  with assms show ?thesis by (auto simp: enterRawBuild_def)
next
  case True
  note enter = assms True
  show ?thesis
  proof (cases "rawInstructionAddress \<sigma> b")
    case (Inl e)
    with enter show ?thesis by (auto simp: enterRawBuild_def beginRoot_def)
  next
    case (Inr addr)
    show ?thesis
    proof (cases "Address_Validate \<sigma> addr")
      case None
      with enter Inr show ?thesis
        by (auto simp: enterRawBuild_def beginRoot_def on_cache_def BeginRawBuild_def Let_def activateRawBuildLocked_def opened_def
            staging_def scopes_kept_def set_cache_def set_depth_def)
    next
      case (Some e)
      with enter Inr show ?thesis
        by (auto simp: enterRawBuild_def beginRoot_def on_cache_def BeginRawBuild_def scopes_kept_def set_cache_def)
    qed
  qed
qed

lemma opened_state: "opened addr b b1 \<Longrightarrow> \<exists>s. rawBuildStateLocked (bw_cache (sb_world b1)) addr = Inr s"
  by (auto simp: opened_def staging_def rawBuildStateLocked_def)

lemma cancel_closes:
  assumes "opened addr b b1" "scopes_kept b b1" "rawInstructionAddress \<sigma> b = Inr addr"
  shows "all_or_nothing \<sigma> b (Inl e, cancelRoot b1)"
proof -
  obtain s where "rawBuildStateLocked (bw_cache (sb_world b1)) addr = Inr s" using opened_state [OF assms(1)] ..
  with assms show ?thesis
    by (auto simp: all_or_nothing_def cancelRoot_def CancelRawBuild_def deactivateRawBuildLocked_def opened_def staging_def set_cache_def
        GetRawOps_def scopes_kept_def)
qed

lemma emit_closes:
  assumes "opened addr b b1" "scopes_kept b b1" "rawInstructionAddress \<sigma> b = Inr addr"
  shows "all_or_nothing \<sigma> b (cancel_on_error (then_st (on_cache (ResolveRawBuild addr) b1) (\<lambda>_ b. emitRoot b)))"
proof (cases "on_cache (ResolveRawBuild addr) b1")
  case (Pair r b2)
  then have "kept b1 b2" using kept_on_cache [where f = "on_build addr resolveRawBuildLocked" and b = b1, OF staging_on_build] by (simp add: ResolveRawBuild_def)
  then have b2: "opened addr b b2" "scopes_kept b b2"
    using assms opened_kept scopes_kept_trans by (auto simp: kept_def)
  note cancel = cancel_closes [OF b2 assms(3)]
  obtain s where s: "rawBuildStateLocked (bw_cache (sb_world b2)) addr = Inr s" using opened_state [OF b2(1)] ..
  have addr: "pb_rawInstruction (sb_Pcode b2) = addr" "sb_Hooks b2 = sb_Hooks b" "bw_sink (sb_world b2) = bw_sink (sb_world b)"
    using b2 by (simp_all add: opened_def scopes_kept_def)
  have same: "set_cache (bw_cache (sb_world b2)) b2 = b2" by (simp add: set_cache_def)
  have "all_or_nothing \<sigma> b (cancel_on_error (emitRoot b2))"
  proof (cases "rb_resolveDone s")
    case False
    then show ?thesis using cancel addr by (simp add: emitRoot_def EmitRawBuildTo_def s cancel_on_error_def same)
  next
    case True
    show ?thesis
    proof (cases "loop_step (the_sink (sb_Hooks b)) (bw_sink (sb_world b)) (cloneRawOps s)")
      case (Inl e)
      then show ?thesis using cancel addr True by (simp add: emitRoot_def EmitRawBuildTo_def s cancel_on_error_def same)
    next
      case (Inr k)
      let ?c = "deactivateRawBuildLocked s ((bw_cache (sb_world b2))\<lparr>dc_rawOps := (dc_rawOps (bw_cache (sb_world b2)))(addr := Some (cloneRawOps s))\<rparr>)"
      have "emitRoot b2 = (Inr (), (set_cache ?c b2)\<lparr>sb_world := (sb_world (set_cache ?c b2))\<lparr>bw_sink := k\<rparr>\<rparr>)"
        using Inr True addr by (simp add: emitRoot_def EmitRawBuildTo_def s)
      then show ?thesis using assms(3) b2 Inr
        by (simp add: cancel_on_error_def all_or_nothing_def set_cache_def scopes_kept_def deactivateRawBuildLocked_def GetRawOps_def
            opened_def staging_def)
    qed
  qed
  then show ?thesis using Pair cancel by (cases r) (simp_all add: cancel_on_error_def)
qed

lemma root_build:
  assumes dispatch: "\<And>op b. stays_nested b (dispatch op b)"
    and raw: "mild_callbacks (sb_State b) (sb_Hooks b)" "bh_LowerRaw (sb_Hooks b) \<noteq> None" "pb_rawBuildDepth (sb_Pcode b) = 0"
    and idle: "\<not> dc_rawBuildActive (bw_cache (sb_world b))"
  shows "all_or_nothing \<sigma> b (buildWith \<sigma> dispatch t sectionID b)"
proof (cases "enterRawBuild \<sigma> (length (ct_Ops t)) b")
  case (Pair r b1)
  note enter = enter_opens [OF Pair raw(3)]
  show ?thesis
  proof (cases r)
    case (Inl e)
    with enter raw(2) idle Pair show ?thesis by (auto simp: buildWith_def all_or_nothing_def)
  next
    case (Inr root)
    with enter obtain addr where b1: "root" "rawInstructionAddress \<sigma> b = Inr addr" "opened addr b b1" "scopes_kept (set_depth 1 b) b1"
      by auto
    obtain x b2 where ops: "buildOps dispatch t sectionID b1 = (x, b2)" by (cases "buildOps dispatch t sectionID b1")
    have "mild_callbacks (sb_State b1) (sb_Hooks b1)"
      using scopes_mild [OF b1(4)] raw(1) by (simp add: set_depth_def)
    then have "nested b1" using b1(4) by (simp add: nested_def scopes_kept_def set_depth_def)
    moreover have "stays_nested b1 (buildOps dispatch t sectionID b1)" by (rule nested_scope) (rule dispatch)
    ultimately have b2: "kept b1 b2" using ops by (simp add: stays_nested_def)
    let ?b = "set_depth 0 b2"
    have "opened addr b ?b" using opened_kept [OF b1(3) b2] by (simp add: opened_def set_depth_def)
    moreover have "scopes_kept b ?b" using b1(4) b2 raw(3) by (simp add: kept_def scopes_kept_def set_depth_def)
    ultimately have "\<And>e. all_or_nothing \<sigma> b (Inl e, cancelRoot ?b)"
        "all_or_nothing \<sigma> b (cancel_on_error (then_st (on_cache (ResolveRawBuild addr) ?b) (\<lambda>_ b. emitRoot b)))"
      using cancel_closes emit_closes b1(2) by blast+
    moreover have "pb_rawBuildDepth (sb_Pcode b2) = 1" "sb_Hooks b2 = sb_Hooks b" "pb_rawInstruction (sb_Pcode ?b) = addr"
      using b1(4) b2 b1(3) by (simp_all add: kept_def scopes_kept_def set_depth_def opened_def)
    ultimately show ?thesis
      using raw(2) Pair Inr b1(1) ops by (cases x) (auto simp: buildWith_def leaveRawBuild_def Let_def)
  qed
qed


text \<open>The operations captured by the tail of a translation are those that went through the chain of sinks.\<close>

definition own_sink :: "('e \<times> RawOp list \<Rightarrow> RawOp \<Rightarrow> unit + 'e \<times> RawOp list) \<Rightarrow> bool" where
  "own_sink f \<longleftrightarrow> (\<forall>k op k'. f k op = Inr k' \<longrightarrow> snd k' = snd k)"

lemma capture_loop: "loop_step captureEmitRaw k ops = Inr k' \<Longrightarrow> snd k' = snd k @ ops"
  by (induction ops arbitrary: k) (auto simp: captureEmitRaw_def)

lemma chain_loop: "own_sink f \<Longrightarrow> loop_step (chainEmitRaw [f, captureEmitRaw]) k ops = Inr k' \<Longrightarrow> snd k' = snd k @ ops"
proof (induction ops arbitrary: k)
  case (Cons op ops)
  have step: "chainEmitRaw [f, captureEmitRaw] k op = then_step (f k op) (\<lambda>k1. Inr (fst k1, snd k1 @ [op]))"
    by (cases "f k op") (simp_all add: chainEmitRaw_def captureEmitRaw_def)
  from Cons.prems(2) obtain k1 where "f k op = Inr k1" "loop_step (chainEmitRaw [f, captureEmitRaw]) (fst k1, snd k1 @ [op]) ops = Inr k'"
    unfolding loop_step.simps step then_step_Inr by auto
  then show ?case using Cons.IH [of "(fst k1, snd k1 @ [op])"] Cons.prems(1) 
    by (cases k; cases k1) (auto simp: own_sink_def)
qed simp

lemma set_emitter_simps [simp]:
  "sb_State (set_emitter f b) = sb_State b" "sb_Pcode (set_emitter f b) = sb_Pcode b" "sb_world (set_emitter f b) = sb_world b"
  "sb_State (new_capture b) = sb_State b" "sb_Pcode (new_capture b) = sb_Pcode b" "sb_Hooks (new_capture b) = sb_Hooks b"
  "bw_cache (sb_world (new_capture b)) = bw_cache (sb_world b)" "snd (bw_sink (sb_world (new_capture b))) = []"
  "bh_LowerRaw (sb_Hooks (set_emitter f b)) = bh_LowerRaw (sb_Hooks b)"
  by (simp_all add: set_emitter_def new_capture_def)

lemma emitter_frame:
  "mild_callbacks (sb_State b) (sb_Hooks (set_emitter f b)) = mild_callbacks (sb_State b) (sb_Hooks b)"
  "rawInstructionAddress \<sigma> (set_emitter f (new_capture b)) = rawInstructionAddress \<sigma> b"
  by (simp_all add: mild_callbacks_def set_emitter_def rawInstructionAddress_def the_context_def the_walker_def ctx_of_def new_capture_def
      split: option.split)

text \<open>
  The tail of a translation is all or nothing. When it succeeds, the operations it returns are the ones stored in the
  cache for the instruction; when it fails (in a template, in a callback, on an undefined label, in the sink),
  no operations are left for the instruction. In both cases no raw build stays open, the operations of all other
  addresses are as before, and section, label base and build depth are back.
\<close>

lemma tail_all_or_nothing:
  assumes mild: "mild_callbacks (sb_State b) (sb_Hooks b)"
    and emitter: "pred_option own_sink (bh_RawEmitter (sb_Hooks b))"
    and root: "pb_rawBuildDepth (sb_Pcode b) = 0" "\<not> dc_rawBuildActive (bw_cache (sb_world b))"
  shows "case translateBuildTail fuel \<sigma> tpl sectionID b of (res, b') \<Rightarrow>
     let c = bw_cache (sb_world b); c' = bw_cache (sb_world b') in
     scopes_kept b b' \<and> \<not> dc_rawBuildActive c' \<and>
     (case res of
        Inl _ \<Rightarrow> \<forall>a. GetRawOps c' a = GetRawOps c a \<or> rawInstructionAddress \<sigma> b = Inr a \<and> GetRawOps c' a = None
      | Inr ops \<Rightarrow> \<exists>addr. rawInstructionAddress \<sigma> b = Inr addr
          \<and> (\<forall>a. GetRawOps c' a = (if a = addr then Some ops else GetRawOps c a)))"
proof (cases "bh_LowerRaw (sb_Hooks b) = None \<or> \<not> bs_HasCache (sb_State b)")
  case True
  then show ?thesis using root(2) by (simp add: translateBuildTail_def Let_def)
next
  case False
  define emit where "emit = (case bh_RawEmitter (sb_Hooks b) of None \<Rightarrow> captureEmitRaw | Some f \<Rightarrow> chainEmitRaw [f, captureEmitRaw])"
  define b1 where "b1 = set_emitter (Some emit) (new_capture b)"
  obtain res b2 where build: "Build fuel \<sigma> tpl sectionID b1 = (res, b2)" by (cases "Build fuel \<sigma> tpl sectionID b1")
  have tail: "translateBuildTail fuel \<sigma> tpl sectionID b =
      (case res of Inl e \<Rightarrow> Inl e | Inr _ \<Rightarrow> Inr (snd (bw_sink (sb_world b2))), set_emitter (bh_RawEmitter (sb_Hooks b)) b2)"
    using False build by (auto simp: translateBuildTail_def Let_def b1_def emit_def split: sum.split)
  have "all_or_nothing \<sigma> b1 (Build fuel \<sigma> tpl sectionID b1)"
  proof (cases fuel)
    case 0
    then show ?thesis using root(2) by (simp add: all_or_nothing_def b1_def)
  next
    case (Suc k)
    have "all_or_nothing \<sigma> b1 (buildWith \<sigma> (dispatchWith \<sigma> (Build k \<sigma>) (buildEmptyFromState k \<sigma>)) tpl sectionID b1)"
    proof (rule root_build)
      show "stays_nested b (dispatchWith \<sigma> (Build k \<sigma>) (buildEmptyFromState k \<sigma>) op b)" for op and b :: "('a, 'b \<times> RawOp list) SleighBuilder"
        by (intro nested_handlers nested_Build)
    qed (use mild root False emitter_frame(1) [of "new_capture b"] in \<open>simp_all add: b1_def\<close>)
    then show ?thesis by (simp add: Suc)
  qed
  then have built: "all_or_nothing \<sigma> b1 (res, b2)" by (simp add: build)
  have same: "bw_cache (sb_world b1) = bw_cache (sb_world b)" "rawInstructionAddress \<sigma> b1 = rawInstructionAddress \<sigma> b"
      "the_sink (sb_Hooks b1) = emit" "snd (bw_sink (sb_world b1)) = []"
    using emitter_frame(2) [of \<sigma> "Some emit" b] by (simp_all add: b1_def the_sink_def set_emitter_def)
  have "scopes_kept b (set_emitter (bh_RawEmitter (sb_Hooks b)) b2)" if "scopes_kept b1 b2"
    using that by (simp add: scopes_kept_def b1_def set_emitter_def)
  moreover have "snd (bw_sink (sb_world b2)) = ops" if "loop_step emit (bw_sink (sb_world b1)) ops = Inr (bw_sink (sb_world b2))" for ops
    using that emitter capture_loop [of _ ops "bw_sink (sb_world b2)"] chain_loop [of _ _ ops "bw_sink (sb_world b2)"] same(4)
    by (auto simp: emit_def split: option.split_asm)
  ultimately show ?thesis
    using built same(1-3) unfolding tail by (cases res) (auto simp: all_or_nothing_def Let_def)
qed

end
