(* ===== verification/Sla_BuilderEnds.thy ===== *)
theory Sla_BuilderEnds
  imports Sla_BuilderLaws
begin

text \<open>
  A build without cross-builds and delay slots ends: every nested build is one operand further down, and the walker
  refuses to go deeper than 32.
\<close>

section \<open>Local templates\<close>

definition local_op :: "OpTplBoundary \<Rightarrow> bool" where
  "local_op op \<longleftrightarrow> directiveName op \<noteq> Some DirectiveDelaySlot \<and> directiveName op \<noteq> Some DirectiveCrossBuild"

definition local_template :: "ConstructTplBoundary \<Rightarrow> bool" where
  "local_template t \<longleftrightarrow> list_all local_op (ct_Ops t)"

definition local_constructor :: "ConstructorBoundary \<Rightarrow> bool" where
  "local_constructor c \<longleftrightarrow> pred_option local_template (cn_MainSection c)
     \<and> list_all (\<lambda>n. local_template (ns_Template n)) (cn_NamedSections c)"

definition local_heap :: "state_heap \<Rightarrow> bool" where
  "local_heap h \<longleftrightarrow> (\<forall>s. pred_option local_constructor (cs_Constructor (hp_state h s)))"

lemma local_heapI: "local_heap h \<Longrightarrow> (\<And>s. cs_Constructor (hp_state h' s) = cs_Constructor (hp_state h s) \<or> cs_Constructor (hp_state h' s) = None) \<Longrightarrow> local_heap h'"
  unfolding local_heap_def by (metis option.pred_inject(1))

lemma local_heap_push: "local_heap h \<Longrightarrow> PushOperand h w i = Inr (w', h') \<Longrightarrow> local_heap h'"
  by (erule local_heapI)
    (auto simp: PushOperand_def EnsureOperand_def NewConstructState_def upd_state_def emptyState_def Let_def
      split: option.split_asm if_split_asm)

lemma local_heap_template: "local_heap h \<Longrightarrow> TemplateForSection (Some (hp_state h s)) i = Some t \<Longrightarrow> local_template t"
  by (auto simp: local_heap_def TemplateForSection_def local_constructor_def list_all_iff find_Some_iff split: option.split_asm if_split_asm
      dest!: spec [of _ s])

section \<open>A build that goes down only\<close>

text \<open>A callback that leaves walkers and states alone and does not run out of fuel.\<close>

definition quiet :: "('k, 'e, 'a) calling \<Rightarrow> bool" where
  "quiet f \<longleftrightarrow> (\<forall>w. fst (f w) \<noteq> Inl BuilderFuel \<and> bw_walkers (snd (f w)) = bw_walkers w \<and> cw_heap (bw_store (snd (f w))) = cw_heap (bw_store w))"

definition quiet_callbacks :: "('k, 'e) BuilderHooks \<Rightarrow> bool" where
  "quiet_callbacks hooks \<longleftrightarrow>
     pred_option (\<lambda>f. \<forall>op s. quiet (f op s)) (bh_Dump hooks)
     \<and> pred_option (\<lambda>f. \<forall>op s n. quiet (f op s n)) (bh_LowerRaw hooks)
     \<and> pred_option (\<lambda>f. \<forall>l s. quiet (f l s)) (bh_OnLabel hooks)
     \<and> bh_ResolveBuild hooks = None
     \<and> pred_option (\<lambda>f. \<forall>op i j s. quiet (f op i j s)) (bh_OnBuild hooks)"

text \<open>The walker, if there is one, is at least \<open>d\<close> operands deep.\<close>

definition deep :: "int \<Rightarrow> ('k, 'e) SleighBuilder \<Rightarrow> bool" where
  "deep d b \<longleftrightarrow> quiet_callbacks (sb_Hooks b) \<and> local_heap (heap_of b)
     \<and> (case the_walker b of None \<Rightarrow> True | Some w \<Rightarrow> d \<le> pw_Depth w \<and> length (pw_Breadcrumb w) = walkerMaxDepth)"

abbreviation "out_of_fuel \<equiv> (\<lambda>e. e = BuilderFuel)"

abbreviation ends :: "int \<Rightarrow> (builder_error + 'a) \<times> ('k, 'e) SleighBuilder \<Rightarrow> bool" where
  "ends d \<equiv> settles out_of_fuel (\<lambda>_. deep d)"

lemma deep_world:
  "deep d (b\<lparr>sb_world := (sb_world b)\<lparr>bw_cache := c\<rparr>\<rparr>) = deep d b" "deep d (b\<lparr>sb_world := (sb_world b)\<lparr>bw_sink := k\<rparr>\<rparr>) = deep d b"
  "deep d (b\<lparr>sb_Pcode := p\<rparr>) = deep d b" "deep d (set_cache c b) = deep d b" "deep d (set_section i b) = deep d b"
  "deep d (set_depth n b) = deep d b" "deep d (cancelRoot b) = deep d b"
  by (simp_all add: deep_def heap_of_def the_walker_def set_cache_def set_section_def set_depth_def cancelRoot_def)

lemma deep_mono: "deep e b \<Longrightarrow> d \<le> e \<Longrightarrow> deep d b"
  by (auto simp: deep_def split: option.split_asm)

lemma deep_scope: "deep d (open_scope i n b) = deep d b" "deep d (close_scope old b) = deep d b"
  by (simp_all add: deep_def open_scope_def close_scope_def set_section_def heap_of_def the_walker_def)

lemma normalize_fuel: "normalizeBuilderUnimpl e = BuilderFuel \<longleftrightarrow> e = BuilderFuel"
  by (simp add: normalizeBuilderUnimpl_def split: builder_error.split)

named_theorems ending \<open>steps that end where they started or deeper\<close>

lemmas ends_then = settles_then_st

lemma ends_normalized [ending]: "settles out_of_fuel P r \<Longrightarrow> settles out_of_fuel P (normalized r)"
  by (auto simp: normalized_def settles_def normalize_fuel split: prod.split sum.split)

lemma ends_call: "quiet (f (sb_State b)) \<Longrightarrow> deep d b \<Longrightarrow> ends d (call_hook f b)"
  by (auto simp: call_hook_def settles_def quiet_def deep_def heap_of_def the_walker_def split: prod.split sum.split)
    (metis fst_conv snd_conv)+

lemma deep_callbacks: "deep d b \<Longrightarrow> quiet_callbacks (sb_Hooks b)"
  by (simp add: deep_def)

lemma ends_calls:
  "bh_Dump (sb_Hooks b) = Some f1 \<Longrightarrow> deep d b \<Longrightarrow> ends d (call_hook (f1 op) b)"
  "bh_LowerRaw (sb_Hooks b) = Some f2 \<Longrightarrow> deep d b \<Longrightarrow> ends d (call_hook (\<lambda>s. f2 op s n) b)"
  "bh_OnLabel (sb_Hooks b) = Some f3 \<Longrightarrow> deep d b \<Longrightarrow> ends d (call_hook (f3 l) b)"
  "bh_OnBuild (sb_Hooks b) = Some f5 \<Longrightarrow> deep d b \<Longrightarrow> ends d (call_hook (f5 op i j) b)"
  by (rule ends_call, drule deep_callbacks, simp add: quiet_callbacks_def, assumption)+

lemma ends_on_cache [ending]: "deep d b \<Longrightarrow> ends d (on_cache f b)"
  by (auto simp: on_cache_def settles_def deep_world split: prod.split sum.split)

lemma ends_plain [ending]: "deep d b \<Longrightarrow> e \<noteq> Inl BuilderFuel \<Longrightarrow> ends d (e, b)"
  by (cases e) simp_all

lemma pop_depth: "pw_Depth w - 1 \<le> pw_Depth (PopOperand h w)" "pw_Breadcrumb (PopOperand h w) = pw_Breadcrumb w"
  by (auto simp: PopOperand_def split: option.split)

lemma deep_pop:
  assumes "deep (d + 1) b"
  shows "deep d (builder_pop r b)" "deep d (pop_current b)"
proof -
  show pop: "deep d (builder_pop r b)" for r
    using assms pop_depth [where w = "bw_walkers (sb_world b) r" and h = "heap_of b"]
    by (cases "bs_Walker (sb_State b)") (auto simp: deep_def builder_pop_def set_tree_def heap_of_def the_walker_def)
  show "deep d (pop_current b)"
    using pop deep_mono [OF assms, of d] by (auto simp: pop_current_def split: option.split)
qed

lemma ends_push:
  assumes "deep d b" "bs_Walker (sb_State b) = Some r"
  shows "settles out_of_fuel (\<lambda>_ b. deep (d + 1) b \<and> d + 1 < 32) (builder_push r i b)"
proof (cases "PushOperand (heap_of b) (bw_walkers (sb_world b) r) i")
  case (Inl e)
  then show ?thesis by (simp add: builder_push_def)
next
  case (Inr wh)
  obtain w h where push: "PushOperand (heap_of b) (bw_walkers (sb_world b) r) i = Inr (w, h)" using Inr by (cases wh) simp
  have "local_heap h" using assms(1) local_heap_push push unfolding deep_def by blast
  moreover have "pw_Depth w = pw_Depth (bw_walkers (sb_world b) r) + 1" "pw_Depth w < int (length (pw_Breadcrumb (bw_walkers (sb_world b) r)))"
      "length (pw_Breadcrumb w) = length (pw_Breadcrumb (bw_walkers (sb_world b) r))"
    using push by (auto simp: PushOperand_def split: option.split_asm if_split_asm prod.split_asm)
  moreover have "builder_push r i b = (Inr (), set_tree r w h b)" by (simp add: builder_push_def push)
  ultimately show ?thesis
    using assms by (simp add: deep_def set_tree_def heap_of_def the_walker_def)
qed

section \<open>Operations without nested builds\<close>

lemma ends_dump: "deep d b \<Longrightarrow> ends d (dump op b)"
  unfolding dump_def dumpToRawCache_def
  by (auto intro!: ends_then ending ends_calls(1,2) split: option.split sum.split)

lemma directive_fuel: "directiveOperandIndex op \<noteq> Inl BuilderFuel"
  by (simp add: directiveOperandIndex_def realConstValue_def split: list.split)

lemma ends_SetLabel: "deep d b \<Longrightarrow> ends d (SetLabel op b)"
proof -
  assume deep: "deep d b"
  have "ends d (cacheRawLabel l b)" if "deep d b" for l b
    using that unfolding cacheRawLabel_def by (auto intro!: ending)
  then show ?thesis using deep directive_fuel [of op] unfolding SetLabel_def Let_def
    by (auto intro!: ends_then ending ends_calls(3) split: option.split sum.split)
qed

section \<open>Nested builds\<close>

text \<open>What the calls one operand further down promise.\<close>

definition down :: "int \<Rightarrow> ('k, 'e) build_call \<Rightarrow> ('k, 'e) empty_call \<Rightarrow> bool" where
  "down d build hollow \<longleftrightarrow> (d < 32 \<longrightarrow> (\<forall>b s. deep d b \<longrightarrow> (\<forall>t. local_template t \<longrightarrow> ends d (build t s b)) \<and> (\<forall>p. ends d (hollow p s b))))"

lemma downD:
  "down d build hollow \<Longrightarrow> deep d b \<Longrightarrow> d < 32 \<Longrightarrow> local_template t \<Longrightarrow> ends d (build t s b)"
  "down d build hollow \<Longrightarrow> deep d b \<Longrightarrow> d < 32 \<Longrightarrow> ends d (hollow p s b)"
  by (simp_all add: down_def)

lemma deep_heap: "deep d b \<Longrightarrow> local_heap (heap_of b)"
  by (simp add: deep_def)

lemma ends_pop:
  "ends (d + 1) r \<Longrightarrow> ends d (handled_pop k r)"
  "ends (d + 1) r \<Longrightarrow> ends d (case r of (res, b) \<Rightarrow> (res, pop_current b))"
  by (auto simp: handled_pop_def settles_def deep_pop split: prod.split sum.split)

lemma ends_empty: "down d build hollow \<Longrightarrow> deep d b \<Longrightarrow> d < 32 \<Longrightarrow> ends d (buildEmpty hollow s b)"
  unfolding buildEmpty_def by (auto intro!: ending downD(2) split: option.split)

lemma ends_empty_operands:
  assumes "down (d + 1) build hollow" "deep d b"
  shows "ends d (buildEmptyOperands build hollow p sectionID b)"
proof -
  have child: "ends (d + 1) (buildEmptyChild build hollow sectionID b)" if "deep (d + 1) b" "d + 1 < 32" for b
    using that downD [OF assms(1), of b] local_heap_template [OF deep_heap [OF that(1)]]
    unfolding buildEmptyChild_def Let_def by (auto intro!: ending split: option.split)
  have "ends d (buildEmptyOperand build hollow symbols p sectionID i b)" if "deep d b" for symbols i b
    using that unfolding buildEmptyOperand_def
    by (auto intro!: ends_then [OF ends_push] ends_pop child ending split: option.split)
  then show ?thesis using assms(2) unfolding buildEmptyOperands_def
    by (auto intro!: settles_loop_st ending split: option.split)
qed

lemma ends_AppendBuild:
  assumes "down (d + 1) build hollow" "deep d b"
  shows "ends d (AppendBuild build hollow op sectionID b)"
proof -
  have "ends (d + 1) (case TemplateForSection (Some (hp_state (heap_of b) c)) sectionID of
      Some selected \<Rightarrow> build selected sectionID b
    | None \<Rightarrow> if sectionID \<ge> 0 then buildEmpty hollow sectionID b else (Inl (ErrUnimpl (Some 0)), b))"
    if "deep (d + 1) b" "d + 1 < 32" for b c
    using that downD(1) [OF assms(1), of b] ends_empty [OF assms(1)] local_heap_template [OF deep_heap [OF that(1)]]
    by (auto intro!: ending split: option.split)
  then have "ends d (appendBuildFromWalker build hollow i sectionID b)" for i
    using assms(2) unfolding appendBuildFromWalker_def
    by (auto intro!: ends_then [OF ends_push] ends_pop ending split: option.split)
  moreover have "ends d (appendBuildFromHooks build hollow op i sectionID b)" if "deep d b" for i b
  proof -
    have "bh_ResolveBuild (sb_Hooks b) = None" using that by (simp add: deep_def quiet_callbacks_def)
    then show ?thesis using that unfolding appendBuildFromHooks_def by (auto intro!: ending ends_calls(4) split: option.split)
  qed
  ultimately show ?thesis using assms(2) directive_fuel [of op] unfolding AppendBuild_def
    by (auto intro!: ends_then ending split: sum.split)
qed

lemma ends_buildWith:
  assumes dispatch: "\<And>op b. op \<in> set (ct_Ops t) \<Longrightarrow> deep d b \<Longrightarrow> ends d (dispatch op b)" and "deep d b"
  shows "ends d (buildWith \<sigma> dispatch t sectionID b)"
proof -
  have ops: "ends d (buildOps dispatch t sectionID b)" if "deep d b" for b
  proof -
    have "ends d (normalized (loop_st dispatch (ct_Ops t) (open_scope sectionID (ct_NumLabels t) b)))"
      using that dispatch by (intro ending settles_loop_st) (simp_all add: deep_scope)
    then show ?thesis by (auto simp: buildOps_def settles_def deep_scope split: prod.split sum.split)
  qed
  have "deep d (b\<lparr>sb_world := (sb_world b)\<lparr>bw_cache := c, bw_sink := k\<rparr>\<rparr>)" if "deep d b" for b c k
    using that by (simp add: deep_def heap_of_def the_walker_def)
  then have "ends d (emitRoot b)" if "deep d b" for b
    using that by (auto simp: emitRoot_def settles_def deep_world set_cache_def split: prod.split sum.split)
  then have emit: "ends d (then_st (on_cache f b) (\<lambda>_ b. emitRoot b))" if "deep d b" for f :: "_ \<Rightarrow> (raw_error + unit) \<times> _" and b
    using that by (auto intro!: ends_then ending)
  have cancel: "ends d (cancel_on_error r)" if "ends d r" for r :: "(builder_error + unit) \<times> ('k, 'e) SleighBuilder"
    using that by (auto simp: cancel_on_error_def settles_def split: prod.split sum.split)
  have leave: "ends d (leaveRawBuild root failed b)" if "deep d b" for root failed b
    using that unfolding leaveRawBuild_def Let_def by (auto simp: deep_world intro!: cancel emit)
  have fuel: "rawInstructionAddress \<sigma> b \<noteq> Inl BuilderFuel" for b
    by (simp add: rawInstructionAddress_def split: option.split)
  have enter: "ends d (enterRawBuild \<sigma> n b)" if "deep d b" for n b
  proof -
    have "ends d (beginRoot \<sigma> n b)"
      using that fuel [of b] unfolding beginRoot_def by (auto intro!: ending simp: deep_world split: sum.split)
    then show ?thesis using that unfolding enterRawBuild_def Let_def by (auto intro!: ends_then ending simp: deep_world)
  qed
  have body: "ends d (case buildOps dispatch t sectionID b of (Inl e, b) \<Rightarrow> (Inl e, snd (leaveRawBuild root True b))
      | (Inr _, b) \<Rightarrow> leaveRawBuild root False b)" if "deep d b" for root b
    using ops [OF that]
    by (cases "buildOps dispatch t sectionID b"; cases "fst (buildOps dispatch t sectionID b)") (auto intro: leave)
  show ?thesis unfolding buildWith_def using assms(2) by (auto intro: ops ends_then [OF enter body])
qed

lemma Build_goes_down:
  "32 \<le> int k + d \<Longrightarrow> down d (Build k \<sigma> :: ('k, 'e) build_call) (buildEmptyFromState k \<sigma>)"
proof (induction k arbitrary: d)
  case (Suc k)
  have "32 \<le> int k + (d + 1)" using Suc.prems by simp
  note IH = Suc.IH [OF this]
  have "ends d (dispatchWith \<sigma> (Build k \<sigma>) (buildEmptyFromState k \<sigma>) op b)" if "local_op op" "deep d b"
    for op and b :: "('k, 'e) SleighBuilder"
    using that ends_AppendBuild [OF IH] ends_SetLabel ends_dump
    unfolding dispatchWith_def local_op_def by (auto split: option.split directive.split)
  then have "ends d (Build (Suc k) \<sigma> t s b)" if "local_template t" "deep d b"
    for t s and b :: "('k, 'e) SleighBuilder"
    using that unfolding Build.simps by (intro ends_buildWith) (simp_all add: local_template_def list_all_iff)
  then show ?case using ends_empty_operands [OF IH] by (simp add: down_def del: Build.simps)
qed (simp add: down_def)


text \<open>A walker at the root, a dump callback that accepts everything, and a template with an ordinary operation and a \<^verbatim>\<open>BUILD\<close> of operand 0.\<close>

definition walk_builder :: "(unit, unit) SleighBuilder" where
  "walk_builder = set_walker (Some 0) (NewSleighBuilder
     \<lparr>rc_Instruction = invalidAddress, rc_CurrentSpace = None, rc_ConstantSpace = None, rc_Next = invalidAddress, rc_HasNext = False,
       rc_Next2 = invalidAddress, rc_HasNext2 = False, rc_Ref = invalidAddress, rc_HasRef = False, rc_Dest = invalidAddress, rc_HasDest = False,
       rc_SpacesByIndex = [], rc_Handles = [], rc_ParentHandle = None\<rparr> 0 (-1)
     \<lparr>bh_Dump = Some (\<lambda>_ _ w. (Inr (), w)), bh_LowerRaw = None, bh_RawEmitter = None, bh_OnLabel = None, bh_ResolveBuild = None, bh_OnBuild = None,
       bh_OnDelaySlot = None, bh_OnCrossBuild = None\<rparr>
     \<lparr>bw_walkers = (\<lambda>_. (NewParserWalker None)\<lparr>pw_Point := Some 0\<rparr>), bw_nextWalker = 1, bw_cache = emptyDisassemblyCache,
       bw_store = (let h = \<lparr>hp_state = (\<lambda>_. emptyState), hp_next = 1\<rparr>
         in \<lparr>cw_ctx = (\<lambda>_. fst (NewParserContext invalidAddress None h)), cw_next = 0, cw_heap = h\<rparr>),
       bw_hook = (), bw_sink = ()\<rparr>)"

definition walk_template :: ConstructTplBoundary where
  "walk_template = \<lparr>ct_SectionID = None, ct_DelaySlot = 0, ct_NumLabels = 0, ct_Result = None,
     ct_Ops = map (\<lambda>i. \<lparr>ot_OpcodeID = i, ot_Output = None,
       ot_Inputs = [\<lparr>vt_Space = const_of ConstKindReal 0, vt_Offset = const_of ConstKindReal 0, vt_Size = const_of ConstKindReal 0\<rparr>]\<rparr>) [1, 60]\<rparr>"


end
