(* ===== verification/Sla_TranslateLaws.thy ===== *)
theory Sla_TranslateLaws
  imports Sla_Translate Sla_BuilderEnds
begin

text \<open>
  The translation of one instruction is all or nothing for the cache: obtaining contexts, before and during the build, does not touch
  the emitted operations or the raw build, so what holds of a root build holds of the whole translation.
\<close>

section \<open>Contexts leave the raw build alone\<close>

text \<open>The fields of the cache a request for a context does not write.\<close>

definition contexts_only :: "DisassemblyCache \<Rightarrow> DisassemblyCache \<Rightarrow> bool" where
  "contexts_only c c' \<longleftrightarrow> dc_rawOps c' = dc_rawOps c \<and> dc_rawBuildActive c' = dc_rawBuildActive c \<and> dc_rawBuildAddr c' = dc_rawBuildAddr c
     \<and> dc_rawBuild c' = dc_rawBuild c \<and> dc_pinnedCtx c' = dc_pinnedCtx c"

lemma contexts_only_refl [simp]: "contexts_only c c"
  by (simp add: contexts_only_def)

lemma contexts_only_trans: "contexts_only c c1 \<Longrightarrow> contexts_only c1 c2 \<Longrightarrow> contexts_only c c2"
  by (simp add: contexts_only_def)

lemma contexts_only_staging: "contexts_only c c' \<Longrightarrow> staging c c'"
  by (simp add: contexts_only_def staging_def)

lemma ensureParserReuse_contexts: "contexts_only c (ensureParserReuse c)"
  by (auto simp: ensureParserReuse_def initializeParserReuseLocked_def contexts_only_def Let_def split: option.split)

lemma ObtainParserContext_contexts: "contexts_only c (fst (snd (ObtainParserContext addr cs (c, w))))"
  using ensureParserReuse_contexts [of c]
  by (auto simp: ObtainParserContext_def Let_def nextReuseSlotLocked_def contexts_only_def split: option.split prod.split)

lemma ObtainContext_contexts: "contexts_only c (fst (snd (ObtainContext req (c, w))))"
  using ObtainParserContext_contexts [of c "ob_Address req" "ob_ConstantSpace req" w]
  by (auto simp: ObtainContext_def Let_def split: prod.split)

lemma next2Resolver_contexts: "contexts_only c (fst (snd (next2Resolver req r (c, w))))"
  by (auto simp: next2Resolver_def split: option.split prod.split sum.split) (metis ObtainContext_contexts fst_conv snd_conv)+

lemma ObtainPcodeContext_contexts: "contexts_only c (fst (fst (snd (ObtainPcodeContext \<sigma> commits d req ((c, w), k)))))"
  by (auto simp: ObtainPcodeContext_def split: prod.split sum.split) (metis ObtainContext_contexts fst_conv snd_conv)+

text \<open>A step of the translation before or beside the build.\<close>

definition beside :: "'k translate_world \<Rightarrow> 'k translate_world \<Rightarrow> bool" where
  "beside w w' \<longleftrightarrow> contexts_only (bw_cache w) (bw_cache w') \<and> bw_sink w' = bw_sink w"

lemma beside_refl [simp]: "beside w w"
  by (simp add: beside_def)

lemma beside_trans: "beside w w1 \<Longrightarrow> beside w1 w2 \<Longrightarrow> beside w w2"
  by (auto simp: beside_def intro: contexts_only_trans)

lemma beside_frame [simp]:
  "beside w (w1\<lparr>bw_store := s\<rparr>) = beside w w1" "beside w (w1\<lparr>bw_hook := k\<rparr>) = beside w w1"
  "beside w (w1\<lparr>bw_walkers := ws\<rparr>) = beside w w1" "beside w (w1\<lparr>bw_nextWalker := n\<rparr>) = beside w w1"
  by (simp_all add: beside_def)

lemma forceN2addr_beside: "beside w (snd (forceN2addr req r w))"
  using next2Resolver_contexts [of "bw_cache w" req r]
  by (auto simp: forceN2addr_def Let_def beside_def split: prod.split) (metis fst_conv snd_conv)

lemma runtime_beside: "beside w (snd (translateRuntimeContext \<sigma> req base walker w))"
proof -
  have "beside w (snd (forceN2addr req r (w\<lparr>bw_hook := k\<rparr>)))" for r k
    using forceN2addr_beside [of "w\<lparr>bw_hook := k\<rparr>" req r] by (simp add: beside_def)
  then show ?thesis by (simp add: translateRuntimeContext_def Let_def case_prod_beta split: option.split)
qed

lemma obtain_beside: "beside w (snd (obtainTranslate fu \<sigma> subtable input addr w))"
  by (auto simp: obtainTranslate_def beside_def split: prod.split) (metis ObtainPcodeContext_contexts fst_conv snd_conv)

lemma beside_then: "beside w (snd r) \<Longrightarrow> (\<And>x w1. beside w1 (snd (f x w1))) \<Longrightarrow> beside w (snd (then_st r f))"
  by (cases r; cases "fst r") (auto intro: beside_trans)

lemma delay_beside: "beside w (snd (delaySlotContexts n fu \<sigma> subtable input r fall count w))"
proof (induction n arbitrary: fall count w)
  case (Suc n)
  then show ?case by (subst delaySlotContexts.simps) (auto simp: Let_def intro!: beside_then obtain_beside)
qed (subst delaySlotContexts.simps; simp add: Let_def)

lemma prepare_beside: "beside w (snd (prepareDelaySlotContexts fu \<sigma> subtable input r w))"
  by (auto simp: prepareDelaySlotContexts_def Let_def intro: delay_beside)

lemma start_beside: "beside w (snd (startSection requested r w))"
  by (auto simp: startSection_def Let_def split: option.split sum.split)


section \<open>The callbacks of the builder are mild\<close>

lemma beside_mild: "(\<And>w. beside w (snd (f w))) \<Longrightarrow> mild f"
  by (simp add: mild_def beside_def contexts_only_staging)

lemma lowerRaw_mild: "mild (lowerRawHook \<sigma> req input op state order)"
proof (rule beside_mild)
  show "beside w (snd (lowerRawHook \<sigma> req input op state order w))" for w
    using runtime_beside [of w \<sigma> req "ti_Lowering input" "map_option (bw_walkers w) (bs_Walker state)"]
    by (auto simp: lowerRawHook_def split: prod.split)
qed

lemma fallback_mild: "mild (obtainFallback fu \<sigma> subtable input addr target)"
proof (rule beside_mild)
  show "beside w (snd (obtainFallback fu \<sigma> subtable input addr target w))" for w
    by (auto simp: obtainFallback_def beside_def split: prod.split) (metis ObtainContext_contexts fst_conv snd_conv)
qed

text \<open>The builder of a translation.\<close>

lemma builder_ready:
  assumes "b = translateBuilder fu \<sigma> subtable input r i wr w"
  shows "mild_callbacks (sb_State b) (sb_Hooks b)" "bh_RawEmitter (sb_Hooks b) = None" "pb_rawBuildDepth (sb_Pcode b) = 0"
    "beside w (sb_world b)"
    "Address_Validate \<sigma> (lc_RootInstruction (ti_Lowering input)) = None \<Longrightarrow>
      rawInstructionAddress \<sigma> b = Inr (lc_RootInstruction (ti_Lowering input))"
  using runtime_beside [of w \<sigma> _ "ti_Lowering input" "Some (bw_walkers w wr)"]
  by (auto simp: assms translateBuilder_def Let_def NewSleighBuilder_def noBuilderHooks_def mild_callbacks_def lowerRaw_mild fallback_mild
      rawInstructionAddress_def split: prod.split) (metis snd_conv)

section \<open>The whole translation\<close>

text \<open>What \<open>tail_all_or_nothing\<close> says, for worlds.\<close>

definition atomic :: "Address \<Rightarrow> DisassemblyCache \<Rightarrow> ('e + RawOp list) \<times> DisassemblyCache \<Rightarrow> bool" where
  "atomic root c r \<longleftrightarrow> (case r of (res, c') \<Rightarrow>
     \<not> dc_rawBuildActive c' \<and>
     (case res of
        Inl _ \<Rightarrow> \<forall>a. GetRawOps c' a = GetRawOps c a \<or> a = root \<and> GetRawOps c' a = None
      | Inr ops \<Rightarrow> \<forall>a. GetRawOps c' a = (if a = root then Some ops else GetRawOps c a)))"

lemma contexts_only_ops: "contexts_only c c1 \<Longrightarrow> GetRawOps c1 a = GetRawOps c a"
  by (simp add: contexts_only_def GetRawOps_def)

lemma atomic_beside:
  "contexts_only c c1 \<Longrightarrow> atomic root c1 r \<Longrightarrow> atomic root c r"
  "contexts_only c c1 \<Longrightarrow> \<not> dc_rawBuildActive c \<Longrightarrow> atomic root c (Inl e, c1)"
  using contexts_only_ops [of c c1] by (auto simp: atomic_def contexts_only_def split: sum.splits)

lemma translatePinned_atomic:
  assumes root: "Address_Validate \<sigma> (lc_RootInstruction (ti_Lowering input)) = None" and idle: "\<not> dc_rawBuildActive (bw_cache w)"
    and run: "translatePinned fu \<sigma> subtable input r w = (res, w')"
  shows "atomic (lc_RootInstruction (ti_Lowering input)) (bw_cache w) (res, bw_cache w')"
proof -
  let ?root = "lc_RootInstruction (ti_Lowering input)"
  define w0 where "w0 = attachSymbols input r w"
  have "beside w w0" by (simp add: w0_def attachSymbols_def Let_def)
  obtain p w1 where prep: "prepareDelaySlotContexts fu \<sigma> subtable input r w0 = (p, w1)" by fastforce
  obtain q w2 where start: "startSection (ti_Section input) r w1 = (q, w2)" by fastforce
  have w1: "beside w w1" using beside_trans [OF \<open>beside w w0\<close>] prepare_beside [of w0] prep by (metis snd_conv)
  have w2: "beside w w2" using beside_trans [OF w1] start_beside [of w1] start by (metis snd_conv)
  show ?thesis
  proof (cases p)
    case (Inl e)
    then have "res = Inl e" "w' = w1" using run prep by (simp_all add: translatePinned_def w0_def [symmetric])
    then show ?thesis using w1 idle by (auto simp: beside_def intro: atomic_beside(2))
  next
    case (Inr fallOffset)
    show ?thesis
    proof (cases q)
      case (Inl e)
      then have "res = Inl e" "w' = w2" using run prep start Inr by (simp_all add: translatePinned_def w0_def [symmetric])
      then show ?thesis using w2 idle by (auto simp: beside_def intro: atomic_beside(2))
    next
      case (Inr s)
      obtain wr sect where s: "s = (wr, sect)" by fastforce
      define i where "i = (case ti_Section input of None \<Rightarrow> -1 | Some i \<Rightarrow> i)"
      define b where "b = translateBuilder fu \<sigma> subtable input r i wr w2"
      note ready = builder_ready [OF b_def]
      obtain res2 b2 where tail: "translateBuildTail (fu_build fu) \<sigma> sect i b = (res2, b2)" by fastforce
      have w': "w' = sb_world b2" "res = (case res2 of Inl e \<Rightarrow> Inl (ErrTranslateBuild (wrapTranslateUnimplError fallOffset e)) | Inr ops \<Rightarrow> Inr ops)"
        using run prep start \<open>p = Inr fallOffset\<close> Inr s tail by (auto simp: translatePinned_def w0_def [symmetric] i_def b_def Let_def)
      have "beside w (sb_world b)" using beside_trans [OF w2 ready(4)] .
      then have c: "contexts_only (bw_cache w) (bw_cache (sb_world b))" by (simp add: beside_def)
      then have "\<not> dc_rawBuildActive (bw_cache (sb_world b))" using idle by (simp add: contexts_only_def)
      then have "atomic ?root (bw_cache (sb_world b)) (res2, bw_cache (sb_world b2))"
        using tail_all_or_nothing [OF ready(1) _ ready(3), where fuel = "fu_build fu" and \<sigma> = \<sigma> and tpl = sect and sectionID = i] ready(2,5) root tail
        by (auto simp: atomic_def Let_def split: sum.splits)
      then have "atomic ?root (bw_cache w) (res2, bw_cache (sb_world b2))" by (rule atomic_beside(1) [OF c])
      then show ?thesis by (cases res2) (auto simp: w' atomic_def)
    qed
  qed
qed

section \<open>One instruction without operations\<close>

text \<open>An instruction of one byte, with an empty template, is translated at an address of which the cache knows nothing.\<close>

definition nop_spaces :: space_store where
  "nop_spaces = (\<lambda>s. if s = 0 then constantSpace else \<lparr>sp_Name = ''ram'', sp_Kind = SpaceKindProcessor, sp_Index = 1, sp_AddrSize = 4,
     sp_WordSize = 1, sp_BigEndian = False, sp_Physical = True, sp_Delay = 0, sp_Truncated = False, sp_spacebases = []\<rparr>)"

definition nop_template :: ConstructTplBoundary where
  "nop_template = \<lparr>ct_SectionID = None, ct_DelaySlot = 0, ct_NumLabels = 0, ct_Result = None,
     ct_Ops = []\<rparr>"

definition nop_subtable :: SubtableBoundary where
  "nop_subtable = \<lparr>st_ConstructorCount = 1, st_Constructors = [\<lparr>cn_ConstructorID = 0, cn_ParentSymbolID = 0, cn_FirstWhitespace = 0,
     cn_FlowThruIndex = -1, cn_MinimumLength = 1, cn_SourceFileIndex = 0, cn_LineNumber = 0, cn_OperandSymbolIDs = [], cn_PrintPieces = [],
     cn_ContextOps = [], cn_ContextCommits = [], cn_MainSection = Some nop_template,
     cn_NamedSections = []\<rparr>], st_Decision = None\<rparr>"

definition nop_address :: Address where
  "nop_address = \<lparr>ad_Space = Some 1, ad_Offset = 64\<rparr>"

definition nop_input :: "unit TranslateInput" where
  "nop_input = \<lparr>ti_Match = \<lparr>mi_Instruction = [0x90], mi_InstructionOffset = 0, mi_Context = [0]\<rparr>, ti_ByAddress = [], ti_Lookup = None, ti_Loader = None,
     ti_Lowering = \<lparr>lc_Instruction = nop_address, lc_RootInstruction = nop_address, lc_CurrentSpace = Some 1, lc_ConstantSpace = Some 0,
       lc_UniqueSpace = None, lc_UniqueBase = 0, lc_UniqueMask = 0, lc_NextOffset = 0, lc_HasNext = False, lc_Next2Offset = 0, lc_HasNext2 = False,
       lc_SpacesByIndex = [(1, 1), (0xffff, 0)], lc_Handles = [], lc_LabelBase = 0\<rparr>,
     ti_Directives = \<lparr>dh_OnLabel = None, dh_OnBuild = None, dh_OnDelaySlot = None, dh_OnCrossBuild = None\<rparr>, ti_Alignment = 0, ti_Section = None,
     ti_Symbols = None, ti_Resolve = \<lparr>rh_LoadFill = None, rh_LoadContext = None, rh_ResolveSymbol = None, rh_ContextOps = None\<rparr>,
     ti_ResolveHandles = \<lparr>rx_ResolveFixedHandle = None, rx_ResolveExpressionValue = None\<rparr>,
     ti_Commits = \<lparr>ah_LookupOperandIndex = None, ah_ResolveFixedHandle = None, ah_ResolveCommitAddress = None, ah_ApplyCommit = None\<rparr>\<rparr>"

definition nop_world :: "unit translate_world" where
  "nop_world = \<lparr>bw_walkers = (\<lambda>_. NewParserWalker None), bw_nextWalker = 0,
     bw_cache = emptyDisassemblyCache\<lparr>dc_parserList := [None, None], dc_parserHash := [None]\<rparr>,
     bw_store = (let h = \<lparr>hp_state = (\<lambda>_. emptyState), hp_next = 0\<rparr>; ctx = fst (NewParserContext invalidAddress None h)
       in \<lparr>cw_ctx = (\<lambda>_. ctx), cw_next = 0, cw_heap = h\<rparr>),
     bw_hook = \<lparr>th_spaces = [(1, 1), (0xffff, 0)], th_user = ()\<rparr>, bw_sink = ((), [])\<rparr>"

definition nop_fuels :: fuels where
  "nop_fuels = \<lparr>fu_resolve = 4, fu_pattern = 1, fu_handles = 4, fu_build = 1\<rparr>"

definition nop_obtained :: "unit translate_world" where
  "nop_obtained = snd (obtainTranslate nop_fuels nop_spaces nop_subtable nop_input nop_address nop_world)"

declare then_st_def [code_unfold]

lemma nop_context: "obtainTranslate nop_fuels nop_spaces nop_subtable nop_input nop_address nop_world = (Inr 0, nop_obtained)"
proof -
  have "fst (obtainTranslate nop_fuels nop_spaces nop_subtable nop_input nop_address nop_world) = Inr 0" by code_simp
  then show ?thesis by (simp add: nop_obtained_def prod_eq_iff)
qed

definition nop_held :: "unit translate_world" where
  "nop_held = bw_cache_update (\<lambda>c. c\<lparr>dc_pinnedCtx := Some 0\<rparr>) nop_obtained"

definition nop_prepared :: "unit translate_world" where
  "nop_prepared = snd (prepareDelaySlotContexts nop_fuels nop_spaces nop_subtable nop_input 0 (attachSymbols nop_input 0 nop_held))"

definition nop_started :: "unit translate_world" where
  "nop_started = snd (startSection None 0 nop_prepared)"

lemma nop_prepare:
  "fst (prepareDelaySlotContexts nop_fuels nop_spaces nop_subtable nop_input 0 (attachSymbols nop_input 0 nop_held)) = Inr 1"
  by code_simp

lemma nop_start: "fst (startSection None 0 nop_prepared) = Inr (0, nop_template)"
  by code_simp

lemma nop_tail:
  "fst (translateBuildTail 1 nop_spaces nop_template (-1) (translateBuilder nop_fuels nop_spaces nop_subtable nop_input 0 (-1) 0 nop_started))
     = Inr []"
  by code_simp

lemma nop_pinned: "fst (translatePinned nop_fuels nop_spaces nop_subtable nop_input 0 nop_held) = Inr []"
proof -
  have input: "ti_Section nop_input = None" "fu_build nop_fuels = 1" by (simp_all add: nop_input_def nop_fuels_def)
  have "prepareDelaySlotContexts nop_fuels nop_spaces nop_subtable nop_input 0 (attachSymbols nop_input 0 nop_held) = (Inr 1, nop_prepared)"
    "startSection None 0 nop_prepared = (Inr (0, nop_template), nop_started)"
    using nop_prepare nop_start by (simp_all add: nop_prepared_def nop_started_def prod_eq_iff)
  then show ?thesis using nop_tail
    by (simp add: translatePinned_def Let_def input case_prod_beta)
qed

lemma nop_checks:
  "normalizeTranslationLowering nop_spaces (ti_Lowering nop_input) = ti_Lowering nop_input"
  "Address_Validate nop_spaces nop_address = None" "checkInstructionAlignment nop_address (effectiveAlignment (ti_Alignment nop_input))"
  "lc_Instruction (ti_Lowering nop_input) = nop_address" "lc_RootInstruction (ti_Lowering nop_input) = nop_address"
  by (simp_all add: normalizeTranslationLowering_def nop_input_def) code_simp+

lemma nop_run: "fst (TranslateSubtable nop_fuels nop_spaces (Some nop_subtable) nop_input nop_world) = Inr (0, [])"
proof -
  have "nop_obtained\<lparr>bw_cache := (bw_cache nop_obtained)\<lparr>dc_pinnedCtx := Some 0\<rparr>\<rparr> = nop_held" by (simp add: nop_held_def)
  moreover have "nop_input\<lparr>ti_Lowering := ti_Lowering nop_input\<rparr> = nop_input" by simp
  ultimately show ?thesis
    using nop_pinned by (simp add: TranslateSubtable_def nop_checks nop_context PinContext_def case_prod_beta)
qed

section \<open>All or nothing\<close>

text \<open>
  C1: a translation is all or nothing for the cache it works on. If it succeeds, the operations it returns are exactly those
  stored for the instruction's root address; if it fails, at whatever step (payload, matching, handles, commits, delay
  slot, lowering, labels), nothing new is stored and at most the old operations of that address are gone. In both cases the operations of all
  other addresses are untouched, no raw build stays open and the cache's pin is the one from before.
\<close>

theorem TranslateSubtable_all_or_nothing:
  assumes idle: "\<not> dc_rawBuildActive (bw_cache w)"
  shows "case TranslateSubtable fu \<sigma> subtable input w of (res, w') \<Rightarrow>
     let c = bw_cache w; c' = bw_cache w'; root = lc_RootInstruction (normalizeTranslationLowering \<sigma> (ti_Lowering input)) in
     \<not> dc_rawBuildActive c' \<and> dc_pinnedCtx c' = dc_pinnedCtx c \<and>
     (case res of
        Inl _ \<Rightarrow> \<forall>a. GetRawOps c' a = GetRawOps c a \<or> a = root \<and> GetRawOps c' a = None
      | Inr (r, ops) \<Rightarrow> \<forall>a. GetRawOps c' a = (if a = root then Some ops else GetRawOps c a))"
proof (cases subtable)
  case None
  then show ?thesis using idle by (simp add: TranslateSubtable_def Let_def)
next
  case (Some s)
  show ?thesis
  proof (cases "Address_Validate \<sigma> (lc_Instruction (ti_Lowering input))")
    case (Some e)
    then show ?thesis using idle \<open>subtable = Some s\<close> by (simp add: TranslateSubtable_def Let_def)
  next
    case None
    define input' where "input' = input\<lparr>ti_Lowering := normalizeTranslationLowering \<sigma> (ti_Lowering input)\<rparr>"
    let ?addr = "lc_Instruction (ti_Lowering input')"
    have root: "Address_Validate \<sigma> (lc_RootInstruction (ti_Lowering input')) = None"
      using None by (simp add: input'_def normalizeTranslationLowering_def)
    obtain p w1 where obt: "obtainTranslate fu \<sigma> s input' ?addr w = (p, w1)" by fastforce
    have w1: "contexts_only (bw_cache w) (bw_cache w1)" using obtain_beside [of w fu \<sigma> s input' ?addr] by (simp add: obt beside_def)
    note unfold = TranslateSubtable_def \<open>subtable = Some s\<close> None Let_def input'_def [symmetric]
    show ?thesis
    proof (cases "checkInstructionAlignment ?addr (effectiveAlignment (ti_Alignment input'))")
      case False
      then have "TranslateSubtable fu \<sigma> subtable input w = (Inl ErrMisaligned, w)" by (simp add: unfold)
      then show ?thesis using idle by (simp add: Let_def)
    next
      case True
      show ?thesis
      proof (cases p)
        case (Inl e)
        then have "TranslateSubtable fu \<sigma> subtable input w = (Inl e, w1)" using True obt by (simp add: unfold)
        then show ?thesis using idle w1 by (simp add: Let_def contexts_only_def GetRawOps_def)
      next
        case (Inr r)
        define w2 where "w2 = w1\<lparr>bw_cache := (bw_cache w1)\<lparr>dc_pinnedCtx := Some r\<rparr>\<rparr>"
        obtain res w3 where pinned: "translatePinned fu \<sigma> s input' r w2 = (res, w3)" by fastforce
        have eq: "TranslateSubtable fu \<sigma> subtable input w = (case res of Inl e \<Rightarrow> Inl e | Inr ops \<Rightarrow> Inr (r, ops),
            w3\<lparr>bw_cache := (bw_cache w3)\<lparr>dc_pinnedCtx := dc_pinnedCtx (bw_cache w1)\<rparr>\<rparr>)"
          using True obt Inr pinned by (simp add: unfold PinContext_def UnpinContext_def w2_def)
        have "\<not> dc_rawBuildActive (bw_cache w2)" using w1 idle by (simp add: w2_def contexts_only_def)
        then have "atomic (lc_RootInstruction (ti_Lowering input')) (bw_cache w2) (res, bw_cache w3)"
          by (rule translatePinned_atomic [OF root _ pinned])
        then show ?thesis unfolding eq using w1
          by (cases res) (auto simp: Let_def atomic_def w2_def contexts_only_def GetRawOps_def input'_def)
      qed
    qed
  qed
qed

lemma TranslateSubtable_all_or_nothing_witness:
  "case TranslateSubtable nop_fuels nop_spaces (Some nop_subtable) nop_input nop_world of (res, w') \<Rightarrow>
     res = Inr (0, []) \<and> \<not> dc_rawBuildActive (bw_cache w') \<and> GetRawOps (bw_cache w') nop_address = Some []
     \<and> GetRawOps (bw_cache w') invalidAddress = None"
proof -
  have "\<not> dc_rawBuildActive (bw_cache nop_world)" "\<And>a. GetRawOps (bw_cache nop_world) a = None"
    by (simp_all add: nop_world_def emptyDisassemblyCache_def GetRawOps_def)
  moreover have "lc_RootInstruction (normalizeTranslationLowering nop_spaces (ti_Lowering nop_input)) = nop_address"
    by (simp add: normalizeTranslationLowering_def nop_input_def)
  moreover have "nop_address \<noteq> invalidAddress" by (simp add: nop_address_def invalidAddress_def)
  ultimately show ?thesis
    using TranslateSubtable_all_or_nothing [where w = nop_world and fu = nop_fuels and \<sigma> = nop_spaces and subtable = "Some nop_subtable"
      and input = nop_input] nop_run
    by (auto simp: Let_def split: prod.splits)
qed

end
